(* ===== verification/Prelude.thy ===== *)
theory Prelude
  imports Main "HOL-Library.Word" "HOL-Library.Monad_Syntax"
begin

text \<open>
  What every component of libmnlxt shares: the C integer types, \<open>errno\<close>, the property flag
  macros of include/private/internal.h, the two loops over the property bits that each
  \<^verbatim>\<open>*_compare\<close> and each \<^verbatim>\<open>*_put\<close> function runs, and the lemmas about them.

  Conventions of the whole development. A C function that returns an \<open>int\<close> and may set
  \<open>errno\<close> takes the value of \<open>errno\<close> before the call as its last argument and
  returns the new one as the last component of its result. A pointer argument that the code compares
  with NULL is an option (\<open>None\<close> is NULL), and so is the object that it points to after the
  call. A plain out parameter is passed as the content of the caller's cell and returned with the
  content after the call.
\<close>

unbundle bit_operations_syntax

text \<open>
  The definitions of the setters that only store one value through the table of members of their object. Each object
  module adds its own.
\<close>

named_theorems setter_defs

section \<open>C integers and errno\<close>

type_synonym u8 = "8 word"
type_synonym u16 = "16 word"
type_synonym u32 = "32 word"
type_synonym u64 = "64 word"
type_synonym errno = int

text \<open>The Linux values of the error codes and address families that the code names.\<close>

abbreviation EINTR :: errno where "EINTR \<equiv> 4"
abbreviation EAGAIN :: errno where "EAGAIN \<equiv> 11"
abbreviation EWOULDBLOCK :: errno where "EWOULDBLOCK \<equiv> 11"
abbreviation ENOMEM :: errno where "ENOMEM \<equiv> 12"
abbreviation EINVAL :: errno where "EINVAL \<equiv> 22"
abbreviation EBADMSG :: errno where "EBADMSG \<equiv> 74"
abbreviation EAFNOSUPPORT :: errno where "EAFNOSUPPORT \<equiv> 97"

abbreviation AF_UNSPEC :: u8 where "AF_UNSPEC \<equiv> 0"
abbreviation AF_INET :: u8 where "AF_INET \<equiv> 2"
abbreviation AF_INET6 :: u8 where "AF_INET6 \<equiv> 10"
abbreviation AF_PACKET :: u8 where "AF_PACKET \<equiv> 17"

text \<open>
  A value that \<open>memcpy\<close> moves between a caller's variable and a struct member, with the
  width of its C type: \<open>Mac\<close> is the six byte array of a hardware address, \<open>U32x2\<close> a
  struct of two 32 bit members. The width determines the constructor.
\<close>

type_synonym mnlxt_eth_addr_t = "u8 \<times> u8 \<times> u8 \<times> u8 \<times> u8 \<times> u8"

datatype cval = U8 u8 | U16 u16 | U32 u32 | Mac mnlxt_eth_addr_t | U32x2 u32 u32

fun csize :: "cval \<Rightarrow> nat" where
  "csize (U8 _) = 1"
| "csize (U16 _) = 2"
| "csize (U32 _) = 4"
| "csize (Mac _) = 6"
| "csize (U32x2 _ _) = 8"

fun un_U8 :: "cval \<Rightarrow> u8" where
  "un_U8 (U8 x) = x"
| "un_U8 _ = 0"

fun un_U16 :: "cval \<Rightarrow> u16" where
  "un_U16 (U16 x) = x"
| "un_U16 _ = 0"

fun un_U32 :: "cval \<Rightarrow> u32" where
  "un_U32 (U32 x) = x"
| "un_U32 _ = 0"

fun un_Mac :: "cval \<Rightarrow> mnlxt_eth_addr_t" where
  "un_Mac (Mac m) = m"
| "un_Mac _ = (0, 0, 0, 0, 0, 0)"

lemma csize_pos [simp]: "0 < csize v"
  by (cases v) auto

lemma csize_nonzero [simp]: "csize v \<noteq> 0" "0 \<noteq> csize v"
  using csize_pos [of v] by simp_all

lemma csize_eq [simp]:
  "(csize v = 1 \<longleftrightarrow> (\<exists>x. v = U8 x)) \<and> (csize v = Suc 0 \<longleftrightarrow> (\<exists>x. v = U8 x)) \<and>
   (csize v = 2 \<longleftrightarrow> (\<exists>x. v = U16 x)) \<and> (csize v = 4 \<longleftrightarrow> (\<exists>x. v = U32 x)) \<and>
   (csize v = 6 \<longleftrightarrow> (\<exists>x. v = Mac x)) \<and> (csize v = 8 \<longleftrightarrow> (\<exists>x y. v = U32x2 x y))"
  by (cases v) auto

lemma csize_eq_flip [simp]:
  "(1 = csize v \<longleftrightarrow> (\<exists>x. v = U8 x)) \<and> (Suc 0 = csize v \<longleftrightarrow> (\<exists>x. v = U8 x)) \<and>
   (2 = csize v \<longleftrightarrow> (\<exists>x. v = U16 x)) \<and> (4 = csize v \<longleftrightarrow> (\<exists>x. v = U32 x)) \<and>
   (6 = csize v \<longleftrightarrow> (\<exists>x. v = Mac x)) \<and> (8 = csize v \<longleftrightarrow> (\<exists>x y. v = U32x2 x y))"
  by (cases v) auto

section \<open>Property flags (include/private/internal.h)\<close>

definition MNLXT_FLAG :: "nat \<Rightarrow> 'w::len word" where
  "MNLXT_FLAG b = push_bit b 1"

text \<open>The result of \<open>MNLXT_GET_PROP_FLAG\<close>, used by the code as a truth value.\<close>

definition get_prop_flag :: "'w::len word \<Rightarrow> nat \<Rightarrow> bool" where
  "get_prop_flag flags b = (flags AND MNLXT_FLAG b \<noteq> 0)"

definition set_prop_flag :: "'w::len word \<Rightarrow> nat \<Rightarrow> 'w word" where
  "set_prop_flag flags b = flags OR MNLXT_FLAG b"

definition unset_prop_flag :: "'w::len word \<Rightarrow> nat \<Rightarrow> 'w word" where
  "unset_prop_flag flags b = flags AND NOT (MNLXT_FLAG b)"

lemma MNLXT_FLAG_eq_exp: "MNLXT_FLAG b = 2 ^ b"
  by (simp add: MNLXT_FLAG_def push_bit_of_1)

lemma and_MNLXT_FLAG [simp]: "(flags :: 'w::len word) AND MNLXT_FLAG b = 0 \<longleftrightarrow> \<not> bit flags b"
  by (simp add: MNLXT_FLAG_eq_exp and_exp_eq_0_iff_not_bit)

lemma get_prop_flag_bit [simp]: "get_prop_flag flags b = bit flags b"
  by (simp add: get_prop_flag_def MNLXT_FLAG_eq_exp and_exp_eq_0_iff_not_bit)

lemma bit_set_prop_flag [simp]:
  fixes flags :: "'w::len word"
  shows "bit (set_prop_flag flags b) i \<longleftrightarrow> bit flags i \<or> (i = b \<and> b < LENGTH('w))"
  by (auto simp: set_prop_flag_def MNLXT_FLAG_eq_exp bit_or_iff bit_exp_iff)

lemma set_prop_flag_idem: "bit flags b \<Longrightarrow> set_prop_flag flags b = flags"
  by (rule bit_word_eqI) auto

lemma bit_unset_prop_flag [simp]:
  fixes flags :: "'w::len word"
  shows "bit (unset_prop_flag flags b) i \<longleftrightarrow> bit flags i \<and> i \<noteq> b"
  by (auto simp: unset_prop_flag_def MNLXT_FLAG_eq_exp bit_and_iff bit_not_iff bit_exp_iff
      dest: bit_imp_le_length)

section \<open>The loops over the property bits\<close>

text \<open>
  \<^verbatim>\<open>for (i = 0; i < MAX; ++i, flag <<= 1)\<close> as every \<open>*_compare\<close>
  function runs it, with its \<open>continue\<close> and \<open>goto failed\<close>; the result is
  \<open>0\<close> or the \<open>++i\<close> of the failed index. \<open>cmp\<close> is the module's own comparison
  of one property.
\<close>

function cmp_loop ::
  "nat \<Rightarrow> 'w::len word \<Rightarrow> 'w word \<Rightarrow> 'w word \<Rightarrow> (nat \<Rightarrow> int) \<Rightarrow> nat \<Rightarrow> 'w word \<Rightarrow> int" where
  "cmp_loop mx flt flags1 flags2 cmp i flag =
     (if i < mx then
        if flag AND flt = 0 then cmp_loop mx flt flags1 flags2 cmp (i + 1) (push_bit 1 flag)
        else if flags1 AND flag = 0 then
          if flags2 AND flag = 0 then
            cmp_loop mx flt flags1 flags2 cmp (i + 1) (push_bit 1 flag)
          else int i + 1
        else if flags2 AND flag = 0 then int i + 1
        else if cmp i \<noteq> 0 then int i + 1
        else cmp_loop mx flt flags1 flags2 cmp (i + 1) (push_bit 1 flag)
      else 0)"
  by pat_completeness auto
termination
  by (relation "measure (\<lambda>(mx, flt, flags1, flags2, cmp, i, flag). mx - i)") auto

declare cmp_loop.simps [simp del]

text \<open>
  The same loop for the modules whose comparison reads strings through pointers: \<open>None\<close> is a
  read through a NULL or dangling pointer.
\<close>

function cmp_loop_m ::
  "nat \<Rightarrow> 'w::len word \<Rightarrow> 'w word \<Rightarrow> 'w word \<Rightarrow> (nat \<Rightarrow> int option) \<Rightarrow> nat \<Rightarrow> 'w word \<Rightarrow> int option" where
  "cmp_loop_m mx flt flags1 flags2 cmp i flag =
     (if i < mx then
        if flag AND flt = 0 then cmp_loop_m mx flt flags1 flags2 cmp (i + 1) (push_bit 1 flag)
        else if flags1 AND flag = 0 then
          if flags2 AND flag = 0 then
            cmp_loop_m mx flt flags1 flags2 cmp (i + 1) (push_bit 1 flag)
          else Some (int i + 1)
        else if flags2 AND flag = 0 then Some (int i + 1)
        else
          (case cmp i of None \<Rightarrow> None
           | Some c \<Rightarrow>
               if c \<noteq> 0 then Some (int i + 1)
               else cmp_loop_m mx flt flags1 flags2 cmp (i + 1) (push_bit 1 flag))
      else Some 0)"
  by pat_completeness auto
termination
  by (relation "measure (\<lambda>(mx, flt, flags1, flags2, cmp, i, flag). mx - i)") auto

declare cmp_loop_m.simps [simp del]

text \<open>
  The loop of every \<open>*_put\<close> function: the body \<open>put i\<close> runs for each set bit, in
  ascending order, on the message under construction.
\<close>

function put_loop ::
  "nat \<Rightarrow> 'w::len word \<Rightarrow> (nat \<Rightarrow> 'b \<Rightarrow> 'b) \<Rightarrow> nat \<Rightarrow> 'w word \<Rightarrow> 'b \<Rightarrow> 'b" where
  "put_loop mx flags put i flag msg =
     (if i < mx then
        put_loop mx flags put (i + 1) (push_bit 1 flag)
          (if flags AND flag \<noteq> 0 then put i msg else msg)
      else msg)"
  by pat_completeness auto
termination
  by (relation "measure (\<lambda>(mx, flags, put, i, flag, msg). mx - i)") auto

declare put_loop.simps [simp del]

text \<open>What one index of the comparison loop decides, as a predicate on the two flag words.\<close>

definition prop_differs ::
  "'w::len word \<Rightarrow> 'w word \<Rightarrow> 'w word \<Rightarrow> (nat \<Rightarrow> int) \<Rightarrow> nat \<Rightarrow> bool" where
  "prop_differs flt flags1 flags2 cmp i \<longleftrightarrow>
     bit flt i \<and> (bit flags1 i \<noteq> bit flags2 i \<or> bit flags1 i \<and> bit flags2 i \<and> cmp i \<noteq> 0)"

lemma push_bit_1_exp: "push_bit 1 (2 ^ i) = (2 ^ i * 2 :: 'w::len word)"
  by (simp add: push_bit_eq_mult)

lemma and_flag_eq_0 [simp]:
  fixes w :: "'w::len word"
  shows "w AND 2 ^ i = 0 \<longleftrightarrow> \<not> bit w i" and "2 ^ i AND w = 0 \<longleftrightarrow> \<not> bit w i"
  by (simp_all add: and_exp_eq_0_iff_not_bit and.commute)

lemma cmp_loop_find:
  "cmp_loop mx flt flags1 flags2 cmp i (2 ^ i) =
     (case find (prop_differs flt flags1 flags2 cmp) [i..<mx] of
        None \<Rightarrow> 0 | Some j \<Rightarrow> int j + 1)"
proof (induction "mx - i" arbitrary: i)
  case 0
  then show ?case by (subst cmp_loop.simps) simp
next
  case (Suc n)
  then have lt: "i < mx" and d: "n = mx - Suc i" by simp_all
  from Suc.hyps(1) [OF d]
  have IH: "cmp_loop mx flt flags1 flags2 cmp (Suc i) (2 ^ i * 2) =
      (case find (prop_differs flt flags1 flags2 cmp) [Suc i..<mx] of
         None \<Rightarrow> 0 | Some j \<Rightarrow> int j + 1)"
    by (simp add: mult.commute)
  show ?case
    unfolding upt_conv_Cons [OF lt]
    by (subst cmp_loop.simps) (simp add: lt push_bit_1_exp IH prop_differs_def)
qed

lemma cmp_loop_m_defined:
  assumes "\<And>j. i \<le> j \<Longrightarrow> j < mx \<Longrightarrow> bit flt j \<Longrightarrow> bit flags1 j \<Longrightarrow> bit flags2 j \<Longrightarrow> cmp j = Some (c j)"
  shows "cmp_loop_m mx flt flags1 flags2 cmp i (2 ^ i) = Some (cmp_loop mx flt flags1 flags2 c i (2 ^ i))"
  using assms
proof (induction "mx - i" arbitrary: i)
  case 0
  then show ?case by (subst cmp_loop_m.simps, subst cmp_loop.simps) simp
next
  case (Suc n)
  then have lt: "i < mx" and d: "n = mx - Suc i" by simp_all
  have IH: "cmp_loop_m mx flt flags1 flags2 cmp (Suc i) (2 ^ i * 2) =
      Some (cmp_loop mx flt flags1 flags2 c (Suc i) (2 ^ i * 2))"
    using Suc.hyps(1) [OF d] Suc.prems by (simp add: mult.commute)
  have now: "bit flt i \<Longrightarrow> bit flags1 i \<Longrightarrow> bit flags2 i \<Longrightarrow> cmp i = Some (c i)"
    using Suc.prems lt by simp
  show ?case
    by (subst cmp_loop_m.simps, subst cmp_loop.simps) (simp add: lt push_bit_1_exp IH now)
qed

lemma cmp_loop_m_mono:
  assumes "\<And>j c. cmp j = Some c \<Longrightarrow> cmp' j = Some c"
    and "cmp_loop_m mx flt flags1 flags2 cmp i flag = Some r"
  shows "cmp_loop_m mx flt flags1 flags2 cmp' i flag = Some r"
  using assms(2)
proof (induction "mx - i" arbitrary: i flag)
  case 0
  then show ?case by (simp add: cmp_loop_m.simps)
next
  case (Suc n)
  then have lt: "i < mx" and d: "n = mx - (i + 1)" by simp_all
  note IH = Suc.hyps(1) [OF d, of "push_bit 1 flag"]
  show ?case
  proof (cases "flag AND flt = 0 \<or> flags1 AND flag = 0 \<or> flags2 AND flag = 0")
    case True
    with Suc.prems lt IH show ?thesis
      unfolding cmp_loop_m.simps [of _ _ _ _ _ i] by (simp split: if_splits)
  next
    case False
    with Suc.prems lt obtain c where c: "cmp i = Some c"
      unfolding cmp_loop_m.simps [of _ _ _ _ _ i] by (simp split: option.splits)
    with False Suc.prems lt IH assms(1) [OF c] show ?thesis
      unfolding cmp_loop_m.simps [of _ _ _ _ _ i] by (simp split: if_splits)
  qed
qed

lemma find_upt_least:
  "find P [i..<n] = Some j \<longleftrightarrow> i \<le> j \<and> j < n \<and> P j \<and> (\<forall>k. i \<le> k \<and> k < j \<longrightarrow> \<not> P k)"
proof (induction "n - i" arbitrary: i)
  case 0
  then show ?case by auto
next
  case (Suc d)
  then have lt: "i < n" and IH: "find P [Suc i..<n] = Some j \<longleftrightarrow>
      Suc i \<le> j \<and> j < n \<and> P j \<and> (\<forall>k. Suc i \<le> k \<and> k < j \<longrightarrow> \<not> P k)"
    by simp_all
  have e: "i \<le> k \<longleftrightarrow> k = i \<or> Suc i \<le> k" for k by auto
  have split: "(\<forall>k. i \<le> k \<and> k < j \<longrightarrow> \<not> P k) \<longleftrightarrow>
      (i < j \<longrightarrow> \<not> P i) \<and> (\<forall>k. Suc i \<le> k \<and> k < j \<longrightarrow> \<not> P k)"
    unfolding e by auto
  show ?case
    unfolding upt_conv_Cons [OF lt] using lt IH split
    by (cases "P i") (auto simp: Suc_le_eq le_less)
qed

lemma cmp_loop_eq_0:
  "cmp_loop mx flt flags1 flags2 cmp 0 1 = 0 \<longleftrightarrow>
     (\<forall>i < mx. \<not> prop_differs flt flags1 flags2 cmp i)"
  using cmp_loop_find [of mx flt flags1 flags2 cmp 0]
  by (auto simp: find_None_iff find_upt_least split: option.splits)

lemma cmp_loop_eq_Suc:
  "cmp_loop mx flt flags1 flags2 cmp 0 1 = int j + 1 \<longleftrightarrow>
     j < mx \<and> prop_differs flt flags1 flags2 cmp j \<and>
     (\<forall>k < j. \<not> prop_differs flt flags1 flags2 cmp k)"
proof -
  have "cmp_loop mx flt flags1 flags2 cmp 0 1 = int j + 1 \<longleftrightarrow>
      find (prop_differs flt flags1 flags2 cmp) [0..<mx] = Some j"
    using cmp_loop_find [of mx flt flags1 flags2 cmp 0]
    by (cases "find (prop_differs flt flags1 flags2 cmp) [0..<mx]") simp_all
  then show ?thesis by (simp add: find_upt_least)
qed

lemma cmp_loop_range: "0 \<le> cmp_loop mx flt flags1 flags2 cmp 0 1"
  using cmp_loop_find [of mx flt flags1 flags2 cmp 0] by (auto split: option.splits)

lemma put_loop_fold:
  "put_loop mx flags put i (2 ^ i) msg =
     fold (\<lambda>j m. if bit flags j then put j m else m) [i..<mx] msg"
proof (induction "mx - i" arbitrary: i msg)
  case 0
  then show ?case by (subst put_loop.simps) simp
next
  case (Suc n)
  then have lt: "i < mx" and d: "n = mx - Suc i" by simp_all
  from Suc.hyps(1) [OF d]
  have IH: "put_loop mx flags put (Suc i) (2 ^ i * 2) m =
      fold (\<lambda>j m. if bit flags j then put j m else m) [Suc i..<mx] m" for m
    by (simp add: mult.commute)
  show ?case
    unfolding upt_conv_Cons [OF lt]
    by (subst put_loop.simps) (simp add: lt push_bit_1_exp IH)
qed

lemma put_loop_eq_fold:
  "put_loop mx flags put 0 1 msg =
     fold (\<lambda>j m. if bit flags j then put j m else m) [0..<mx] msg"
  using put_loop_fold [of mx flags put 0 msg] by simp

text \<open>A fold seen through a function that commutes with its steps.\<close>

lemma fold_view:
  "(\<And>i b. i \<in> set is \<Longrightarrow> view (f i b) = g i (view b)) \<Longrightarrow> view (fold f is b) = fold g is (view b)"
  by (induction "is" arbitrary: b) simp_all

lemma fold_append_concat: "fold (\<lambda>i as. as @ k i) is as0 = as0 @ concat (map k is)"
  by (induction "is" arbitrary: as0) simp_all

end
