(* ===== verification/Props.thy ===== *)
theory Props
  imports Prelude
begin

text \<open>
  The two contracts that all five property objects of libmnlxt (route, rule, address, link, xfrm
  policy) share, as locales. \<open>prop_object\<close>: the pair \<open>*_set_ptr\<close>/\<open>*_get_ptr\<close>
  implements a partial map from property numbers to values. \<open>prop_compare\<close> and its
  extension \<open>prop_match\<close>: what \<open>*_compare\<close> and \<open>*_match\<close> decide. Each module
  interprets them on its own functions; the lemmas here are proved once.
\<close>

section \<open>Property objects are partial maps\<close>

text \<open>A sequence of \<open>*_set_ptr\<close> calls on one object.\<close>

fun set_all ::
  "('o option \<Rightarrow> nat \<Rightarrow> cval \<Rightarrow> errno \<Rightarrow> int \<times> 'o option \<times> errno) \<Rightarrow>
   (nat \<times> cval) list \<Rightarrow> 'o option \<Rightarrow> errno \<Rightarrow> 'o option \<times> errno" where
  "set_all setp [] p e = (p, e)"
| "set_all setp ((i, v) # ws) p e = (case setp p i v e of (rc, p', e') \<Rightarrow> set_all setp ws p' e')"

text \<open>What a sequence of writes amounts to: the last accepted value of each property.\<close>

fun written :: "(nat \<Rightarrow> nat) \<Rightarrow> (nat \<times> cval) list \<Rightarrow> (nat \<rightharpoonup> cval) \<Rightarrow> (nat \<rightharpoonup> cval)" where
  "written sz [] m = m"
| "written sz ((i, v) # ws) m = written sz ws (if sz i = csize v then m(i \<mapsto> v) else m)"

locale prop_object =
  fixes setp :: "'o option \<Rightarrow> nat \<Rightarrow> cval \<Rightarrow> errno \<Rightarrow> int \<times> 'o option \<times> errno"
    and getp :: "'o option \<Rightarrow> nat \<Rightarrow> cval \<Rightarrow> errno \<Rightarrow> int \<times> cval \<times> errno"
    and absm :: "'o \<Rightarrow> (nat \<rightharpoonup> cval)"
    and sz :: "nat \<Rightarrow> nat"
  assumes set_ok: "sz i = csize v \<Longrightarrow>
      \<exists>ob'. setp (Some ob) i v e = (0, Some ob', e) \<and> absm ob' = (absm ob)(i \<mapsto> v)"
    and set_bad: "sz i \<noteq> csize v \<Longrightarrow> setp (Some ob) i v e = (- 1, Some ob, EINVAL)"
    and set_null: "setp None i v e = (- 1, None, EINVAL)"
    and get_ok: "sz i = csize c \<Longrightarrow>
      getp (Some ob) i c e = (case absm ob i of None \<Rightarrow> (1, c, e) | Some v \<Rightarrow> (0, v, e))"
    and get_bad: "sz i \<noteq> csize c \<Longrightarrow> getp (Some ob) i c e = (- 1, c, EINVAL)"
    and get_null: "getp None i c e = (- 1, c, EINVAL)"
begin

lemma get_after_set:
  assumes "sz i = csize v" "sz i = csize c" "setp (Some ob) i v e = (rc, Some ob', e')"
  shows "getp (Some ob') i c e'' = (0, v, e'')"
  using set_ok [OF assms(1), of ob e] assms(3) get_ok [OF assms(2), of ob'] by auto

lemma get_other_after_set:
  assumes "i \<noteq> j" "setp (Some ob) i v e = (rc, Some ob', e')"
  shows "getp (Some ob') j c e'' = getp (Some ob) j c e''"
proof (cases "sz i = csize v")
  case True
  from set_ok [OF this, of ob e] assms(2) have "absm ob' = (absm ob)(i \<mapsto> v)" by auto
  with assms(1) show ?thesis
    by (cases "sz j = csize c") (simp_all add: get_ok get_bad)
next
  case False
  with set_bad [OF this, of ob e] assms(2) show ?thesis by simp
qed

lemma set_never_null: "\<exists>rc ob' e'. setp (Some ob) i v e = (rc, Some ob', e')"
  using set_ok [of i v ob e] set_bad [of i v ob e] by (cases "sz i = csize v") auto

lemma set_absm:
  "setp (Some ob) i v e = (rc, Some ob', e') \<Longrightarrow>
     absm ob' = (if sz i = csize v then (absm ob)(i \<mapsto> v) else absm ob)"
  using set_ok [of i v ob e] set_bad [of i v ob e] by (cases "sz i = csize v") auto

lemma set_all_absm:
  "set_all setp ws (Some ob) e = (p, e') \<Longrightarrow>
     \<exists>ob'. p = Some ob' \<and> absm ob' = written sz ws (absm ob)"
proof (induction ws arbitrary: ob e)
  case Nil
  then show ?case by auto
next
  case (Cons w ws)
  obtain i v where w: "w = (i, v)" by (cases w)
  obtain rc ob1 e1 where s: "setp (Some ob) i v e = (rc, Some ob1, e1)"
    using set_never_null by blast
  from Cons.prems have "set_all setp ws (Some ob1) e1 = (p, e')" by (simp add: w s)
  from Cons.IH [OF this] show ?case by (simp add: w set_absm [OF s])
qed

lemma get_after_set_all:
  assumes "set_all setp ws (Some ob) e = (p, e')" "sz i = csize c"
  shows "getp p i c e'' =
    (case written sz ws (absm ob) i of None \<Rightarrow> (1, c, e'') | Some v \<Rightarrow> (0, v, e''))"
  using set_all_absm [OF assms(1)] by (auto simp: get_ok [OF assms(2)])

end

section \<open>Comparison of property objects\<close>

text \<open>
  Two objects agree on the properties selected by a filter: each selected property is set on
  both or on neither, and where both have it the module's comparison finds no difference.
\<close>

definition agree_on ::
  "nat \<Rightarrow> u64 \<Rightarrow> (nat \<Rightarrow> bool) \<Rightarrow> (nat \<Rightarrow> bool) \<Rightarrow> (nat \<Rightarrow> bool) \<Rightarrow> bool" where
  "agree_on mx flt has1 has2 same \<longleftrightarrow>
     (\<forall>i < mx. bit flt i \<longrightarrow> (has1 i \<longleftrightarrow> has2 i) \<and> (has1 i \<longrightarrow> same i))"

locale prop_compare =
  fixes ok :: "'o \<Rightarrow> bool"
    and comp :: "'o option \<Rightarrow> 'o option \<Rightarrow> u64 \<Rightarrow> errno \<Rightarrow> int \<times> errno"
    and cmp :: "'o \<Rightarrow> 'o \<Rightarrow> nat \<Rightarrow> int"
    and flags :: "'o \<Rightarrow> 'w::len word"
    and mx :: nat
  assumes comp_some: "ok x \<Longrightarrow> ok y \<Longrightarrow> comp (Some x) (Some y) flt e =
      (cmp_loop mx flt (ucast (flags x)) (ucast (flags y)) (cmp x y) 0 1, e)"
    and comp_null: "p = None \<or> q = None \<Longrightarrow> comp p q flt e = (- 1, EINVAL)"
    and width: "LENGTH('w) \<le> 64"
begin

lemma differs_iff:
  "prop_differs flt (ucast (flags x) :: u64) (ucast (flags y)) (cmp x y) i \<longleftrightarrow>
     bit flt i \<and> (bit (flags x) i \<noteq> bit (flags y) i \<or>
       bit (flags x) i \<and> bit (flags y) i \<and> cmp x y i \<noteq> 0)"
  using bit_imp_le_length [of flt i] by (auto simp: prop_differs_def bit_ucast_iff)

lemma compare_zero_iff:
  "ok x \<Longrightarrow> ok y \<Longrightarrow> comp (Some x) (Some y) flt e = (0, e) \<longleftrightarrow>
     agree_on mx flt (bit (flags x)) (bit (flags y)) (\<lambda>i. cmp x y i = 0)"
  by (auto simp: comp_some cmp_loop_eq_0 differs_iff agree_on_def)

lemma compare_first_difference:
  "ok x \<Longrightarrow> ok y \<Longrightarrow> comp (Some x) (Some y) flt e = (int j + 1, e) \<longleftrightarrow>
     j < mx \<and> prop_differs flt (ucast (flags x)) (ucast (flags y)) (cmp x y) j \<and>
     agree_on j flt (bit (flags x)) (bit (flags y)) (\<lambda>i. cmp x y i = 0)"
  by (auto simp: comp_some cmp_loop_eq_Suc differs_iff agree_on_def)

lemma compare_refl:
  assumes "ok x" and "\<And>i. i < mx \<Longrightarrow> bit (flags x) i \<Longrightarrow> cmp x x i = 0"
  shows "comp (Some x) (Some x) flt e = (0, e)"
  using assms by (simp add: compare_zero_iff agree_on_def)

lemma compare_sym:
  assumes ok: "ok x" "ok y" and "\<And>i. i < mx \<Longrightarrow> bit flt i \<Longrightarrow> bit (flags x) i \<Longrightarrow> bit (flags y) i \<Longrightarrow>
      cmp x y i = 0 \<Longrightarrow> cmp y x i = 0"
    and "comp (Some x) (Some y) flt e = (0, e)"
  shows "comp (Some y) (Some x) flt e = (0, e)"
  using assms unfolding compare_zero_iff [OF ok] compare_zero_iff [OF ok(2,1)] agree_on_def by blast

lemma compare_trans:
  assumes ok: "ok x" "ok y" "ok z" and "\<And>i. i < mx \<Longrightarrow> bit flt i \<Longrightarrow> bit (flags x) i \<Longrightarrow> cmp x y i = 0 \<Longrightarrow> cmp y z i = 0 \<Longrightarrow>
      cmp x z i = 0"
    and "comp (Some x) (Some y) flt e = (0, e)" "comp (Some y) (Some z) flt e = (0, e)"
  shows "comp (Some x) (Some z) flt e = (0, e)"
  using assms
  unfolding compare_zero_iff [OF ok(1,2)] compare_zero_iff [OF ok(2,3)] compare_zero_iff [OF ok(1,3)] agree_on_def
  by blast

lemma compare_nonneg: "ok x \<Longrightarrow> ok y \<Longrightarrow> 0 \<le> fst (comp (Some x) (Some y) flt e)"
  by (simp add: comp_some cmp_loop_range)

end

locale prop_match = prop_compare +
  fixes mtch :: "'o option \<Rightarrow> 'o option \<Rightarrow> errno \<Rightarrow> int \<times> errno"
  assumes mtch_some: "mtch p (Some m) e = comp p (Some m) (ucast (flags m)) e"
    and mtch_null: "mtch p None e = (- 1, EINVAL)"
begin

lemma match_zero_iff:
  assumes "ok x" "ok m"
  shows "mtch (Some x) (Some m) e = (0, e) \<longleftrightarrow>
     (\<forall>i < mx. bit (flags m) i \<longrightarrow> bit (flags x) i \<and> cmp x m i = 0)"
proof -
  have "bit (ucast (flags m) :: u64) i = bit (flags m) i" for i
    using width by (auto simp: bit_ucast_iff dest: bit_imp_le_length)
  then show ?thesis using assms by (auto simp: mtch_some compare_zero_iff agree_on_def)
qed

end

end
