(* ===== verification/Inet.thy ===== *)
theory Inet
  imports Prelude
begin

text \<open>
  The union \<open>mnlxt_inet_addr_t\<close> of include/libmnlxt/rt_addr.h as its sixteen bytes: an IPv6
  address uses all of them, an IPv4 address (the member \<open>in\<close>) the first four.
\<close>

type_synonym mnlxt_inet_addr_t = "u8 list"

definition inet_zero :: mnlxt_inet_addr_t where
  "inet_zero = replicate 16 0"

definition inet_ok :: "mnlxt_inet_addr_t \<Rightarrow> bool" where
  "inet_ok a \<longleftrightarrow> length a = 16"

text \<open>\<open>INADDR_ANY == buf->in.s_addr\<close> and \<open>IN6_IS_ADDR_UNSPECIFIED(&buf->in6)\<close>.\<close>

definition in_addr_any :: "mnlxt_inet_addr_t \<Rightarrow> bool" where
  "in_addr_any a \<longleftrightarrow> list_all (\<lambda>b. b = 0) (take 4 a)"

definition in6_unspecified :: "mnlxt_inet_addr_t \<Rightarrow> bool" where
  "in6_unspecified a \<longleftrightarrow> list_all (\<lambda>b. b = 0) (take 16 a)"

text \<open>The assignment \<open>dst.in.s_addr = src.in.s_addr\<close>: four bytes of the union.\<close>

definition set_in :: "mnlxt_inet_addr_t \<Rightarrow> mnlxt_inet_addr_t \<Rightarrow> mnlxt_inet_addr_t" where
  "set_in src dst = take 4 src @ drop 4 dst"

text \<open>\<open>AF_INET == family ? sizeof(x.in) : sizeof(x)\<close>, the width the code compares and sends.\<close>

definition inet_size :: "u8 \<Rightarrow> nat" where
  "inet_size family = (if AF_INET = family then 4 else 16)"

definition inet_memcmp :: "nat \<Rightarrow> mnlxt_inet_addr_t \<Rightarrow> mnlxt_inet_addr_t \<Rightarrow> bool" where
  "inet_memcmp n a b \<longleftrightarrow> take n a = take n b"

lemma inet_ok_zero [simp]: "inet_ok inet_zero"
  by (simp add: inet_ok_def inet_zero_def)

lemma inet_ok_set_in [simp]: "inet_ok a \<Longrightarrow> inet_ok b \<Longrightarrow> inet_ok (set_in a b)"
  by (simp add: inet_ok_def set_in_def)

lemma inet_memcmp_refl [simp]: "inet_memcmp n a a"
  by (simp add: inet_memcmp_def)

lemma inet_memcmp_sym: "inet_memcmp n a b \<Longrightarrow> inet_memcmp n b a"
  by (simp add: inet_memcmp_def)

lemma inet_memcmp_trans: "inet_memcmp n a b \<Longrightarrow> inet_memcmp n b c \<Longrightarrow> inet_memcmp n a c"
  by (simp add: inet_memcmp_def)

lemma inet_memcmp_full:
  "inet_ok a \<Longrightarrow> inet_ok b \<Longrightarrow> inet_memcmp 16 a b \<longleftrightarrow> a = b"
  by (simp add: inet_memcmp_def inet_ok_def)

end
