(* ===== verification/Route.thy ===== *)
theory Route
  imports Props Inet
begin

text \<open>
  src/rtnl/route.c with the enumeration and the struct of include/libmnlxt/rt_route.h: the route
  object, its access table, its setters and getters and its clone. The access table keeps the
  width of each member; the byte offset that the C table pairs with it is the member that
  \<open>route_store\<close> and \<open>route_load\<close> select. \<open>route_obj\<close> interprets the map contract
  of Props; \<open>route_api\<close> is one public setter call, \<open>route_inv\<close> what all calls keep.
\<close>

section \<open>The route object\<close>

abbreviation MNLXT_RT_ROUTE_FAMILY :: nat where "MNLXT_RT_ROUTE_FAMILY \<equiv> 0"
abbreviation MNLXT_RT_ROUTE_TYPE :: nat where "MNLXT_RT_ROUTE_TYPE \<equiv> 1"
abbreviation MNLXT_RT_ROUTE_TABLE :: nat where "MNLXT_RT_ROUTE_TABLE \<equiv> 2"
abbreviation MNLXT_RT_ROUTE_PROTOCOL :: nat where "MNLXT_RT_ROUTE_PROTOCOL \<equiv> 3"
abbreviation MNLXT_RT_ROUTE_SCOPE :: nat where "MNLXT_RT_ROUTE_SCOPE \<equiv> 4"
abbreviation MNLXT_RT_ROUTE_PRIORITY :: nat where "MNLXT_RT_ROUTE_PRIORITY \<equiv> 5"
abbreviation MNLXT_RT_ROUTE_IIFINDEX :: nat where "MNLXT_RT_ROUTE_IIFINDEX \<equiv> 6"
abbreviation MNLXT_RT_ROUTE_OIFINDEX :: nat where "MNLXT_RT_ROUTE_OIFINDEX \<equiv> 7"
abbreviation MNLXT_RT_ROUTE_SRC_PREFIX :: nat where "MNLXT_RT_ROUTE_SRC_PREFIX \<equiv> 8"
abbreviation MNLXT_RT_ROUTE_DST_PREFIX :: nat where "MNLXT_RT_ROUTE_DST_PREFIX \<equiv> 9"
abbreviation MNLXT_RT_ROUTE_SRC :: nat where "MNLXT_RT_ROUTE_SRC \<equiv> 10"
abbreviation MNLXT_RT_ROUTE_DST :: nat where "MNLXT_RT_ROUTE_DST \<equiv> 11"
abbreviation MNLXT_RT_ROUTE_GATEWAY :: nat where "MNLXT_RT_ROUTE_GATEWAY \<equiv> 12"
abbreviation MNLXT_RT_ROUTE_MAX :: nat where "MNLXT_RT_ROUTE_MAX \<equiv> MNLXT_RT_ROUTE_GATEWAY + 1"

record mnlxt_rt_route_t =
  route_prop_flags :: u32
  route_family :: u8
  route_table :: u8
  route_type :: u8
  route_protocol :: u8
  route_scope :: u8
  route_src_prefix :: u8
  route_dst_prefix :: u8
  route_padding :: u8
  route_priority :: u32
  route_iif_index :: u32
  route_oif_index :: u32
  route_src :: mnlxt_inet_addr_t
  route_dst :: mnlxt_inet_addr_t
  route_gateway :: mnlxt_inet_addr_t

text \<open>The object that \<open>calloc\<close> hands out: all bytes zero.\<close>

definition route_zero :: mnlxt_rt_route_t where
  "route_zero = \<lparr>route_prop_flags = 0, route_family = 0, route_table = 0, route_type = 0,
     route_protocol = 0, route_scope = 0, route_src_prefix = 0, route_dst_prefix = 0,
     route_padding = 0, route_priority = 0, route_iif_index = 0, route_oif_index = 0,
     route_src = inet_zero, route_dst = inet_zero, route_gateway = inet_zero\<rparr>"

definition route_data :: "nat \<Rightarrow> nat" where
  "route_data data =
     (if data = MNLXT_RT_ROUTE_FAMILY then 1
      else if data = MNLXT_RT_ROUTE_TYPE then 1
      else if data = MNLXT_RT_ROUTE_TABLE then 1
      else if data = MNLXT_RT_ROUTE_PROTOCOL then 1
      else if data = MNLXT_RT_ROUTE_SCOPE then 1
      else if data = MNLXT_RT_ROUTE_PRIORITY then 4
      else if data = MNLXT_RT_ROUTE_IIFINDEX then 4
      else if data = MNLXT_RT_ROUTE_OIFINDEX then 4
      else if data = MNLXT_RT_ROUTE_SRC_PREFIX then 1
      else if data = MNLXT_RT_ROUTE_DST_PREFIX then 1
      else 0)"

definition route_store :: "nat \<Rightarrow> cval \<Rightarrow> mnlxt_rt_route_t \<Rightarrow> mnlxt_rt_route_t" where
  "route_store data v ob =
     (if data = MNLXT_RT_ROUTE_FAMILY then ob\<lparr>route_family := un_U8 v\<rparr>
      else if data = MNLXT_RT_ROUTE_TYPE then ob\<lparr>route_type := un_U8 v\<rparr>
      else if data = MNLXT_RT_ROUTE_TABLE then ob\<lparr>route_table := un_U8 v\<rparr>
      else if data = MNLXT_RT_ROUTE_PROTOCOL then ob\<lparr>route_protocol := un_U8 v\<rparr>
      else if data = MNLXT_RT_ROUTE_SCOPE then ob\<lparr>route_scope := un_U8 v\<rparr>
      else if data = MNLXT_RT_ROUTE_PRIORITY then ob\<lparr>route_priority := un_U32 v\<rparr>
      else if data = MNLXT_RT_ROUTE_IIFINDEX then ob\<lparr>route_iif_index := un_U32 v\<rparr>
      else if data = MNLXT_RT_ROUTE_OIFINDEX then ob\<lparr>route_oif_index := un_U32 v\<rparr>
      else if data = MNLXT_RT_ROUTE_SRC_PREFIX then ob\<lparr>route_src_prefix := un_U8 v\<rparr>
      else if data = MNLXT_RT_ROUTE_DST_PREFIX then ob\<lparr>route_dst_prefix := un_U8 v\<rparr>
      else ob)"

definition route_load :: "nat \<Rightarrow> mnlxt_rt_route_t \<Rightarrow> cval" where
  "route_load data ob =
     (if data = MNLXT_RT_ROUTE_FAMILY then U8 (route_family ob)
      else if data = MNLXT_RT_ROUTE_TYPE then U8 (route_type ob)
      else if data = MNLXT_RT_ROUTE_TABLE then U8 (route_table ob)
      else if data = MNLXT_RT_ROUTE_PROTOCOL then U8 (route_protocol ob)
      else if data = MNLXT_RT_ROUTE_SCOPE then U8 (route_scope ob)
      else if data = MNLXT_RT_ROUTE_PRIORITY then U32 (route_priority ob)
      else if data = MNLXT_RT_ROUTE_IIFINDEX then U32 (route_iif_index ob)
      else if data = MNLXT_RT_ROUTE_OIFINDEX then U32 (route_oif_index ob)
      else if data = MNLXT_RT_ROUTE_SRC_PREFIX then U8 (route_src_prefix ob)
      else if data = MNLXT_RT_ROUTE_DST_PREFIX then U8 (route_dst_prefix ob)
      else U8 0)"

section \<open>Creation and cloning\<close>

text \<open>\<open>mem\<close> says whether the allocator has memory for the object.\<close>

definition mnlxt_rt_route_new :: "bool \<Rightarrow> errno \<Rightarrow> mnlxt_rt_route_t option \<times> errno" where
  "mnlxt_rt_route_new mem e = (if mem then (Some route_zero, e) else (None, ENOMEM))"

definition mnlxt_rt_route_clone ::
  "bool \<Rightarrow> mnlxt_rt_route_t option \<Rightarrow> u64 \<Rightarrow> errno \<Rightarrow> mnlxt_rt_route_t option \<times> errno" where
  "mnlxt_rt_route_clone mem src flt e =
     (case src of None \<Rightarrow> (None, EINVAL)
      | Some s \<Rightarrow>
          (case mnlxt_rt_route_new mem e of
             (None, e') \<Rightarrow> (None, e')
           | (Some dst, e') \<Rightarrow>
               if flt \<noteq> 0 then
                 (Some (s\<lparr>route_prop_flags := ucast (ucast (route_prop_flags s) AND flt)\<rparr>), e')
               else (Some dst, e')))"

section \<open>Generic access\<close>

definition mnlxt_rt_route_set_ptr ::
  "mnlxt_rt_route_t option \<Rightarrow> nat \<Rightarrow> cval \<Rightarrow> errno \<Rightarrow> int \<times> mnlxt_rt_route_t option \<times> errno" where
  "mnlxt_rt_route_set_ptr route data ptr e =
     (case route of None \<Rightarrow> (- 1, None, EINVAL)
      | Some ob \<Rightarrow>
          if MNLXT_RT_ROUTE_MAX \<le> data \<or> route_data data \<noteq> csize ptr \<or> route_data data = 0
          then (- 1, Some ob, EINVAL)
          else (0, Some (route_store data ptr
                  (ob\<lparr>route_prop_flags := set_prop_flag (route_prop_flags ob) data\<rparr>)), e))"

definition mnlxt_rt_route_set_u32 ::
  "mnlxt_rt_route_t option \<Rightarrow> nat \<Rightarrow> u32 \<Rightarrow> errno \<Rightarrow> int \<times> mnlxt_rt_route_t option \<times> errno" where
  "mnlxt_rt_route_set_u32 route data x e = mnlxt_rt_route_set_ptr route data (U32 x) e"

definition mnlxt_rt_route_set_u8 ::
  "mnlxt_rt_route_t option \<Rightarrow> nat \<Rightarrow> u8 \<Rightarrow> errno \<Rightarrow> int \<times> mnlxt_rt_route_t option \<times> errno" where
  "mnlxt_rt_route_set_u8 route data x e = mnlxt_rt_route_set_ptr route data (U8 x) e"

definition mnlxt_rt_route_get_ptr ::
  "mnlxt_rt_route_t option \<Rightarrow> nat \<Rightarrow> cval \<Rightarrow> errno \<Rightarrow> int \<times> cval \<times> errno" where
  "mnlxt_rt_route_get_ptr route data ptr e =
     (case route of None \<Rightarrow> (- 1, ptr, EINVAL)
      | Some ob \<Rightarrow>
          if MNLXT_RT_ROUTE_MAX \<le> data \<or> route_data data \<noteq> csize ptr \<or> route_data data = 0
          then (- 1, ptr, EINVAL)
          else if \<not> get_prop_flag (route_prop_flags ob) data then (1, ptr, e)
          else (0, route_load data ob, e))"

definition mnlxt_rt_route_get_u32 ::
  "mnlxt_rt_route_t option \<Rightarrow> nat \<Rightarrow> u32 \<Rightarrow> errno \<Rightarrow> int \<times> u32 \<times> errno" where
  "mnlxt_rt_route_get_u32 route data p e =
     (case mnlxt_rt_route_get_ptr route data (U32 p) e of (rc, v, e') \<Rightarrow> (rc, un_U32 v, e'))"

definition mnlxt_rt_route_get_u8 ::
  "mnlxt_rt_route_t option \<Rightarrow> nat \<Rightarrow> u8 \<Rightarrow> errno \<Rightarrow> int \<times> u8 \<times> errno" where
  "mnlxt_rt_route_get_u8 route data p e =
     (case mnlxt_rt_route_get_ptr route data (U8 p) e of (rc, v, e') \<Rightarrow> (rc, un_U8 v, e'))"

section \<open>Setters and getters\<close>

text \<open>A route reports an unsupported or a different family without setting \<open>errno\<close>.\<close>

definition mnlxt_rt_route_set_family ::
  "mnlxt_rt_route_t option \<Rightarrow> u8 \<Rightarrow> errno \<Rightarrow> int \<times> mnlxt_rt_route_t option \<times> errno" where
  "mnlxt_rt_route_set_family route family e =
     (case route of None \<Rightarrow> (- 1, None, EINVAL)
      | Some ob \<Rightarrow>
          if AF_INET = family \<or> AF_INET6 = family then
            if get_prop_flag (route_prop_flags ob) MNLXT_RT_ROUTE_FAMILY then
              if family = route_family ob then (0, Some ob, e) else (- 1, Some ob, e)
            else (0, Some (ob\<lparr>route_family := family,
                    route_prop_flags := set_prop_flag (route_prop_flags ob) MNLXT_RT_ROUTE_FAMILY\<rparr>), e)
          else (- 1, Some ob, e))"

definition mnlxt_rt_route_get_family ::
  "mnlxt_rt_route_t option \<Rightarrow> u8 \<Rightarrow> errno \<Rightarrow> int \<times> u8 \<times> errno" where
  "mnlxt_rt_route_get_family route family e = mnlxt_rt_route_get_u8 route MNLXT_RT_ROUTE_FAMILY family e"

definition mnlxt_rt_route_set_protocol ::
  "mnlxt_rt_route_t option \<Rightarrow> u8 \<Rightarrow> errno \<Rightarrow> int \<times> mnlxt_rt_route_t option \<times> errno" where
  "mnlxt_rt_route_set_protocol route protocol e = mnlxt_rt_route_set_u8 route MNLXT_RT_ROUTE_PROTOCOL protocol e"

definition mnlxt_rt_route_get_protocol ::
  "mnlxt_rt_route_t option \<Rightarrow> u8 \<Rightarrow> errno \<Rightarrow> int \<times> u8 \<times> errno" where
  "mnlxt_rt_route_get_protocol route protocol e = mnlxt_rt_route_get_u8 route MNLXT_RT_ROUTE_PROTOCOL protocol e"

definition mnlxt_rt_route_set_table ::
  "mnlxt_rt_route_t option \<Rightarrow> u8 \<Rightarrow> errno \<Rightarrow> int \<times> mnlxt_rt_route_t option \<times> errno" where
  "mnlxt_rt_route_set_table route table e = mnlxt_rt_route_set_u8 route MNLXT_RT_ROUTE_TABLE table e"

definition mnlxt_rt_route_get_table ::
  "mnlxt_rt_route_t option \<Rightarrow> u8 \<Rightarrow> errno \<Rightarrow> int \<times> u8 \<times> errno" where
  "mnlxt_rt_route_get_table route table e = mnlxt_rt_route_get_u8 route MNLXT_RT_ROUTE_TABLE table e"

definition mnlxt_rt_route_set_scope ::
  "mnlxt_rt_route_t option \<Rightarrow> u8 \<Rightarrow> errno \<Rightarrow> int \<times> mnlxt_rt_route_t option \<times> errno" where
  "mnlxt_rt_route_set_scope route scope e = mnlxt_rt_route_set_u8 route MNLXT_RT_ROUTE_SCOPE scope e"

definition mnlxt_rt_route_get_scope ::
  "mnlxt_rt_route_t option \<Rightarrow> u8 \<Rightarrow> errno \<Rightarrow> int \<times> u8 \<times> errno" where
  "mnlxt_rt_route_get_scope route scope e = mnlxt_rt_route_get_u8 route MNLXT_RT_ROUTE_SCOPE scope e"

definition mnlxt_rt_route_set_type ::
  "mnlxt_rt_route_t option \<Rightarrow> u8 \<Rightarrow> errno \<Rightarrow> int \<times> mnlxt_rt_route_t option \<times> errno" where
  "mnlxt_rt_route_set_type route type e = mnlxt_rt_route_set_u8 route MNLXT_RT_ROUTE_TYPE type e"

definition mnlxt_rt_route_get_type ::
  "mnlxt_rt_route_t option \<Rightarrow> u8 \<Rightarrow> errno \<Rightarrow> int \<times> u8 \<times> errno" where
  "mnlxt_rt_route_get_type route type e = mnlxt_rt_route_get_u8 route MNLXT_RT_ROUTE_TYPE type e"

definition mnlxt_rt_route_set_src_prefix ::
  "mnlxt_rt_route_t option \<Rightarrow> u8 \<Rightarrow> errno \<Rightarrow> int \<times> mnlxt_rt_route_t option \<times> errno" where
  "mnlxt_rt_route_set_src_prefix route prefixlen e = mnlxt_rt_route_set_u8 route MNLXT_RT_ROUTE_SRC_PREFIX prefixlen e"

definition mnlxt_rt_route_get_src_prefix ::
  "mnlxt_rt_route_t option \<Rightarrow> u8 \<Rightarrow> errno \<Rightarrow> int \<times> u8 \<times> errno" where
  "mnlxt_rt_route_get_src_prefix route prefixlen e = mnlxt_rt_route_get_u8 route MNLXT_RT_ROUTE_SRC_PREFIX prefixlen e"

definition mnlxt_rt_route_set_dst_prefix ::
  "mnlxt_rt_route_t option \<Rightarrow> u8 \<Rightarrow> errno \<Rightarrow> int \<times> mnlxt_rt_route_t option \<times> errno" where
  "mnlxt_rt_route_set_dst_prefix route prefixlen e = mnlxt_rt_route_set_u8 route MNLXT_RT_ROUTE_DST_PREFIX prefixlen e"

definition mnlxt_rt_route_get_dst_prefix ::
  "mnlxt_rt_route_t option \<Rightarrow> u8 \<Rightarrow> errno \<Rightarrow> int \<times> u8 \<times> errno" where
  "mnlxt_rt_route_get_dst_prefix route prefixlen e = mnlxt_rt_route_get_u8 route MNLXT_RT_ROUTE_DST_PREFIX prefixlen e"

definition mnlxt_rt_route_set_src ::
  "mnlxt_rt_route_t option \<Rightarrow> u8 \<Rightarrow> mnlxt_inet_addr_t option \<Rightarrow> errno \<Rightarrow>
     int \<times> mnlxt_rt_route_t option \<times> errno" where
  "mnlxt_rt_route_set_src route family buf e =
     (case (route, buf) of
        (Some _, Some b) \<Rightarrow>
          (case mnlxt_rt_route_set_family route family e of
             (rc, Some ob, e') \<Rightarrow>
               if rc = 0 then
                 (rc, Some (ob\<lparr>route_src := b,
                    route_prop_flags := set_prop_flag (route_prop_flags ob) MNLXT_RT_ROUTE_SRC\<rparr>), e')
               else (rc, Some ob, e')
           | (rc, None, e') \<Rightarrow> (rc, None, e'))
      | _ \<Rightarrow> (- 1, route, EINVAL))"

definition mnlxt_rt_route_get_src ::
  "mnlxt_rt_route_t option \<Rightarrow> u8 option \<Rightarrow> mnlxt_inet_addr_t option \<Rightarrow> errno \<Rightarrow>
     int \<times> u8 option \<times> mnlxt_inet_addr_t option \<times> errno" where
  "mnlxt_rt_route_get_src route family buf e =
     (case (route, buf) of
        (Some ob, Some _) \<Rightarrow>
          if \<not> get_prop_flag (route_prop_flags ob) MNLXT_RT_ROUTE_SRC then (1, family, buf, e)
          else (0, map_option (\<lambda>_. route_family ob) family, Some (route_src ob), e)
      | _ \<Rightarrow> (- 1, family, buf, EINVAL))"

text \<open>The default route, an all zero destination, is not recorded.\<close>

definition mnlxt_rt_route_set_dst ::
  "mnlxt_rt_route_t option \<Rightarrow> u8 \<Rightarrow> mnlxt_inet_addr_t option \<Rightarrow> errno \<Rightarrow>
     int \<times> mnlxt_rt_route_t option \<times> errno" where
  "mnlxt_rt_route_set_dst route family buf e =
     (case (route, buf) of
        (Some _, Some b) \<Rightarrow>
          (case mnlxt_rt_route_set_family route family e of
             (rc, Some ob, e') \<Rightarrow>
               if rc = 0 then
                 if AF_INET = family \<and> \<not> in_addr_any b \<or> AF_INET6 = family \<and> \<not> in6_unspecified b
                 then (rc, Some (ob\<lparr>route_dst := b,
                         route_prop_flags := set_prop_flag (route_prop_flags ob) MNLXT_RT_ROUTE_DST\<rparr>), e')
                 else (rc, Some ob, e')
               else (rc, Some ob, e')
           | (rc, None, e') \<Rightarrow> (rc, None, e'))
      | _ \<Rightarrow> (- 1, route, EINVAL))"

definition mnlxt_rt_route_get_dst ::
  "mnlxt_rt_route_t option \<Rightarrow> u8 option \<Rightarrow> mnlxt_inet_addr_t option \<Rightarrow> errno \<Rightarrow>
     int \<times> u8 option \<times> mnlxt_inet_addr_t option \<times> errno" where
  "mnlxt_rt_route_get_dst route family buf e =
     (case (route, buf) of
        (Some ob, Some _) \<Rightarrow>
          if \<not> get_prop_flag (route_prop_flags ob) MNLXT_RT_ROUTE_DST then (1, family, buf, e)
          else (0, map_option (\<lambda>_. route_family ob) family, Some (route_dst ob), e)
      | _ \<Rightarrow> (- 1, family, buf, EINVAL))"

definition mnlxt_rt_route_set_gateway ::
  "mnlxt_rt_route_t option \<Rightarrow> u8 \<Rightarrow> mnlxt_inet_addr_t option \<Rightarrow> errno \<Rightarrow>
     int \<times> mnlxt_rt_route_t option \<times> errno" where
  "mnlxt_rt_route_set_gateway route family buf e =
     (case (route, buf) of
        (Some _, Some b) \<Rightarrow>
          (case mnlxt_rt_route_set_family route family e of
             (rc, Some ob, e') \<Rightarrow>
               if rc = 0 then
                 (rc, Some (ob\<lparr>route_gateway := b,
                    route_prop_flags := set_prop_flag (route_prop_flags ob) MNLXT_RT_ROUTE_GATEWAY\<rparr>), e')
               else (rc, Some ob, e')
           | (rc, None, e') \<Rightarrow> (rc, None, e'))
      | _ \<Rightarrow> (- 1, route, EINVAL))"

definition mnlxt_rt_route_get_gateway ::
  "mnlxt_rt_route_t option \<Rightarrow> u8 option \<Rightarrow> mnlxt_inet_addr_t option \<Rightarrow> errno \<Rightarrow>
     int \<times> u8 option \<times> mnlxt_inet_addr_t option \<times> errno" where
  "mnlxt_rt_route_get_gateway route family buf e =
     (case (route, buf) of
        (Some ob, Some _) \<Rightarrow>
          if \<not> get_prop_flag (route_prop_flags ob) MNLXT_RT_ROUTE_GATEWAY then (1, family, buf, e)
          else (0, map_option (\<lambda>_. route_family ob) family, Some (route_gateway ob), e)
      | _ \<Rightarrow> (- 1, family, buf, EINVAL))"

definition mnlxt_rt_route_set_priority ::
  "mnlxt_rt_route_t option \<Rightarrow> u32 \<Rightarrow> errno \<Rightarrow> int \<times> mnlxt_rt_route_t option \<times> errno" where
  "mnlxt_rt_route_set_priority route priority e = mnlxt_rt_route_set_u32 route MNLXT_RT_ROUTE_PRIORITY priority e"

definition mnlxt_rt_route_get_priority ::
  "mnlxt_rt_route_t option \<Rightarrow> u32 \<Rightarrow> errno \<Rightarrow> int \<times> u32 \<times> errno" where
  "mnlxt_rt_route_get_priority route priority e = mnlxt_rt_route_get_u32 route MNLXT_RT_ROUTE_PRIORITY priority e"

definition mnlxt_rt_route_set_oifindex ::
  "mnlxt_rt_route_t option \<Rightarrow> u32 \<Rightarrow> errno \<Rightarrow> int \<times> mnlxt_rt_route_t option \<times> errno" where
  "mnlxt_rt_route_set_oifindex route if_index e = mnlxt_rt_route_set_u32 route MNLXT_RT_ROUTE_OIFINDEX if_index e"

definition mnlxt_rt_route_get_oifindex ::
  "mnlxt_rt_route_t option \<Rightarrow> u32 \<Rightarrow> errno \<Rightarrow> int \<times> u32 \<times> errno" where
  "mnlxt_rt_route_get_oifindex route if_index e = mnlxt_rt_route_get_u32 route MNLXT_RT_ROUTE_OIFINDEX if_index e"

definition mnlxt_rt_route_set_iifindex ::
  "mnlxt_rt_route_t option \<Rightarrow> u32 \<Rightarrow> errno \<Rightarrow> int \<times> mnlxt_rt_route_t option \<times> errno" where
  "mnlxt_rt_route_set_iifindex route if_index e = mnlxt_rt_route_set_u32 route MNLXT_RT_ROUTE_IIFINDEX if_index e"

definition mnlxt_rt_route_get_iifindex ::
  "mnlxt_rt_route_t option \<Rightarrow> u32 \<Rightarrow> errno \<Rightarrow> int \<times> u32 \<times> errno" where
  "mnlxt_rt_route_get_iifindex route if_index e = mnlxt_rt_route_get_u32 route MNLXT_RT_ROUTE_IIFINDEX if_index e"

section \<open>The route object implements a map of its properties\<close>

definition route_abs :: "mnlxt_rt_route_t \<Rightarrow> (nat \<rightharpoonup> cval)" where
  "route_abs ob i =
     (if route_data i \<noteq> 0 \<and> bit (route_prop_flags ob) i then Some (route_load i ob) else None)"

lemma route_data_bound: "route_data i \<noteq> 0 \<Longrightarrow> i < MNLXT_RT_ROUTE_MAX"
  by (simp add: route_data_def split: if_splits)

lemma route_store_flags [simp]: "route_prop_flags (route_store i v ob) = route_prop_flags ob"
  by (simp add: route_store_def)

lemma route_load_store:
  "route_data i = csize v \<Longrightarrow> route_load j (route_store i v ob) = (if i = j then v else route_load j ob)"
  by (auto simp: route_data_def route_store_def route_load_def split: if_splits)

lemma route_load_flags [simp]: "route_load j (ob\<lparr>route_prop_flags := w\<rparr>) = route_load j ob"
  by (simp add: route_load_def)

lemma route_load_size: "route_data i \<noteq> 0 \<Longrightarrow> csize (route_load i ob) = route_data i"
  by (simp add: route_data_def route_load_def split: if_splits)

interpretation route_obj: prop_object mnlxt_rt_route_set_ptr mnlxt_rt_route_get_ptr route_abs route_data
proof (unfold_locales, goal_cases)
  case (1 i v ob e)
  then have "route_data i \<noteq> 0" by simp
  with route_data_bound [OF this] 1 show ?case
    by (auto simp: mnlxt_rt_route_set_ptr_def route_abs_def route_load_store fun_eq_iff)
next
  case (2 i v ob e)
  then show ?case by (simp add: mnlxt_rt_route_set_ptr_def)
next
  case (3 i v e)
  then show ?case by (simp add: mnlxt_rt_route_set_ptr_def)
next
  case (4 i c ob e)
  then have "route_data i \<noteq> 0" by simp
  with route_data_bound [OF this] 4 show ?case
    by (simp add: mnlxt_rt_route_get_ptr_def route_abs_def)
next
  case (5 i c ob e)
  then show ?case by (simp add: mnlxt_rt_route_get_ptr_def)
next
  case (6 i c e)
  then show ?case by (simp add: mnlxt_rt_route_get_ptr_def)
qed

section \<open>Public calls and what they keep\<close>

text \<open>
  One successful or failed call of a public setter on an existing route, with any arguments; an
  address argument is a whole \<open>mnlxt_inet_addr_t\<close>.
\<close>

inductive route_api :: "mnlxt_rt_route_t \<Rightarrow> mnlxt_rt_route_t \<Rightarrow> bool" where
  family: "mnlxt_rt_route_set_family (Some r) f e = (rc, Some r', e') \<Longrightarrow> route_api r r'"
| protocol: "mnlxt_rt_route_set_protocol (Some r) x e = (rc, Some r', e') \<Longrightarrow> route_api r r'"
| table: "mnlxt_rt_route_set_table (Some r) x e = (rc, Some r', e') \<Longrightarrow> route_api r r'"
| scope: "mnlxt_rt_route_set_scope (Some r) x e = (rc, Some r', e') \<Longrightarrow> route_api r r'"
| type: "mnlxt_rt_route_set_type (Some r) x e = (rc, Some r', e') \<Longrightarrow> route_api r r'"
| src_prefix: "mnlxt_rt_route_set_src_prefix (Some r) x e = (rc, Some r', e') \<Longrightarrow> route_api r r'"
| dst_prefix: "mnlxt_rt_route_set_dst_prefix (Some r) x e = (rc, Some r', e') \<Longrightarrow> route_api r r'"
| priority: "mnlxt_rt_route_set_priority (Some r) y e = (rc, Some r', e') \<Longrightarrow> route_api r r'"
| oifindex: "mnlxt_rt_route_set_oifindex (Some r) y e = (rc, Some r', e') \<Longrightarrow> route_api r r'"
| iifindex: "mnlxt_rt_route_set_iifindex (Some r) y e = (rc, Some r', e') \<Longrightarrow> route_api r r'"
| src: "inet_ok a \<Longrightarrow> mnlxt_rt_route_set_src (Some r) f (Some a) e = (rc, Some r', e') \<Longrightarrow> route_api r r'"
| dst: "inet_ok a \<Longrightarrow> mnlxt_rt_route_set_dst (Some r) f (Some a) e = (rc, Some r', e') \<Longrightarrow> route_api r r'"
| gateway: "inet_ok a \<Longrightarrow> mnlxt_rt_route_set_gateway (Some r) f (Some a) e = (rc, Some r', e') \<Longrightarrow>
    route_api r r'"

inductive route_reach :: "mnlxt_rt_route_t \<Rightarrow> bool" where
  new: "route_reach route_zero"
| call: "route_reach r \<Longrightarrow> route_api r r' \<Longrightarrow> route_reach r'"

abbreviation route_has :: "mnlxt_rt_route_t \<Rightarrow> nat \<Rightarrow> bool" where
  "route_has r i \<equiv> bit (route_prop_flags r) i"

definition route_inv :: "mnlxt_rt_route_t \<Rightarrow> bool" where
  "route_inv r \<longleftrightarrow>
     inet_ok (route_src r) \<and> inet_ok (route_dst r) \<and> inet_ok (route_gateway r) \<and>
     (route_has r MNLXT_RT_ROUTE_FAMILY \<longrightarrow> route_family r = AF_INET \<or> route_family r = AF_INET6) \<and>
     (route_has r MNLXT_RT_ROUTE_SRC \<or> route_has r MNLXT_RT_ROUTE_DST \<or>
        route_has r MNLXT_RT_ROUTE_GATEWAY \<longrightarrow> route_has r MNLXT_RT_ROUTE_FAMILY) \<and>
     (route_has r MNLXT_RT_ROUTE_DST \<longrightarrow>
        \<not> (if route_family r = AF_INET then in_addr_any (route_dst r)
           else in6_unspecified (route_dst r)))"

text \<open>What a call keeps of an earlier state: no property is unset, a set family stays.\<close>

definition route_ext :: "mnlxt_rt_route_t \<Rightarrow> mnlxt_rt_route_t \<Rightarrow> bool" where
  "route_ext r r' \<longleftrightarrow> (\<forall>i. route_has r i \<longrightarrow> route_has r' i) \<and>
     (route_has r MNLXT_RT_ROUTE_FAMILY \<longrightarrow> route_family r' = route_family r)"

lemma route_ext_refl [simp]: "route_ext r r"
  by (simp add: route_ext_def)

lemma route_ext_trans: "route_ext r s \<Longrightarrow> route_ext s t \<Longrightarrow> route_ext r t"
  by (simp add: route_ext_def)

lemma route_inv_zero: "route_inv route_zero"
  by (simp add: route_inv_def route_zero_def)

lemma route_set_ptr_keeps:
  assumes "mnlxt_rt_route_set_ptr (Some r) i v e = (rc, Some r', e')" "i \<noteq> MNLXT_RT_ROUTE_FAMILY"
  shows "(route_inv r \<longrightarrow> route_inv r') \<and> route_ext r r'"
proof (cases "route_data i = csize v")
  case True
  then have nz: "route_data i \<noteq> 0" by simp
  note i = route_data_bound [OF nz] nz
  with assms True have r': "r' = route_store i v
      (r\<lparr>route_prop_flags := set_prop_flag (route_prop_flags r) i\<rparr>)"
    by (simp add: mnlxt_rt_route_set_ptr_def)
  from i(2) assms(2) have "i \<notin> {MNLXT_RT_ROUTE_SRC, MNLXT_RT_ROUTE_DST, MNLXT_RT_ROUTE_GATEWAY}"
    by (auto simp: route_data_def)
  with assms(2) show ?thesis
    unfolding r' by (simp add: route_inv_def route_ext_def route_store_def)
next
  case False
  with assms show ?thesis by (simp add: mnlxt_rt_route_set_ptr_def)
qed

lemma route_set_family_keeps:
  assumes "mnlxt_rt_route_set_family (Some r) f e = (rc, Some r', e')"
  shows "(route_inv r \<longrightarrow> route_inv r') \<and> route_ext r r' \<and>
    (rc = 0 \<longrightarrow> route_has r' MNLXT_RT_ROUTE_FAMILY \<and> route_family r' = f \<and>
       (f = AF_INET \<or> f = AF_INET6)) \<and> (rc \<noteq> 0 \<longrightarrow> r' = r)"
  using assms by (auto simp: mnlxt_rt_route_set_family_def route_inv_def route_ext_def split: if_splits)

lemma route_set_family_never_null:
  "\<exists>rc r' e'. mnlxt_rt_route_set_family (Some r) f e = (rc, Some r', e')"
  by (auto simp: mnlxt_rt_route_set_family_def)

lemma route_src_stored:
  "route_inv r \<Longrightarrow> route_has r MNLXT_RT_ROUTE_FAMILY \<Longrightarrow> inet_ok a \<Longrightarrow>
     route_inv (r\<lparr>route_src := a,
       route_prop_flags := set_prop_flag (route_prop_flags r) MNLXT_RT_ROUTE_SRC\<rparr>)"
  by (auto simp: route_inv_def split: if_splits)

lemma route_src_stored_ext:
  "route_ext r (r\<lparr>route_src := a,
     route_prop_flags := set_prop_flag (route_prop_flags r) MNLXT_RT_ROUTE_SRC\<rparr>)"
  by (simp add: route_ext_def)

lemma route_gateway_stored:
  "route_inv r \<Longrightarrow> route_has r MNLXT_RT_ROUTE_FAMILY \<Longrightarrow> inet_ok a \<Longrightarrow>
     route_inv (r\<lparr>route_gateway := a,
       route_prop_flags := set_prop_flag (route_prop_flags r) MNLXT_RT_ROUTE_GATEWAY\<rparr>)"
  by (auto simp: route_inv_def split: if_splits)

lemma route_gateway_stored_ext:
  "route_ext r (r\<lparr>route_gateway := a,
     route_prop_flags := set_prop_flag (route_prop_flags r) MNLXT_RT_ROUTE_GATEWAY\<rparr>)"
  by (simp add: route_ext_def)

lemma route_dst_stored:
  "route_inv r \<Longrightarrow> route_has r MNLXT_RT_ROUTE_FAMILY \<Longrightarrow> inet_ok a \<Longrightarrow>
     (AF_INET = route_family r \<and> \<not> in_addr_any a \<or> AF_INET6 = route_family r \<and> \<not> in6_unspecified a) \<Longrightarrow>
     route_inv (r\<lparr>route_dst := a,
       route_prop_flags := set_prop_flag (route_prop_flags r) MNLXT_RT_ROUTE_DST\<rparr>)"
  by (auto simp: route_inv_def)

lemma route_dst_stored_ext:
  "route_ext r (r\<lparr>route_dst := a,
     route_prop_flags := set_prop_flag (route_prop_flags r) MNLXT_RT_ROUTE_DST\<rparr>)"
  by (simp add: route_ext_def)

lemma route_set_src_keeps:
  assumes "inet_ok a" "mnlxt_rt_route_set_src (Some r) f (Some a) e = (rc, Some r', e')"
  shows "(route_inv r \<longrightarrow> route_inv r') \<and> route_ext r r'"
proof -
  obtain rc1 r1 e1 where s: "mnlxt_rt_route_set_family (Some r) f e = (rc1, Some r1, e1)"
    using route_set_family_never_null by blast
  from assms(2) have r': "r' = (if rc1 = 0 then r1\<lparr>route_src := a,
      route_prop_flags := set_prop_flag (route_prop_flags r1) MNLXT_RT_ROUTE_SRC\<rparr> else r1)"
    by (simp add: s mnlxt_rt_route_set_src_def split: if_splits)
  note k = route_set_family_keeps [OF s]
  show ?thesis
  proof (cases "rc1 = 0")
    case True
    with k assms(1) show ?thesis
      unfolding r' by (auto intro: route_src_stored route_ext_trans [OF _ route_src_stored_ext])
  next
    case False
    with k show ?thesis unfolding r' by simp
  qed
qed

lemma route_set_gateway_keeps:
  assumes "inet_ok a" "mnlxt_rt_route_set_gateway (Some r) f (Some a) e = (rc, Some r', e')"
  shows "(route_inv r \<longrightarrow> route_inv r') \<and> route_ext r r'"
proof -
  obtain rc1 r1 e1 where s: "mnlxt_rt_route_set_family (Some r) f e = (rc1, Some r1, e1)"
    using route_set_family_never_null by blast
  from assms(2) have r': "r' = (if rc1 = 0 then r1\<lparr>route_gateway := a,
      route_prop_flags := set_prop_flag (route_prop_flags r1) MNLXT_RT_ROUTE_GATEWAY\<rparr> else r1)"
    by (simp add: s mnlxt_rt_route_set_gateway_def split: if_splits)
  note k = route_set_family_keeps [OF s]
  show ?thesis
  proof (cases "rc1 = 0")
    case True
    with k assms(1) show ?thesis
      unfolding r' by (auto intro: route_gateway_stored route_ext_trans [OF _ route_gateway_stored_ext])
  next
    case False
    with k show ?thesis unfolding r' by simp
  qed
qed

lemma route_set_dst_keeps:
  assumes "inet_ok a" "mnlxt_rt_route_set_dst (Some r) f (Some a) e = (rc, Some r', e')"
  shows "(route_inv r \<longrightarrow> route_inv r') \<and> route_ext r r'"
proof -
  obtain rc1 r1 e1 where s: "mnlxt_rt_route_set_family (Some r) f e = (rc1, Some r1, e1)"
    using route_set_family_never_null by blast
  let ?set = "rc1 = 0 \<and> (AF_INET = f \<and> \<not> in_addr_any a \<or> AF_INET6 = f \<and> \<not> in6_unspecified a)"
  from assms(2) have r': "r' = (if ?set then r1\<lparr>route_dst := a,
      route_prop_flags := set_prop_flag (route_prop_flags r1) MNLXT_RT_ROUTE_DST\<rparr> else r1)"
    by (auto simp: s mnlxt_rt_route_set_dst_def split: if_splits)
  show ?thesis
  proof (cases ?set)
    case True
    with route_set_family_keeps [OF s] assms(1) show ?thesis
      unfolding r' by (auto intro: route_dst_stored route_ext_trans [OF _ route_dst_stored_ext])
  next
    case False
    with route_set_family_keeps [OF s] show ?thesis unfolding r' if_not_P [OF False] by blast
  qed
qed

lemmas route_simple_setters [setter_defs] =
  mnlxt_rt_route_set_protocol_def mnlxt_rt_route_set_table_def mnlxt_rt_route_set_scope_def
  mnlxt_rt_route_set_type_def mnlxt_rt_route_set_src_prefix_def mnlxt_rt_route_set_dst_prefix_def
  mnlxt_rt_route_set_priority_def mnlxt_rt_route_set_oifindex_def mnlxt_rt_route_set_iifindex_def
  mnlxt_rt_route_set_u8_def mnlxt_rt_route_set_u32_def

lemma route_api_keeps: "route_api r r' \<Longrightarrow> (route_inv r \<longrightarrow> route_inv r') \<and> route_ext r r'"
proof (induction rule: route_api.induct)
  case (family r f e rc r' e')
  then show ?case using route_set_family_keeps by blast
next
  case (src a r f e rc r' e')
  then show ?case by (rule route_set_src_keeps)
next
  case (dst a r f e rc r' e')
  then show ?case by (rule route_set_dst_keeps)
next
  case (gateway a r f e rc r' e')
  then show ?case by (rule route_set_gateway_keeps)
qed (unfold setter_defs, (erule route_set_ptr_keeps, simp)+)

text \<open>Every route built by public calls is well formed.\<close>

lemma route_reach_inv_holds: "route_reach r \<Longrightarrow> route_inv r"
  by (induction rule: route_reach.induct) (auto simp: route_inv_zero dest: route_api_keeps)

lemma route_calls_ext: "route_api\<^sup>*\<^sup>* r r' \<Longrightarrow> route_ext r r'"
  by (induction rule: rtranclp_induct) (auto dest: route_api_keeps intro: route_ext_trans)

end
