(* ===== verification/CHeap.thy ===== *)
theory CHeap
  imports Prelude
begin

text \<open>
  The C heap that libmnlxt's objects live in, as far as the code uses it: strings (from
  \<open>strdup\<close> and \<open>strndup\<close>), arrays (from \<open>calloc(n, size)\<close>), messages and payload
  objects, each in a store of its own, all addressed by one supply of addresses. \<open>None\<close> as
  the result of an operation is undefined behaviour: a read through a dangling pointer, or a
  \<open>free\<close> of an address that is not allocated. \<open>oom n\<close> says that the allocation with
  number \<open>n\<close> fails; every theorem holds for all of them.
\<close>

type_synonym ptr = nat

record ('t, 'm, 'p) cheap =
  brk :: nat
  oom :: "nat \<Rightarrow> bool"
  strs :: "ptr \<rightharpoonup> string"
  arrs :: "ptr \<rightharpoonup> 't list"
  msgs :: "ptr \<rightharpoonup> 'm"
  objs :: "ptr \<rightharpoonup> 'p"

definition heap_ok :: "('t, 'm, 'p) cheap \<Rightarrow> bool" where
  "heap_ok h \<longleftrightarrow>
     (\<forall>q \<in> dom (strs h) \<union> dom (arrs h) \<union> dom (msgs h) \<union> dom (objs h). q < brk h)"

section \<open>Allocation\<close>

definition alloc :: "('t, 'm, 'p) cheap \<Rightarrow> ptr option \<times> ('t, 'm, 'p) cheap" where
  "alloc h = (if oom h (brk h) then None else Some (brk h), h\<lparr>brk := Suc (brk h)\<rparr>)"

definition new_str :: "string \<Rightarrow> ('t, 'm, 'p) cheap \<Rightarrow> ptr option \<times> ('t, 'm, 'p) cheap" where
  "new_str s h = (case alloc h of
      (None, h') \<Rightarrow> (None, h')
    | (Some q, h') \<Rightarrow> (Some q, h'\<lparr>strs := (strs h')(q \<mapsto> s)\<rparr>))"

text \<open>\<open>strndup(s, n)\<close> and \<open>strdup(s)\<close>; strings hold no NUL.\<close>

definition strndup :: "string \<Rightarrow> nat \<Rightarrow> ('t, 'm, 'p) cheap \<Rightarrow> ptr option \<times> ('t, 'm, 'p) cheap" where
  "strndup s n h = new_str (take n s) h"

definition strdup :: "ptr \<Rightarrow> ('t, 'm, 'p) cheap \<Rightarrow> (ptr option \<times> ('t, 'm, 'p) cheap) option" where
  "strdup q h = map_option (\<lambda>s. new_str s h) (strs h q)"

definition new_arr :: "'t list \<Rightarrow> ('t, 'm, 'p) cheap \<Rightarrow> ptr option \<times> ('t, 'm, 'p) cheap" where
  "new_arr xs h = (case alloc h of
      (None, h') \<Rightarrow> (None, h')
    | (Some q, h') \<Rightarrow> (Some q, h'\<lparr>arrs := (arrs h')(q \<mapsto> xs)\<rparr>))"

definition new_msg :: "'m \<Rightarrow> ('t, 'm, 'p) cheap \<Rightarrow> ptr option \<times> ('t, 'm, 'p) cheap" where
  "new_msg m h = (case alloc h of
      (None, h') \<Rightarrow> (None, h')
    | (Some q, h') \<Rightarrow> (Some q, h'\<lparr>msgs := (msgs h')(q \<mapsto> m)\<rparr>))"

definition new_obj :: "'p \<Rightarrow> ('t, 'm, 'p) cheap \<Rightarrow> ptr option \<times> ('t, 'm, 'p) cheap" where
  "new_obj x h = (case alloc h of
      (None, h') \<Rightarrow> (None, h')
    | (Some q, h') \<Rightarrow> (Some q, h'\<lparr>objs := (objs h')(q \<mapsto> x)\<rparr>))"

text \<open>\<open>sizeof(mnlxt_if_name_t)\<close>, that is \<open>IF_NAMESIZE\<close>.\<close>

abbreviation IF_NAMESIZE :: nat where "IF_NAMESIZE \<equiv> 16"

text \<open>
  \<^verbatim>\<open>*stpncpy(buf, s, sizeof(mnlxt_if_name_t)) = '\0'\<close> into a buffer of that size: with
  sixteen or more characters the terminator is written behind the buffer.
\<close>

definition stpncpy_name :: "string \<Rightarrow> string option" where
  "stpncpy_name s = (if length s < IF_NAMESIZE then Some s else None)"

text \<open>\<open>strcmp(s, t)\<close> as a truth value: both pointers must be valid.\<close>

definition str_differs :: "('t, 'm, 'p) cheap \<Rightarrow> ptr option \<Rightarrow> ptr option \<Rightarrow> bool option" where
  "str_differs h p q =
     (case (Option.bind p (strs h), Option.bind q (strs h)) of
        (Some s, Some t) \<Rightarrow> Some (s \<noteq> t)
      | _ \<Rightarrow> None)"

section \<open>Release\<close>

definition free_str :: "ptr \<Rightarrow> ('t, 'm, 'p) cheap \<Rightarrow> ('t, 'm, 'p) cheap option" where
  "free_str q h = (if strs h q = None then None else Some (h\<lparr>strs := (strs h)(q := None)\<rparr>))"

definition free_arr :: "ptr \<Rightarrow> ('t, 'm, 'p) cheap \<Rightarrow> ('t, 'm, 'p) cheap option" where
  "free_arr q h = (if arrs h q = None then None else Some (h\<lparr>arrs := (arrs h)(q := None)\<rparr>))"

definition free_msg :: "ptr \<Rightarrow> ('t, 'm, 'p) cheap \<Rightarrow> ('t, 'm, 'p) cheap option" where
  "free_msg q h = (if msgs h q = None then None else Some (h\<lparr>msgs := (msgs h)(q := None)\<rparr>))"

definition free_obj :: "ptr \<Rightarrow> ('t, 'm, 'p) cheap \<Rightarrow> ('t, 'm, 'p) cheap option" where
  "free_obj q h = (if objs h q = None then None else Some (h\<lparr>objs := (objs h)(q := None)\<rparr>))"

text \<open>\<open>if (p) free(p);\<close> for a string and an array.\<close>

definition free_str_opt :: "ptr option \<Rightarrow> ('t, 'm, 'p) cheap \<Rightarrow> ('t, 'm, 'p) cheap option" where
  "free_str_opt p h = (case p of None \<Rightarrow> Some h | Some q \<Rightarrow> free_str q h)"

definition free_arr_opt :: "ptr option \<Rightarrow> ('t, 'm, 'p) cheap \<Rightarrow> ('t, 'm, 'p) cheap option" where
  "free_arr_opt p h = (case p of None \<Rightarrow> Some h | Some q \<Rightarrow> free_arr q h)"

lemmas heap_news = new_str_def new_arr_def new_msg_def new_obj_def alloc_def
lemmas heap_frees = free_str_def free_arr_def free_msg_def free_obj_def

lemma heap_ok_fresh:
  "heap_ok h \<Longrightarrow> strs h (brk h) = None" "heap_ok h \<Longrightarrow> arrs h (brk h) = None"
  "heap_ok h \<Longrightarrow> msgs h (brk h) = None" "heap_ok h \<Longrightarrow> objs h (brk h) = None"
  by (fastforce simp: heap_ok_def)+

lemma new_str_ok: "heap_ok h \<Longrightarrow> heap_ok (snd (new_str s h))"
  by (auto simp: heap_ok_def heap_news less_Suc_eq split: if_splits)

lemma new_arr_ok: "heap_ok h \<Longrightarrow> heap_ok (snd (new_arr s h))"
  by (auto simp: heap_ok_def heap_news less_Suc_eq split: if_splits)

lemma new_msg_ok: "heap_ok h \<Longrightarrow> heap_ok (snd (new_msg s h))"
  by (auto simp: heap_ok_def heap_news less_Suc_eq split: if_splits)

lemma new_obj_ok: "heap_ok h \<Longrightarrow> heap_ok (snd (new_obj s h))"
  by (auto simp: heap_ok_def heap_news less_Suc_eq split: if_splits)

lemma heap_ok_sub:
  assumes "heap_ok h" "brk h \<le> brk h'" "dom (strs h') \<subseteq> dom (strs h)" "dom (arrs h') \<subseteq> dom (arrs h)"
    "dom (msgs h') \<subseteq> dom (msgs h)" "dom (objs h') \<subseteq> dom (objs h)"
  shows "heap_ok h'"
proof -
  have "dom (strs h') \<union> dom (arrs h') \<union> dom (msgs h') \<union> dom (objs h') \<subseteq>
      dom (strs h) \<union> dom (arrs h) \<union> dom (msgs h) \<union> dom (objs h)"
    using assms(3-6) by blast
  with assms(1,2) show ?thesis unfolding heap_ok_def by (meson less_le_trans subsetD)
qed

lemma free_ok:
  "heap_ok h \<Longrightarrow> free_str q h = Some h' \<Longrightarrow> heap_ok h'"
  "heap_ok h \<Longrightarrow> free_arr q h = Some h' \<Longrightarrow> heap_ok h'"
  "heap_ok h \<Longrightarrow> free_msg q h = Some h' \<Longrightarrow> heap_ok h'"
  "heap_ok h \<Longrightarrow> free_obj q h = Some h' \<Longrightarrow> heap_ok h'"
  by (auto simp: heap_ok_def heap_frees split: if_splits)

section \<open>Copies of a live block\<close>

text \<open>
  Copying a live string or array fails and changes nothing, or gives a fresh block; releasing the copy again leads
  back to what was there.
\<close>

lemma strdup_cases:
  assumes "heap_ok h" "strs h q = Some x"
  obtains (null) h' where "strdup q h = Some (None, h')" "strs h' = strs h" "heap_ok h'" "oom h (brk h)"
  | (copy) p h' h'' where "strdup q h = Some (Some p, h')" "strs h' = (strs h)(p \<mapsto> x)" "strs h p = None" "heap_ok h'"
      "free_str p h' = Some h''" "strs h'' = strs h" "heap_ok h''"
proof (cases "oom h (brk h)")
  case True
  with assms null new_str_ok [OF assms(1), of x] show thesis by (simp add: strdup_def heap_news)
next
  case False
  let ?h' = "h\<lparr>brk := Suc (brk h), strs := (strs h)(brk h \<mapsto> x)\<rparr>"
  have "free_str (brk h) ?h' = Some (h\<lparr>brk := Suc (brk h)\<rparr>)"
    using heap_ok_fresh(1) [OF assms(1)] by (simp add: free_str_def fun_upd_idem)
  with False assms new_str_ok [OF assms(1), of x] heap_ok_fresh(1) [OF assms(1)] show thesis
    by (intro copy [of "brk h" ?h' "h\<lparr>brk := Suc (brk h)\<rparr>"]) (auto simp: strdup_def heap_news heap_ok_def less_Suc_eq)
qed

lemma copy_arr_cases:
  assumes "heap_ok h"
  obtains (null) h' where "new_arr x h = (None, h')" "arrs h' = arrs h" "heap_ok h'"
  | (copy) p h' h'' where "new_arr x h = (Some p, h')" "arrs h' = (arrs h)(p \<mapsto> x)" "arrs h p = None" "heap_ok h'"
      "free_arr p h' = Some h''" "arrs h'' = arrs h" "heap_ok h''"
proof (cases "oom h (brk h)")
  case True
  with assms null new_arr_ok [OF assms(1), of x] show thesis by (simp add: heap_news)
next
  case False
  let ?h' = "h\<lparr>brk := Suc (brk h), arrs := (arrs h)(brk h \<mapsto> x)\<rparr>"
  have "free_arr (brk h) ?h' = Some (h\<lparr>brk := Suc (brk h)\<rparr>)"
    using heap_ok_fresh(2) [OF assms(1)] by (simp add: free_arr_def fun_upd_idem)
  with False assms new_arr_ok [OF assms(1), of x] heap_ok_fresh(2) [OF assms(1)] show thesis
    by (intro copy [of "brk h" ?h' "h\<lparr>brk := Suc (brk h)\<rparr>"]) (auto simp: heap_news heap_ok_def less_Suc_eq)
qed

section \<open>Replacing an owned string\<close>

text \<open>
  The setters of names run \<open>strndup\<close> for the new name and free the old one: when the old
  pointer is NULL or live, that never fails, and the new address is fresh.
\<close>

lemma replace_str:
  assumes "heap_ok h" "\<And>p. old = Some p \<Longrightarrow> strs h p \<noteq> None"
  obtains (null) h' where "strndup s n h = (None, h')" "strs h' = strs h" "arrs h' = arrs h" "objs h' = objs h"
      "msgs h' = msgs h" "oom h' = oom h" "oom h (brk h)" "heap_ok h'"
  | (copy) q h' h'' where "strndup s n h = (Some q, h')" "free_str_opt old h' = Some h''"
      "strs h'' = ((strs h) |` (- set_option old))(q \<mapsto> take n s)" "strs h q = None" "arrs h q = None"
      "arrs h'' = arrs h" "objs h'' = objs h" "msgs h'' = msgs h" "oom h'' = oom h" "heap_ok h''"
proof (cases "oom h (brk h)")
  case True
  with assms(1) null show thesis by (simp add: strndup_def heap_news heap_ok_def less_Suc_eq)
next
  case False
  let ?h' = "h\<lparr>brk := Suc (brk h), strs := (strs h)(brk h \<mapsto> take n s)\<rparr>"
  have s: "strndup s n h = (Some (brk h), ?h')" using False by (simp add: strndup_def heap_news)
  have ok: "heap_ok ?h'" using new_str_ok [OF assms(1), of "take n s"] s by (simp add: strndup_def)
  have fresh: "strs h (brk h) = None" "arrs h (brk h) = None" using assms(1) by (simp_all add: heap_ok_fresh)
  show thesis
  proof (cases old)
    case None
    then show thesis
      using s ok fresh by (intro copy [OF s]) (simp_all add: free_str_opt_def restrict_map_def)
  next
    case (Some p)
    with assms(2) fresh(1) have p: "p \<noteq> brk h" "strs h p \<noteq> None" by auto
    let ?h'' = "?h'\<lparr>strs := (strs ?h')(p := None)\<rparr>"
    have f: "free_str p ?h' = Some ?h''" using p by (simp add: free_str_def)
    moreover from ok f have "heap_ok ?h''" by (rule free_ok(1))
    ultimately show thesis
      using fresh p Some by (intro copy [OF s]) (simp_all add: free_str_opt_def restrict_map_def fun_eq_iff)
  qed
qed

end
