(* ===== verification/Rule.thy ===== *)
theory Rule
  imports Props Inet CHeap
begin

text \<open>
  src/rtnl/rule.c with the enumeration and the struct of include/libmnlxt/rt_rule.h: the routing
  rule object. Its two interface names are pointers to strings that the object owns, so the
  operations on them work on the heap of CHeap; \<open>rule_obj\<close> interprets the map contract of Props
  for the other members.
\<close>

section \<open>The rule object\<close>

abbreviation MNLXT_RT_RULE_FAMILY :: nat where "MNLXT_RT_RULE_FAMILY \<equiv> 0"
abbreviation MNLXT_RT_RULE_SRC_PREFIX :: nat where "MNLXT_RT_RULE_SRC_PREFIX \<equiv> 1"
abbreviation MNLXT_RT_RULE_DST_PREFIX :: nat where "MNLXT_RT_RULE_DST_PREFIX \<equiv> 2"
abbreviation MNLXT_RT_RULE_SRC :: nat where "MNLXT_RT_RULE_SRC \<equiv> 3"
abbreviation MNLXT_RT_RULE_DST :: nat where "MNLXT_RT_RULE_DST \<equiv> 4"
abbreviation MNLXT_RT_RULE_TABLE :: nat where "MNLXT_RT_RULE_TABLE \<equiv> 5"
abbreviation MNLXT_RT_RULE_IIFNAME :: nat where "MNLXT_RT_RULE_IIFNAME \<equiv> 6"
abbreviation MNLXT_RT_RULE_OIFNAME :: nat where "MNLXT_RT_RULE_OIFNAME \<equiv> 7"
abbreviation MNLXT_RT_RULE_TOS :: nat where "MNLXT_RT_RULE_TOS \<equiv> 8"
abbreviation MNLXT_RT_RULE_ACTION :: nat where "MNLXT_RT_RULE_ACTION \<equiv> 9"
abbreviation MNLXT_RT_RULE_PRIORITY :: nat where "MNLXT_RT_RULE_PRIORITY \<equiv> 10"
abbreviation MNLXT_RT_RULE_FWMARK :: nat where "MNLXT_RT_RULE_FWMARK \<equiv> 11"
abbreviation MNLXT_RT_RULE_FWMASK :: nat where "MNLXT_RT_RULE_FWMASK \<equiv> 12"
abbreviation MNLXT_RT_RULE_MAX :: nat where "MNLXT_RT_RULE_MAX \<equiv> MNLXT_RT_RULE_FWMASK + 1"

record mnlxt_rt_rule_t =
  rule_prop_flags :: u16
  rule_family :: u8
  rule_table :: u8
  rule_tos :: u8
  rule_action :: u8
  rule_src_prefix :: u8
  rule_dst_prefix :: u8
  rule_priority :: u32
  rule_fwmark :: u32
  rule_fwmask :: u32
  rule_src :: mnlxt_inet_addr_t
  rule_dst :: mnlxt_inet_addr_t
  rule_iif_name :: "ptr option"
  rule_oif_name :: "ptr option"

definition rule_zero :: mnlxt_rt_rule_t where
  "rule_zero = \<lparr>rule_prop_flags = 0, rule_family = 0, rule_table = 0, rule_tos = 0,
     rule_action = 0, rule_src_prefix = 0, rule_dst_prefix = 0, rule_priority = 0,
     rule_fwmark = 0, rule_fwmask = 0, rule_src = inet_zero, rule_dst = inet_zero,
     rule_iif_name = None, rule_oif_name = None\<rparr>"

definition rule_data :: "nat \<Rightarrow> nat" where
  "rule_data data =
     (if data = MNLXT_RT_RULE_FAMILY then 1
      else if data = MNLXT_RT_RULE_SRC_PREFIX then 1
      else if data = MNLXT_RT_RULE_DST_PREFIX then 1
      else if data = MNLXT_RT_RULE_TABLE then 1
      else if data = MNLXT_RT_RULE_TOS then 1
      else if data = MNLXT_RT_RULE_ACTION then 1
      else if data = MNLXT_RT_RULE_PRIORITY then 4
      else if data = MNLXT_RT_RULE_FWMARK then 4
      else if data = MNLXT_RT_RULE_FWMASK then 4
      else 0)"

definition rule_store :: "nat \<Rightarrow> cval \<Rightarrow> mnlxt_rt_rule_t \<Rightarrow> mnlxt_rt_rule_t" where
  "rule_store data v ob =
     (if data = MNLXT_RT_RULE_FAMILY then ob\<lparr>rule_family := un_U8 v\<rparr>
      else if data = MNLXT_RT_RULE_SRC_PREFIX then ob\<lparr>rule_src_prefix := un_U8 v\<rparr>
      else if data = MNLXT_RT_RULE_DST_PREFIX then ob\<lparr>rule_dst_prefix := un_U8 v\<rparr>
      else if data = MNLXT_RT_RULE_TABLE then ob\<lparr>rule_table := un_U8 v\<rparr>
      else if data = MNLXT_RT_RULE_TOS then ob\<lparr>rule_tos := un_U8 v\<rparr>
      else if data = MNLXT_RT_RULE_ACTION then ob\<lparr>rule_action := un_U8 v\<rparr>
      else if data = MNLXT_RT_RULE_PRIORITY then ob\<lparr>rule_priority := un_U32 v\<rparr>
      else if data = MNLXT_RT_RULE_FWMARK then ob\<lparr>rule_fwmark := un_U32 v\<rparr>
      else if data = MNLXT_RT_RULE_FWMASK then ob\<lparr>rule_fwmask := un_U32 v\<rparr>
      else ob)"

definition rule_load :: "nat \<Rightarrow> mnlxt_rt_rule_t \<Rightarrow> cval" where
  "rule_load data ob =
     (if data = MNLXT_RT_RULE_FAMILY then U8 (rule_family ob)
      else if data = MNLXT_RT_RULE_SRC_PREFIX then U8 (rule_src_prefix ob)
      else if data = MNLXT_RT_RULE_DST_PREFIX then U8 (rule_dst_prefix ob)
      else if data = MNLXT_RT_RULE_TABLE then U8 (rule_table ob)
      else if data = MNLXT_RT_RULE_TOS then U8 (rule_tos ob)
      else if data = MNLXT_RT_RULE_ACTION then U8 (rule_action ob)
      else if data = MNLXT_RT_RULE_PRIORITY then U32 (rule_priority ob)
      else if data = MNLXT_RT_RULE_FWMARK then U32 (rule_fwmark ob)
      else if data = MNLXT_RT_RULE_FWMASK then U32 (rule_fwmask ob)
      else U8 0)"

section \<open>Creation, cloning and release\<close>

definition mnlxt_rt_rule_new :: "bool \<Rightarrow> errno \<Rightarrow> mnlxt_rt_rule_t option \<times> errno" where
  "mnlxt_rt_rule_new mem e = (if mem then (Some rule_zero, e) else (None, ENOMEM))"

text \<open>The clone copies the struct, and with it the two name pointers.\<close>

definition mnlxt_rt_rule_clone ::
  "bool \<Rightarrow> mnlxt_rt_rule_t option \<Rightarrow> u64 \<Rightarrow> errno \<Rightarrow> mnlxt_rt_rule_t option \<times> errno" where
  "mnlxt_rt_rule_clone mem src flt e =
     (case src of None \<Rightarrow> (None, EINVAL)
      | Some s \<Rightarrow>
          (case mnlxt_rt_rule_new mem e of
             (None, e') \<Rightarrow> (None, e')
           | (Some dst, e') \<Rightarrow>
               if flt \<noteq> 0 then
                 (Some (s\<lparr>rule_prop_flags := ucast (ucast (rule_prop_flags s) AND flt)\<rparr>), e')
               else (Some dst, e')))"

text \<open>The names that \<open>mnlxt_rt_rule_free\<close> releases before the struct itself.\<close>

definition rule_free_names ::
  "mnlxt_rt_rule_t \<Rightarrow> ('t, 'm, 'p) cheap \<Rightarrow> ('t, 'm, 'p) cheap option" where
  "rule_free_names rule h =
     Option.bind (free_str_opt (rule_iif_name rule) h) (free_str_opt (rule_oif_name rule))"

section \<open>Generic access\<close>

definition mnlxt_rt_rule_set_ptr ::
  "mnlxt_rt_rule_t option \<Rightarrow> nat \<Rightarrow> cval \<Rightarrow> errno \<Rightarrow> int \<times> mnlxt_rt_rule_t option \<times> errno" where
  "mnlxt_rt_rule_set_ptr rule data ptr e =
     (case rule of None \<Rightarrow> (- 1, None, EINVAL)
      | Some ob \<Rightarrow>
          if MNLXT_RT_RULE_MAX \<le> data \<or> rule_data data \<noteq> csize ptr \<or> rule_data data = 0
          then (- 1, Some ob, EINVAL)
          else (0, Some (rule_store data ptr
                  (ob\<lparr>rule_prop_flags := set_prop_flag (rule_prop_flags ob) data\<rparr>)), e))"

definition mnlxt_rt_rule_set_u32 ::
  "mnlxt_rt_rule_t option \<Rightarrow> nat \<Rightarrow> u32 \<Rightarrow> errno \<Rightarrow> int \<times> mnlxt_rt_rule_t option \<times> errno" where
  "mnlxt_rt_rule_set_u32 rule data x e = mnlxt_rt_rule_set_ptr rule data (U32 x) e"

definition mnlxt_rt_rule_set_u8 ::
  "mnlxt_rt_rule_t option \<Rightarrow> nat \<Rightarrow> u8 \<Rightarrow> errno \<Rightarrow> int \<times> mnlxt_rt_rule_t option \<times> errno" where
  "mnlxt_rt_rule_set_u8 rule data x e = mnlxt_rt_rule_set_ptr rule data (U8 x) e"

definition mnlxt_rt_rule_get_ptr ::
  "mnlxt_rt_rule_t option \<Rightarrow> nat \<Rightarrow> cval \<Rightarrow> errno \<Rightarrow> int \<times> cval \<times> errno" where
  "mnlxt_rt_rule_get_ptr rule data ptr e =
     (case rule of None \<Rightarrow> (- 1, ptr, EINVAL)
      | Some ob \<Rightarrow>
          if MNLXT_RT_RULE_MAX \<le> data \<or> rule_data data \<noteq> csize ptr \<or> rule_data data = 0
          then (- 1, ptr, EINVAL)
          else if \<not> get_prop_flag (rule_prop_flags ob) data then (1, ptr, e)
          else (0, rule_load data ob, e))"

definition mnlxt_rt_rule_get_u32 ::
  "mnlxt_rt_rule_t option \<Rightarrow> nat \<Rightarrow> u32 \<Rightarrow> errno \<Rightarrow> int \<times> u32 \<times> errno" where
  "mnlxt_rt_rule_get_u32 rule data p e =
     (case mnlxt_rt_rule_get_ptr rule data (U32 p) e of (rc, v, e') \<Rightarrow> (rc, un_U32 v, e'))"

definition mnlxt_rt_rule_get_u8 ::
  "mnlxt_rt_rule_t option \<Rightarrow> nat \<Rightarrow> u8 \<Rightarrow> errno \<Rightarrow> int \<times> u8 \<times> errno" where
  "mnlxt_rt_rule_get_u8 rule data p e =
     (case mnlxt_rt_rule_get_ptr rule data (U8 p) e of (rc, v, e') \<Rightarrow> (rc, un_U8 v, e'))"

section \<open>Setters and getters\<close>

definition mnlxt_rt_rule_set_family ::
  "mnlxt_rt_rule_t option \<Rightarrow> u8 \<Rightarrow> errno \<Rightarrow> int \<times> mnlxt_rt_rule_t option \<times> errno" where
  "mnlxt_rt_rule_set_family rule family e =
     (case rule of None \<Rightarrow> (- 1, None, EINVAL)
      | Some ob \<Rightarrow>
          if AF_INET \<noteq> family \<and> AF_INET6 \<noteq> family then (- 1, Some ob, EAFNOSUPPORT)
          else if get_prop_flag (rule_prop_flags ob) MNLXT_RT_RULE_FAMILY then
            if family = rule_family ob then (0, Some ob, e) else (- 1, Some ob, EINVAL)
          else (0, Some (ob\<lparr>rule_family := family,
                  rule_prop_flags := set_prop_flag (rule_prop_flags ob) MNLXT_RT_RULE_FAMILY\<rparr>), e))"

definition mnlxt_rt_rule_get_family ::
  "mnlxt_rt_rule_t option \<Rightarrow> u8 \<Rightarrow> errno \<Rightarrow> int \<times> u8 \<times> errno" where
  "mnlxt_rt_rule_get_family rule family e = mnlxt_rt_rule_get_u8 rule MNLXT_RT_RULE_FAMILY family e"

definition mnlxt_rt_rule_set_src_prefix ::
  "mnlxt_rt_rule_t option \<Rightarrow> u8 \<Rightarrow> errno \<Rightarrow> int \<times> mnlxt_rt_rule_t option \<times> errno" where
  "mnlxt_rt_rule_set_src_prefix rule prefixlen e = mnlxt_rt_rule_set_u8 rule MNLXT_RT_RULE_SRC_PREFIX prefixlen e"

definition mnlxt_rt_rule_get_src_prefix ::
  "mnlxt_rt_rule_t option \<Rightarrow> u8 \<Rightarrow> errno \<Rightarrow> int \<times> u8 \<times> errno" where
  "mnlxt_rt_rule_get_src_prefix rule prefixlen e = mnlxt_rt_rule_get_u8 rule MNLXT_RT_RULE_SRC_PREFIX prefixlen e"

definition mnlxt_rt_rule_set_dst_prefix ::
  "mnlxt_rt_rule_t option \<Rightarrow> u8 \<Rightarrow> errno \<Rightarrow> int \<times> mnlxt_rt_rule_t option \<times> errno" where
  "mnlxt_rt_rule_set_dst_prefix rule prefixlen e = mnlxt_rt_rule_set_u8 rule MNLXT_RT_RULE_DST_PREFIX prefixlen e"

definition mnlxt_rt_rule_get_dst_prefix ::
  "mnlxt_rt_rule_t option \<Rightarrow> u8 \<Rightarrow> errno \<Rightarrow> int \<times> u8 \<times> errno" where
  "mnlxt_rt_rule_get_dst_prefix rule prefixlen e = mnlxt_rt_rule_get_u8 rule MNLXT_RT_RULE_DST_PREFIX prefixlen e"

definition mnlxt_rt_rule_set_src ::
  "mnlxt_rt_rule_t option \<Rightarrow> u8 \<Rightarrow> mnlxt_inet_addr_t option \<Rightarrow> errno \<Rightarrow>
     int \<times> mnlxt_rt_rule_t option \<times> errno" where
  "mnlxt_rt_rule_set_src rule family buf e =
     (case (rule, buf) of
        (Some _, Some b) \<Rightarrow>
          (case mnlxt_rt_rule_set_family rule family e of
             (rc, Some ob, e') \<Rightarrow>
               if rc = 0 then
                 (rc, Some (ob\<lparr>rule_src := b,
                    rule_prop_flags := set_prop_flag (rule_prop_flags ob) MNLXT_RT_RULE_SRC\<rparr>), e')
               else (rc, Some ob, e')
           | (rc, None, e') \<Rightarrow> (rc, None, e'))
      | _ \<Rightarrow> (- 1, rule, EINVAL))"

definition mnlxt_rt_rule_get_src ::
  "mnlxt_rt_rule_t option \<Rightarrow> u8 option \<Rightarrow> mnlxt_inet_addr_t option \<Rightarrow> errno \<Rightarrow>
     int \<times> u8 option \<times> mnlxt_inet_addr_t option \<times> errno" where
  "mnlxt_rt_rule_get_src rule family buf e =
     (case (rule, buf) of
        (Some ob, Some _) \<Rightarrow>
          if \<not> get_prop_flag (rule_prop_flags ob) MNLXT_RT_RULE_SRC then (1, family, buf, e)
          else (0, map_option (\<lambda>_. rule_family ob) family, Some (rule_src ob), e)
      | _ \<Rightarrow> (- 1, family, buf, EINVAL))"

definition mnlxt_rt_rule_set_dst ::
  "mnlxt_rt_rule_t option \<Rightarrow> u8 \<Rightarrow> mnlxt_inet_addr_t option \<Rightarrow> errno \<Rightarrow>
     int \<times> mnlxt_rt_rule_t option \<times> errno" where
  "mnlxt_rt_rule_set_dst rule family buf e =
     (case (rule, buf) of
        (Some _, Some b) \<Rightarrow>
          (case mnlxt_rt_rule_set_family rule family e of
             (rc, Some ob, e') \<Rightarrow>
               if rc = 0 then
                 (rc, Some (ob\<lparr>rule_dst := b,
                    rule_prop_flags := set_prop_flag (rule_prop_flags ob) MNLXT_RT_RULE_DST\<rparr>), e')
               else (rc, Some ob, e')
           | (rc, None, e') \<Rightarrow> (rc, None, e'))
      | _ \<Rightarrow> (- 1, rule, EINVAL))"

definition mnlxt_rt_rule_get_dst ::
  "mnlxt_rt_rule_t option \<Rightarrow> u8 option \<Rightarrow> mnlxt_inet_addr_t option \<Rightarrow> errno \<Rightarrow>
     int \<times> u8 option \<times> mnlxt_inet_addr_t option \<times> errno" where
  "mnlxt_rt_rule_get_dst rule family buf e =
     (case (rule, buf) of
        (Some ob, Some _) \<Rightarrow>
          if \<not> get_prop_flag (rule_prop_flags ob) MNLXT_RT_RULE_DST then (1, family, buf, e)
          else (0, map_option (\<lambda>_. rule_family ob) family, Some (rule_dst ob), e)
      | _ \<Rightarrow> (- 1, family, buf, EINVAL))"

definition mnlxt_rt_rule_set_table ::
  "mnlxt_rt_rule_t option \<Rightarrow> u8 \<Rightarrow> errno \<Rightarrow> int \<times> mnlxt_rt_rule_t option \<times> errno" where
  "mnlxt_rt_rule_set_table rule table e = mnlxt_rt_rule_set_u8 rule MNLXT_RT_RULE_TABLE table e"

definition mnlxt_rt_rule_get_table ::
  "mnlxt_rt_rule_t option \<Rightarrow> u8 \<Rightarrow> errno \<Rightarrow> int \<times> u8 \<times> errno" where
  "mnlxt_rt_rule_get_table rule table e = mnlxt_rt_rule_get_u8 rule MNLXT_RT_RULE_TABLE table e"

definition mnlxt_rt_rule_set_action ::
  "mnlxt_rt_rule_t option \<Rightarrow> u8 \<Rightarrow> errno \<Rightarrow> int \<times> mnlxt_rt_rule_t option \<times> errno" where
  "mnlxt_rt_rule_set_action rule action e = mnlxt_rt_rule_set_u8 rule MNLXT_RT_RULE_ACTION action e"

definition mnlxt_rt_rule_get_action ::
  "mnlxt_rt_rule_t option \<Rightarrow> u8 \<Rightarrow> errno \<Rightarrow> int \<times> u8 \<times> errno" where
  "mnlxt_rt_rule_get_action rule action e = mnlxt_rt_rule_get_u8 rule MNLXT_RT_RULE_ACTION action e"

definition mnlxt_rt_rule_set_tos ::
  "mnlxt_rt_rule_t option \<Rightarrow> u8 \<Rightarrow> errno \<Rightarrow> int \<times> mnlxt_rt_rule_t option \<times> errno" where
  "mnlxt_rt_rule_set_tos rule tos e = mnlxt_rt_rule_set_u8 rule MNLXT_RT_RULE_TOS tos e"

definition mnlxt_rt_rule_get_tos ::
  "mnlxt_rt_rule_t option \<Rightarrow> u8 \<Rightarrow> errno \<Rightarrow> int \<times> u8 \<times> errno" where
  "mnlxt_rt_rule_get_tos rule tos e = mnlxt_rt_rule_get_u8 rule MNLXT_RT_RULE_TOS tos e"

definition mnlxt_rt_rule_set_priority ::
  "mnlxt_rt_rule_t option \<Rightarrow> u32 \<Rightarrow> errno \<Rightarrow> int \<times> mnlxt_rt_rule_t option \<times> errno" where
  "mnlxt_rt_rule_set_priority rule priority e = mnlxt_rt_rule_set_u32 rule MNLXT_RT_RULE_PRIORITY priority e"

definition mnlxt_rt_rule_get_priority ::
  "mnlxt_rt_rule_t option \<Rightarrow> u32 \<Rightarrow> errno \<Rightarrow> int \<times> u32 \<times> errno" where
  "mnlxt_rt_rule_get_priority rule priority e = mnlxt_rt_rule_get_u32 rule MNLXT_RT_RULE_PRIORITY priority e"

definition mnlxt_rt_rule_set_iif_name ::
  "mnlxt_rt_rule_t option \<Rightarrow> string option \<Rightarrow> ('t, 'm, 'p) cheap \<Rightarrow> errno \<Rightarrow>
     (int \<times> mnlxt_rt_rule_t option \<times> ('t, 'm, 'p) cheap \<times> errno) option" where
  "mnlxt_rt_rule_set_iif_name rule iif_name h e =
     (case (rule, iif_name) of
        (Some ob, Some name) \<Rightarrow>
          (case strndup name (IF_NAMESIZE - 1) h of
             (None, h') \<Rightarrow> Some (- 1, Some ob, h', ENOMEM)
           | (Some iface, h') \<Rightarrow>
               map_option
                 (\<lambda>h''. (0, Some (ob\<lparr>rule_iif_name := Some iface,
                    rule_prop_flags := set_prop_flag (rule_prop_flags ob) MNLXT_RT_RULE_IIFNAME\<rparr>), h'', e))
                 (free_str_opt (rule_iif_name ob) h'))
      | _ \<Rightarrow> Some (- 1, rule, h, EINVAL))"

definition mnlxt_rt_rule_get_iif_name ::
  "mnlxt_rt_rule_t option \<Rightarrow> string option \<Rightarrow> ('t, 'm, 'p) cheap \<Rightarrow> errno \<Rightarrow>
     (int \<times> string option \<times> errno) option" where
  "mnlxt_rt_rule_get_iif_name rule iif_name h e =
     (case (rule, iif_name) of
        (Some ob, Some _) \<Rightarrow>
          if \<not> get_prop_flag (rule_prop_flags ob) MNLXT_RT_RULE_IIFNAME \<or> rule_iif_name ob = None
          then Some (1, iif_name, e)
          else
            map_option (\<lambda>out. (0, Some out, e))
              (Option.bind (Option.bind (rule_iif_name ob) (strs h)) stpncpy_name)
      | _ \<Rightarrow> Some (- 1, iif_name, EINVAL))"

definition mnlxt_rt_rule_set_oif_name ::
  "mnlxt_rt_rule_t option \<Rightarrow> string option \<Rightarrow> ('t, 'm, 'p) cheap \<Rightarrow> errno \<Rightarrow>
     (int \<times> mnlxt_rt_rule_t option \<times> ('t, 'm, 'p) cheap \<times> errno) option" where
  "mnlxt_rt_rule_set_oif_name rule oif_name h e =
     (case (rule, oif_name) of
        (Some ob, Some name) \<Rightarrow>
          (case strndup name (IF_NAMESIZE - 1) h of
             (None, h') \<Rightarrow> Some (- 1, Some ob, h', ENOMEM)
           | (Some iface, h') \<Rightarrow>
               map_option
                 (\<lambda>h''. (0, Some (ob\<lparr>rule_oif_name := Some iface,
                    rule_prop_flags := set_prop_flag (rule_prop_flags ob) MNLXT_RT_RULE_OIFNAME\<rparr>), h'', e))
                 (free_str_opt (rule_oif_name ob) h'))
      | _ \<Rightarrow> Some (- 1, rule, h, EINVAL))"

definition mnlxt_rt_rule_get_oif_name ::
  "mnlxt_rt_rule_t option \<Rightarrow> string option \<Rightarrow> ('t, 'm, 'p) cheap \<Rightarrow> errno \<Rightarrow>
     (int \<times> string option \<times> errno) option" where
  "mnlxt_rt_rule_get_oif_name rule oif_name h e =
     (case (rule, oif_name) of
        (Some ob, Some _) \<Rightarrow>
          if \<not> get_prop_flag (rule_prop_flags ob) MNLXT_RT_RULE_OIFNAME \<or> rule_oif_name ob = None
          then Some (1, oif_name, e)
          else
            map_option (\<lambda>out. (0, Some out, e))
              (Option.bind (Option.bind (rule_oif_name ob) (strs h)) stpncpy_name)
      | _ \<Rightarrow> Some (- 1, oif_name, EINVAL))"

definition mnlxt_rt_rule_set_fwmark ::
  "mnlxt_rt_rule_t option \<Rightarrow> u32 \<Rightarrow> errno \<Rightarrow> int \<times> mnlxt_rt_rule_t option \<times> errno" where
  "mnlxt_rt_rule_set_fwmark rule fwmark e = mnlxt_rt_rule_set_u32 rule MNLXT_RT_RULE_FWMARK fwmark e"

definition mnlxt_rt_rule_get_fwmark ::
  "mnlxt_rt_rule_t option \<Rightarrow> u32 \<Rightarrow> errno \<Rightarrow> int \<times> u32 \<times> errno" where
  "mnlxt_rt_rule_get_fwmark rule fwmark e = mnlxt_rt_rule_get_u32 rule MNLXT_RT_RULE_FWMARK fwmark e"

definition mnlxt_rt_rule_set_fwmask ::
  "mnlxt_rt_rule_t option \<Rightarrow> u32 \<Rightarrow> errno \<Rightarrow> int \<times> mnlxt_rt_rule_t option \<times> errno" where
  "mnlxt_rt_rule_set_fwmask rule fwmask e = mnlxt_rt_rule_set_u32 rule MNLXT_RT_RULE_FWMASK fwmask e"

definition mnlxt_rt_rule_get_fwmask ::
  "mnlxt_rt_rule_t option \<Rightarrow> u32 \<Rightarrow> errno \<Rightarrow> int \<times> u32 \<times> errno" where
  "mnlxt_rt_rule_get_fwmask rule fwmask e = mnlxt_rt_rule_get_u32 rule MNLXT_RT_RULE_FWMASK fwmask e"

section \<open>The object implements a map of its properties\<close>

definition rule_abs :: "mnlxt_rt_rule_t \<Rightarrow> (nat \<rightharpoonup> cval)" where
  "rule_abs ob i =
     (if rule_data i \<noteq> 0 \<and> bit (rule_prop_flags ob) i then Some (rule_load i ob) else None)"

lemma rule_data_bound: "rule_data i \<noteq> 0 \<Longrightarrow> i < MNLXT_RT_RULE_MAX"
  by (simp add: rule_data_def split: if_splits)

lemma rule_store_flags [simp]: "rule_prop_flags (rule_store i v ob) = rule_prop_flags ob"
  by (simp add: rule_store_def)

lemma rule_load_store:
  "rule_data i = csize v \<Longrightarrow> rule_load j (rule_store i v ob) = (if i = j then v else rule_load j ob)"
  by (auto simp: rule_data_def rule_store_def rule_load_def split: if_splits)

lemma rule_load_flags [simp]: "rule_load j (ob\<lparr>rule_prop_flags := w\<rparr>) = rule_load j ob"
  by (simp add: rule_load_def)

lemma rule_load_size: "rule_data i \<noteq> 0 \<Longrightarrow> csize (rule_load i ob) = rule_data i"
  by (simp add: rule_data_def rule_load_def split: if_splits)

interpretation rule_obj: prop_object mnlxt_rt_rule_set_ptr mnlxt_rt_rule_get_ptr rule_abs rule_data
proof (unfold_locales, goal_cases)
  case (1 i v ob e)
  then have "rule_data i \<noteq> 0" by simp
  with rule_data_bound [OF this] 1 show ?case
    by (auto simp: mnlxt_rt_rule_set_ptr_def rule_abs_def rule_load_store fun_eq_iff)
next
  case (2 i v ob e)
  then show ?case by (simp add: mnlxt_rt_rule_set_ptr_def)
next
  case (3 i v e)
  then show ?case by (simp add: mnlxt_rt_rule_set_ptr_def)
next
  case (4 i c ob e)
  then have "rule_data i \<noteq> 0" by simp
  with rule_data_bound [OF this] 4 show ?case
    by (simp add: mnlxt_rt_rule_get_ptr_def rule_abs_def)
next
  case (5 i c ob e)
  then show ?case by (simp add: mnlxt_rt_rule_get_ptr_def)
next
  case (6 i c e)
  then show ?case by (simp add: mnlxt_rt_rule_get_ptr_def)
qed

section \<open>Names: ownership, bounds, and what a clone shares\<close>

text \<open>
  The names of a rule are live strings of its own, short enough for every buffer that a getter
  writes; a name property is set exactly when its pointer is.
\<close>

definition rule_names_ok :: "('t, 'm, 'p) cheap \<Rightarrow> mnlxt_rt_rule_t \<Rightarrow> bool" where
  "rule_names_ok h r \<longleftrightarrow>
     (\<forall>q. rule_iif_name r = Some q \<longrightarrow> (\<exists>s. strs h q = Some s \<and> length s < IF_NAMESIZE)) \<and>
     (\<forall>q. rule_oif_name r = Some q \<longrightarrow> (\<exists>s. strs h q = Some s \<and> length s < IF_NAMESIZE)) \<and>
     (rule_iif_name r \<noteq> None \<longrightarrow> rule_iif_name r \<noteq> rule_oif_name r) \<and>
     (bit (rule_prop_flags r) MNLXT_RT_RULE_IIFNAME \<longleftrightarrow> rule_iif_name r \<noteq> None) \<and>
     (bit (rule_prop_flags r) MNLXT_RT_RULE_OIFNAME \<longleftrightarrow> rule_oif_name r \<noteq> None)"

lemma rule_names_ok_zero [simp]: "rule_names_ok h rule_zero"
  by (simp add: rule_names_ok_def rule_zero_def)

lemma rule_set_iif_name_cases:
  assumes names: "rule_names_ok h r" and ok: "heap_ok h"
  obtains (fail) h' where "mnlxt_rt_rule_set_iif_name (Some r) (Some name) h e = Some (- 1, Some r, h', ENOMEM)"
      "strs h' = strs h" "arrs h' = arrs h" "objs h' = objs h" "msgs h' = msgs h" "oom h' = oom h" "oom h (brk h)"
      "heap_ok h'"
  | (set) q h' where "mnlxt_rt_rule_set_iif_name (Some r) (Some name) h e = Some (0, Some (r\<lparr>rule_iif_name := Some q,
        rule_prop_flags := set_prop_flag (rule_prop_flags r) MNLXT_RT_RULE_IIFNAME\<rparr>), h', e)"
      "strs h' = ((strs h) |` (- set_option (rule_iif_name r)))(q \<mapsto> take 15 name)" "strs h q = None" "arrs h q = None"
      "arrs h' = arrs h" "objs h' = objs h" "msgs h' = msgs h" "oom h' = oom h" "heap_ok h'"
proof (rule replace_str [OF ok, of "rule_iif_name r" name 15])
  show "strs h p \<noteq> None" if "rule_iif_name r = Some p" for p
    using names that by (auto simp: rule_names_ok_def)
next
  fix h' assume "strndup name 15 h = (None, h')" "strs h' = strs h" "arrs h' = arrs h" "objs h' = objs h"
    "msgs h' = msgs h" "oom h' = oom h" "oom h (brk h)" "heap_ok h'"
  then show thesis by (intro fail) (simp_all add: mnlxt_rt_rule_set_iif_name_def)
next
  fix q h' h''
  assume "strndup name 15 h = (Some q, h')" "free_str_opt (rule_iif_name r) h' = Some h''"
    "strs h'' = ((strs h) |` (- set_option (rule_iif_name r)))(q \<mapsto> take 15 name)" "strs h q = None"
    "arrs h q = None" "arrs h'' = arrs h" "objs h'' = objs h" "msgs h'' = msgs h" "oom h'' = oom h" "heap_ok h''"
  then show thesis by (intro set) (simp_all add: mnlxt_rt_rule_set_iif_name_def)
qed

lemma rule_names_ok_iif:
  assumes "rule_names_ok h r" "strs h' = ((strs h) |` (- set_option (rule_iif_name r)))(q \<mapsto> take 15 name)"
    "strs h q = None"
  shows "rule_names_ok h' (r\<lparr>rule_iif_name := Some q,
      rule_prop_flags := set_prop_flag (rule_prop_flags r) MNLXT_RT_RULE_IIFNAME\<rparr>)"
proof -
  have l: "strs h' p = (if p = q then Some (take 15 name)
      else if rule_iif_name r = Some p then None else strs h p)" for p
    by (cases "rule_iif_name r") (auto simp: assms(2))
  have "rule_oif_name r \<noteq> Some q" using assms(1,3) by (auto simp: rule_names_ok_def)
  then show ?thesis using assms(1) by (cases "rule_oif_name r") (auto simp: rule_names_ok_def l)
qed

lemma rule_set_oif_name_cases:
  assumes names: "rule_names_ok h r" and ok: "heap_ok h"
  obtains (fail) h' where "mnlxt_rt_rule_set_oif_name (Some r) (Some name) h e = Some (- 1, Some r, h', ENOMEM)"
      "strs h' = strs h" "arrs h' = arrs h" "objs h' = objs h" "msgs h' = msgs h" "oom h' = oom h" "oom h (brk h)"
      "heap_ok h'"
  | (set) q h' where "mnlxt_rt_rule_set_oif_name (Some r) (Some name) h e = Some (0, Some (r\<lparr>rule_oif_name := Some q,
        rule_prop_flags := set_prop_flag (rule_prop_flags r) MNLXT_RT_RULE_OIFNAME\<rparr>), h', e)"
      "strs h' = ((strs h) |` (- set_option (rule_oif_name r)))(q \<mapsto> take 15 name)" "strs h q = None" "arrs h q = None"
      "arrs h' = arrs h" "objs h' = objs h" "msgs h' = msgs h" "oom h' = oom h" "heap_ok h'"
proof (rule replace_str [OF ok, of "rule_oif_name r" name 15])
  show "strs h p \<noteq> None" if "rule_oif_name r = Some p" for p
    using names that by (auto simp: rule_names_ok_def)
next
  fix h' assume "strndup name 15 h = (None, h')" "strs h' = strs h" "arrs h' = arrs h" "objs h' = objs h"
    "msgs h' = msgs h" "oom h' = oom h" "oom h (brk h)" "heap_ok h'"
  then show thesis by (intro fail) (simp_all add: mnlxt_rt_rule_set_oif_name_def)
next
  fix q h' h''
  assume "strndup name 15 h = (Some q, h')" "free_str_opt (rule_oif_name r) h' = Some h''"
    "strs h'' = ((strs h) |` (- set_option (rule_oif_name r)))(q \<mapsto> take 15 name)" "strs h q = None"
    "arrs h q = None" "arrs h'' = arrs h" "objs h'' = objs h" "msgs h'' = msgs h" "oom h'' = oom h" "heap_ok h''"
  then show thesis by (intro set) (simp_all add: mnlxt_rt_rule_set_oif_name_def)
qed

lemma rule_names_ok_oif:
  assumes "rule_names_ok h r" "strs h' = ((strs h) |` (- set_option (rule_oif_name r)))(q \<mapsto> take 15 name)"
    "strs h q = None"
  shows "rule_names_ok h' (r\<lparr>rule_oif_name := Some q,
      rule_prop_flags := set_prop_flag (rule_prop_flags r) MNLXT_RT_RULE_OIFNAME\<rparr>)"
proof -
  have l: "strs h' p = (if p = q then Some (take 15 name)
      else if rule_oif_name r = Some p then None else strs h p)" for p
    by (cases "rule_oif_name r") (auto simp: assms(2))
  have "rule_iif_name r \<noteq> Some q" using assms(1,3) by (auto simp: rule_names_ok_def)
  then show ?thesis using assms(1) by (cases "rule_iif_name r") (auto simp: rule_names_ok_def l)
qed

lemma rule_free_names_ok:
  assumes "rule_names_ok h r"
  shows "\<exists>h'. rule_free_names r h = Some h' \<and> msgs h' = msgs h \<and> objs h' = objs h \<and> arrs h' = arrs h \<and>
    strs h' = (strs h) |` (- (set_option (rule_iif_name r) \<union> set_option (rule_oif_name r)))"
  using assms
  by (cases "rule_iif_name r"; cases "rule_oif_name r")
    (auto simp: rule_free_names_def free_str_opt_def free_str_def rule_names_ok_def restrict_map_def fun_eq_iff)

lemma rule_get_iif_name_ok:
  assumes "rule_names_ok h r"
  shows "mnlxt_rt_rule_get_iif_name (Some r) (Some out) h e =
    Some (case Option.bind (rule_iif_name r) (strs h) of None \<Rightarrow> (1, Some out, e) | Some s \<Rightarrow> (0, Some s, e))"
  using assms
  by (cases "rule_iif_name r") (auto simp: mnlxt_rt_rule_get_iif_name_def rule_names_ok_def stpncpy_name_def)

lemma rule_get_oif_name_ok:
  assumes "rule_names_ok h r"
  shows "mnlxt_rt_rule_get_oif_name (Some r) (Some out) h e =
    Some (case Option.bind (rule_oif_name r) (strs h) of None \<Rightarrow> (1, Some out, e) | Some s \<Rightarrow> (0, Some s, e))"
  using assms
  by (cases "rule_oif_name r") (auto simp: mnlxt_rt_rule_get_oif_name_def rule_names_ok_def stpncpy_name_def)

section \<open>Rules built by the public setters\<close>

abbreviation rule_has :: "mnlxt_rt_rule_t \<Rightarrow> nat \<Rightarrow> bool" where
  "rule_has r i \<equiv> bit (rule_prop_flags r) i"

definition rule_inv :: "mnlxt_rt_rule_t \<Rightarrow> bool" where
  "rule_inv r \<longleftrightarrow>
     inet_ok (rule_src r) \<and> inet_ok (rule_dst r) \<and>
     (rule_has r MNLXT_RT_RULE_FAMILY \<longrightarrow> rule_family r = AF_INET \<or> rule_family r = AF_INET6) \<and>
     (rule_has r MNLXT_RT_RULE_SRC \<or> rule_has r MNLXT_RT_RULE_DST \<longrightarrow> rule_has r MNLXT_RT_RULE_FAMILY)"

definition rule_ext :: "mnlxt_rt_rule_t \<Rightarrow> mnlxt_rt_rule_t \<Rightarrow> bool" where
  "rule_ext r r' \<longleftrightarrow> (\<forall>i. rule_has r i \<longrightarrow> rule_has r' i) \<and>
     (rule_has r MNLXT_RT_RULE_FAMILY \<longrightarrow> rule_family r' = rule_family r)"

text \<open>The names, as far as \<open>rule_names_ok\<close> reads a rule.\<close>

definition same_names :: "mnlxt_rt_rule_t \<Rightarrow> mnlxt_rt_rule_t \<Rightarrow> bool" where
  "same_names r r' \<longleftrightarrow> rule_iif_name r' = rule_iif_name r \<and> rule_oif_name r' = rule_oif_name r \<and>
     (\<forall>i \<in> {MNLXT_RT_RULE_IIFNAME, MNLXT_RT_RULE_OIFNAME}. rule_has r' i = rule_has r i)"

lemma rule_names_ok_same: "same_names r r' \<Longrightarrow> rule_names_ok h r' = rule_names_ok h r"
  by (simp add: rule_names_ok_def same_names_def)

lemma rule_ext_refl [simp]: "rule_ext r r"
  by (simp add: rule_ext_def)

lemma rule_ext_trans: "rule_ext r s \<Longrightarrow> rule_ext s t \<Longrightarrow> rule_ext r t"
  by (simp add: rule_ext_def)

lemma same_names_refl [simp]: "same_names r r"
  by (simp add: same_names_def)

lemma rule_inv_zero: "rule_inv rule_zero"
  by (simp add: rule_inv_def rule_zero_def)

text \<open>What a setter of a plain value does to a rule.\<close>

definition rule_keeps :: "mnlxt_rt_rule_t \<Rightarrow> mnlxt_rt_rule_t \<Rightarrow> bool" where
  "rule_keeps r r' \<longleftrightarrow> (rule_inv r \<longrightarrow> rule_inv r') \<and> rule_ext r r' \<and> same_names r r'"

lemma rule_keeps_refl [simp]: "rule_keeps r r"
  by (simp add: rule_keeps_def)

lemma rule_keeps_trans: "rule_keeps r s \<Longrightarrow> rule_keeps s t \<Longrightarrow> rule_keeps r t"
  by (simp add: rule_keeps_def same_names_def) (blast intro: rule_ext_trans)

lemma rule_set_ptr_keeps:
  assumes "mnlxt_rt_rule_set_ptr (Some r) i v e = (rc, Some r', e')" "i \<noteq> MNLXT_RT_RULE_FAMILY"
  shows "rule_keeps r r'"
proof (cases "rule_data i = csize v")
  case True
  then have nz: "rule_data i \<noteq> 0" by simp
  note i = rule_data_bound [OF nz] nz
  with assms True have r': "r' = rule_store i v (r\<lparr>rule_prop_flags := set_prop_flag (rule_prop_flags r) i\<rparr>)"
    by (simp add: mnlxt_rt_rule_set_ptr_def)
  from i(2) assms(2) have "i \<notin> {MNLXT_RT_RULE_SRC, MNLXT_RT_RULE_DST, MNLXT_RT_RULE_IIFNAME, MNLXT_RT_RULE_OIFNAME}"
    by (auto simp: rule_data_def)
  with assms(2) show ?thesis
    unfolding r' by (simp add: rule_keeps_def rule_inv_def rule_ext_def same_names_def rule_store_def)
next
  case False
  with assms show ?thesis by (simp add: mnlxt_rt_rule_set_ptr_def)
qed

lemma rule_set_family_keeps:
  assumes "mnlxt_rt_rule_set_family (Some r) f e = (rc, Some r', e')"
  shows "rule_keeps r r' \<and>
    (rc = 0 \<longrightarrow> rule_has r' MNLXT_RT_RULE_FAMILY \<and> rule_family r' = f \<and> (f = AF_INET \<or> f = AF_INET6)) \<and>
    (rc \<noteq> 0 \<longrightarrow> r' = r)"
  using assms
  by (auto simp: mnlxt_rt_rule_set_family_def rule_keeps_def rule_inv_def rule_ext_def same_names_def split: if_splits)

lemma rule_set_family_never_null: "\<exists>rc r' e'. mnlxt_rt_rule_set_family (Some r) f e = (rc, Some r', e')"
  by (auto simp: mnlxt_rt_rule_set_family_def)

lemma rule_addr_stored:
  assumes "rule_has r MNLXT_RT_RULE_FAMILY" "inet_ok a"
  shows "rule_keeps r (r\<lparr>rule_src := a,
      rule_prop_flags := set_prop_flag (rule_prop_flags r) MNLXT_RT_RULE_SRC\<rparr>)"
    and "rule_keeps r (r\<lparr>rule_dst := a,
      rule_prop_flags := set_prop_flag (rule_prop_flags r) MNLXT_RT_RULE_DST\<rparr>)"
  using assms by (simp_all add: rule_keeps_def rule_inv_def rule_ext_def same_names_def)

lemma rule_set_src_keeps:
  assumes "inet_ok a" "mnlxt_rt_rule_set_src (Some r) f (Some a) e = (rc, Some r', e')"
  shows "rule_keeps r r'"
proof -
  obtain rc1 r1 e1 where s: "mnlxt_rt_rule_set_family (Some r) f e = (rc1, Some r1, e1)"
    using rule_set_family_never_null by blast
  from assms(2) have r': "r' = (if rc1 = 0 then r1\<lparr>rule_src := a,
      rule_prop_flags := set_prop_flag (rule_prop_flags r1) MNLXT_RT_RULE_SRC\<rparr> else r1)"
    by (simp add: s mnlxt_rt_rule_set_src_def split: if_splits)
  show ?thesis
    using rule_set_family_keeps [OF s] rule_addr_stored(1) [of r1 a] assms(1) rule_keeps_trans
    unfolding r' by (cases "rc1 = 0") auto
qed

lemma rule_set_dst_keeps:
  assumes "inet_ok a" "mnlxt_rt_rule_set_dst (Some r) f (Some a) e = (rc, Some r', e')"
  shows "rule_keeps r r'"
proof -
  obtain rc1 r1 e1 where s: "mnlxt_rt_rule_set_family (Some r) f e = (rc1, Some r1, e1)"
    using rule_set_family_never_null by blast
  from assms(2) have r': "r' = (if rc1 = 0 then r1\<lparr>rule_dst := a,
      rule_prop_flags := set_prop_flag (rule_prop_flags r1) MNLXT_RT_RULE_DST\<rparr> else r1)"
    by (simp add: s mnlxt_rt_rule_set_dst_def split: if_splits)
  show ?thesis
    using rule_set_family_keeps [OF s] rule_addr_stored(2) [of r1 a] assms(1) rule_keeps_trans
    unfolding r' by (cases "rc1 = 0") auto
qed

text \<open>
  One call of a public setter, with any arguments, on a rule and the heap that holds its names, and
  the rules that such calls build from a new one.
\<close>

inductive rule_api ::
  "mnlxt_rt_rule_t \<times> ('t, 'm, 'p) cheap \<Rightarrow> mnlxt_rt_rule_t \<times> ('t, 'm, 'p) cheap \<Rightarrow> bool" where
  family: "mnlxt_rt_rule_set_family (Some r) f e = (rc, Some r', e') \<Longrightarrow> rule_api (r, h) (r', h)"
| src_prefix: "mnlxt_rt_rule_set_src_prefix (Some r) x e = (rc, Some r', e') \<Longrightarrow> rule_api (r, h) (r', h)"
| dst_prefix: "mnlxt_rt_rule_set_dst_prefix (Some r) x e = (rc, Some r', e') \<Longrightarrow> rule_api (r, h) (r', h)"
| src: "inet_ok a \<Longrightarrow> mnlxt_rt_rule_set_src (Some r) f (Some a) e = (rc, Some r', e') \<Longrightarrow> rule_api (r, h) (r', h)"
| dst: "inet_ok a \<Longrightarrow> mnlxt_rt_rule_set_dst (Some r) f (Some a) e = (rc, Some r', e') \<Longrightarrow> rule_api (r, h) (r', h)"
| table: "mnlxt_rt_rule_set_table (Some r) x e = (rc, Some r', e') \<Longrightarrow> rule_api (r, h) (r', h)"
| tos: "mnlxt_rt_rule_set_tos (Some r) x e = (rc, Some r', e') \<Longrightarrow> rule_api (r, h) (r', h)"
| action: "mnlxt_rt_rule_set_action (Some r) x e = (rc, Some r', e') \<Longrightarrow> rule_api (r, h) (r', h)"
| priority: "mnlxt_rt_rule_set_priority (Some r) y e = (rc, Some r', e') \<Longrightarrow> rule_api (r, h) (r', h)"
| fwmark: "mnlxt_rt_rule_set_fwmark (Some r) y e = (rc, Some r', e') \<Longrightarrow> rule_api (r, h) (r', h)"
| fwmask: "mnlxt_rt_rule_set_fwmask (Some r) y e = (rc, Some r', e') \<Longrightarrow> rule_api (r, h) (r', h)"
| iif_name: "mnlxt_rt_rule_set_iif_name (Some r) (Some name) h e = Some (rc, Some r', h', e') \<Longrightarrow>
    rule_api (r, h) (r', h')"
| oif_name: "mnlxt_rt_rule_set_oif_name (Some r) (Some name) h e = Some (rc, Some r', h', e') \<Longrightarrow>
    rule_api (r, h) (r', h')"

inductive rule_reach :: "mnlxt_rt_rule_t \<times> ('t, 'm, 'p) cheap \<Rightarrow> bool" where
  new: "heap_ok h \<Longrightarrow> rule_reach (rule_zero, h)"
| call: "rule_reach s \<Longrightarrow> rule_api s s' \<Longrightarrow> rule_reach s'"

definition rule_wf :: "mnlxt_rt_rule_t \<times> ('t, 'm, 'p) cheap \<Rightarrow> bool" where
  "rule_wf s \<longleftrightarrow> rule_inv (fst s) \<and> rule_names_ok (snd s) (fst s) \<and> heap_ok (snd s)"

lemma rule_keeps_wf: "rule_keeps r r' \<Longrightarrow> rule_wf (r, h) \<Longrightarrow> rule_wf (r', h) \<and> rule_ext r r'"
  using rule_names_ok_same [of r r' h] by (simp add: rule_keeps_def rule_wf_def)

lemma rule_inv_names [simp]:
  "rule_inv (r\<lparr>rule_iif_name := p, rule_prop_flags := set_prop_flag (rule_prop_flags r) MNLXT_RT_RULE_IIFNAME\<rparr>) = rule_inv r"
  "rule_inv (r\<lparr>rule_oif_name := p, rule_prop_flags := set_prop_flag (rule_prop_flags r) MNLXT_RT_RULE_OIFNAME\<rparr>) = rule_inv r"
  "rule_ext r (r\<lparr>rule_iif_name := p, rule_prop_flags := set_prop_flag (rule_prop_flags r) MNLXT_RT_RULE_IIFNAME\<rparr>)"
  "rule_ext r (r\<lparr>rule_oif_name := p, rule_prop_flags := set_prop_flag (rule_prop_flags r) MNLXT_RT_RULE_OIFNAME\<rparr>)"
  by (simp_all add: rule_inv_def rule_ext_def)

lemma rule_set_iif_name_wf:
  assumes wf: "rule_wf (r, h)"
    and set: "mnlxt_rt_rule_set_iif_name (Some r) (Some name) h e = Some (rc, Some r', h', e')"
  shows "rule_wf (r', h') \<and> rule_ext r r'"
proof -
  from wf have ok: "rule_names_ok h r" "heap_ok h" "rule_inv r" by (simp_all add: rule_wf_def)
  from ok(1,2) show ?thesis
  proof (cases rule: rule_set_iif_name_cases [of _ _ name e])
    case (fail h1)
    with set ok show ?thesis by (simp add: rule_wf_def rule_names_ok_def)
  next
    case (set q h1)
    with \<open>_ = Some (rc, Some r', h', e')\<close> ok rule_names_ok_iif [OF ok(1) set(2,3)] show ?thesis
      by (auto simp: rule_wf_def)
  qed
qed

lemma rule_set_oif_name_wf:
  assumes wf: "rule_wf (r, h)"
    and set: "mnlxt_rt_rule_set_oif_name (Some r) (Some name) h e = Some (rc, Some r', h', e')"
  shows "rule_wf (r', h') \<and> rule_ext r r'"
proof -
  from wf have ok: "rule_names_ok h r" "heap_ok h" "rule_inv r" by (simp_all add: rule_wf_def)
  from ok(1,2) show ?thesis
  proof (cases rule: rule_set_oif_name_cases [of _ _ name e])
    case (fail h1)
    with set ok show ?thesis by (simp add: rule_wf_def rule_names_ok_def)
  next
    case (set q h1)
    with \<open>_ = Some (rc, Some r', h', e')\<close> ok rule_names_ok_oif [OF ok(1) set(2,3)] show ?thesis
      by (auto simp: rule_wf_def)
  qed
qed

lemmas rule_simple_setters [setter_defs] =
  mnlxt_rt_rule_set_src_prefix_def mnlxt_rt_rule_set_dst_prefix_def mnlxt_rt_rule_set_table_def
  mnlxt_rt_rule_set_tos_def mnlxt_rt_rule_set_action_def mnlxt_rt_rule_set_priority_def
  mnlxt_rt_rule_set_fwmark_def mnlxt_rt_rule_set_fwmask_def mnlxt_rt_rule_set_u8_def mnlxt_rt_rule_set_u32_def

lemma rule_api_wf: "rule_api s s' \<Longrightarrow> rule_wf s \<Longrightarrow> rule_wf s' \<and> rule_ext (fst s) (fst s')"
proof (induction rule: rule_api.induct)
  case (family r f e rc r' e' h)
  then show ?case using rule_set_family_keeps rule_keeps_wf by fastforce
next
  case (src a r f e rc r' e' h)
  then show ?case using rule_set_src_keeps rule_keeps_wf by fastforce
next
  case (dst a r f e rc r' e' h)
  then show ?case using rule_set_dst_keeps rule_keeps_wf by fastforce
next
  case (iif_name r name h e rc r' h' e')
  then show ?case using rule_set_iif_name_wf by fastforce
next
  case (oif_name r name h e rc r' h' e')
  then show ?case using rule_set_oif_name_wf by fastforce
qed (simp_all only: fst_conv, (unfold setter_defs, (rule rule_keeps_wf, erule rule_set_ptr_keeps, simp, assumption)+))

lemma rule_reach_wf: "rule_reach s \<Longrightarrow> rule_wf s"
  by (induction rule: rule_reach.induct) (auto simp: rule_wf_def rule_inv_zero dest: rule_api_wf)

section \<open>A copy shares its names\<close>

text \<open>
  \<open>mnlxt_rt_rule_clone\<close> copies the struct with its pointers: when both objects are freed, a name is freed twice.
\<close>

lemma rule_clone_double_free:
  assumes clone: "mnlxt_rt_rule_clone mem (Some s) flt e = (Some d, e')" "flt \<noteq> 0"
    and name: "rule_iif_name s \<noteq> None \<or> rule_oif_name s \<noteq> None" and free: "rule_free_names s h = Some h'"
  shows "rule_free_names d h' = None"
proof -
  from clone have d: "rule_iif_name d = rule_iif_name s" "rule_oif_name d = rule_oif_name s"
    by (auto simp: mnlxt_rt_rule_clone_def split: option.splits prod.splits)
  from free have "strs h' q = None" if "rule_iif_name s = Some q \<or> rule_oif_name s = Some q" for q
    using that by (auto simp: rule_free_names_def free_str_opt_def free_str_def split: option.splits if_splits)
  with d name show ?thesis
    by (cases "rule_iif_name s"; cases "rule_oif_name s") (auto simp: rule_free_names_def free_str_opt_def free_str_def)
qed

end
