(* ===== verification/Addr.thy ===== *)
theory Addr
  imports Props Inet CHeap
begin

text \<open>
  src/rtnl/addr.c with the enumeration and the struct of include/libmnlxt/rt_addr.h: the interface
  address object. Its label is a string that the object owns on the heap of CHeap; the clone of an
  address gets a copy of it. \<open>addr_obj\<close> interprets the map contract of Props for the plain members.
\<close>

section \<open>The address object\<close>

abbreviation MNLXT_RT_ADDR_FAMILY :: nat where "MNLXT_RT_ADDR_FAMILY \<equiv> 0"
abbreviation MNLXT_RT_ADDR_PREFIXLEN :: nat where "MNLXT_RT_ADDR_PREFIXLEN \<equiv> 1"
abbreviation MNLXT_RT_ADDR_FLAGS :: nat where "MNLXT_RT_ADDR_FLAGS \<equiv> 2"
abbreviation MNLXT_RT_ADDR_SCOPE :: nat where "MNLXT_RT_ADDR_SCOPE \<equiv> 3"
abbreviation MNLXT_RT_ADDR_IFINDEX :: nat where "MNLXT_RT_ADDR_IFINDEX \<equiv> 4"
abbreviation MNLXT_RT_ADDR_ADDR :: nat where "MNLXT_RT_ADDR_ADDR \<equiv> 5"
abbreviation MNLXT_RT_ADDR_LOCAL :: nat where "MNLXT_RT_ADDR_LOCAL \<equiv> 6"
abbreviation MNLXT_RT_ADDR_LABEL :: nat where "MNLXT_RT_ADDR_LABEL \<equiv> 7"
abbreviation MNLXT_RT_ADDR_CACHEINFO :: nat where "MNLXT_RT_ADDR_CACHEINFO \<equiv> 8"
abbreviation MNLXT_RT_ADDR_MAX :: nat where "MNLXT_RT_ADDR_MAX \<equiv> MNLXT_RT_ADDR_CACHEINFO + 1"

text \<open>\<open>struct ifa_cacheinfo\<close> of the kernel's interface.\<close>

record ifa_cacheinfo =
  ifa_prefered :: u32
  ifa_valid :: u32
  cstamp :: u32
  tstamp :: u32

record mnlxt_rt_addr_t =
  addr_prop_flags :: u16
  addr_family :: u8
  addr_prefixlen :: u8
  addr_flags :: u32
  addr_scope :: u8
  addr_if_index :: u32
  addr_addr :: mnlxt_inet_addr_t
  addr_local :: mnlxt_inet_addr_t
  addr_label :: "ptr option"
  addr_cacheinfo :: ifa_cacheinfo

definition MNLXT_RT_ADDR_LIFE_TIME_INFINITY :: u32 where
  "MNLXT_RT_ADDR_LIFE_TIME_INFINITY = 0xFFFFFFFF"

definition cacheinfo_zero :: ifa_cacheinfo where
  "cacheinfo_zero = \<lparr>ifa_prefered = 0, ifa_valid = 0, cstamp = 0, tstamp = 0\<rparr>"

definition addr_zero :: mnlxt_rt_addr_t where
  "addr_zero = \<lparr>addr_prop_flags = 0, addr_family = 0, addr_prefixlen = 0, addr_flags = 0,
     addr_scope = 0, addr_if_index = 0, addr_addr = inet_zero, addr_local = inet_zero,
     addr_label = None, addr_cacheinfo = cacheinfo_zero\<rparr>"

definition addr_data :: "nat \<Rightarrow> nat" where
  "addr_data data =
     (if data = MNLXT_RT_ADDR_FAMILY then 1
      else if data = MNLXT_RT_ADDR_PREFIXLEN then 1
      else if data = MNLXT_RT_ADDR_FLAGS then 4
      else if data = MNLXT_RT_ADDR_SCOPE then 1
      else if data = MNLXT_RT_ADDR_IFINDEX then 4
      else 0)"

definition addr_store :: "nat \<Rightarrow> cval \<Rightarrow> mnlxt_rt_addr_t \<Rightarrow> mnlxt_rt_addr_t" where
  "addr_store data v ob =
     (if data = MNLXT_RT_ADDR_FAMILY then ob\<lparr>addr_family := un_U8 v\<rparr>
      else if data = MNLXT_RT_ADDR_PREFIXLEN then ob\<lparr>addr_prefixlen := un_U8 v\<rparr>
      else if data = MNLXT_RT_ADDR_FLAGS then ob\<lparr>addr_flags := un_U32 v\<rparr>
      else if data = MNLXT_RT_ADDR_SCOPE then ob\<lparr>addr_scope := un_U8 v\<rparr>
      else if data = MNLXT_RT_ADDR_IFINDEX then ob\<lparr>addr_if_index := un_U32 v\<rparr>
      else ob)"

definition addr_load :: "nat \<Rightarrow> mnlxt_rt_addr_t \<Rightarrow> cval" where
  "addr_load data ob =
     (if data = MNLXT_RT_ADDR_FAMILY then U8 (addr_family ob)
      else if data = MNLXT_RT_ADDR_PREFIXLEN then U8 (addr_prefixlen ob)
      else if data = MNLXT_RT_ADDR_FLAGS then U32 (addr_flags ob)
      else if data = MNLXT_RT_ADDR_SCOPE then U8 (addr_scope ob)
      else if data = MNLXT_RT_ADDR_IFINDEX then U32 (addr_if_index ob)
      else U8 0)"

section \<open>Creation, cloning and release\<close>

definition mnlxt_rt_addr_new :: "bool \<Rightarrow> errno \<Rightarrow> mnlxt_rt_addr_t option \<times> errno" where
  "mnlxt_rt_addr_new mem e =
     (if mem
      then (Some (addr_zero\<lparr>addr_cacheinfo := cacheinfo_zero
              \<lparr>ifa_prefered := MNLXT_RT_ADDR_LIFE_TIME_INFINITY,
               ifa_valid := MNLXT_RT_ADDR_LIFE_TIME_INFINITY\<rparr>\<rparr>), e)
      else (None, ENOMEM))"

text \<open>
  The clone: the label is copied first when the filter keeps it, the struct is copied only if the
  filter keeps anything, and a label that no struct took over is freed at the end.
\<close>

definition mnlxt_rt_addr_clone ::
  "bool \<Rightarrow> mnlxt_rt_addr_t option \<Rightarrow> u64 \<Rightarrow> ('t, 'm, 'p) cheap \<Rightarrow> errno \<Rightarrow>
     (mnlxt_rt_addr_t option \<times> ('t, 'm, 'p) cheap \<times> errno) option" where
  "mnlxt_rt_addr_clone mem src flt h e =
     (case src of None \<Rightarrow> Some (None, h, EINVAL)
      | Some s \<Rightarrow>
          (let prop_flags = ucast (addr_prop_flags s) AND flt;
               wants = prop_flags AND MNLXT_FLAG MNLXT_RT_ADDR_LABEL \<noteq> 0 \<and> addr_label s \<noteq> None
           in do {
             (label, h1) \<leftarrow> (if wants then strdup (the (addr_label s)) h else Some (None, h));
             (if wants \<and> label = None then Some (None, h1, ENOMEM)
              else
                (case mnlxt_rt_addr_new mem e of
                   (None, e') \<Rightarrow> map_option (\<lambda>h2. (None, h2, e')) (free_str_opt label h1)
                 | (Some dst, e') \<Rightarrow>
                     if prop_flags \<noteq> 0 then
                       Some (Some (s\<lparr>addr_label := label, addr_prop_flags := ucast prop_flags\<rparr>), h1, e')
                     else map_option (\<lambda>h2. (Some dst, h2, e')) (free_str_opt label h1)))
           }))"

text \<open>What \<open>mnlxt_rt_addr_free\<close> releases before the struct itself.\<close>

definition addr_free_label ::
  "mnlxt_rt_addr_t \<Rightarrow> ('t, 'm, 'p) cheap \<Rightarrow> ('t, 'm, 'p) cheap option" where
  "addr_free_label addr h = free_str_opt (addr_label addr) h"

section \<open>Generic access\<close>

definition mnlxt_rt_addr_set_ptr ::
  "mnlxt_rt_addr_t option \<Rightarrow> nat \<Rightarrow> cval \<Rightarrow> errno \<Rightarrow> int \<times> mnlxt_rt_addr_t option \<times> errno" where
  "mnlxt_rt_addr_set_ptr addr data ptr e =
     (case addr of None \<Rightarrow> (- 1, None, EINVAL)
      | Some ob \<Rightarrow>
          if MNLXT_RT_ADDR_MAX \<le> data \<or> addr_data data \<noteq> csize ptr \<or> addr_data data = 0
          then (- 1, Some ob, EINVAL)
          else (0, Some (addr_store data ptr
                  (ob\<lparr>addr_prop_flags := set_prop_flag (addr_prop_flags ob) data\<rparr>)), e))"

definition mnlxt_rt_addr_set_u32 ::
  "mnlxt_rt_addr_t option \<Rightarrow> nat \<Rightarrow> u32 \<Rightarrow> errno \<Rightarrow> int \<times> mnlxt_rt_addr_t option \<times> errno" where
  "mnlxt_rt_addr_set_u32 addr data x e = mnlxt_rt_addr_set_ptr addr data (U32 x) e"

definition mnlxt_rt_addr_set_u8 ::
  "mnlxt_rt_addr_t option \<Rightarrow> nat \<Rightarrow> u8 \<Rightarrow> errno \<Rightarrow> int \<times> mnlxt_rt_addr_t option \<times> errno" where
  "mnlxt_rt_addr_set_u8 addr data x e = mnlxt_rt_addr_set_ptr addr data (U8 x) e"

definition mnlxt_rt_addr_get_ptr ::
  "mnlxt_rt_addr_t option \<Rightarrow> nat \<Rightarrow> cval \<Rightarrow> errno \<Rightarrow> int \<times> cval \<times> errno" where
  "mnlxt_rt_addr_get_ptr addr data ptr e =
     (case addr of None \<Rightarrow> (- 1, ptr, EINVAL)
      | Some ob \<Rightarrow>
          if MNLXT_RT_ADDR_MAX \<le> data \<or> addr_data data \<noteq> csize ptr \<or> addr_data data = 0
          then (- 1, ptr, EINVAL)
          else if \<not> get_prop_flag (addr_prop_flags ob) data then (1, ptr, e)
          else (0, addr_load data ob, e))"

definition mnlxt_rt_addr_get_u32 ::
  "mnlxt_rt_addr_t option \<Rightarrow> nat \<Rightarrow> u32 \<Rightarrow> errno \<Rightarrow> int \<times> u32 \<times> errno" where
  "mnlxt_rt_addr_get_u32 addr data p e =
     (case mnlxt_rt_addr_get_ptr addr data (U32 p) e of (rc, v, e') \<Rightarrow> (rc, un_U32 v, e'))"

definition mnlxt_rt_addr_get_u8 ::
  "mnlxt_rt_addr_t option \<Rightarrow> nat \<Rightarrow> u8 \<Rightarrow> errno \<Rightarrow> int \<times> u8 \<times> errno" where
  "mnlxt_rt_addr_get_u8 addr data p e =
     (case mnlxt_rt_addr_get_ptr addr data (U8 p) e of (rc, v, e') \<Rightarrow> (rc, un_U8 v, e'))"

section \<open>Setters and getters\<close>

definition mnlxt_rt_addr_set_family ::
  "mnlxt_rt_addr_t option \<Rightarrow> u8 \<Rightarrow> errno \<Rightarrow> int \<times> mnlxt_rt_addr_t option \<times> errno" where
  "mnlxt_rt_addr_set_family addr family e =
     (case addr of None \<Rightarrow> (- 1, None, EINVAL)
      | Some ob \<Rightarrow>
          if AF_INET \<noteq> family \<and> AF_INET6 \<noteq> family then (- 1, Some ob, EAFNOSUPPORT)
          else if get_prop_flag (addr_prop_flags ob) MNLXT_RT_ADDR_FAMILY then
            if family = addr_family ob then (0, Some ob, e) else (- 1, Some ob, EINVAL)
          else (0, Some (ob\<lparr>addr_family := family,
                  addr_prop_flags := set_prop_flag (addr_prop_flags ob) MNLXT_RT_ADDR_FAMILY\<rparr>), e))"

definition mnlxt_rt_addr_get_family ::
  "mnlxt_rt_addr_t option \<Rightarrow> u8 \<Rightarrow> errno \<Rightarrow> int \<times> u8 \<times> errno" where
  "mnlxt_rt_addr_get_family addr family e = mnlxt_rt_addr_get_u8 addr MNLXT_RT_ADDR_FAMILY family e"

definition mnlxt_rt_addr_set_prefixlen ::
  "mnlxt_rt_addr_t option \<Rightarrow> u8 \<Rightarrow> errno \<Rightarrow> int \<times> mnlxt_rt_addr_t option \<times> errno" where
  "mnlxt_rt_addr_set_prefixlen addr prefixlen e = mnlxt_rt_addr_set_u8 addr MNLXT_RT_ADDR_PREFIXLEN prefixlen e"

definition mnlxt_rt_addr_get_prefixlen ::
  "mnlxt_rt_addr_t option \<Rightarrow> u8 \<Rightarrow> errno \<Rightarrow> int \<times> u8 \<times> errno" where
  "mnlxt_rt_addr_get_prefixlen addr prefixlen e = mnlxt_rt_addr_get_u8 addr MNLXT_RT_ADDR_PREFIXLEN prefixlen e"

definition mnlxt_rt_addr_set_flags ::
  "mnlxt_rt_addr_t option \<Rightarrow> u32 \<Rightarrow> errno \<Rightarrow> int \<times> mnlxt_rt_addr_t option \<times> errno" where
  "mnlxt_rt_addr_set_flags addr flags e = mnlxt_rt_addr_set_u32 addr MNLXT_RT_ADDR_FLAGS flags e"

definition mnlxt_rt_addr_get_flags ::
  "mnlxt_rt_addr_t option \<Rightarrow> u32 \<Rightarrow> errno \<Rightarrow> int \<times> u32 \<times> errno" where
  "mnlxt_rt_addr_get_flags addr flags e = mnlxt_rt_addr_get_u32 addr MNLXT_RT_ADDR_FLAGS flags e"

definition mnlxt_rt_addr_set_scope ::
  "mnlxt_rt_addr_t option \<Rightarrow> u8 \<Rightarrow> errno \<Rightarrow> int \<times> mnlxt_rt_addr_t option \<times> errno" where
  "mnlxt_rt_addr_set_scope addr scope e = mnlxt_rt_addr_set_u8 addr MNLXT_RT_ADDR_SCOPE scope e"

definition mnlxt_rt_addr_get_scope ::
  "mnlxt_rt_addr_t option \<Rightarrow> u8 \<Rightarrow> errno \<Rightarrow> int \<times> u8 \<times> errno" where
  "mnlxt_rt_addr_get_scope addr scope e = mnlxt_rt_addr_get_u8 addr MNLXT_RT_ADDR_SCOPE scope e"

definition mnlxt_rt_addr_set_ifindex ::
  "mnlxt_rt_addr_t option \<Rightarrow> u32 \<Rightarrow> errno \<Rightarrow> int \<times> mnlxt_rt_addr_t option \<times> errno" where
  "mnlxt_rt_addr_set_ifindex addr if_index e = mnlxt_rt_addr_set_u32 addr MNLXT_RT_ADDR_IFINDEX if_index e"

definition mnlxt_rt_addr_get_ifindex ::
  "mnlxt_rt_addr_t option \<Rightarrow> u32 \<Rightarrow> errno \<Rightarrow> int \<times> u32 \<times> errno" where
  "mnlxt_rt_addr_get_ifindex addr if_index e = mnlxt_rt_addr_get_u32 addr MNLXT_RT_ADDR_IFINDEX if_index e"

text \<open>An IPv4 address is its own local address until one is set.\<close>

definition mnlxt_rt_addr_set_addr ::
  "mnlxt_rt_addr_t option \<Rightarrow> u8 \<Rightarrow> mnlxt_inet_addr_t option \<Rightarrow> errno \<Rightarrow>
     int \<times> mnlxt_rt_addr_t option \<times> errno" where
  "mnlxt_rt_addr_set_addr addr family buf e =
     (case (addr, buf) of
        (Some _, Some b) \<Rightarrow>
          (case mnlxt_rt_addr_set_family addr family e of
             (rc, Some ob, e') \<Rightarrow>
               if rc = 0 then
                 (let ob1 =
                    (if AF_INET = family then
                       (let ob0 =
                          (if \<not> get_prop_flag (addr_prop_flags ob) MNLXT_RT_ADDR_LOCAL then
                             ob\<lparr>addr_prop_flags := set_prop_flag (addr_prop_flags ob) MNLXT_RT_ADDR_LOCAL,
                                addr_local := set_in b (addr_local ob)\<rparr>
                           else ob)
                        in ob0\<lparr>addr_addr := set_in b (addr_addr ob0)\<rparr>)
                     else ob\<lparr>addr_addr := b\<rparr>)
                  in (rc, Some (ob1\<lparr>addr_prop_flags :=
                        set_prop_flag (addr_prop_flags ob1) MNLXT_RT_ADDR_ADDR\<rparr>), e'))
               else (rc, Some ob, e')
           | (rc, None, e') \<Rightarrow> (rc, None, e'))
      | _ \<Rightarrow> (- 1, addr, EINVAL))"

definition mnlxt_rt_addr_get_addr ::
  "mnlxt_rt_addr_t option \<Rightarrow> u8 option \<Rightarrow> mnlxt_inet_addr_t option \<Rightarrow> errno \<Rightarrow>
     int \<times> u8 option \<times> mnlxt_inet_addr_t option \<times> errno" where
  "mnlxt_rt_addr_get_addr addr family buf e =
     (case (addr, buf) of
        (Some ob, Some _) \<Rightarrow>
          if \<not> get_prop_flag (addr_prop_flags ob) MNLXT_RT_ADDR_ADDR then (1, family, buf, e)
          else (0, map_option (\<lambda>_. addr_family ob) family, Some (addr_addr ob), e)
      | _ \<Rightarrow> (- 1, family, buf, EINVAL))"

text \<open>
  The code does not compare \<open>buf\<close> with NULL here: \<open>None\<close> is the read through a NULL
  pointer. For IPv4 it assigns the member \<open>addr\<close>, not \<open>addr_local\<close>.
\<close>

definition mnlxt_rt_addr_set_local ::
  "mnlxt_rt_addr_t option \<Rightarrow> u8 \<Rightarrow> mnlxt_inet_addr_t option \<Rightarrow> errno \<Rightarrow>
     (int \<times> mnlxt_rt_addr_t option \<times> errno) option" where
  "mnlxt_rt_addr_set_local addr family buf e =
     (case mnlxt_rt_addr_set_family addr family e of
        (rc, Some ob, e') \<Rightarrow>
          if rc = 0 then
            map_option (\<lambda>b.
              (let ob1 = (if AF_INET = family then ob\<lparr>addr_addr := set_in b (addr_addr ob)\<rparr>
                          else ob\<lparr>addr_local := b\<rparr>)
               in (rc, Some (ob1\<lparr>addr_prop_flags :=
                     set_prop_flag (addr_prop_flags ob1) MNLXT_RT_ADDR_LOCAL\<rparr>), e'))) buf
          else Some (rc, Some ob, e')
      | (rc, None, e') \<Rightarrow> Some (rc, None, e'))"

definition mnlxt_rt_addr_get_local ::
  "mnlxt_rt_addr_t option \<Rightarrow> u8 option \<Rightarrow> mnlxt_inet_addr_t option \<Rightarrow> errno \<Rightarrow>
     int \<times> u8 option \<times> mnlxt_inet_addr_t option \<times> errno" where
  "mnlxt_rt_addr_get_local addr family buf e =
     (case (addr, buf) of
        (Some ob, Some _) \<Rightarrow>
          if \<not> get_prop_flag (addr_prop_flags ob) MNLXT_RT_ADDR_LOCAL then (1, family, buf, e)
          else (0, map_option (\<lambda>_. addr_family ob) family, Some (addr_local ob), e)
      | _ \<Rightarrow> (- 1, family, buf, EINVAL))"

definition mnlxt_rt_addr_set_label ::
  "mnlxt_rt_addr_t option \<Rightarrow> string option \<Rightarrow> ('t, 'm, 'p) cheap \<Rightarrow> errno \<Rightarrow>
     (int \<times> mnlxt_rt_addr_t option \<times> ('t, 'm, 'p) cheap \<times> errno) option" where
  "mnlxt_rt_addr_set_label addr label h e =
     (case (addr, label) of
        (Some ob, Some name) \<Rightarrow>
          (case strndup name (IF_NAMESIZE - 1) h of
             (None, h') \<Rightarrow> Some (- 1, Some ob, h', ENOMEM)
           | (Some label_copy, h') \<Rightarrow>
               map_option
                 (\<lambda>h''. (0, Some (ob\<lparr>addr_label := Some label_copy,
                    addr_prop_flags := set_prop_flag (addr_prop_flags ob) MNLXT_RT_ADDR_LABEL\<rparr>), h'', e))
                 (free_str_opt (addr_label ob) h'))
      | _ \<Rightarrow> Some (- 1, addr, h, EINVAL))"

definition mnlxt_rt_addr_get_label ::
  "mnlxt_rt_addr_t option \<Rightarrow> string option \<Rightarrow> ('t, 'm, 'p) cheap \<Rightarrow> errno \<Rightarrow>
     (int \<times> string option \<times> errno) option" where
  "mnlxt_rt_addr_get_label addr label h e =
     (case (addr, label) of
        (Some ob, Some _) \<Rightarrow>
          if \<not> get_prop_flag (addr_prop_flags ob) MNLXT_RT_ADDR_LABEL \<or> addr_label ob = None
          then Some (1, label, e)
          else
            map_option (\<lambda>out. (0, Some out, e))
              (Option.bind (Option.bind (addr_label ob) (strs h)) stpncpy_name)
      | _ \<Rightarrow> Some (- 1, label, EINVAL))"

definition mnlxt_rt_addr_get_valid_lifetime ::
  "mnlxt_rt_addr_t option \<Rightarrow> u32 option \<Rightarrow> errno \<Rightarrow> int \<times> u32 option \<times> errno" where
  "mnlxt_rt_addr_get_valid_lifetime addr valid_lft e =
     (case (addr, valid_lft) of
        (Some ob, Some _) \<Rightarrow>
          if \<not> get_prop_flag (addr_prop_flags ob) MNLXT_RT_ADDR_CACHEINFO then (1, valid_lft, e)
          else (0, Some (ifa_valid (addr_cacheinfo ob)), e)
      | _ \<Rightarrow> (- 1, valid_lft, EINVAL))"

definition mnlxt_rt_addr_set_valid_lifetime ::
  "mnlxt_rt_addr_t option \<Rightarrow> u32 \<Rightarrow> errno \<Rightarrow> int \<times> mnlxt_rt_addr_t option \<times> errno" where
  "mnlxt_rt_addr_set_valid_lifetime addr valid_lft e =
     (case addr of None \<Rightarrow> (- 1, None, EINVAL)
      | Some ob \<Rightarrow>
          (0, Some (ob\<lparr>addr_cacheinfo := (addr_cacheinfo ob)\<lparr>ifa_valid := valid_lft\<rparr>,
             addr_prop_flags := set_prop_flag (addr_prop_flags ob) MNLXT_RT_ADDR_CACHEINFO\<rparr>), e))"

definition mnlxt_rt_addr_get_preferred_lifetime ::
  "mnlxt_rt_addr_t option \<Rightarrow> u32 option \<Rightarrow> errno \<Rightarrow> int \<times> u32 option \<times> errno" where
  "mnlxt_rt_addr_get_preferred_lifetime addr preferred_lft e =
     (case (addr, preferred_lft) of
        (Some ob, Some _) \<Rightarrow>
          if \<not> get_prop_flag (addr_prop_flags ob) MNLXT_RT_ADDR_CACHEINFO then (1, preferred_lft, e)
          else (0, Some (ifa_prefered (addr_cacheinfo ob)), e)
      | _ \<Rightarrow> (- 1, preferred_lft, EINVAL))"

definition mnlxt_rt_addr_set_preferred_lifetime ::
  "mnlxt_rt_addr_t option \<Rightarrow> u32 \<Rightarrow> errno \<Rightarrow> int \<times> mnlxt_rt_addr_t option \<times> errno" where
  "mnlxt_rt_addr_set_preferred_lifetime addr preferred_lft e =
     (case addr of None \<Rightarrow> (- 1, None, EINVAL)
      | Some ob \<Rightarrow>
          (0, Some (ob\<lparr>addr_cacheinfo := (addr_cacheinfo ob)\<lparr>ifa_prefered := preferred_lft\<rparr>,
             addr_prop_flags := set_prop_flag (addr_prop_flags ob) MNLXT_RT_ADDR_CACHEINFO\<rparr>), e))"

definition mnlxt_rt_addr_get_create_time ::
  "mnlxt_rt_addr_t option \<Rightarrow> u32 option \<Rightarrow> errno \<Rightarrow> int \<times> u32 option \<times> errno" where
  "mnlxt_rt_addr_get_create_time addr create_time e =
     (case (addr, create_time) of
        (Some ob, Some _) \<Rightarrow>
          if \<not> get_prop_flag (addr_prop_flags ob) MNLXT_RT_ADDR_CACHEINFO then (1, create_time, e)
          else (0, Some (cstamp (addr_cacheinfo ob)), e)
      | _ \<Rightarrow> (- 1, create_time, EINVAL))"

definition mnlxt_rt_addr_get_last_update_time ::
  "mnlxt_rt_addr_t option \<Rightarrow> u32 option \<Rightarrow> errno \<Rightarrow> int \<times> u32 option \<times> errno" where
  "mnlxt_rt_addr_get_last_update_time addr update_time e =
     (case (addr, update_time) of
        (Some ob, Some _) \<Rightarrow>
          if \<not> get_prop_flag (addr_prop_flags ob) MNLXT_RT_ADDR_CACHEINFO then (1, update_time, e)
          else (0, Some (tstamp (addr_cacheinfo ob)), e)
      | _ \<Rightarrow> (- 1, update_time, EINVAL))"

section \<open>The object implements a map of its properties\<close>

definition addr_abs :: "mnlxt_rt_addr_t \<Rightarrow> (nat \<rightharpoonup> cval)" where
  "addr_abs ob i =
     (if addr_data i \<noteq> 0 \<and> bit (addr_prop_flags ob) i then Some (addr_load i ob) else None)"

lemma addr_data_bound: "addr_data i \<noteq> 0 \<Longrightarrow> i < MNLXT_RT_ADDR_MAX"
  by (simp add: addr_data_def split: if_splits)

lemma addr_store_flags [simp]: "addr_prop_flags (addr_store i v ob) = addr_prop_flags ob"
  by (simp add: addr_store_def)

lemma addr_load_store:
  "addr_data i = csize v \<Longrightarrow> addr_load j (addr_store i v ob) = (if i = j then v else addr_load j ob)"
  by (auto simp: addr_data_def addr_store_def addr_load_def split: if_splits)

lemma addr_load_flags [simp]: "addr_load j (ob\<lparr>addr_prop_flags := w\<rparr>) = addr_load j ob"
  by (simp add: addr_load_def)

lemma addr_load_size: "addr_data i \<noteq> 0 \<Longrightarrow> csize (addr_load i ob) = addr_data i"
  by (simp add: addr_data_def addr_load_def split: if_splits)

interpretation addr_obj: prop_object mnlxt_rt_addr_set_ptr mnlxt_rt_addr_get_ptr addr_abs addr_data
proof (unfold_locales, goal_cases)
  case (1 i v ob e)
  then have "addr_data i \<noteq> 0" by simp
  with addr_data_bound [OF this] 1 show ?case
    by (auto simp: mnlxt_rt_addr_set_ptr_def addr_abs_def addr_load_store fun_eq_iff)
next
  case (2 i v ob e)
  then show ?case by (simp add: mnlxt_rt_addr_set_ptr_def)
next
  case (3 i v e)
  then show ?case by (simp add: mnlxt_rt_addr_set_ptr_def)
next
  case (4 i c ob e)
  then have "addr_data i \<noteq> 0" by simp
  with addr_data_bound [OF this] 4 show ?case
    by (simp add: mnlxt_rt_addr_get_ptr_def addr_abs_def)
next
  case (5 i c ob e)
  then show ?case by (simp add: mnlxt_rt_addr_get_ptr_def)
next
  case (6 i c e)
  then show ?case by (simp add: mnlxt_rt_addr_get_ptr_def)
qed


section \<open>The label: ownership, bounds and the deep clone\<close>

definition addr_label_ok :: "('t, 'm, 'p) cheap \<Rightarrow> mnlxt_rt_addr_t \<Rightarrow> bool" where
  "addr_label_ok h a \<longleftrightarrow>
     (\<forall>q. addr_label a = Some q \<longrightarrow> (\<exists>s. strs h q = Some s \<and> length s < IF_NAMESIZE)) \<and>
     (bit (addr_prop_flags a) MNLXT_RT_ADDR_LABEL \<longleftrightarrow> addr_label a \<noteq> None)"

text \<open>The string that the label pointer of an address leads to.\<close>

definition addr_label_str :: "('t, 'm, 'p) cheap \<Rightarrow> mnlxt_rt_addr_t \<Rightarrow> string option" where
  "addr_label_str h a = Option.bind (addr_label a) (strs h)"

lemma addr_label_ok_zero [simp]: "addr_label_ok h addr_zero"
  by (simp add: addr_label_ok_def addr_zero_def)

lemma addr_set_label_cases:
  assumes label: "addr_label_ok h a" and ok: "heap_ok h"
  obtains (fail) h' where "mnlxt_rt_addr_set_label (Some a) (Some name) h e = Some (- 1, Some a, h', ENOMEM)"
      "strs h' = strs h" "arrs h' = arrs h" "objs h' = objs h" "msgs h' = msgs h" "oom h' = oom h" "oom h (brk h)"
      "heap_ok h'"
  | (set) q h' where "mnlxt_rt_addr_set_label (Some a) (Some name) h e = Some (0, Some (a\<lparr>addr_label := Some q,
        addr_prop_flags := set_prop_flag (addr_prop_flags a) MNLXT_RT_ADDR_LABEL\<rparr>), h', e)"
      "strs h' = ((strs h) |` (- set_option (addr_label a)))(q \<mapsto> take 15 name)" "strs h q = None" "arrs h q = None"
      "arrs h' = arrs h" "objs h' = objs h" "msgs h' = msgs h" "oom h' = oom h" "heap_ok h'"
proof (rule replace_str [OF ok, of "addr_label a" name 15])
  show "strs h p \<noteq> None" if "addr_label a = Some p" for p
    using label that by (auto simp: addr_label_ok_def)
next
  fix h' assume "strndup name 15 h = (None, h')" "strs h' = strs h" "arrs h' = arrs h" "objs h' = objs h"
    "msgs h' = msgs h" "oom h' = oom h" "oom h (brk h)" "heap_ok h'"
  then show thesis by (intro fail) (simp_all add: mnlxt_rt_addr_set_label_def)
next
  fix q h' h''
  assume "strndup name 15 h = (Some q, h')" "free_str_opt (addr_label a) h' = Some h''"
    "strs h'' = ((strs h) |` (- set_option (addr_label a)))(q \<mapsto> take 15 name)" "strs h q = None"
    "arrs h q = None" "arrs h'' = arrs h" "objs h'' = objs h" "msgs h'' = msgs h" "oom h'' = oom h" "heap_ok h''"
  then show thesis by (intro set) (simp_all add: mnlxt_rt_addr_set_label_def)
qed

lemma addr_set_label_ok:
  assumes "addr_label_ok h a" "heap_ok h"
  shows "\<exists>rc a' h' e'. mnlxt_rt_addr_set_label (Some a) (Some name) h e = Some (rc, Some a', h', e') \<and>
    addr_label_ok h' a' \<and> heap_ok h' \<and>
    (rc = 0 \<longrightarrow> addr_label_str h' a' = Some (take 15 name)) \<and> (rc \<noteq> 0 \<longrightarrow> a' = a \<and> strs h' = strs h)"
  using assms
proof (cases rule: addr_set_label_cases [of _ _ name e])
  case (fail h')
  with assms(1) show ?thesis by (simp add: addr_label_ok_def)
next
  case (set q h')
  then show ?thesis by (simp add: addr_label_ok_def addr_label_str_def)
qed

lemma addr_get_label_ok:
  assumes "addr_label_ok h a"
  shows "mnlxt_rt_addr_get_label (Some a) (Some out) h e =
    Some (case addr_label_str h a of None \<Rightarrow> (1, Some out, e) | Some s \<Rightarrow> (0, Some s, e))"
  using assms
  by (cases "addr_label a")
    (auto simp: mnlxt_rt_addr_get_label_def addr_label_ok_def addr_label_str_def stpncpy_name_def)

lemma addr_free_label_ok:
  "addr_label_ok h a \<Longrightarrow>
     addr_free_label a h = Some (h\<lparr>strs := (strs h) |` (- set_option (addr_label a))\<rparr>)"
  by (cases "addr_label a")
    (auto simp: addr_free_label_def free_str_opt_def free_str_def addr_label_ok_def restrict_map_def
      fun_eq_iff intro!: cheap.equality)

lemma addr_new_label_ok: "mnlxt_rt_addr_new mem e = (Some d, e') \<Longrightarrow> addr_label_ok h d \<and> addr_label d = None"
  by (auto simp: mnlxt_rt_addr_new_def addr_label_ok_def addr_zero_def split: if_splits)

lemma bit_addr_flags_filtered:
  "bit (ucast (ucast w AND flt :: u64) :: u16) i \<longleftrightarrow> bit (w :: u16) i \<and> bit flt i"
  by (auto simp: bit_ucast_iff bit_and_iff dest: bit_imp_le_length)

lemma ucast_ucast_and_eq_0:
  "(ucast w AND flt :: u64) = 0 \<Longrightarrow> bit (w :: u16) i \<Longrightarrow> \<not> bit flt i"
proof
  assume z: "(ucast w AND flt :: u64) = 0" and b: "bit w i" "bit flt i"
  from b have "bit (ucast w AND flt :: u64) i"
    by (auto simp: bit_ucast_iff bit_and_iff dest: bit_imp_le_length)
  with z show False by simp
qed

text \<open>
  A deep copy: every live string stays, the clone has the values of the source with a label of its own, and
  the properties that the filter selects. If it selects none, the clone is a new address. There is no clone only if an
  allocation fails, and nothing is leaked then.
\<close>

definition addr_deep_copy ::
  "bool \<Rightarrow> errno \<Rightarrow> ('t, 'm, 'p) cheap \<Rightarrow> mnlxt_rt_addr_t \<Rightarrow> u64 \<Rightarrow> mnlxt_rt_addr_t option \<times> ('t, 'm, 'p) cheap \<times> errno \<Rightarrow> bool" where
  "addr_deep_copy mem e h s flt res \<longleftrightarrow>
     (case res of (r, h', e') \<Rightarrow> heap_ok h' \<and>
        (case r of
           None \<Rightarrow> strs h' = strs h \<and> e' = ENOMEM \<and> (\<not> mem \<or> (\<exists>p. oom h p))
         | Some d \<Rightarrow> e' = e \<and>
             (if ucast (addr_prop_flags s) AND flt = 0 then mnlxt_rt_addr_new mem e = (Some d, e)
              else d = s\<lparr>addr_label := addr_label d, addr_prop_flags := addr_prop_flags d\<rparr>) \<and>
             addr_label_ok h' d \<and> (\<forall>p. strs h p \<noteq> None \<longrightarrow> strs h' p = strs h p) \<and>
             addr_label_str h' d = (if bit flt MNLXT_RT_ADDR_LABEL then addr_label_str h s else None) \<and>
             (addr_label d \<noteq> None \<longrightarrow> addr_label d \<noteq> addr_label s) \<and>
             (\<forall>i. bit (addr_prop_flags d) i \<longleftrightarrow> bit (addr_prop_flags s) i \<and> bit flt i)))"

text \<open>With a label that the filter selects.\<close>

lemma addr_clone_label:
  assumes "addr_label_ok h s" "heap_ok h" "bit flt MNLXT_RT_ADDR_LABEL" "addr_label s = Some q"
  shows "\<exists>res. mnlxt_rt_addr_clone mem (Some s) flt h e = Some res \<and> addr_deep_copy mem e h s flt res"
proof -
  from assms(1,4) obtain x where x: "strs h q = Some x" "length x < IF_NAMESIZE"
      "bit (addr_prop_flags s) MNLXT_RT_ADDR_LABEL"
    by (auto simp: addr_label_ok_def)
  let ?fl = "ucast (addr_prop_flags s) AND flt :: u64"
  have w: "bit ?fl MNLXT_RT_ADDR_LABEL" using assms(3) x(3) by (simp add: bit_and_iff bit_ucast_iff)
  then have nz: "?fl \<noteq> 0" "?fl AND MNLXT_FLAG MNLXT_RT_ADDR_LABEL \<noteq> 0" by auto
  from assms(2) x(1) show ?thesis
  proof (cases rule: strdup_cases)
    case (null h')
    then show ?thesis using nz assms(4) by (auto simp: mnlxt_rt_addr_clone_def Let_def addr_deep_copy_def)
  next
    case (copy p h' h'')
    show ?thesis
    proof (cases mem)
      case True
      have "mnlxt_rt_addr_clone mem (Some s) flt h e =
          Some (Some (s\<lparr>addr_label := Some p, addr_prop_flags := ucast ?fl\<rparr>), h', e)"
        using nz assms(4) copy(1) True by (simp add: mnlxt_rt_addr_clone_def Let_def mnlxt_rt_addr_new_def)
      with copy assms(4) x w nz(1) show ?thesis
        by (auto simp: addr_deep_copy_def addr_label_ok_def addr_label_str_def bit_addr_flags_filtered bit_and_iff)
    next
      case False
      then show ?thesis using nz assms(4) copy
        by (simp add: mnlxt_rt_addr_clone_def Let_def mnlxt_rt_addr_new_def free_str_opt_def addr_deep_copy_def)
    qed
  qed
qed

text \<open>Without one.\<close>

lemma addr_clone_plain:
  assumes "addr_label_ok h s" "heap_ok h" "\<not> (bit flt MNLXT_RT_ADDR_LABEL \<and> addr_label s \<noteq> None)"
  shows "\<exists>res. mnlxt_rt_addr_clone mem (Some s) flt h e = Some res \<and> addr_deep_copy mem e h s flt res"
proof -
  let ?fl = "ucast (addr_prop_flags s) AND flt :: u64"
  from assms(1,3) have lab: "\<not> (bit (addr_prop_flags s) MNLXT_RT_ADDR_LABEL \<and> bit flt MNLXT_RT_ADDR_LABEL)"
    by (auto simp: addr_label_ok_def)
  then have nw: "\<not> (?fl AND MNLXT_FLAG MNLXT_RT_ADDR_LABEL \<noteq> 0 \<and> addr_label s \<noteq> None)"
    by (simp add: bit_and_iff bit_ucast_iff)
  have none: "bit flt MNLXT_RT_ADDR_LABEL \<Longrightarrow> addr_label_str h s = None"
    using assms(3) by (auto simp: addr_label_str_def)
  show ?thesis
  proof (cases mem)
    case True
    let ?d = "if ?fl = 0 then fst (mnlxt_rt_addr_new True e)
        else Some (s\<lparr>addr_label := None, addr_prop_flags := ucast ?fl\<rparr>)"
    have "mnlxt_rt_addr_clone mem (Some s) flt h e = Some (?d, h, e)"
      using nw True
      by (auto simp: mnlxt_rt_addr_clone_def Let_def mnlxt_rt_addr_new_def free_str_opt_def)
    with none lab show ?thesis
      using assms(2) True
      by (auto simp: addr_deep_copy_def addr_label_ok_def addr_label_str_def bit_addr_flags_filtered mnlxt_rt_addr_new_def
          addr_zero_def dest: ucast_ucast_and_eq_0)
  next
    case False
    then have "mnlxt_rt_addr_clone mem (Some s) flt h e = Some (None, h, ENOMEM)"
      using nw by (auto simp: mnlxt_rt_addr_clone_def Let_def mnlxt_rt_addr_new_def free_str_opt_def)
    with assms(2) False show ?thesis by (simp add: addr_deep_copy_def)
  qed
qed

lemma addr_clone_deep:
  assumes "addr_label_ok h s" "heap_ok h"
  shows "\<exists>res. mnlxt_rt_addr_clone mem (Some s) flt h e = Some res \<and> addr_deep_copy mem e h s flt res"
  using addr_clone_label [OF assms] addr_clone_plain [OF assms] by blast

section \<open>Addresses and the family\<close>

definition addr_inv :: "mnlxt_rt_addr_t \<Rightarrow> bool" where
  "addr_inv a \<longleftrightarrow>
     inet_ok (addr_addr a) \<and> inet_ok (addr_local a) \<and>
     (bit (addr_prop_flags a) MNLXT_RT_ADDR_FAMILY \<longrightarrow> addr_family a = AF_INET \<or> addr_family a = AF_INET6) \<and>
     (bit (addr_prop_flags a) MNLXT_RT_ADDR_ADDR \<or> bit (addr_prop_flags a) MNLXT_RT_ADDR_LOCAL \<longrightarrow>
        bit (addr_prop_flags a) MNLXT_RT_ADDR_FAMILY)"

lemma addr_set_family_cases:
  obtains rc a' e' where "mnlxt_rt_addr_set_family (Some a) f e = (rc, Some a', e')"
    "addr_inv a \<Longrightarrow> addr_inv a'" "rc \<noteq> 0 \<Longrightarrow> a' = a"
    "rc = 0 \<Longrightarrow> bit (addr_prop_flags a') MNLXT_RT_ADDR_FAMILY \<and> addr_family a' = f \<and>
       (f = AF_INET \<or> f = AF_INET6)"
    "addr_addr a' = addr_addr a" "addr_local a' = addr_local a"
    "\<And>i. i \<noteq> MNLXT_RT_ADDR_FAMILY \<Longrightarrow> bit (addr_prop_flags a') i = bit (addr_prop_flags a) i"
  by (cases "mnlxt_rt_addr_set_family (Some a) f e")
    (auto simp: mnlxt_rt_addr_set_family_def addr_inv_def split: if_splits)

abbreviation addr_has :: "mnlxt_rt_addr_t \<Rightarrow> nat \<Rightarrow> bool" where
  "addr_has a i \<equiv> bit (addr_prop_flags a) i"

text \<open>What a setter of a plain value or of an IP address does: nothing is unset, the label stays.\<close>

definition addr_keeps :: "mnlxt_rt_addr_t \<Rightarrow> mnlxt_rt_addr_t \<Rightarrow> bool" where
  "addr_keeps a a' \<longleftrightarrow> (addr_inv a \<longrightarrow> addr_inv a') \<and> (\<forall>i. addr_has a i \<longrightarrow> addr_has a' i) \<and>
     (addr_has a MNLXT_RT_ADDR_FAMILY \<longrightarrow> addr_family a' = addr_family a) \<and>
     addr_label a' = addr_label a \<and> addr_has a' MNLXT_RT_ADDR_LABEL = addr_has a MNLXT_RT_ADDR_LABEL"

lemma addr_keeps_refl [simp]: "addr_keeps a a"
  by (simp add: addr_keeps_def)

lemma addr_keeps_trans: "addr_keeps a b \<Longrightarrow> addr_keeps b c \<Longrightarrow> addr_keeps a c"
  by (simp add: addr_keeps_def)

lemma addr_keeps_label_ok: "addr_keeps a a' \<Longrightarrow> addr_label_ok h a' = addr_label_ok h a"
  by (simp add: addr_keeps_def addr_label_ok_def)

lemma addr_set_ptr_keeps:
  assumes "i \<noteq> MNLXT_RT_ADDR_FAMILY"
  shows "\<exists>rc a' e'. mnlxt_rt_addr_set_ptr (Some a) i v e = (rc, Some a', e') \<and> addr_keeps a a'"
proof (cases "addr_data i = csize v")
  case True
  then have nz: "addr_data i \<noteq> 0" by simp
  note i = addr_data_bound [OF nz] nz
  let ?a = "addr_store i v (a\<lparr>addr_prop_flags := set_prop_flag (addr_prop_flags a) i\<rparr>)"
  have "mnlxt_rt_addr_set_ptr (Some a) i v e = (0, Some ?a, e)"
    using True i by (simp add: mnlxt_rt_addr_set_ptr_def)
  moreover have "i \<in> {MNLXT_RT_ADDR_PREFIXLEN, MNLXT_RT_ADDR_FLAGS, MNLXT_RT_ADDR_SCOPE, MNLXT_RT_ADDR_IFINDEX}"
    using assms nz by (auto simp: addr_data_def split: if_splits)
  then have "addr_keeps a ?a"
    by (elim insertE emptyE) (simp_all add: addr_keeps_def addr_inv_def addr_store_def)
  ultimately show ?thesis by blast
next
  case False
  then show ?thesis by (simp add: mnlxt_rt_addr_set_ptr_def)
qed

lemma addr_set_family_keeps:
  "\<exists>rc a' e'. mnlxt_rt_addr_set_family (Some a) f e = (rc, Some a', e') \<and> addr_keeps a a' \<and>
     (rc = 0 \<longrightarrow> addr_has a' MNLXT_RT_ADDR_FAMILY \<and> addr_family a' = f \<and> (f = AF_INET \<or> f = AF_INET6)) \<and>
     (addr_has a' MNLXT_RT_ADDR_FAMILY \<longrightarrow> addr_has a MNLXT_RT_ADDR_FAMILY \<or> addr_family a' = f)"
  by (auto simp: mnlxt_rt_addr_set_family_def addr_keeps_def addr_inv_def)

lemma addr_set_addr_inv:
  assumes "addr_inv a" "inet_ok b" "mnlxt_rt_addr_set_addr (Some a) f (Some b) e = (rc, Some a', e')"
  shows "addr_inv a'"
proof -
  obtain rc1 a1 e1 where s: "mnlxt_rt_addr_set_family (Some a) f e = (rc1, Some a1, e1)"
    "addr_inv a1" "rc1 = 0 \<Longrightarrow> bit (addr_prop_flags a1) MNLXT_RT_ADDR_FAMILY"
    using addr_set_family_cases [of a f e] assms(1) by metis
  with assms(2,3) show ?thesis
    by (auto simp: mnlxt_rt_addr_set_addr_def addr_inv_def Let_def split: if_splits)
qed

lemma addr_set_local_inv:
  assumes "addr_inv a" "inet_ok b" "mnlxt_rt_addr_set_local (Some a) f (Some b) e = Some (rc, Some a', e')"
  shows "addr_inv a'"
proof -
  obtain rc1 a1 e1 where s: "mnlxt_rt_addr_set_family (Some a) f e = (rc1, Some a1, e1)"
    "addr_inv a1" "rc1 = 0 \<Longrightarrow> bit (addr_prop_flags a1) MNLXT_RT_ADDR_FAMILY"
    using addr_set_family_cases [of a f e] assms(1) by metis
  with assms(2,3) show ?thesis
    by (auto simp: mnlxt_rt_addr_set_local_def addr_inv_def Let_def split: if_splits)
qed

lemma addr_set_addr_keeps:
  assumes "inet_ok b"
  shows "\<exists>rc a' e'. mnlxt_rt_addr_set_addr (Some a) f (Some b) e = (rc, Some a', e') \<and> addr_keeps a a' \<and>
     (addr_has a' MNLXT_RT_ADDR_FAMILY \<longrightarrow> addr_has a MNLXT_RT_ADDR_FAMILY \<or> addr_family a' = f)"
proof -
  obtain rc a1 e1 where s: "mnlxt_rt_addr_set_family (Some a) f e = (rc, Some a1, e1)" "addr_keeps a a1"
      "rc = 0 \<longrightarrow> addr_has a1 MNLXT_RT_ADDR_FAMILY \<and> addr_family a1 = f \<and> (f = AF_INET \<or> f = AF_INET6)"
      "addr_has a1 MNLXT_RT_ADDR_FAMILY \<longrightarrow> addr_has a MNLXT_RT_ADDR_FAMILY \<or> addr_family a1 = f"
    using addr_set_family_keeps [of a f e] by blast
  have "\<exists>a'. mnlxt_rt_addr_set_addr (Some a) f (Some b) e = (rc, Some a', e1) \<and> addr_keeps a1 a' \<and>
      addr_family a' = addr_family a1 \<and> addr_has a' MNLXT_RT_ADDR_FAMILY = addr_has a1 MNLXT_RT_ADDR_FAMILY"
  proof (cases "rc = 0")
    case True
    with s assms show ?thesis
      by (auto simp: mnlxt_rt_addr_set_addr_def addr_keeps_def addr_inv_def Let_def)
  qed (simp add: mnlxt_rt_addr_set_addr_def s(1))
  then obtain a' where "mnlxt_rt_addr_set_addr (Some a) f (Some b) e = (rc, Some a', e1)" "addr_keeps a1 a'"
      "addr_family a' = addr_family a1" "addr_has a' MNLXT_RT_ADDR_FAMILY = addr_has a1 MNLXT_RT_ADDR_FAMILY"
    by blast
  with s(2,4) show ?thesis using addr_keeps_trans [of a a1 a'] by blast
qed

lemma addr_set_local_keeps:
  assumes "inet_ok b"
  shows "\<exists>rc a' e'. mnlxt_rt_addr_set_local (Some a) f (Some b) e = Some (rc, Some a', e') \<and> addr_keeps a a' \<and>
     (addr_has a' MNLXT_RT_ADDR_FAMILY \<longrightarrow> addr_has a MNLXT_RT_ADDR_FAMILY \<or> addr_family a' = f)"
proof -
  obtain rc a1 e1 where s: "mnlxt_rt_addr_set_family (Some a) f e = (rc, Some a1, e1)" "addr_keeps a a1"
      "rc = 0 \<longrightarrow> addr_has a1 MNLXT_RT_ADDR_FAMILY \<and> addr_family a1 = f \<and> (f = AF_INET \<or> f = AF_INET6)"
      "addr_has a1 MNLXT_RT_ADDR_FAMILY \<longrightarrow> addr_has a MNLXT_RT_ADDR_FAMILY \<or> addr_family a1 = f"
    using addr_set_family_keeps [of a f e] by blast
  have "\<exists>a'. mnlxt_rt_addr_set_local (Some a) f (Some b) e = Some (rc, Some a', e1) \<and> addr_keeps a1 a' \<and>
      addr_family a' = addr_family a1 \<and> addr_has a' MNLXT_RT_ADDR_FAMILY = addr_has a1 MNLXT_RT_ADDR_FAMILY"
  proof (cases "rc = 0")
    case True
    with s assms show ?thesis
      by (auto simp: mnlxt_rt_addr_set_local_def addr_keeps_def addr_inv_def Let_def)
  qed (simp add: mnlxt_rt_addr_set_local_def s(1))
  then obtain a' where "mnlxt_rt_addr_set_local (Some a) f (Some b) e = Some (rc, Some a', e1)" "addr_keeps a1 a'"
      "addr_family a' = addr_family a1" "addr_has a' MNLXT_RT_ADDR_FAMILY = addr_has a1 MNLXT_RT_ADDR_FAMILY"
    by blast
  with s(2,4) show ?thesis using addr_keeps_trans [of a a1 a'] by blast
qed

text \<open>
  For IPv4 the local address that a caller sets is not the one that it reads back: the bytes go
  into the other member, and the peer address that was there is lost.
\<close>

lemma addr_set_local_inet:
  assumes "mnlxt_rt_addr_set_local (Some a) AF_INET (Some b) e = Some (0, Some a', e')"
  shows "mnlxt_rt_addr_get_local (Some a') fam (Some out) e'' =
      (0, map_option (\<lambda>_. AF_INET) fam, Some (addr_local a), e'') \<and>
    addr_addr a' = set_in b (addr_addr a)"
proof -
  obtain rc1 a1 e1 where s: "mnlxt_rt_addr_set_family (Some a) AF_INET e = (rc1, Some a1, e1)"
    "rc1 = 0 \<Longrightarrow> addr_family a1 = AF_INET" "addr_addr a1 = addr_addr a" "addr_local a1 = addr_local a"
    using addr_set_family_cases [of a AF_INET e] by metis
  with assms show ?thesis
    by (auto simp: mnlxt_rt_addr_set_local_def mnlxt_rt_addr_get_local_def Let_def split: if_splits)
qed

lemma addr_set_local_inet6:
  assumes "mnlxt_rt_addr_set_local (Some a) AF_INET6 (Some b) e = Some (0, Some a', e')"
  shows "mnlxt_rt_addr_get_local (Some a') fam (Some out) e'' =
      (0, map_option (\<lambda>_. AF_INET6) fam, Some b, e'') \<and> addr_addr a' = addr_addr a"
proof -
  obtain rc1 a1 e1 where s: "mnlxt_rt_addr_set_family (Some a) AF_INET6 e = (rc1, Some a1, e1)"
    "rc1 = 0 \<Longrightarrow> addr_family a1 = AF_INET6" "addr_addr a1 = addr_addr a"
    using addr_set_family_cases [of a AF_INET6 e] by metis
  with assms show ?thesis
    by (auto simp: mnlxt_rt_addr_set_local_def mnlxt_rt_addr_get_local_def Let_def split: if_splits)
qed

section \<open>Everything the public setters can build\<close>

inductive addr_api ::
  "mnlxt_rt_addr_t \<times> ('t, 'm, 'p) cheap \<Rightarrow> mnlxt_rt_addr_t \<times> ('t, 'm, 'p) cheap \<Rightarrow> bool" where
  family: "mnlxt_rt_addr_set_family (Some a) f e = (rc, Some a', e') \<Longrightarrow> addr_api (a, h) (a', h)"
| prefixlen: "mnlxt_rt_addr_set_prefixlen (Some a) x e = (rc, Some a', e') \<Longrightarrow> addr_api (a, h) (a', h)"
| flags: "mnlxt_rt_addr_set_flags (Some a) y e = (rc, Some a', e') \<Longrightarrow> addr_api (a, h) (a', h)"
| scope: "mnlxt_rt_addr_set_scope (Some a) x e = (rc, Some a', e') \<Longrightarrow> addr_api (a, h) (a', h)"
| ifindex: "mnlxt_rt_addr_set_ifindex (Some a) y e = (rc, Some a', e') \<Longrightarrow> addr_api (a, h) (a', h)"
| addr: "inet_ok b \<Longrightarrow> mnlxt_rt_addr_set_addr (Some a) f (Some b) e = (rc, Some a', e') \<Longrightarrow> addr_api (a, h) (a', h)"
| local: "inet_ok b \<Longrightarrow> mnlxt_rt_addr_set_local (Some a) f (Some b) e = Some (rc, Some a', e') \<Longrightarrow> addr_api (a, h) (a', h)"
| label: "mnlxt_rt_addr_set_label (Some a) (Some name) h e = Some (rc, Some a', h', e') \<Longrightarrow> addr_api (a, h) (a', h')"
| valid: "mnlxt_rt_addr_set_valid_lifetime (Some a) y e = (rc, Some a', e') \<Longrightarrow> addr_api (a, h) (a', h)"
| preferred: "mnlxt_rt_addr_set_preferred_lifetime (Some a) y e = (rc, Some a', e') \<Longrightarrow> addr_api (a, h) (a', h)"

inductive addr_reach :: "mnlxt_rt_addr_t \<times> ('t, 'm, 'p) cheap \<Rightarrow> bool" where
  new: "mnlxt_rt_addr_new mem e = (Some a, e') \<Longrightarrow> heap_ok h \<Longrightarrow> addr_reach (a, h)"
| call: "addr_reach s \<Longrightarrow> addr_api s s' \<Longrightarrow> addr_reach s'"

definition addr_wf :: "mnlxt_rt_addr_t \<times> ('t, 'm, 'p) cheap \<Rightarrow> bool" where
  "addr_wf s \<longleftrightarrow> addr_inv (fst s) \<and> addr_label_ok (snd s) (fst s) \<and> heap_ok (snd s)"

lemma addr_keeps_wf: "addr_keeps a a' \<Longrightarrow> addr_wf (a, h) \<Longrightarrow> addr_wf (a', h)"
  using addr_keeps_label_ok [of a a' h] by (simp add: addr_wf_def addr_keeps_def)

lemma addr_lifetime_keeps:
  "addr_keeps a (a\<lparr>addr_cacheinfo := c, addr_prop_flags := set_prop_flag (addr_prop_flags a) MNLXT_RT_ADDR_CACHEINFO\<rparr>)"
  by (simp add: addr_keeps_def addr_inv_def)

lemma addr_set_label_wf:
  assumes wf: "addr_wf (a, h)"
    and set: "mnlxt_rt_addr_set_label (Some a) (Some name) h e = Some (rc, Some a', h', e')"
  shows "addr_wf (a', h')"
proof -
  from wf have ok: "addr_label_ok h a" "heap_ok h" "addr_inv a" by (simp_all add: addr_wf_def)
  have "addr_inv a'"
    using ok(1,2)
  proof (cases rule: addr_set_label_cases [of _ _ name e])
    case (fail h1)
    with set ok(3) show ?thesis by simp
  next
    case (set q h1)
    with \<open>_ = Some (rc, Some a', h', e')\<close> ok(3) show ?thesis by (auto simp: addr_inv_def)
  qed
  with addr_set_label_ok [OF ok(1,2), of name e] set show ?thesis by (auto simp: addr_wf_def)
qed

lemmas addr_simple_setters [setter_defs] =
  mnlxt_rt_addr_set_prefixlen_def mnlxt_rt_addr_set_flags_def mnlxt_rt_addr_set_scope_def
  mnlxt_rt_addr_set_ifindex_def mnlxt_rt_addr_set_u8_def mnlxt_rt_addr_set_u32_def

lemma addr_set_ptr_wf:
  "mnlxt_rt_addr_set_ptr (Some a) i v e = (rc, Some a', e') \<Longrightarrow> i \<noteq> MNLXT_RT_ADDR_FAMILY \<Longrightarrow> addr_wf (a, h) \<Longrightarrow>
     addr_wf (a', h)"
  using addr_set_ptr_keeps [of i a v e] addr_keeps_wf by fastforce

lemma addr_api_wf: "addr_api s s' \<Longrightarrow> addr_wf s \<Longrightarrow> addr_wf s'"
proof (induction rule: addr_api.induct)
  case (family a f e rc a' e' h)
  then show ?case using addr_set_family_keeps [of a f e] addr_keeps_wf by fastforce
next
  case (addr b a f e rc a' e' h)
  then show ?case using addr_set_addr_keeps [of b a f e] addr_keeps_wf by fastforce
next
  case (local b a f e rc a' e' h)
  then show ?case using addr_set_local_keeps [of b a f e] addr_keeps_wf by fastforce
next
  case (label a name h e rc a' h' e')
  from addr_set_label_wf [OF label(2,1)] show ?case .
next
  case (valid a y e rc a' e' h)
  from valid(1) have "addr_keeps a a'"
    unfolding mnlxt_rt_addr_set_valid_lifetime_def by (auto simp: addr_lifetime_keeps)
  then show ?case using valid(2) by (rule addr_keeps_wf)
next
  case (preferred a y e rc a' e' h)
  from preferred(1) have "addr_keeps a a'"
    unfolding mnlxt_rt_addr_set_preferred_lifetime_def by (auto simp: addr_lifetime_keeps)
  then show ?case using preferred(2) by (rule addr_keeps_wf)
qed (unfold setter_defs, (erule addr_set_ptr_wf, simp, assumption)+)

lemma addr_reach_wf: "addr_reach s \<Longrightarrow> addr_wf s"
proof (induction rule: addr_reach.induct)
  case (new mem e a e' h)
  then show ?case
    by (auto simp: addr_wf_def addr_inv_def mnlxt_rt_addr_new_def addr_zero_def addr_label_ok_def inet_ok_def inet_zero_def
        split: if_splits)
qed (rule addr_api_wf)

end
