(* ===== verification/Link.thy ===== *)
theory Link
  imports Props CHeap
begin

text \<open>
  src/rtnl/link.c, link_vlan.c, link_xfrm.c and link_tun.c with the enumerations and structs of
  include/libmnlxt/rt_link.h and rt_link_tun.h: the network link object and the kind specific
  information in its union. The union is kept as its three 32 bit words, in the little endian layout
  of the three structs that share them, so that what one kind writes is what another kind would read.
  \<open>link_obj\<close> interprets the map contract of Props; \<open>link_reach\<close> are the links that calls of the
  public setters build, \<open>link_inv\<close> what they all satisfy.
\<close>

section \<open>The link object\<close>

abbreviation MNLXT_RT_LINK_FAMILY :: nat where "MNLXT_RT_LINK_FAMILY \<equiv> 0"
abbreviation MNLXT_RT_LINK_TYPE :: nat where "MNLXT_RT_LINK_TYPE \<equiv> 1"
abbreviation MNLXT_RT_LINK_NAME :: nat where "MNLXT_RT_LINK_NAME \<equiv> 2"
abbreviation MNLXT_RT_LINK_INDEX :: nat where "MNLXT_RT_LINK_INDEX \<equiv> 3"
abbreviation MNLXT_RT_LINK_FLAGS :: nat where "MNLXT_RT_LINK_FLAGS \<equiv> 4"
abbreviation MNLXT_RT_LINK_HWADDR :: nat where "MNLXT_RT_LINK_HWADDR \<equiv> 5"
abbreviation MNLXT_RT_LINK_MTU :: nat where "MNLXT_RT_LINK_MTU \<equiv> 6"
abbreviation MNLXT_RT_LINK_MTU_MIN :: nat where "MNLXT_RT_LINK_MTU_MIN \<equiv> 7"
abbreviation MNLXT_RT_LINK_MTU_MAX :: nat where "MNLXT_RT_LINK_MTU_MAX \<equiv> 8"
abbreviation MNLXT_RT_LINK_MASTER :: nat where "MNLXT_RT_LINK_MASTER \<equiv> 9"
abbreviation MNLXT_RT_LINK_STATE :: nat where "MNLXT_RT_LINK_STATE \<equiv> 10"
abbreviation MNLXT_RT_LINK_PARENT :: nat where "MNLXT_RT_LINK_PARENT \<equiv> 11"
abbreviation MNLXT_RT_LINK_INFO :: nat where "MNLXT_RT_LINK_INFO \<equiv> 12"
abbreviation MNLXT_RT_LINK_MAX :: nat where "MNLXT_RT_LINK_MAX \<equiv> MNLXT_RT_LINK_INFO + 1"

abbreviation MNLXT_RT_LINK_VLAN_ID :: nat where "MNLXT_RT_LINK_VLAN_ID \<equiv> 0"

abbreviation MNLXT_RT_LINK_XFRM_IFINDEX :: nat where "MNLXT_RT_LINK_XFRM_IFINDEX \<equiv> 0"
abbreviation MNLXT_RT_LINK_XFRM_ID :: nat where "MNLXT_RT_LINK_XFRM_ID \<equiv> 1"

abbreviation MNLXT_RT_LINK_TUN_TYPE :: nat where "MNLXT_RT_LINK_TUN_TYPE \<equiv> 0"
abbreviation MNLXT_RT_LINK_TUN_FLAGS :: nat where "MNLXT_RT_LINK_TUN_FLAGS \<equiv> 1"
abbreviation MNLXT_RT_LINK_TUN_UID :: nat where "MNLXT_RT_LINK_TUN_UID \<equiv> 2"
abbreviation MNLXT_RT_LINK_TUN_GID :: nat where "MNLXT_RT_LINK_TUN_GID \<equiv> 3"
abbreviation MNLXT_RT_LINK_VLAN_MAX :: nat where "MNLXT_RT_LINK_VLAN_MAX \<equiv> MNLXT_RT_LINK_VLAN_ID + 1"
abbreviation MNLXT_RT_LINK_XFRM_MAX :: nat where "MNLXT_RT_LINK_XFRM_MAX \<equiv> MNLXT_RT_LINK_XFRM_ID + 1"
abbreviation MNLXT_RT_LINK_TUN_MAX :: nat where "MNLXT_RT_LINK_TUN_MAX \<equiv> MNLXT_RT_LINK_TUN_GID + 1"

text \<open>The values of \<open>mnlxt_rt_link_info_kind_t\<close>, an \<open>unsigned int\<close>.\<close>

abbreviation MNLXT_RT_LINK_INFO_KIND_BR :: u32 where "MNLXT_RT_LINK_INFO_KIND_BR \<equiv> 0"
abbreviation MNLXT_RT_LINK_INFO_KIND_VLAN :: u32 where "MNLXT_RT_LINK_INFO_KIND_VLAN \<equiv> 1"
abbreviation MNLXT_RT_LINK_INFO_KIND_BOND :: u32 where "MNLXT_RT_LINK_INFO_KIND_BOND \<equiv> 2"
abbreviation MNLXT_RT_LINK_INFO_KIND_TUN :: u32 where "MNLXT_RT_LINK_INFO_KIND_TUN \<equiv> 3"
abbreviation MNLXT_RT_LINK_INFO_KIND_XFRM :: u32 where "MNLXT_RT_LINK_INFO_KIND_XFRM \<equiv> 4"
abbreviation MNLXT_RT_LINK_INFO_KIND_MAX :: nat where "MNLXT_RT_LINK_INFO_KIND_MAX \<equiv> 5"

abbreviation IFF_UP :: u32 where "IFF_UP \<equiv> 1"
abbreviation IFF_TUN :: u8 where "IFF_TUN \<equiv> 1"
abbreviation IFF_TAP :: u8 where "IFF_TAP \<equiv> 2"

record mnlxt_rt_link_info_t =
  info_prop_flags :: u16
  info_kind :: u32
  info_w0 :: u32
  info_w1 :: u32
  info_w2 :: u32

record mnlxt_rt_link_t =
  link_prop_flags :: u16
  link_type :: u16
  link_family :: u8
  link_state :: u8
  link_mac :: mnlxt_eth_addr_t
  link_name :: string
  link_index :: u32
  link_flags :: u32
  link_flag_mask :: u32
  link_mtu :: u32
  link_mtu_min :: u32
  link_mtu_max :: u32
  link_master :: u32
  link_parent :: u32
  link_info :: mnlxt_rt_link_info_t

definition info_zero :: mnlxt_rt_link_info_t where
  "info_zero = \<lparr>info_prop_flags = 0, info_kind = 0, info_w0 = 0, info_w1 = 0, info_w2 = 0\<rparr>"

definition link_zero :: mnlxt_rt_link_t where
  "link_zero = \<lparr>link_prop_flags = 0, link_type = 0, link_family = 0, link_state = 0,
     link_mac = (0, 0, 0, 0, 0, 0), link_name = [], link_index = 0, link_flags = 0,
     link_flag_mask = 0, link_mtu = 0, link_mtu_min = 0, link_mtu_max = 0, link_master = 0,
     link_parent = 0, link_info = info_zero\<rparr>"

section \<open>The members of the union\<close>

text \<open>
  \<open>vlan.id\<close> and \<open>tun.type\<close> are the low bytes of the first word, \<open>tun.flags\<close> its
  high half; \<open>xfrm.if_index\<close> is the whole of it.
\<close>

definition vlan_id :: "mnlxt_rt_link_info_t \<Rightarrow> u16" where
  "vlan_id i = ucast (info_w0 i)"

definition set_vlan_id :: "u16 \<Rightarrow> mnlxt_rt_link_info_t \<Rightarrow> mnlxt_rt_link_info_t" where
  "set_vlan_id x i = i\<lparr>info_w0 := (info_w0 i AND NOT (mask 16)) OR ucast x\<rparr>"

definition tun_type :: "mnlxt_rt_link_info_t \<Rightarrow> u8" where
  "tun_type i = ucast (info_w0 i)"

definition set_tun_type :: "u8 \<Rightarrow> mnlxt_rt_link_info_t \<Rightarrow> mnlxt_rt_link_info_t" where
  "set_tun_type x i = i\<lparr>info_w0 := (info_w0 i AND NOT (mask 8)) OR ucast x\<rparr>"

definition tun_flags :: "mnlxt_rt_link_info_t \<Rightarrow> u16" where
  "tun_flags i = ucast (drop_bit 16 (info_w0 i))"

definition set_tun_flags :: "u16 \<Rightarrow> mnlxt_rt_link_info_t \<Rightarrow> mnlxt_rt_link_info_t" where
  "set_tun_flags x i = i\<lparr>info_w0 := (info_w0 i AND mask 16) OR push_bit 16 (ucast x)\<rparr>"

abbreviation tun_uid :: "mnlxt_rt_link_info_t \<Rightarrow> u32" where "tun_uid \<equiv> info_w1"
abbreviation tun_gid :: "mnlxt_rt_link_info_t \<Rightarrow> u32" where "tun_gid \<equiv> info_w2"
abbreviation xfrm_if_index :: "mnlxt_rt_link_info_t \<Rightarrow> u32" where "xfrm_if_index \<equiv> info_w0"
abbreviation xfrm_id :: "mnlxt_rt_link_info_t \<Rightarrow> u32" where "xfrm_id \<equiv> info_w1"

section \<open>Access table\<close>

definition link_data :: "nat \<Rightarrow> nat" where
  "link_data data =
     (if data = MNLXT_RT_LINK_TYPE then 2
      else if data = MNLXT_RT_LINK_FAMILY then 1
      else if data = MNLXT_RT_LINK_INDEX then 4
      else if data = MNLXT_RT_LINK_FLAGS then 4
      else if data = MNLXT_RT_LINK_HWADDR then 6
      else if data = MNLXT_RT_LINK_MTU then 4
      else if data = MNLXT_RT_LINK_MTU_MIN then 4
      else if data = MNLXT_RT_LINK_MTU_MAX then 4
      else if data = MNLXT_RT_LINK_MASTER then 4
      else if data = MNLXT_RT_LINK_STATE then 1
      else if data = MNLXT_RT_LINK_PARENT then 4
      else 0)"

definition link_store :: "nat \<Rightarrow> cval \<Rightarrow> mnlxt_rt_link_t \<Rightarrow> mnlxt_rt_link_t" where
  "link_store data v ob =
     (if data = MNLXT_RT_LINK_TYPE then ob\<lparr>link_type := un_U16 v\<rparr>
      else if data = MNLXT_RT_LINK_FAMILY then ob\<lparr>link_family := un_U8 v\<rparr>
      else if data = MNLXT_RT_LINK_INDEX then ob\<lparr>link_index := un_U32 v\<rparr>
      else if data = MNLXT_RT_LINK_FLAGS then ob\<lparr>link_flags := un_U32 v\<rparr>
      else if data = MNLXT_RT_LINK_HWADDR then ob\<lparr>link_mac := un_Mac v\<rparr>
      else if data = MNLXT_RT_LINK_MTU then ob\<lparr>link_mtu := un_U32 v\<rparr>
      else if data = MNLXT_RT_LINK_MTU_MIN then ob\<lparr>link_mtu_min := un_U32 v\<rparr>
      else if data = MNLXT_RT_LINK_MTU_MAX then ob\<lparr>link_mtu_max := un_U32 v\<rparr>
      else if data = MNLXT_RT_LINK_MASTER then ob\<lparr>link_master := un_U32 v\<rparr>
      else if data = MNLXT_RT_LINK_STATE then ob\<lparr>link_state := un_U8 v\<rparr>
      else if data = MNLXT_RT_LINK_PARENT then ob\<lparr>link_parent := un_U32 v\<rparr>
      else ob)"

definition link_load :: "nat \<Rightarrow> mnlxt_rt_link_t \<Rightarrow> cval" where
  "link_load data ob =
     (if data = MNLXT_RT_LINK_TYPE then U16 (link_type ob)
      else if data = MNLXT_RT_LINK_FAMILY then U8 (link_family ob)
      else if data = MNLXT_RT_LINK_INDEX then U32 (link_index ob)
      else if data = MNLXT_RT_LINK_FLAGS then U32 (link_flags ob)
      else if data = MNLXT_RT_LINK_HWADDR then Mac (link_mac ob)
      else if data = MNLXT_RT_LINK_MTU then U32 (link_mtu ob)
      else if data = MNLXT_RT_LINK_MTU_MIN then U32 (link_mtu_min ob)
      else if data = MNLXT_RT_LINK_MTU_MAX then U32 (link_mtu_max ob)
      else if data = MNLXT_RT_LINK_MASTER then U32 (link_master ob)
      else if data = MNLXT_RT_LINK_STATE then U8 (link_state ob)
      else if data = MNLXT_RT_LINK_PARENT then U32 (link_parent ob)
      else U8 0)"

section \<open>Creation and cloning\<close>

definition mnlxt_rt_link_new :: "bool \<Rightarrow> errno \<Rightarrow> mnlxt_rt_link_t option \<times> errno" where
  "mnlxt_rt_link_new mem e = (if mem then (Some link_zero, e) else (None, ENOMEM))"

definition mnlxt_rt_link_clone ::
  "bool \<Rightarrow> mnlxt_rt_link_t option \<Rightarrow> u64 \<Rightarrow> errno \<Rightarrow> mnlxt_rt_link_t option \<times> errno" where
  "mnlxt_rt_link_clone mem src flt e =
     (case src of None \<Rightarrow> (None, EINVAL)
      | Some s \<Rightarrow>
          (case mnlxt_rt_link_new mem e of
             (None, e') \<Rightarrow> (None, e')
           | (Some dst, e') \<Rightarrow>
               if flt \<noteq> 0 then
                 (Some (s\<lparr>link_prop_flags := ucast (ucast (link_prop_flags s) AND flt)\<rparr>), e')
               else (Some dst, e')))"

section \<open>Generic access\<close>

definition mnlxt_rt_link_set_ptr ::
  "mnlxt_rt_link_t option \<Rightarrow> nat \<Rightarrow> cval \<Rightarrow> errno \<Rightarrow> int \<times> mnlxt_rt_link_t option \<times> errno" where
  "mnlxt_rt_link_set_ptr link data ptr e =
     (case link of None \<Rightarrow> (- 1, None, EINVAL)
      | Some ob \<Rightarrow>
          if MNLXT_RT_LINK_MAX \<le> data \<or> link_data data \<noteq> csize ptr \<or> link_data data = 0
          then (- 1, Some ob, EINVAL)
          else (0, Some (link_store data ptr
                  (ob\<lparr>link_prop_flags := set_prop_flag (link_prop_flags ob) data\<rparr>)), e))"

definition mnlxt_rt_link_set_u32 ::
  "mnlxt_rt_link_t option \<Rightarrow> nat \<Rightarrow> u32 \<Rightarrow> errno \<Rightarrow> int \<times> mnlxt_rt_link_t option \<times> errno" where
  "mnlxt_rt_link_set_u32 link data x e = mnlxt_rt_link_set_ptr link data (U32 x) e"

definition mnlxt_rt_link_set_u16 ::
  "mnlxt_rt_link_t option \<Rightarrow> nat \<Rightarrow> u16 \<Rightarrow> errno \<Rightarrow> int \<times> mnlxt_rt_link_t option \<times> errno" where
  "mnlxt_rt_link_set_u16 link data x e = mnlxt_rt_link_set_ptr link data (U16 x) e"

definition mnlxt_rt_link_set_u8 ::
  "mnlxt_rt_link_t option \<Rightarrow> nat \<Rightarrow> u8 \<Rightarrow> errno \<Rightarrow> int \<times> mnlxt_rt_link_t option \<times> errno" where
  "mnlxt_rt_link_set_u8 link data x e = mnlxt_rt_link_set_ptr link data (U8 x) e"

definition mnlxt_rt_link_get_ptr ::
  "mnlxt_rt_link_t option \<Rightarrow> nat \<Rightarrow> cval \<Rightarrow> errno \<Rightarrow> int \<times> cval \<times> errno" where
  "mnlxt_rt_link_get_ptr link data ptr e =
     (case link of None \<Rightarrow> (- 1, ptr, EINVAL)
      | Some ob \<Rightarrow>
          if MNLXT_RT_LINK_MAX \<le> data \<or> link_data data \<noteq> csize ptr \<or> link_data data = 0
          then (- 1, ptr, EINVAL)
          else if \<not> get_prop_flag (link_prop_flags ob) data then (1, ptr, e)
          else (0, link_load data ob, e))"

definition mnlxt_rt_link_get_u32 ::
  "mnlxt_rt_link_t option \<Rightarrow> nat \<Rightarrow> u32 \<Rightarrow> errno \<Rightarrow> int \<times> u32 \<times> errno" where
  "mnlxt_rt_link_get_u32 link data p e =
     (case mnlxt_rt_link_get_ptr link data (U32 p) e of (rc, v, e') \<Rightarrow> (rc, un_U32 v, e'))"

definition mnlxt_rt_link_get_u16 ::
  "mnlxt_rt_link_t option \<Rightarrow> nat \<Rightarrow> u16 \<Rightarrow> errno \<Rightarrow> int \<times> u16 \<times> errno" where
  "mnlxt_rt_link_get_u16 link data p e =
     (case mnlxt_rt_link_get_ptr link data (U16 p) e of (rc, v, e') \<Rightarrow> (rc, un_U16 v, e'))"

definition mnlxt_rt_link_get_u8 ::
  "mnlxt_rt_link_t option \<Rightarrow> nat \<Rightarrow> u8 \<Rightarrow> errno \<Rightarrow> int \<times> u8 \<times> errno" where
  "mnlxt_rt_link_get_u8 link data p e =
     (case mnlxt_rt_link_get_ptr link data (U8 p) e of (rc, v, e') \<Rightarrow> (rc, un_U8 v, e'))"

section \<open>Setters and getters of link.c\<close>

definition mnlxt_rt_link_get_info_kind ::
  "mnlxt_rt_link_t option \<Rightarrow> u32 option \<Rightarrow> errno \<Rightarrow> int \<times> u32 option \<times> errno" where
  "mnlxt_rt_link_get_info_kind rt_link info_kind_p e =
     (case (rt_link, info_kind_p) of
        (Some ob, Some _) \<Rightarrow>
          if \<not> get_prop_flag (link_prop_flags ob) MNLXT_RT_LINK_INFO then (1, info_kind_p, e)
          else (0, Some (info_kind (link_info ob)), e)
      | _ \<Rightarrow> (- 1, info_kind_p, EINVAL))"

text \<open>The local variable \<open>kind\<close> is read only when the getter has written it; it starts as 0 here.\<close>

definition mnlxt_rt_link_set_info_kind ::
  "mnlxt_rt_link_t option \<Rightarrow> u32 \<Rightarrow> errno \<Rightarrow> int \<times> mnlxt_rt_link_t option \<times> errno" where
  "mnlxt_rt_link_set_info_kind rt_link kind_new e =
     (case mnlxt_rt_link_get_info_kind rt_link (Some 0) e of
        (rc, kind, e') \<Rightarrow>
          if rc = 0 \<and> kind \<noteq> Some kind_new then (- 1, rt_link, EINVAL)
          else if rc = 1 then
            (0, map_option (\<lambda>ob. ob\<lparr>link_info := (link_info ob)\<lparr>info_kind := kind_new\<rparr>,
                link_prop_flags := set_prop_flag (link_prop_flags ob) MNLXT_RT_LINK_INFO\<rparr>) rt_link, e')
          else (rc, rt_link, e'))"

definition mnlxt_rt_link_set_type ::
  "mnlxt_rt_link_t option \<Rightarrow> u16 \<Rightarrow> errno \<Rightarrow> int \<times> mnlxt_rt_link_t option \<times> errno" where
  "mnlxt_rt_link_set_type link type e = mnlxt_rt_link_set_u16 link MNLXT_RT_LINK_TYPE type e"

definition mnlxt_rt_link_get_type ::
  "mnlxt_rt_link_t option \<Rightarrow> u16 \<Rightarrow> errno \<Rightarrow> int \<times> u16 \<times> errno" where
  "mnlxt_rt_link_get_type link type e = mnlxt_rt_link_get_u16 link MNLXT_RT_LINK_TYPE type e"

definition mnlxt_rt_link_set_family ::
  "mnlxt_rt_link_t option \<Rightarrow> u8 \<Rightarrow> errno \<Rightarrow> int \<times> mnlxt_rt_link_t option \<times> errno" where
  "mnlxt_rt_link_set_family link family e = mnlxt_rt_link_set_u8 link MNLXT_RT_LINK_FAMILY family e"

definition mnlxt_rt_link_get_family ::
  "mnlxt_rt_link_t option \<Rightarrow> u8 \<Rightarrow> errno \<Rightarrow> int \<times> u8 \<times> errno" where
  "mnlxt_rt_link_get_family link family e = mnlxt_rt_link_get_u8 link MNLXT_RT_LINK_FAMILY family e"

text \<open>The name buffer holds a string shorter than itself; \<open>strncpy\<close> copies all of it.\<close>

definition mnlxt_rt_link_get_name ::
  "mnlxt_rt_link_t option \<Rightarrow> string option \<Rightarrow> errno \<Rightarrow> int \<times> string option \<times> errno" where
  "mnlxt_rt_link_get_name rt_link name e =
     (case (rt_link, name) of
        (Some ob, Some _) \<Rightarrow>
          if \<not> get_prop_flag (link_prop_flags ob) MNLXT_RT_LINK_NAME then (1, name, e)
          else (0, Some (take IF_NAMESIZE (link_name ob)), e)
      | _ \<Rightarrow> (- 1, name, EINVAL))"

definition mnlxt_rt_link_set_name ::
  "mnlxt_rt_link_t option \<Rightarrow> string option \<Rightarrow> errno \<Rightarrow> int \<times> mnlxt_rt_link_t option \<times> errno" where
  "mnlxt_rt_link_set_name rt_link name e =
     (case (rt_link, name) of
        (Some ob, Some s) \<Rightarrow>
          if IF_NAMESIZE \<le> length s then (- 1, rt_link, EINVAL)
          else (0, Some (ob\<lparr>link_prop_flags := set_prop_flag (link_prop_flags ob) MNLXT_RT_LINK_NAME,
                 link_name := s\<rparr>), e)
      | _ \<Rightarrow> (- 1, rt_link, EINVAL))"

definition mnlxt_rt_link_get_index ::
  "mnlxt_rt_link_t option \<Rightarrow> u32 \<Rightarrow> errno \<Rightarrow> int \<times> u32 \<times> errno" where
  "mnlxt_rt_link_get_index link index e = mnlxt_rt_link_get_u32 link MNLXT_RT_LINK_INDEX index e"

definition mnlxt_rt_link_set_index ::
  "mnlxt_rt_link_t option \<Rightarrow> u32 \<Rightarrow> errno \<Rightarrow> int \<times> mnlxt_rt_link_t option \<times> errno" where
  "mnlxt_rt_link_set_index link index e = mnlxt_rt_link_set_u32 link MNLXT_RT_LINK_INDEX index e"

definition mnlxt_rt_link_get_parent ::
  "mnlxt_rt_link_t option \<Rightarrow> u32 \<Rightarrow> errno \<Rightarrow> int \<times> u32 \<times> errno" where
  "mnlxt_rt_link_get_parent link if_index e = mnlxt_rt_link_get_u32 link MNLXT_RT_LINK_PARENT if_index e"

definition mnlxt_rt_link_set_parent ::
  "mnlxt_rt_link_t option \<Rightarrow> u32 \<Rightarrow> errno \<Rightarrow> int \<times> mnlxt_rt_link_t option \<times> errno" where
  "mnlxt_rt_link_set_parent link if_index e = mnlxt_rt_link_set_u32 link MNLXT_RT_LINK_PARENT if_index e"

definition mnlxt_rt_link_get_flags ::
  "mnlxt_rt_link_t option \<Rightarrow> u32 \<Rightarrow> errno \<Rightarrow> int \<times> u32 \<times> errno" where
  "mnlxt_rt_link_get_flags link flags e = mnlxt_rt_link_get_u32 link MNLXT_RT_LINK_FLAGS flags e"

definition mnlxt_rt_link_set_flags ::
  "mnlxt_rt_link_t option \<Rightarrow> u32 \<Rightarrow> errno \<Rightarrow> int \<times> mnlxt_rt_link_t option \<times> errno" where
  "mnlxt_rt_link_set_flags link flags e =
     (case mnlxt_rt_link_set_u32 link MNLXT_RT_LINK_FLAGS flags e of
        (rc, ob, e') \<Rightarrow>
          (rc, if rc = 0 then map_option (\<lambda>l. l\<lparr>link_flag_mask := - 1\<rparr>) ob else ob, e'))"

definition mnlxt_rt_link_set_selected_flags ::
  "mnlxt_rt_link_t option \<Rightarrow> u32 \<Rightarrow> int \<Rightarrow> errno \<Rightarrow> int \<times> mnlxt_rt_link_t option \<times> errno" where
  "mnlxt_rt_link_set_selected_flags link flags on e =
     (case link of None \<Rightarrow> (- 1, None, EINVAL)
      | Some ob \<Rightarrow>
          if flags = 0 then (- 1, Some ob, EINVAL)
          else
            (0, Some (ob\<lparr>link_flags := (if on \<noteq> 0 then link_flags ob OR flags
                                 else link_flags ob AND NOT flags),
               link_flag_mask := link_flag_mask ob OR flags,
               link_prop_flags := set_prop_flag (link_prop_flags ob) MNLXT_RT_LINK_FLAGS\<rparr>), e))"

definition mnlxt_rt_link_set_flags_on ::
  "mnlxt_rt_link_t option \<Rightarrow> u32 \<Rightarrow> errno \<Rightarrow> int \<times> mnlxt_rt_link_t option \<times> errno" where
  "mnlxt_rt_link_set_flags_on link flags e = mnlxt_rt_link_set_selected_flags link flags 1 e"

definition mnlxt_rt_link_set_flags_off ::
  "mnlxt_rt_link_t option \<Rightarrow> u32 \<Rightarrow> errno \<Rightarrow> int \<times> mnlxt_rt_link_t option \<times> errno" where
  "mnlxt_rt_link_set_flags_off link flags e = mnlxt_rt_link_set_selected_flags link flags 0 e"

definition mnlxt_rt_link_get_mtu ::
  "mnlxt_rt_link_t option \<Rightarrow> u32 \<Rightarrow> errno \<Rightarrow> int \<times> u32 \<times> errno" where
  "mnlxt_rt_link_get_mtu link mtu e = mnlxt_rt_link_get_u32 link MNLXT_RT_LINK_MTU mtu e"

definition mnlxt_rt_link_set_mtu ::
  "mnlxt_rt_link_t option \<Rightarrow> u32 \<Rightarrow> errno \<Rightarrow> int \<times> mnlxt_rt_link_t option \<times> errno" where
  "mnlxt_rt_link_set_mtu link mtu e = mnlxt_rt_link_set_u32 link MNLXT_RT_LINK_MTU mtu e"

definition mnlxt_rt_link_get_mtu_min ::
  "mnlxt_rt_link_t option \<Rightarrow> u32 \<Rightarrow> errno \<Rightarrow> int \<times> u32 \<times> errno" where
  "mnlxt_rt_link_get_mtu_min link mtu e = mnlxt_rt_link_get_u32 link MNLXT_RT_LINK_MTU_MIN mtu e"

definition mnlxt_rt_link_set_mtu_min ::
  "mnlxt_rt_link_t option \<Rightarrow> u32 \<Rightarrow> errno \<Rightarrow> int \<times> mnlxt_rt_link_t option \<times> errno" where
  "mnlxt_rt_link_set_mtu_min link mtu e = mnlxt_rt_link_set_u32 link MNLXT_RT_LINK_MTU_MIN mtu e"

definition mnlxt_rt_link_get_mtu_max ::
  "mnlxt_rt_link_t option \<Rightarrow> u32 \<Rightarrow> errno \<Rightarrow> int \<times> u32 \<times> errno" where
  "mnlxt_rt_link_get_mtu_max link mtu e = mnlxt_rt_link_get_u32 link MNLXT_RT_LINK_MTU_MAX mtu e"

definition mnlxt_rt_link_set_mtu_max ::
  "mnlxt_rt_link_t option \<Rightarrow> u32 \<Rightarrow> errno \<Rightarrow> int \<times> mnlxt_rt_link_t option \<times> errno" where
  "mnlxt_rt_link_set_mtu_max link mtu e = mnlxt_rt_link_set_u32 link MNLXT_RT_LINK_MTU_MAX mtu e"

definition mnlxt_rt_link_get_master ::
  "mnlxt_rt_link_t option \<Rightarrow> u32 \<Rightarrow> errno \<Rightarrow> int \<times> u32 \<times> errno" where
  "mnlxt_rt_link_get_master link if_index e = mnlxt_rt_link_get_u32 link MNLXT_RT_LINK_MASTER if_index e"

definition mnlxt_rt_link_set_master ::
  "mnlxt_rt_link_t option \<Rightarrow> u32 \<Rightarrow> errno \<Rightarrow> int \<times> mnlxt_rt_link_t option \<times> errno" where
  "mnlxt_rt_link_set_master link if_index e = mnlxt_rt_link_set_u32 link MNLXT_RT_LINK_MASTER if_index e"

definition mnlxt_rt_link_get_state ::
  "mnlxt_rt_link_t option \<Rightarrow> u8 \<Rightarrow> errno \<Rightarrow> int \<times> u8 \<times> errno" where
  "mnlxt_rt_link_get_state link state e = mnlxt_rt_link_get_u8 link MNLXT_RT_LINK_STATE state e"

definition mnlxt_rt_link_set_state ::
  "mnlxt_rt_link_t option \<Rightarrow> u8 \<Rightarrow> errno \<Rightarrow> int \<times> mnlxt_rt_link_t option \<times> errno" where
  "mnlxt_rt_link_set_state link state e = mnlxt_rt_link_set_u8 link MNLXT_RT_LINK_STATE state e"

definition mnlxt_rt_link_get_hwaddr ::
  "mnlxt_rt_link_t option \<Rightarrow> mnlxt_eth_addr_t \<Rightarrow> errno \<Rightarrow> int \<times> mnlxt_eth_addr_t \<times> errno" where
  "mnlxt_rt_link_get_hwaddr link mac e =
     (case mnlxt_rt_link_get_ptr link MNLXT_RT_LINK_HWADDR (Mac mac) e of (rc, v, e') \<Rightarrow> (rc, un_Mac v, e'))"

definition mnlxt_rt_link_set_hwaddr ::
  "mnlxt_rt_link_t option \<Rightarrow> mnlxt_eth_addr_t \<Rightarrow> errno \<Rightarrow> int \<times> mnlxt_rt_link_t option \<times> errno" where
  "mnlxt_rt_link_set_hwaddr link mac e = mnlxt_rt_link_set_ptr link MNLXT_RT_LINK_HWADDR (Mac mac) e"

definition mnlxt_rt_link_get_updown ::
  "mnlxt_rt_link_t option \<Rightarrow> int option \<Rightarrow> errno \<Rightarrow> int \<times> int option \<times> errno" where
  "mnlxt_rt_link_get_updown link up e =
     (case up of None \<Rightarrow> (- 1, None, EINVAL)
      | Some _ \<Rightarrow>
          (case mnlxt_rt_link_get_flags link 0 e of
             (rc, flags, e') \<Rightarrow>
               (rc, if rc = 0 then (if flags AND IFF_UP \<noteq> 0 then Some 1 else Some 0) else up, e')))"

definition mnlxt_rt_link_set_updown ::
  "mnlxt_rt_link_t option \<Rightarrow> int \<Rightarrow> errno \<Rightarrow> int \<times> mnlxt_rt_link_t option \<times> errno" where
  "mnlxt_rt_link_set_updown link up e = mnlxt_rt_link_set_selected_flags link IFF_UP up e"

text \<open>\<open>rt_link->info.prop_flags\<close> with one more bit, and an update of \<open>rt_link->info\<close>.\<close>

definition info_set_flag :: "nat \<Rightarrow> mnlxt_rt_link_info_t \<Rightarrow> mnlxt_rt_link_info_t" where
  "info_set_flag b i = i\<lparr>info_prop_flags := set_prop_flag (info_prop_flags i) b\<rparr>"

definition info_unset_flag :: "nat \<Rightarrow> mnlxt_rt_link_info_t \<Rightarrow> mnlxt_rt_link_info_t" where
  "info_unset_flag b i = i\<lparr>info_prop_flags := unset_prop_flag (info_prop_flags i) b\<rparr>"

definition map_info ::
  "(mnlxt_rt_link_info_t \<Rightarrow> mnlxt_rt_link_info_t) \<Rightarrow> mnlxt_rt_link_t option \<Rightarrow> mnlxt_rt_link_t option" where
  "map_info f link = map_option (\<lambda>ob. ob\<lparr>link_info := f (link_info ob)\<rparr>) link"

section \<open>Setters and getters of link_vlan.c and link_xfrm.c\<close>

definition mnlxt_rt_link_set_vlan_id ::
  "mnlxt_rt_link_t option \<Rightarrow> u16 \<Rightarrow> errno \<Rightarrow> int \<times> mnlxt_rt_link_t option \<times> errno" where
  "mnlxt_rt_link_set_vlan_id rt_link vid e =
     (case mnlxt_rt_link_set_info_kind rt_link MNLXT_RT_LINK_INFO_KIND_VLAN e of
        (rc, ob, e') \<Rightarrow>
          if rc = 0 then
            (0, map_info (\<lambda>i. set_vlan_id vid (info_set_flag MNLXT_RT_LINK_VLAN_ID i)) ob, e')
          else (- 1, ob, e'))"

definition mnlxt_rt_link_get_vlan_id ::
  "mnlxt_rt_link_t option \<Rightarrow> u16 option \<Rightarrow> errno \<Rightarrow> int \<times> u16 option \<times> errno" where
  "mnlxt_rt_link_get_vlan_id rt_link vid e =
     (case (rt_link, vid) of
        (Some ob, Some _) \<Rightarrow>
          if \<not> get_prop_flag (link_prop_flags ob) MNLXT_RT_LINK_INFO then (1, vid, e)
          else if MNLXT_RT_LINK_INFO_KIND_VLAN \<noteq> info_kind (link_info ob) then (- 1, vid, EINVAL)
          else if \<not> get_prop_flag (info_prop_flags (link_info ob)) MNLXT_RT_LINK_VLAN_ID then (1, vid, e)
          else (0, Some (vlan_id (link_info ob)), e)
      | _ \<Rightarrow> (- 1, vid, EINVAL))"

text \<open>The index of the underlying link is also the parent, unless one is set.\<close>

definition mnlxt_rt_link_set_xfrm_ifindex ::
  "mnlxt_rt_link_t option \<Rightarrow> u32 \<Rightarrow> errno \<Rightarrow> int \<times> mnlxt_rt_link_t option \<times> errno" where
  "mnlxt_rt_link_set_xfrm_ifindex rt_link if_index e =
     (case mnlxt_rt_link_set_info_kind rt_link MNLXT_RT_LINK_INFO_KIND_XFRM e of
        (rc, ob, e') \<Rightarrow>
          if rc = 0 then
            (let ob1 = map_info (\<lambda>i. (info_set_flag MNLXT_RT_LINK_XFRM_IFINDEX i)\<lparr>info_w0 := if_index\<rparr>) ob
             in (case ob1 of None \<Rightarrow> (0, None, e')
                 | Some l \<Rightarrow>
                     if \<not> get_prop_flag (link_prop_flags l) MNLXT_RT_LINK_PARENT
                     then mnlxt_rt_link_set_parent (Some l) if_index e'
                     else (0, Some l, e')))
          else (- 1, ob, e'))"

definition mnlxt_rt_link_get_xfrm_ifindex ::
  "mnlxt_rt_link_t option \<Rightarrow> u32 option \<Rightarrow> errno \<Rightarrow> int \<times> u32 option \<times> errno" where
  "mnlxt_rt_link_get_xfrm_ifindex rt_link if_index e =
     (case (rt_link, if_index) of
        (Some ob, Some _) \<Rightarrow>
          if \<not> get_prop_flag (link_prop_flags ob) MNLXT_RT_LINK_INFO then (1, if_index, e)
          else if MNLXT_RT_LINK_INFO_KIND_XFRM \<noteq> info_kind (link_info ob) then (- 1, if_index, EINVAL)
          else if \<not> get_prop_flag (info_prop_flags (link_info ob)) MNLXT_RT_LINK_XFRM_IFINDEX then (1, if_index, e)
          else (0, Some (xfrm_if_index (link_info ob)), e)
      | _ \<Rightarrow> (- 1, if_index, EINVAL))"

definition mnlxt_rt_link_set_xfrm_id ::
  "mnlxt_rt_link_t option \<Rightarrow> u32 \<Rightarrow> errno \<Rightarrow> int \<times> mnlxt_rt_link_t option \<times> errno" where
  "mnlxt_rt_link_set_xfrm_id rt_link xid e =
     (case mnlxt_rt_link_set_info_kind rt_link MNLXT_RT_LINK_INFO_KIND_XFRM e of
        (rc, ob, e') \<Rightarrow>
          if rc = 0 then
            (0, map_info (\<lambda>i. (info_set_flag MNLXT_RT_LINK_XFRM_ID i)\<lparr>info_w1 := xid\<rparr>) ob, e')
          else (- 1, ob, e'))"

definition mnlxt_rt_link_get_xfrm_id ::
  "mnlxt_rt_link_t option \<Rightarrow> u32 option \<Rightarrow> errno \<Rightarrow> int \<times> u32 option \<times> errno" where
  "mnlxt_rt_link_get_xfrm_id rt_link xid e =
     (case (rt_link, xid) of
        (Some ob, Some _) \<Rightarrow>
          if \<not> get_prop_flag (link_prop_flags ob) MNLXT_RT_LINK_INFO then (1, xid, e)
          else if MNLXT_RT_LINK_INFO_KIND_XFRM \<noteq> info_kind (link_info ob) then (- 1, xid, EINVAL)
          else if \<not> get_prop_flag (info_prop_flags (link_info ob)) MNLXT_RT_LINK_XFRM_ID then (1, xid, e)
          else (0, Some (xfrm_id (link_info ob)), e)
      | _ \<Rightarrow> (- 1, xid, EINVAL))"

section \<open>Setters and getters of link_tun.c\<close>

definition mnlxt_rt_link_check_tun_kind :: "mnlxt_rt_link_t option \<Rightarrow> errno \<Rightarrow> int \<times> errno" where
  "mnlxt_rt_link_check_tun_kind rt_link e =
     (case mnlxt_rt_link_get_info_kind rt_link (Some (- 1)) e of
        (rc, kind, e') \<Rightarrow>
          if rc = 0 \<and> kind \<noteq> Some MNLXT_RT_LINK_INFO_KIND_TUN then (- 1, EINVAL) else (rc, e'))"

definition mnlxt_rt_link_get_tun_type ::
  "mnlxt_rt_link_t option \<Rightarrow> u8 \<Rightarrow> errno \<Rightarrow> int \<times> u8 \<times> errno" where
  "mnlxt_rt_link_get_tun_type rt_link type e =
     (case (mnlxt_rt_link_check_tun_kind rt_link e, rt_link) of
        ((rc, e'), Some ob) \<Rightarrow>
          if rc = 0 then
            if \<not> get_prop_flag (info_prop_flags (link_info ob)) MNLXT_RT_LINK_TUN_TYPE then (1, type, e')
            else (0, tun_type (link_info ob), e')
          else (rc, type, e')
      | ((rc, e'), None) \<Rightarrow> (rc, type, e'))"

definition mnlxt_rt_link_set_tun_type ::
  "mnlxt_rt_link_t option \<Rightarrow> u8 \<Rightarrow> errno \<Rightarrow> int \<times> mnlxt_rt_link_t option \<times> errno" where
  "mnlxt_rt_link_set_tun_type rt_link type e =
     (if type AND IFF_TUN \<noteq> 0 \<and> type AND IFF_TAP \<noteq> 0 then (- 1, rt_link, EINVAL)
      else (case mnlxt_rt_link_set_info_kind rt_link MNLXT_RT_LINK_INFO_KIND_TUN e of
        (rc, ob, e') \<Rightarrow>
          if rc = 0 then
            (0, map_info (\<lambda>i. (if type = 0 then info_unset_flag MNLXT_RT_LINK_TUN_TYPE else info_set_flag MNLXT_RT_LINK_TUN_TYPE)
                (set_tun_type type i)) ob, e')
          else (- 1, ob, e')))"

definition mnlxt_rt_link_get_tun_flags ::
  "mnlxt_rt_link_t option \<Rightarrow> u16 \<Rightarrow> errno \<Rightarrow> int \<times> u16 \<times> errno" where
  "mnlxt_rt_link_get_tun_flags rt_link flags e =
     (case (mnlxt_rt_link_check_tun_kind rt_link e, rt_link) of
        ((rc, e'), Some ob) \<Rightarrow>
          if rc = 0 then
            if \<not> get_prop_flag (info_prop_flags (link_info ob)) MNLXT_RT_LINK_TUN_FLAGS then (1, flags, e')
            else (0, tun_flags (link_info ob), e')
          else (rc, flags, e')
      | ((rc, e'), None) \<Rightarrow> (rc, flags, e'))"

definition mnlxt_rt_link_set_tun_flags ::
  "mnlxt_rt_link_t option \<Rightarrow> u16 \<Rightarrow> errno \<Rightarrow> int \<times> mnlxt_rt_link_t option \<times> errno" where
  "mnlxt_rt_link_set_tun_flags rt_link flags e =
     (case mnlxt_rt_link_set_info_kind rt_link MNLXT_RT_LINK_INFO_KIND_TUN e of
        (rc, ob, e') \<Rightarrow>
          if rc = 0 then
            (0, map_info (\<lambda>i. (if flags = 0 then info_unset_flag MNLXT_RT_LINK_TUN_FLAGS else info_set_flag MNLXT_RT_LINK_TUN_FLAGS)
                (set_tun_flags flags i)) ob, e')
          else (- 1, ob, e'))"

definition mnlxt_rt_link_get_tun_uid ::
  "mnlxt_rt_link_t option \<Rightarrow> u32 \<Rightarrow> errno \<Rightarrow> int \<times> u32 \<times> errno" where
  "mnlxt_rt_link_get_tun_uid rt_link uid e =
     (case (mnlxt_rt_link_check_tun_kind rt_link e, rt_link) of
        ((rc, e'), Some ob) \<Rightarrow>
          if rc = 0 then
            if \<not> get_prop_flag (info_prop_flags (link_info ob)) MNLXT_RT_LINK_TUN_UID then (1, uid, e')
            else (0, tun_uid (link_info ob), e')
          else (rc, uid, e')
      | ((rc, e'), None) \<Rightarrow> (rc, uid, e'))"

definition mnlxt_rt_link_set_tun_uid ::
  "mnlxt_rt_link_t option \<Rightarrow> u32 \<Rightarrow> errno \<Rightarrow> int \<times> mnlxt_rt_link_t option \<times> errno" where
  "mnlxt_rt_link_set_tun_uid rt_link uid e =
     (case mnlxt_rt_link_set_info_kind rt_link MNLXT_RT_LINK_INFO_KIND_TUN e of
        (rc, ob, e') \<Rightarrow>
          if rc = 0 then (0, map_info (\<lambda>i. info_set_flag MNLXT_RT_LINK_TUN_UID (i\<lparr>info_w1 := uid\<rparr>)) ob, e')
          else (- 1, ob, e'))"

definition mnlxt_rt_link_get_tun_gid ::
  "mnlxt_rt_link_t option \<Rightarrow> u32 \<Rightarrow> errno \<Rightarrow> int \<times> u32 \<times> errno" where
  "mnlxt_rt_link_get_tun_gid rt_link gid e =
     (case (mnlxt_rt_link_check_tun_kind rt_link e, rt_link) of
        ((rc, e'), Some ob) \<Rightarrow>
          if rc = 0 then
            if \<not> get_prop_flag (info_prop_flags (link_info ob)) MNLXT_RT_LINK_TUN_GID then (1, gid, e')
            else (0, tun_gid (link_info ob), e')
          else (rc, gid, e')
      | ((rc, e'), None) \<Rightarrow> (rc, gid, e'))"

definition mnlxt_rt_link_set_tun_gid ::
  "mnlxt_rt_link_t option \<Rightarrow> u32 \<Rightarrow> errno \<Rightarrow> int \<times> mnlxt_rt_link_t option \<times> errno" where
  "mnlxt_rt_link_set_tun_gid rt_link gid e =
     (case mnlxt_rt_link_set_info_kind rt_link MNLXT_RT_LINK_INFO_KIND_TUN e of
        (rc, ob, e') \<Rightarrow>
          if rc = 0 then (0, map_info (\<lambda>i. info_set_flag MNLXT_RT_LINK_TUN_GID (i\<lparr>info_w2 := gid\<rparr>)) ob, e')
          else (- 1, ob, e'))"

section \<open>The object implements a map of its properties\<close>

definition link_abs :: "mnlxt_rt_link_t \<Rightarrow> (nat \<rightharpoonup> cval)" where
  "link_abs ob i =
     (if link_data i \<noteq> 0 \<and> bit (link_prop_flags ob) i then Some (link_load i ob) else None)"

lemma link_data_bound: "link_data i \<noteq> 0 \<Longrightarrow> i < MNLXT_RT_LINK_MAX"
  by (simp add: link_data_def split: if_splits)

lemma link_store_flags [simp]: "link_prop_flags (link_store i v ob) = link_prop_flags ob"
  by (simp add: link_store_def)

lemma link_load_store:
  "link_data i = csize v \<Longrightarrow> link_load j (link_store i v ob) = (if i = j then v else link_load j ob)"
  by (auto simp: link_data_def link_store_def link_load_def split: if_splits)

lemma link_load_flags [simp]: "link_load j (ob\<lparr>link_prop_flags := w\<rparr>) = link_load j ob"
  by (simp add: link_load_def)

lemma link_load_size: "link_data i \<noteq> 0 \<Longrightarrow> csize (link_load i ob) = link_data i"
  by (simp add: link_data_def link_load_def split: if_splits)

interpretation link_obj: prop_object mnlxt_rt_link_set_ptr mnlxt_rt_link_get_ptr link_abs link_data
proof (unfold_locales, goal_cases)
  case (1 i v ob e)
  then have "link_data i \<noteq> 0" by simp
  with link_data_bound [OF this] 1 show ?case
    by (auto simp: mnlxt_rt_link_set_ptr_def link_abs_def link_load_store fun_eq_iff)
next
  case (2 i v ob e)
  then show ?case by (simp add: mnlxt_rt_link_set_ptr_def)
next
  case (3 i v e)
  then show ?case by (simp add: mnlxt_rt_link_set_ptr_def)
next
  case (4 i c ob e)
  then have "link_data i \<noteq> 0" by simp
  with link_data_bound [OF this] 4 show ?case
    by (simp add: mnlxt_rt_link_get_ptr_def link_abs_def)
next
  case (5 i c ob e)
  then show ?case by (simp add: mnlxt_rt_link_get_ptr_def)
next
  case (6 i c e)
  then show ?case by (simp add: mnlxt_rt_link_get_ptr_def)
qed


section \<open>The union members do not disturb each other\<close>

lemma vlan_id_set [simp]: "vlan_id (set_vlan_id x i) = x"
  by (rule bit_word_eqI)
    (auto simp: vlan_id_def set_vlan_id_def bit_ucast_iff bit_or_iff bit_and_iff bit_not_iff bit_mask_iff)

lemma tun_type_set [simp]:
  "tun_type (set_tun_type x i) = x" "tun_flags (set_tun_type x i) = tun_flags i"
  by (rule bit_word_eqI,
      auto simp: tun_type_def tun_flags_def set_tun_type_def bit_ucast_iff bit_or_iff bit_and_iff bit_not_iff
        bit_mask_iff bit_drop_bit_eq dest: bit_imp_le_length)+

lemma tun_flags_set [simp]:
  "tun_flags (set_tun_flags x i) = x" "tun_type (set_tun_flags x i) = tun_type i"
  by (rule bit_word_eqI,
      auto simp: tun_type_def tun_flags_def set_tun_flags_def bit_ucast_iff bit_or_iff bit_and_iff
        bit_push_bit_iff bit_mask_iff bit_drop_bit_eq)+

lemma union_kept [simp]:
  "info_prop_flags (set_vlan_id a i) = info_prop_flags i" "info_kind (set_vlan_id a i) = info_kind i"
  "info_prop_flags (set_tun_type b i) = info_prop_flags i" "info_kind (set_tun_type b i) = info_kind i"
  "info_prop_flags (set_tun_flags c i) = info_prop_flags i" "info_kind (set_tun_flags c i) = info_kind i"
  "info_w1 (set_tun_type b i) = info_w1 i" "info_w2 (set_tun_type b i) = info_w2 i"
  "info_w1 (set_tun_flags c i) = info_w1 i" "info_w2 (set_tun_flags c i) = info_w2 i"
  by (simp_all add: set_vlan_id_def set_tun_type_def set_tun_flags_def)

lemma info_flag_kept [simp]:
  "info_kind (info_set_flag b i) = info_kind i" "info_kind (info_unset_flag b i) = info_kind i"
  "tun_type (info_set_flag b i) = tun_type i" "tun_type (info_unset_flag b i) = tun_type i"
  "tun_flags (info_set_flag b i) = tun_flags i" "tun_flags (info_unset_flag b i) = tun_flags i"
  "info_prop_flags (info_set_flag b i) = set_prop_flag (info_prop_flags i) b"
  "info_prop_flags (info_unset_flag b i) = unset_prop_flag (info_prop_flags i) b"
  "info_w1 (info_set_flag b i) = info_w1 i" "info_w2 (info_set_flag b i) = info_w2 i"
  "info_w1 (info_unset_flag b i) = info_w1 i" "info_w2 (info_unset_flag b i) = info_w2 i"
  by (simp_all add: info_set_flag_def info_unset_flag_def tun_type_def tun_flags_def)

lemma tun_members_kept [simp]:
  "tun_type (i\<lparr>info_w1 := a\<rparr>) = tun_type i" "tun_type (i\<lparr>info_w2 := a\<rparr>) = tun_type i"
  "tun_flags (i\<lparr>info_w1 := a\<rparr>) = tun_flags i" "tun_flags (i\<lparr>info_w2 := a\<rparr>) = tun_flags i"
  "tun_type (i\<lparr>info_kind := k\<rparr>) = tun_type i" "tun_flags (i\<lparr>info_kind := k\<rparr>) = tun_flags i"
  "tun_type info_zero = 0" "tun_flags info_zero = 0"
  by (simp_all add: tun_type_def tun_flags_def info_zero_def)

section \<open>Links built by the public setters\<close>

abbreviation link_has :: "mnlxt_rt_link_t \<Rightarrow> nat \<Rightarrow> bool" where
  "link_has l i \<equiv> bit (link_prop_flags l) i"

text \<open>One successful or failed call of a public setter.\<close>

inductive link_api :: "mnlxt_rt_link_t \<Rightarrow> mnlxt_rt_link_t \<Rightarrow> bool" where
  type: "mnlxt_rt_link_set_type (Some l) x e = (rc, Some l', e') \<Longrightarrow> link_api l l'"
| family: "mnlxt_rt_link_set_family (Some l) f e = (rc, Some l', e') \<Longrightarrow> link_api l l'"
| name: "mnlxt_rt_link_set_name (Some l) n e = (rc, Some l', e') \<Longrightarrow> link_api l l'"
| index: "mnlxt_rt_link_set_index (Some l) u e = (rc, Some l', e') \<Longrightarrow> link_api l l'"
| parent: "mnlxt_rt_link_set_parent (Some l) u e = (rc, Some l', e') \<Longrightarrow> link_api l l'"
| mtu: "mnlxt_rt_link_set_mtu (Some l) u e = (rc, Some l', e') \<Longrightarrow> link_api l l'"
| mtu_min: "mnlxt_rt_link_set_mtu_min (Some l) u e = (rc, Some l', e') \<Longrightarrow> link_api l l'"
| mtu_max: "mnlxt_rt_link_set_mtu_max (Some l) u e = (rc, Some l', e') \<Longrightarrow> link_api l l'"
| master: "mnlxt_rt_link_set_master (Some l) u e = (rc, Some l', e') \<Longrightarrow> link_api l l'"
| state: "mnlxt_rt_link_set_state (Some l) f e = (rc, Some l', e') \<Longrightarrow> link_api l l'"
| hwaddr: "mnlxt_rt_link_set_hwaddr (Some l) m e = (rc, Some l', e') \<Longrightarrow> link_api l l'"
| flags: "mnlxt_rt_link_set_flags (Some l) u e = (rc, Some l', e') \<Longrightarrow> link_api l l'"
| flags_on: "mnlxt_rt_link_set_flags_on (Some l) u e = (rc, Some l', e') \<Longrightarrow> link_api l l'"
| flags_off: "mnlxt_rt_link_set_flags_off (Some l) u e = (rc, Some l', e') \<Longrightarrow> link_api l l'"
| updown: "mnlxt_rt_link_set_updown (Some l) up e = (rc, Some l', e') \<Longrightarrow> link_api l l'"
| kind: "mnlxt_rt_link_set_info_kind (Some l) u e = (rc, Some l', e') \<Longrightarrow> link_api l l'"
| vlan_id: "mnlxt_rt_link_set_vlan_id (Some l) x e = (rc, Some l', e') \<Longrightarrow> link_api l l'"
| xfrm_ifindex: "mnlxt_rt_link_set_xfrm_ifindex (Some l) u e = (rc, Some l', e') \<Longrightarrow> link_api l l'"
| xfrm_id: "mnlxt_rt_link_set_xfrm_id (Some l) u e = (rc, Some l', e') \<Longrightarrow> link_api l l'"
| tun_type: "mnlxt_rt_link_set_tun_type (Some l) f e = (rc, Some l', e') \<Longrightarrow> link_api l l'"
| tun_flags: "mnlxt_rt_link_set_tun_flags (Some l) x e = (rc, Some l', e') \<Longrightarrow> link_api l l'"
| tun_uid: "mnlxt_rt_link_set_tun_uid (Some l) u e = (rc, Some l', e') \<Longrightarrow> link_api l l'"
| tun_gid: "mnlxt_rt_link_set_tun_gid (Some l) u e = (rc, Some l', e') \<Longrightarrow> link_api l l'"

inductive link_reach :: "mnlxt_rt_link_t \<Rightarrow> bool" where
  new: "link_reach link_zero"
| call: "link_reach l \<Longrightarrow> link_api l l' \<Longrightarrow> link_reach l'"

text \<open>
  What the union means for the recorded kind: only the property bits of that kind are set, a TUN
  device is not both TUN and TAP and its type and flags are recorded exactly when they are not zero,
  an XFRM device with an underlying link has a parent.
\<close>

definition tun_inv :: "mnlxt_rt_link_info_t \<Rightarrow> bool" where
  "tun_inv i \<longleftrightarrow>
     (\<forall>b. bit (info_prop_flags i) b \<longrightarrow> b < MNLXT_RT_LINK_TUN_MAX) \<and>
     (bit (info_prop_flags i) MNLXT_RT_LINK_TUN_TYPE \<longleftrightarrow> tun_type i \<noteq> 0) \<and>
     (bit (info_prop_flags i) MNLXT_RT_LINK_TUN_FLAGS \<longleftrightarrow> tun_flags i \<noteq> 0) \<and>
     (tun_type i AND IFF_TUN = 0 \<or> tun_type i AND IFF_TAP = 0)"

definition xfrm_inv :: "bool \<Rightarrow> mnlxt_rt_link_info_t \<Rightarrow> bool" where
  "xfrm_inv parent i \<longleftrightarrow>
     (\<forall>b. bit (info_prop_flags i) b \<longrightarrow> b < MNLXT_RT_LINK_XFRM_MAX) \<and>
     (bit (info_prop_flags i) MNLXT_RT_LINK_XFRM_IFINDEX \<longrightarrow> parent)"

definition info_inv :: "bool \<Rightarrow> bool \<Rightarrow> mnlxt_rt_link_info_t \<Rightarrow> bool" where
  "info_inv has parent i \<longleftrightarrow>
     (if \<not> has then i = info_zero
      else if info_kind i = MNLXT_RT_LINK_INFO_KIND_VLAN then
        (\<forall>b. bit (info_prop_flags i) b \<longrightarrow> b < MNLXT_RT_LINK_VLAN_MAX)
      else if info_kind i = MNLXT_RT_LINK_INFO_KIND_XFRM then xfrm_inv parent i
      else if info_kind i = MNLXT_RT_LINK_INFO_KIND_TUN then tun_inv i
      else info_prop_flags i = 0)"

definition link_inv :: "mnlxt_rt_link_t \<Rightarrow> bool" where
  "link_inv l \<longleftrightarrow>
     length (link_name l) < IF_NAMESIZE \<and>
     link_flags l AND NOT (link_flag_mask l) = 0 \<and>
     (\<not> link_has l MNLXT_RT_LINK_FLAGS \<longrightarrow> link_flag_mask l = 0) \<and>
     info_inv (link_has l MNLXT_RT_LINK_INFO) (link_has l MNLXT_RT_LINK_PARENT) (link_info l)"

text \<open>No call unsets a property of the link, and the kind is written once.\<close>

definition link_ext :: "mnlxt_rt_link_t \<Rightarrow> mnlxt_rt_link_t \<Rightarrow> bool" where
  "link_ext l l' \<longleftrightarrow>
     (\<forall>i. link_has l i \<longrightarrow> link_has l' i) \<and>
     (link_has l MNLXT_RT_LINK_INFO \<longrightarrow> info_kind (link_info l') = info_kind (link_info l))"

lemma link_ext_refl [simp]: "link_ext l l"
  by (simp add: link_ext_def)

lemma link_ext_trans: "link_ext a b \<Longrightarrow> link_ext b c \<Longrightarrow> link_ext a c"
  by (simp add: link_ext_def)

lemma link_inv_zero: "link_inv link_zero"
  by (simp add: link_inv_def link_zero_def info_inv_def)

lemma info_inv_parent: "info_inv has p i \<Longrightarrow> p \<le> q \<Longrightarrow> info_inv has q i"
  by (auto simp: info_inv_def xfrm_inv_def split: if_splits)

definition with_kind :: "u32 \<Rightarrow> mnlxt_rt_link_t \<Rightarrow> mnlxt_rt_link_t" where
  "with_kind k l = l\<lparr>link_info := (link_info l)\<lparr>info_kind := k\<rparr>,
     link_prop_flags := set_prop_flag (link_prop_flags l) MNLXT_RT_LINK_INFO\<rparr>"

lemma set_info_kind_eq:
  "mnlxt_rt_link_set_info_kind (Some l) k e =
     (if \<not> link_has l MNLXT_RT_LINK_INFO then (0, Some (with_kind k l), e)
      else if info_kind (link_info l) = k then (0, Some l, e) else (- 1, Some l, EINVAL))"
  by (simp add: mnlxt_rt_link_set_info_kind_def mnlxt_rt_link_get_info_kind_def with_kind_def)

lemma info_inv_fresh: "info_inv True p (info_zero\<lparr>info_kind := k\<rparr>)"
  by (simp add: info_inv_def xfrm_inv_def tun_inv_def) (simp add: info_zero_def)

lemma with_kind_keeps: "\<not> link_has l MNLXT_RT_LINK_INFO \<Longrightarrow>
    (link_inv l \<longrightarrow> link_inv (with_kind k l)) \<and> link_ext l (with_kind k l)"
proof -
  assume new: "\<not> link_has l MNLXT_RT_LINK_INFO"
  then have "link_inv l \<Longrightarrow> link_info l = info_zero" by (simp add: link_inv_def info_inv_def)
  with new show ?thesis by (auto simp: with_kind_def link_inv_def link_ext_def info_inv_fresh)
qed

lemma set_info_kind_cases:
  obtains (ok) l1 where "mnlxt_rt_link_set_info_kind (Some l) k e = (0, Some l1, e)"
      "link_inv l \<Longrightarrow> link_inv l1" "link_ext l l1" "link_has l1 MNLXT_RT_LINK_INFO"
      "info_kind (link_info l1) = k"
  | (bad) "mnlxt_rt_link_set_info_kind (Some l) k e = (- 1, Some l, EINVAL)"
proof (cases "link_has l MNLXT_RT_LINK_INFO")
  case True
  then show thesis using ok [of l] bad by (cases "info_kind (link_info l) = k") (simp_all add: set_info_kind_eq)
next
  case False
  with with_kind_keeps [OF False, of k] ok [of "with_kind k l"] show thesis
    by (simp add: set_info_kind_eq) (simp add: with_kind_def)
qed

text \<open>Writing a member of the union of a link that has the kind.\<close>

lemma map_info_keeps:
  assumes "link_has l MNLXT_RT_LINK_INFO" "info_kind (f (link_info l)) = info_kind (link_info l)"
    and "info_inv True (link_has l MNLXT_RT_LINK_PARENT) (link_info l) \<Longrightarrow>
      info_inv True (link_has l MNLXT_RT_LINK_PARENT) (f (link_info l))"
  shows "(link_inv l \<longrightarrow> link_inv (l\<lparr>link_info := f (link_info l)\<rparr>)) \<and>
    link_ext l (l\<lparr>link_info := f (link_info l)\<rparr>)"
  using assms by (auto simp: link_inv_def link_ext_def)

text \<open>Setting a plain property other than the flags and the information.\<close>

lemma link_set_ptr_keeps:
  assumes "mnlxt_rt_link_set_ptr (Some l) i v e = (rc, Some l', e')" "i \<noteq> MNLXT_RT_LINK_FLAGS"
  shows "(link_inv l \<longrightarrow> link_inv l') \<and> link_ext l l'"
proof (cases "link_data i = csize v")
  case True
  then have nz: "link_data i \<noteq> 0" by simp
  note i = link_data_bound [OF nz] nz
  with assms True have l': "l' = link_store i v
      (l\<lparr>link_prop_flags := set_prop_flag (link_prop_flags l) i\<rparr>)"
    by (simp add: mnlxt_rt_link_set_ptr_def)
  from i(2) have "i \<notin> {MNLXT_RT_LINK_INFO, MNLXT_RT_LINK_NAME}"
    by (auto simp: link_data_def)
  with assms(2) show ?thesis
    unfolding l' by (auto simp: link_inv_def link_ext_def link_store_def intro: info_inv_parent)
next
  case False
  with assms show ?thesis by (simp add: mnlxt_rt_link_set_ptr_def)
qed

lemmas link_simple_setters [setter_defs] =
  mnlxt_rt_link_set_type_def mnlxt_rt_link_set_family_def mnlxt_rt_link_set_index_def
  mnlxt_rt_link_set_parent_def mnlxt_rt_link_set_mtu_def mnlxt_rt_link_set_mtu_min_def
  mnlxt_rt_link_set_mtu_max_def mnlxt_rt_link_set_master_def mnlxt_rt_link_set_state_def
  mnlxt_rt_link_set_hwaddr_def mnlxt_rt_link_set_u8_def mnlxt_rt_link_set_u16_def
  mnlxt_rt_link_set_u32_def

lemma link_set_name_keeps:
  "mnlxt_rt_link_set_name (Some l) n e = (rc, Some l', e') \<Longrightarrow> (link_inv l \<longrightarrow> link_inv l') \<and> link_ext l l'"
  by (auto simp: mnlxt_rt_link_set_name_def link_inv_def link_ext_def split: option.splits if_splits)

lemma link_set_flags_keeps:
  "mnlxt_rt_link_set_flags (Some l) u e = (rc, Some l', e') \<Longrightarrow> (link_inv l \<longrightarrow> link_inv l') \<and> link_ext l l'"
  by (auto simp: mnlxt_rt_link_set_flags_def mnlxt_rt_link_set_u32_def mnlxt_rt_link_set_ptr_def link_data_def
      link_store_def link_inv_def link_ext_def)

lemma and_not_or_sub:
  fixes a b m :: "'w::len word"
  assumes "a AND NOT m = 0"
  shows "(a OR b) AND NOT (m OR b) = 0" "(a AND NOT b) AND NOT (m OR b) = 0"
proof -
  from assms have *: "bit a i \<Longrightarrow> i < LENGTH('w) \<Longrightarrow> bit m i" for i
    by (metis bit_0_eq bit_and_iff bit_not_iff bot_apply bot_bool_def possible_bit_word)
  show "(a OR b) AND NOT (m OR b) = 0" "(a AND NOT b) AND NOT (m OR b) = 0"
    by (rule bit_word_eqI, use * in \<open>auto simp: bit_and_iff bit_or_iff bit_not_iff\<close>)+
qed

lemma link_set_selected_flags_keeps:
  "mnlxt_rt_link_set_selected_flags (Some l) u on e = (rc, Some l', e') \<Longrightarrow>
     (link_inv l \<longrightarrow> link_inv l') \<and> link_ext l l'"
  by (auto simp: mnlxt_rt_link_set_selected_flags_def link_inv_def link_ext_def and_not_or_sub [unfolded bit.de_Morgan_disj] split: if_splits)

lemma link_set_info_kind_keeps:
  "mnlxt_rt_link_set_info_kind (Some l) u e = (rc, Some l', e') \<Longrightarrow> (link_inv l \<longrightarrow> link_inv l') \<and> link_ext l l'"
  using with_kind_keeps [of l u] by (auto simp: set_info_kind_eq split: if_splits)

lemma link_set_vlan_id_keeps:
  assumes "mnlxt_rt_link_set_vlan_id (Some l) x e = (rc, Some l', e')"
  shows "(link_inv l \<longrightarrow> link_inv l') \<and> link_ext l l'"
proof (cases rule: set_info_kind_cases [of l MNLXT_RT_LINK_INFO_KIND_VLAN e])
  case (ok l1)
  let ?f = "\<lambda>i. set_vlan_id x (info_set_flag MNLXT_RT_LINK_VLAN_ID i)"
  from ok assms have "l' = l1\<lparr>link_info := ?f (link_info l1)\<rparr>"
    by (simp add: mnlxt_rt_link_set_vlan_id_def map_info_def)
  moreover have "(link_inv l1 \<longrightarrow> link_inv (l1\<lparr>link_info := ?f (link_info l1)\<rparr>)) \<and>
      link_ext l1 (l1\<lparr>link_info := ?f (link_info l1)\<rparr>)"
    using ok by (intro map_info_keeps) (auto simp: info_inv_def)
  ultimately show ?thesis using ok(2,3) link_ext_trans by blast
qed (use assms in \<open>simp add: mnlxt_rt_link_set_vlan_id_def\<close>)

lemma link_set_xfrm_id_keeps:
  assumes "mnlxt_rt_link_set_xfrm_id (Some l) x e = (rc, Some l', e')"
  shows "(link_inv l \<longrightarrow> link_inv l') \<and> link_ext l l'"
proof (cases rule: set_info_kind_cases [of l MNLXT_RT_LINK_INFO_KIND_XFRM e])
  case (ok l1)
  let ?f = "\<lambda>i. (info_set_flag MNLXT_RT_LINK_XFRM_ID i)\<lparr>info_w1 := x\<rparr>"
  from ok assms have "l' = l1\<lparr>link_info := ?f (link_info l1)\<rparr>"
    by (simp add: mnlxt_rt_link_set_xfrm_id_def map_info_def)
  moreover have "(link_inv l1 \<longrightarrow> link_inv (l1\<lparr>link_info := ?f (link_info l1)\<rparr>)) \<and>
      link_ext l1 (l1\<lparr>link_info := ?f (link_info l1)\<rparr>)"
    using ok by (intro map_info_keeps) (auto simp: info_inv_def xfrm_inv_def)
  ultimately show ?thesis using ok(2,3) link_ext_trans by blast
qed (use assms in \<open>simp add: mnlxt_rt_link_set_xfrm_id_def\<close>)

lemma link_set_xfrm_ifindex_keeps:
  assumes "mnlxt_rt_link_set_xfrm_ifindex (Some l) x e = (rc, Some l', e')"
  shows "(link_inv l \<longrightarrow> link_inv l') \<and> link_ext l l'"
proof (cases rule: set_info_kind_cases [of l MNLXT_RT_LINK_INFO_KIND_XFRM e])
  case (ok l1)
  let ?i = "(info_set_flag MNLXT_RT_LINK_XFRM_IFINDEX (link_info l1))\<lparr>info_w0 := x\<rparr>"
  let ?l2 = "l1\<lparr>link_info := ?i\<rparr>"
  let ?l3 = "if link_has l1 MNLXT_RT_LINK_PARENT then ?l2
    else ?l2\<lparr>link_prop_flags := set_prop_flag (link_prop_flags l1) MNLXT_RT_LINK_PARENT, link_parent := x\<rparr>"
  from ok assms have l': "l' = ?l3"
    by (auto simp: mnlxt_rt_link_set_xfrm_ifindex_def map_info_def Let_def mnlxt_rt_link_set_parent_def
        mnlxt_rt_link_set_u32_def mnlxt_rt_link_set_ptr_def link_data_def link_store_def split: if_splits)
  have "link_ext l1 ?l3" by (simp add: link_ext_def)
  moreover have "link_inv l1 \<longrightarrow> link_inv ?l3"
    using ok(4,5) by (auto simp: link_inv_def info_inv_def xfrm_inv_def)
  ultimately show ?thesis unfolding l' using ok(2,3) link_ext_trans by blast
qed (use assms in \<open>simp add: mnlxt_rt_link_set_xfrm_ifindex_def\<close>)

lemma tun_member_keeps:
  assumes set: "mnlxt_rt_link_set_info_kind (Some l) MNLXT_RT_LINK_INFO_KIND_TUN e = (rc1, ob, e1)"
    and l': "if rc1 = 0 then map_info f ob = Some l' else ob = Some l'"
    and kind: "\<And>i. info_kind (f i) = info_kind i" and tun: "\<And>i. tun_inv i \<Longrightarrow> tun_inv (f i)"
  shows "(link_inv l \<longrightarrow> link_inv l') \<and> link_ext l l'"
proof (cases rule: set_info_kind_cases [of l MNLXT_RT_LINK_INFO_KIND_TUN e])
  case (ok l1)
  with set l' have "l' = l1\<lparr>link_info := f (link_info l1)\<rparr>" by (auto simp: map_info_def)
  moreover have "(link_inv l1 \<longrightarrow> link_inv (l1\<lparr>link_info := f (link_info l1)\<rparr>)) \<and>
      link_ext l1 (l1\<lparr>link_info := f (link_info l1)\<rparr>)"
    using ok kind tun by (intro map_info_keeps) (auto simp: info_inv_def)
  ultimately show ?thesis using ok(2,3) link_ext_trans by blast
qed (use set l' in simp)

lemma tun_inv_type:
  "tun_inv i \<Longrightarrow> x AND IFF_TUN = 0 \<or> x AND IFF_TAP = 0 \<Longrightarrow>
     tun_inv ((if x = 0 then info_unset_flag MNLXT_RT_LINK_TUN_TYPE else info_set_flag MNLXT_RT_LINK_TUN_TYPE)
       (set_tun_type x i))"
  by (auto simp: tun_inv_def)

lemma tun_inv_flags:
  "tun_inv i \<Longrightarrow>
     tun_inv ((if x = 0 then info_unset_flag MNLXT_RT_LINK_TUN_FLAGS else info_set_flag MNLXT_RT_LINK_TUN_FLAGS)
       (set_tun_flags x i))"
  by (auto simp: tun_inv_def)

lemma link_set_tun_type_keeps:
  assumes "mnlxt_rt_link_set_tun_type (Some l) x e = (rc, Some l', e')"
  shows "(link_inv l \<longrightarrow> link_inv l') \<and> link_ext l l'"
proof (cases "x AND IFF_TUN \<noteq> 0 \<and> x AND IFF_TAP \<noteq> 0")
  case False
  obtain rc1 ob e1 where s: "mnlxt_rt_link_set_info_kind (Some l) MNLXT_RT_LINK_INFO_KIND_TUN e = (rc1, ob, e1)"
    by (cases "mnlxt_rt_link_set_info_kind (Some l) MNLXT_RT_LINK_INFO_KIND_TUN e") auto
  from assms s False show ?thesis
    by (intro tun_member_keeps [OF s, where f = "\<lambda>i. (if x = 0 then info_unset_flag MNLXT_RT_LINK_TUN_TYPE else info_set_flag MNLXT_RT_LINK_TUN_TYPE) (set_tun_type x i)"])
        (auto simp: mnlxt_rt_link_set_tun_type_def tun_inv_type split: if_splits)
qed (use assms in \<open>simp add: mnlxt_rt_link_set_tun_type_def\<close>)

lemma link_set_tun_flags_keeps:
  assumes "mnlxt_rt_link_set_tun_flags (Some l) x e = (rc, Some l', e')"
  shows "(link_inv l \<longrightarrow> link_inv l') \<and> link_ext l l'"
proof -
  obtain rc1 ob e1 where s: "mnlxt_rt_link_set_info_kind (Some l) MNLXT_RT_LINK_INFO_KIND_TUN e = (rc1, ob, e1)"
    by (cases "mnlxt_rt_link_set_info_kind (Some l) MNLXT_RT_LINK_INFO_KIND_TUN e") auto
  from assms s show ?thesis
    by (intro tun_member_keeps [OF s, where f = "\<lambda>i. (if x = 0 then info_unset_flag MNLXT_RT_LINK_TUN_FLAGS else info_set_flag MNLXT_RT_LINK_TUN_FLAGS) (set_tun_flags x i)"])
        (auto simp: mnlxt_rt_link_set_tun_flags_def tun_inv_flags split: if_splits)
qed

lemma link_set_tun_owner_keeps:
  assumes "mnlxt_rt_link_set_tun_uid (Some l) x e = (rc, Some l', e') \<or>
    mnlxt_rt_link_set_tun_gid (Some l) x e = (rc, Some l', e')"
  shows "(link_inv l \<longrightarrow> link_inv l') \<and> link_ext l l'"
proof -
  obtain rc1 ob e1 where s: "mnlxt_rt_link_set_info_kind (Some l) MNLXT_RT_LINK_INFO_KIND_TUN e = (rc1, ob, e1)"
    by (cases "mnlxt_rt_link_set_info_kind (Some l) MNLXT_RT_LINK_INFO_KIND_TUN e") auto
  from assms show ?thesis
  proof
    assume "mnlxt_rt_link_set_tun_uid (Some l) x e = (rc, Some l', e')"
    with s show ?thesis
      by (intro tun_member_keeps [OF s, where f = "\<lambda>i. info_set_flag MNLXT_RT_LINK_TUN_UID (i\<lparr>info_w1 := x\<rparr>)"])
        (auto simp: mnlxt_rt_link_set_tun_uid_def tun_inv_def split: if_splits)
  next
    assume "mnlxt_rt_link_set_tun_gid (Some l) x e = (rc, Some l', e')"
    with s show ?thesis
      by (intro tun_member_keeps [OF s, where f = "\<lambda>i. info_set_flag MNLXT_RT_LINK_TUN_GID (i\<lparr>info_w2 := x\<rparr>)"])
        (auto simp: mnlxt_rt_link_set_tun_gid_def tun_inv_def split: if_splits)
  qed
qed

lemma link_api_keeps: "link_api l l' \<Longrightarrow> (link_inv l \<longrightarrow> link_inv l') \<and> link_ext l l'"
proof (induction rule: link_api.induct)
  case (name l n e rc l' e')
  then show ?case by (rule link_set_name_keeps)
next
  case (flags l u e rc l' e')
  then show ?case by (rule link_set_flags_keeps)
next
  case (flags_on l u e rc l' e')
  then show ?case unfolding mnlxt_rt_link_set_flags_on_def by (rule link_set_selected_flags_keeps)
next
  case (flags_off l u e rc l' e')
  then show ?case unfolding mnlxt_rt_link_set_flags_off_def by (rule link_set_selected_flags_keeps)
next
  case (updown l up e rc l' e')
  then show ?case unfolding mnlxt_rt_link_set_updown_def by (rule link_set_selected_flags_keeps)
next
  case (kind l u e rc l' e')
  then show ?case by (rule link_set_info_kind_keeps)
next
  case (vlan_id l x e rc l' e')
  then show ?case by (rule link_set_vlan_id_keeps)
next
  case (xfrm_ifindex l u e rc l' e')
  then show ?case by (rule link_set_xfrm_ifindex_keeps)
next
  case (xfrm_id l u e rc l' e')
  then show ?case by (rule link_set_xfrm_id_keeps)
next
  case (tun_type l f e rc l' e')
  then show ?case by (rule link_set_tun_type_keeps)
next
  case (tun_flags l x e rc l' e')
  then show ?case by (rule link_set_tun_flags_keeps)
next
  case (tun_uid l u e rc l' e')
  then show ?case by (intro link_set_tun_owner_keeps) blast
next
  case (tun_gid l u e rc l' e')
  then show ?case by (intro link_set_tun_owner_keeps) blast
qed (unfold setter_defs, (erule link_set_ptr_keeps, simp)+)

lemma link_reach_inv_holds: "link_reach l \<Longrightarrow> link_inv l"
  by (induction rule: link_reach.induct) (auto simp: link_inv_zero dest: link_api_keeps)

lemma link_calls_ext: "link_api\<^sup>*\<^sup>* l l' \<Longrightarrow> link_ext l l'"
  by (induction rule: rtranclp_induct) (auto dest: link_api_keeps intro: link_ext_trans)

end
