(* ===== verification/Policy.thy ===== *)
theory Policy
  imports Props Inet CHeap
begin

text \<open>
  src/xfrm/policy.c with the enumeration and the structs of include/libmnlxt/xfrm_policy.h: the IPsec
  policy object. Its templates are an array that the object owns on the heap of CHeap; a clone gets
  a copy of it. \<open>policy_obj\<close> interprets the map contract of Props; \<open>policy_reach\<close> are the
  policies that calls of the public setters build, \<open>policy_inv\<close> what they all satisfy.
\<close>

section \<open>The policy object\<close>

abbreviation MNLXT_XFRM_POLICY_FAMILY :: nat where "MNLXT_XFRM_POLICY_FAMILY \<equiv> 0"
abbreviation MNLXT_XFRM_POLICY_PROTO :: nat where "MNLXT_XFRM_POLICY_PROTO \<equiv> 1"
abbreviation MNLXT_XFRM_POLICY_SRC_PREFIXLEN :: nat where "MNLXT_XFRM_POLICY_SRC_PREFIXLEN \<equiv> 2"
abbreviation MNLXT_XFRM_POLICY_DST_PREFIXLEN :: nat where "MNLXT_XFRM_POLICY_DST_PREFIXLEN \<equiv> 3"
abbreviation MNLXT_XFRM_POLICY_SRC_ADDR :: nat where "MNLXT_XFRM_POLICY_SRC_ADDR \<equiv> 4"
abbreviation MNLXT_XFRM_POLICY_DST_ADDR :: nat where "MNLXT_XFRM_POLICY_DST_ADDR \<equiv> 5"
abbreviation MNLXT_XFRM_POLICY_SRC_PORT :: nat where "MNLXT_XFRM_POLICY_SRC_PORT \<equiv> 6"
abbreviation MNLXT_XFRM_POLICY_DST_PORT :: nat where "MNLXT_XFRM_POLICY_DST_PORT \<equiv> 7"
abbreviation MNLXT_XFRM_POLICY_INDEX :: nat where "MNLXT_XFRM_POLICY_INDEX \<equiv> 8"
abbreviation MNLXT_XFRM_POLICY_IFINDEX :: nat where "MNLXT_XFRM_POLICY_IFINDEX \<equiv> 9"
abbreviation MNLXT_XFRM_POLICY_PRIO :: nat where "MNLXT_XFRM_POLICY_PRIO \<equiv> 10"
abbreviation MNLXT_XFRM_POLICY_ACTION :: nat where "MNLXT_XFRM_POLICY_ACTION \<equiv> 11"
abbreviation MNLXT_XFRM_POLICY_DIR :: nat where "MNLXT_XFRM_POLICY_DIR \<equiv> 12"
abbreviation MNLXT_XFRM_POLICY_MARK :: nat where "MNLXT_XFRM_POLICY_MARK \<equiv> 13"
abbreviation MNLXT_XFRM_POLICY_TMPLS :: nat where "MNLXT_XFRM_POLICY_TMPLS \<equiv> 14"
abbreviation MNLXT_XFRM_POLICY_MAX :: nat where "MNLXT_XFRM_POLICY_MAX \<equiv> MNLXT_XFRM_POLICY_TMPLS + 1"

abbreviation IPPROTO_TCP :: u8 where "IPPROTO_TCP \<equiv> 6"
abbreviation IPPROTO_UDP :: u8 where "IPPROTO_UDP \<equiv> 17"
abbreviation IPPROTO_DCCP :: u8 where "IPPROTO_DCCP \<equiv> 33"
abbreviation IPPROTO_SCTP :: u8 where "IPPROTO_SCTP \<equiv> 132"
abbreviation XFRM_POLICY_ALLOW :: u8 where "XFRM_POLICY_ALLOW \<equiv> 0"
abbreviation XFRM_POLICY_BLOCK :: u8 where "XFRM_POLICY_BLOCK \<equiv> 1"
abbreviation XFRM_POLICY_MAX :: u8 where "XFRM_POLICY_MAX \<equiv> 3"

record mnlxt_xfrm_tmpl_t =
  tmpl_family :: u8
  tmpl_proto :: u8
  tmpl_mode :: u8
  tmpl_share :: u8
  tmpl_reqid :: u32
  tmpl_spi :: u32
  tmpl_src :: mnlxt_inet_addr_t
  tmpl_dst :: mnlxt_inet_addr_t

record mnlxt_xfrm_site_t =
  site_prefixlen :: u8
  site_padding :: u8
  site_port :: u16
  site_addr :: mnlxt_inet_addr_t

record mnlxt_xfrm_mark_t =
  mark_value :: u32
  mark_mask :: u32

record mnlxt_xfrm_policy_t =
  policy_prop_flags :: u16
  policy_family :: u8
  policy_proto :: u8
  policy_action :: u8
  policy_dir :: u8
  policy_tmpl_num :: u16
  policy_user :: u32
  policy_index :: u32
  policy_if_index :: u32
  policy_priority :: u32
  policy_src :: mnlxt_xfrm_site_t
  policy_dst :: mnlxt_xfrm_site_t
  policy_mark :: mnlxt_xfrm_mark_t
  policy_tmpls :: "ptr option"

type_synonym ('m, 'p) xheap = "(mnlxt_xfrm_tmpl_t, 'm, 'p) cheap"

definition site_zero :: mnlxt_xfrm_site_t where
  "site_zero = \<lparr>site_prefixlen = 0, site_padding = 0, site_port = 0, site_addr = inet_zero\<rparr>"

definition policy_zero :: mnlxt_xfrm_policy_t where
  "policy_zero = \<lparr>policy_prop_flags = 0, policy_family = 0, policy_proto = 0, policy_action = 0,
     policy_dir = 0, policy_tmpl_num = 0, policy_user = 0, policy_index = 0, policy_if_index = 0,
     policy_priority = 0, policy_src = site_zero, policy_dst = site_zero,
     policy_mark = \<lparr>mark_value = 0, mark_mask = 0\<rparr>, policy_tmpls = None\<rparr>"

fun un_mark :: "cval \<Rightarrow> mnlxt_xfrm_mark_t" where
  "un_mark (U32x2 a b) = \<lparr>mark_value = a, mark_mask = b\<rparr>"
| "un_mark _ = \<lparr>mark_value = 0, mark_mask = 0\<rparr>"

definition policy_data :: "nat \<Rightarrow> nat" where
  "policy_data data =
     (if data = MNLXT_XFRM_POLICY_FAMILY then 1
      else if data = MNLXT_XFRM_POLICY_PROTO then 1
      else if data = MNLXT_XFRM_POLICY_SRC_PREFIXLEN then 1
      else if data = MNLXT_XFRM_POLICY_DST_PREFIXLEN then 1
      else if data = MNLXT_XFRM_POLICY_SRC_PORT then 2
      else if data = MNLXT_XFRM_POLICY_DST_PORT then 2
      else if data = MNLXT_XFRM_POLICY_INDEX then 4
      else if data = MNLXT_XFRM_POLICY_IFINDEX then 4
      else if data = MNLXT_XFRM_POLICY_PRIO then 4
      else if data = MNLXT_XFRM_POLICY_ACTION then 1
      else if data = MNLXT_XFRM_POLICY_DIR then 1
      else if data = MNLXT_XFRM_POLICY_MARK then 8
      else 0)"

definition policy_store :: "nat \<Rightarrow> cval \<Rightarrow> mnlxt_xfrm_policy_t \<Rightarrow> mnlxt_xfrm_policy_t" where
  "policy_store data v ob =
     (if data = MNLXT_XFRM_POLICY_FAMILY then ob\<lparr>policy_family := un_U8 v\<rparr>
      else if data = MNLXT_XFRM_POLICY_PROTO then ob\<lparr>policy_proto := un_U8 v\<rparr>
      else if data = MNLXT_XFRM_POLICY_SRC_PREFIXLEN then ob\<lparr>policy_src := (policy_src ob)\<lparr>site_prefixlen := un_U8 v\<rparr>\<rparr>
      else if data = MNLXT_XFRM_POLICY_DST_PREFIXLEN then ob\<lparr>policy_dst := (policy_dst ob)\<lparr>site_prefixlen := un_U8 v\<rparr>\<rparr>
      else if data = MNLXT_XFRM_POLICY_SRC_PORT then ob\<lparr>policy_src := (policy_src ob)\<lparr>site_port := un_U16 v\<rparr>\<rparr>
      else if data = MNLXT_XFRM_POLICY_DST_PORT then ob\<lparr>policy_dst := (policy_dst ob)\<lparr>site_port := un_U16 v\<rparr>\<rparr>
      else if data = MNLXT_XFRM_POLICY_INDEX then ob\<lparr>policy_index := un_U32 v\<rparr>
      else if data = MNLXT_XFRM_POLICY_IFINDEX then ob\<lparr>policy_if_index := un_U32 v\<rparr>
      else if data = MNLXT_XFRM_POLICY_PRIO then ob\<lparr>policy_priority := un_U32 v\<rparr>
      else if data = MNLXT_XFRM_POLICY_ACTION then ob\<lparr>policy_action := un_U8 v\<rparr>
      else if data = MNLXT_XFRM_POLICY_DIR then ob\<lparr>policy_dir := un_U8 v\<rparr>
      else if data = MNLXT_XFRM_POLICY_MARK then ob\<lparr>policy_mark := un_mark v\<rparr>
      else ob)"

definition policy_load :: "nat \<Rightarrow> mnlxt_xfrm_policy_t \<Rightarrow> cval" where
  "policy_load data ob =
     (if data = MNLXT_XFRM_POLICY_FAMILY then U8 (policy_family ob)
      else if data = MNLXT_XFRM_POLICY_PROTO then U8 (policy_proto ob)
      else if data = MNLXT_XFRM_POLICY_SRC_PREFIXLEN then U8 (site_prefixlen (policy_src ob))
      else if data = MNLXT_XFRM_POLICY_DST_PREFIXLEN then U8 (site_prefixlen (policy_dst ob))
      else if data = MNLXT_XFRM_POLICY_SRC_PORT then U16 (site_port (policy_src ob))
      else if data = MNLXT_XFRM_POLICY_DST_PORT then U16 (site_port (policy_dst ob))
      else if data = MNLXT_XFRM_POLICY_INDEX then U32 (policy_index ob)
      else if data = MNLXT_XFRM_POLICY_IFINDEX then U32 (policy_if_index ob)
      else if data = MNLXT_XFRM_POLICY_PRIO then U32 (policy_priority ob)
      else if data = MNLXT_XFRM_POLICY_ACTION then U8 (policy_action ob)
      else if data = MNLXT_XFRM_POLICY_DIR then U8 (policy_dir ob)
      else if data = MNLXT_XFRM_POLICY_MARK then U32x2 (mark_value (policy_mark ob)) (mark_mask (policy_mark ob))
      else U8 0)"

section \<open>Creation, cloning and release\<close>

definition mnlxt_xfrm_policy_new :: "bool \<Rightarrow> errno \<Rightarrow> mnlxt_xfrm_policy_t option \<times> errno" where
  "mnlxt_xfrm_policy_new mem e = (if mem then (Some policy_zero, e) else (None, ENOMEM))"

text \<open>
  \<open>malloc\<close> of the size of the templates and \<open>memcpy\<close> of \<open>tmpl_num\<close> of them: undefined
  when the array behind the pointer is shorter.
\<close>

definition copy_tmpls ::
  "ptr \<Rightarrow> nat \<Rightarrow> ('m, 'p) xheap \<Rightarrow> (ptr option \<times> ('m, 'p) xheap) option" where
  "copy_tmpls q n h =
     (case arrs h q of None \<Rightarrow> None
      | Some xs \<Rightarrow> if n \<le> length xs then Some (new_arr (take n xs) h) else None)"

definition mnlxt_xfrm_policy_clone ::
  "bool \<Rightarrow> mnlxt_xfrm_policy_t option \<Rightarrow> u64 \<Rightarrow> ('m, 'p) xheap \<Rightarrow> errno \<Rightarrow>
     (mnlxt_xfrm_policy_t option \<times> ('m, 'p) xheap \<times> errno) option" where
  "mnlxt_xfrm_policy_clone mem src flt h e =
     (case src of None \<Rightarrow> Some (None, h, EINVAL)
      | Some s \<Rightarrow>
          (let prop_flags = ucast (policy_prop_flags s) AND flt;
               wants = prop_flags AND MNLXT_FLAG MNLXT_XFRM_POLICY_TMPLS \<noteq> 0 \<and> policy_tmpls s \<noteq> None \<and>
                 policy_tmpl_num s \<noteq> 0
           in do {
             (tmpls, h1) \<leftarrow>
               (if wants then copy_tmpls (the (policy_tmpls s)) (unat (policy_tmpl_num s)) h
                else Some (None, h));
             (if wants \<and> tmpls = None then Some (None, h1, ENOMEM)
              else
                (case mnlxt_xfrm_policy_new mem e of
                   (None, e') \<Rightarrow> map_option (\<lambda>h2. (None, h2, e')) (free_arr_opt tmpls h1)
                 | (Some dst, e') \<Rightarrow>
                     if prop_flags \<noteq> 0 then
                       Some (Some (s\<lparr>policy_tmpls := tmpls, policy_prop_flags := ucast prop_flags\<rparr>), h1, e')
                     else map_option (\<lambda>h2. (Some dst, h2, e')) (free_arr_opt tmpls h1)))
           }))"

text \<open>What \<open>mnlxt_xfrm_policy_free\<close> releases before the struct itself.\<close>

definition policy_free_tmpls :: "mnlxt_xfrm_policy_t \<Rightarrow> ('m, 'p) xheap \<Rightarrow> ('m, 'p) xheap option" where
  "policy_free_tmpls policy h = free_arr_opt (policy_tmpls policy) h"

section \<open>Generic access\<close>

definition mnlxt_xfrm_policy_set_ptr ::
  "mnlxt_xfrm_policy_t option \<Rightarrow> nat \<Rightarrow> cval \<Rightarrow> errno \<Rightarrow> int \<times> mnlxt_xfrm_policy_t option \<times> errno" where
  "mnlxt_xfrm_policy_set_ptr policy data ptr e =
     (case policy of None \<Rightarrow> (- 1, None, EINVAL)
      | Some ob \<Rightarrow>
          if MNLXT_XFRM_POLICY_MAX \<le> data \<or> policy_data data \<noteq> csize ptr \<or> policy_data data = 0
          then (- 1, Some ob, EINVAL)
          else (0, Some (policy_store data ptr
                  (ob\<lparr>policy_prop_flags := set_prop_flag (policy_prop_flags ob) data\<rparr>)), e))"

definition mnlxt_xfrm_policy_set_u32 ::
  "mnlxt_xfrm_policy_t option \<Rightarrow> nat \<Rightarrow> u32 \<Rightarrow> errno \<Rightarrow> int \<times> mnlxt_xfrm_policy_t option \<times> errno" where
  "mnlxt_xfrm_policy_set_u32 policy data x e = mnlxt_xfrm_policy_set_ptr policy data (U32 x) e"

definition mnlxt_xfrm_policy_set_u8 ::
  "mnlxt_xfrm_policy_t option \<Rightarrow> nat \<Rightarrow> u8 \<Rightarrow> errno \<Rightarrow> int \<times> mnlxt_xfrm_policy_t option \<times> errno" where
  "mnlxt_xfrm_policy_set_u8 policy data x e = mnlxt_xfrm_policy_set_ptr policy data (U8 x) e"

definition mnlxt_xfrm_policy_get_ptr ::
  "mnlxt_xfrm_policy_t option \<Rightarrow> nat \<Rightarrow> cval \<Rightarrow> errno \<Rightarrow> int \<times> cval \<times> errno" where
  "mnlxt_xfrm_policy_get_ptr policy data ptr e =
     (case policy of None \<Rightarrow> (- 1, ptr, EINVAL)
      | Some ob \<Rightarrow>
          if MNLXT_XFRM_POLICY_MAX \<le> data \<or> policy_data data \<noteq> csize ptr \<or> policy_data data = 0
          then (- 1, ptr, EINVAL)
          else if \<not> get_prop_flag (policy_prop_flags ob) data then (1, ptr, e)
          else (0, policy_load data ob, e))"

definition mnlxt_xfrm_policy_get_u32 ::
  "mnlxt_xfrm_policy_t option \<Rightarrow> nat \<Rightarrow> u32 \<Rightarrow> errno \<Rightarrow> int \<times> u32 \<times> errno" where
  "mnlxt_xfrm_policy_get_u32 policy data p e =
     (case mnlxt_xfrm_policy_get_ptr policy data (U32 p) e of (rc, v, e') \<Rightarrow> (rc, un_U32 v, e'))"

definition mnlxt_xfrm_policy_get_u16 ::
  "mnlxt_xfrm_policy_t option \<Rightarrow> nat \<Rightarrow> u16 \<Rightarrow> errno \<Rightarrow> int \<times> u16 \<times> errno" where
  "mnlxt_xfrm_policy_get_u16 policy data p e =
     (case mnlxt_xfrm_policy_get_ptr policy data (U16 p) e of (rc, v, e') \<Rightarrow> (rc, un_U16 v, e'))"

definition mnlxt_xfrm_policy_get_u8 ::
  "mnlxt_xfrm_policy_t option \<Rightarrow> nat \<Rightarrow> u8 \<Rightarrow> errno \<Rightarrow> int \<times> u8 \<times> errno" where
  "mnlxt_xfrm_policy_get_u8 policy data p e =
     (case mnlxt_xfrm_policy_get_ptr policy data (U8 p) e of (rc, v, e') \<Rightarrow> (rc, un_U8 v, e'))"

section \<open>Setters and getters\<close>

definition mnlxt_xfrm_policy_set_family ::
  "mnlxt_xfrm_policy_t option \<Rightarrow> u8 \<Rightarrow> errno \<Rightarrow> int \<times> mnlxt_xfrm_policy_t option \<times> errno" where
  "mnlxt_xfrm_policy_set_family policy family e =
     (case policy of None \<Rightarrow> (- 1, None, EINVAL)
      | Some ob \<Rightarrow>
          if AF_INET \<noteq> family \<and> AF_INET6 \<noteq> family then (- 1, Some ob, EAFNOSUPPORT)
          else if get_prop_flag (policy_prop_flags ob) MNLXT_XFRM_POLICY_FAMILY then
            if family = policy_family ob then (0, Some ob, e) else (- 1, Some ob, EINVAL)
          else (0, Some (ob\<lparr>policy_family := family,
                  policy_prop_flags := set_prop_flag (policy_prop_flags ob) MNLXT_XFRM_POLICY_FAMILY\<rparr>), e))"

definition mnlxt_xfrm_policy_get_family ::
  "mnlxt_xfrm_policy_t option \<Rightarrow> u8 \<Rightarrow> errno \<Rightarrow> int \<times> u8 \<times> errno" where
  "mnlxt_xfrm_policy_get_family policy family e = mnlxt_xfrm_policy_get_u8 policy MNLXT_XFRM_POLICY_FAMILY family e"

definition mnlxt_port_proto :: "u8 \<Rightarrow> bool" where
  "mnlxt_port_proto proto \<longleftrightarrow>
     IPPROTO_TCP = proto \<or> IPPROTO_UDP = proto \<or> IPPROTO_SCTP = proto \<or> IPPROTO_DCCP = proto"

definition mnlxt_xfrm_policy_set_proto ::
  "mnlxt_xfrm_policy_t option \<Rightarrow> u8 \<Rightarrow> errno \<Rightarrow> int \<times> mnlxt_xfrm_policy_t option \<times> errno" where
  "mnlxt_xfrm_policy_set_proto policy proto e =
     (case policy of None \<Rightarrow> (- 1, None, EINVAL)
      | Some ob \<Rightarrow>
          if (get_prop_flag (policy_prop_flags ob) MNLXT_XFRM_POLICY_DST_PORT \<or>
              get_prop_flag (policy_prop_flags ob) MNLXT_XFRM_POLICY_SRC_PORT) \<and> \<not> mnlxt_port_proto proto
          then (- 1, Some ob, EINVAL)
          else (0, Some (ob\<lparr>policy_prop_flags := set_prop_flag (policy_prop_flags ob) MNLXT_XFRM_POLICY_PROTO,
                  policy_proto := proto\<rparr>), e))"

definition mnlxt_xfrm_policy_get_proto ::
  "mnlxt_xfrm_policy_t option \<Rightarrow> u8 \<Rightarrow> errno \<Rightarrow> int \<times> u8 \<times> errno" where
  "mnlxt_xfrm_policy_get_proto policy proto e = mnlxt_xfrm_policy_get_u8 policy MNLXT_XFRM_POLICY_PROTO proto e"

definition mnlxt_xfrm_policy_set_src_prefixlen ::
  "mnlxt_xfrm_policy_t option \<Rightarrow> u8 \<Rightarrow> errno \<Rightarrow> int \<times> mnlxt_xfrm_policy_t option \<times> errno" where
  "mnlxt_xfrm_policy_set_src_prefixlen policy prefixlen e = mnlxt_xfrm_policy_set_u8 policy MNLXT_XFRM_POLICY_SRC_PREFIXLEN prefixlen e"

definition mnlxt_xfrm_policy_get_src_prefixlen ::
  "mnlxt_xfrm_policy_t option \<Rightarrow> u8 \<Rightarrow> errno \<Rightarrow> int \<times> u8 \<times> errno" where
  "mnlxt_xfrm_policy_get_src_prefixlen policy prefixlen e = mnlxt_xfrm_policy_get_u8 policy MNLXT_XFRM_POLICY_SRC_PREFIXLEN prefixlen e"

definition mnlxt_xfrm_policy_set_dst_prefixlen ::
  "mnlxt_xfrm_policy_t option \<Rightarrow> u8 \<Rightarrow> errno \<Rightarrow> int \<times> mnlxt_xfrm_policy_t option \<times> errno" where
  "mnlxt_xfrm_policy_set_dst_prefixlen policy prefixlen e = mnlxt_xfrm_policy_set_u8 policy MNLXT_XFRM_POLICY_DST_PREFIXLEN prefixlen e"

definition mnlxt_xfrm_policy_get_dst_prefixlen ::
  "mnlxt_xfrm_policy_t option \<Rightarrow> u8 \<Rightarrow> errno \<Rightarrow> int \<times> u8 \<times> errno" where
  "mnlxt_xfrm_policy_get_dst_prefixlen policy prefixlen e = mnlxt_xfrm_policy_get_u8 policy MNLXT_XFRM_POLICY_DST_PREFIXLEN prefixlen e"

definition mnlxt_xfrm_policy_set_src_addr ::
  "mnlxt_xfrm_policy_t option \<Rightarrow> u8 \<Rightarrow> mnlxt_inet_addr_t option \<Rightarrow> errno \<Rightarrow>
     int \<times> mnlxt_xfrm_policy_t option \<times> errno" where
  "mnlxt_xfrm_policy_set_src_addr policy family buf e =
     (case (policy, buf) of
        (Some _, Some b) \<Rightarrow>
          (case mnlxt_xfrm_policy_set_family policy family e of
             (rc, Some ob, e') \<Rightarrow>
               if rc = 0 then
                 (rc, Some (ob\<lparr>policy_src := (policy_src ob)\<lparr>site_addr := b\<rparr>,
                    policy_prop_flags := set_prop_flag (policy_prop_flags ob) MNLXT_XFRM_POLICY_SRC_ADDR\<rparr>), e')
               else (rc, Some ob, e')
           | (rc, None, e') \<Rightarrow> (rc, None, e'))
      | _ \<Rightarrow> (- 1, policy, EINVAL))"

definition mnlxt_xfrm_policy_get_src_addr ::
  "mnlxt_xfrm_policy_t option \<Rightarrow> u8 option \<Rightarrow> mnlxt_inet_addr_t option \<Rightarrow> errno \<Rightarrow>
     int \<times> u8 option \<times> mnlxt_inet_addr_t option \<times> errno" where
  "mnlxt_xfrm_policy_get_src_addr policy family buf e =
     (case (policy, buf) of
        (Some ob, Some _) \<Rightarrow>
          if \<not> get_prop_flag (policy_prop_flags ob) MNLXT_XFRM_POLICY_SRC_ADDR then (1, family, buf, e)
          else (0, map_option (\<lambda>_. policy_family ob) family, Some (site_addr (policy_src ob)), e)
      | _ \<Rightarrow> (- 1, family, buf, EINVAL))"

definition mnlxt_xfrm_policy_set_dst_addr ::
  "mnlxt_xfrm_policy_t option \<Rightarrow> u8 \<Rightarrow> mnlxt_inet_addr_t option \<Rightarrow> errno \<Rightarrow>
     int \<times> mnlxt_xfrm_policy_t option \<times> errno" where
  "mnlxt_xfrm_policy_set_dst_addr policy family buf e =
     (case (policy, buf) of
        (Some _, Some b) \<Rightarrow>
          (case mnlxt_xfrm_policy_set_family policy family e of
             (rc, Some ob, e') \<Rightarrow>
               if rc = 0 then
                 (rc, Some (ob\<lparr>policy_dst := (policy_dst ob)\<lparr>site_addr := b\<rparr>,
                    policy_prop_flags := set_prop_flag (policy_prop_flags ob) MNLXT_XFRM_POLICY_DST_ADDR\<rparr>), e')
               else (rc, Some ob, e')
           | (rc, None, e') \<Rightarrow> (rc, None, e'))
      | _ \<Rightarrow> (- 1, policy, EINVAL))"

definition mnlxt_xfrm_policy_get_dst_addr ::
  "mnlxt_xfrm_policy_t option \<Rightarrow> u8 option \<Rightarrow> mnlxt_inet_addr_t option \<Rightarrow> errno \<Rightarrow>
     int \<times> u8 option \<times> mnlxt_inet_addr_t option \<times> errno" where
  "mnlxt_xfrm_policy_get_dst_addr policy family buf e =
     (case (policy, buf) of
        (Some ob, Some _) \<Rightarrow>
          if \<not> get_prop_flag (policy_prop_flags ob) MNLXT_XFRM_POLICY_DST_ADDR then (1, family, buf, e)
          else (0, map_option (\<lambda>_. policy_family ob) family, Some (site_addr (policy_dst ob)), e)
      | _ \<Rightarrow> (- 1, family, buf, EINVAL))"

definition mnlxt_xfrm_policy_set_src_port ::
  "mnlxt_xfrm_policy_t option \<Rightarrow> u16 \<Rightarrow> errno \<Rightarrow> int \<times> mnlxt_xfrm_policy_t option \<times> errno" where
  "mnlxt_xfrm_policy_set_src_port policy port e =
     (case policy of None \<Rightarrow> (- 1, None, EINVAL)
      | Some ob \<Rightarrow>
          if get_prop_flag (policy_prop_flags ob) MNLXT_XFRM_POLICY_PROTO \<and> \<not> mnlxt_port_proto (policy_proto ob)
          then (- 1, Some ob, EINVAL)
          else (0, Some (ob\<lparr>policy_prop_flags := set_prop_flag (policy_prop_flags ob) MNLXT_XFRM_POLICY_SRC_PORT,
                  policy_src := (policy_src ob)\<lparr>site_port := port\<rparr>\<rparr>), e))"

definition mnlxt_xfrm_policy_get_src_port ::
  "mnlxt_xfrm_policy_t option \<Rightarrow> u16 \<Rightarrow> errno \<Rightarrow> int \<times> u16 \<times> errno" where
  "mnlxt_xfrm_policy_get_src_port policy port e = mnlxt_xfrm_policy_get_u16 policy MNLXT_XFRM_POLICY_SRC_PORT port e"

definition mnlxt_xfrm_policy_set_dst_port ::
  "mnlxt_xfrm_policy_t option \<Rightarrow> u16 \<Rightarrow> errno \<Rightarrow> int \<times> mnlxt_xfrm_policy_t option \<times> errno" where
  "mnlxt_xfrm_policy_set_dst_port policy port e =
     (case policy of None \<Rightarrow> (- 1, None, EINVAL)
      | Some ob \<Rightarrow>
          if get_prop_flag (policy_prop_flags ob) MNLXT_XFRM_POLICY_PROTO \<and> \<not> mnlxt_port_proto (policy_proto ob)
          then (- 1, Some ob, EINVAL)
          else (0, Some (ob\<lparr>policy_prop_flags := set_prop_flag (policy_prop_flags ob) MNLXT_XFRM_POLICY_DST_PORT,
                  policy_dst := (policy_dst ob)\<lparr>site_port := port\<rparr>\<rparr>), e))"

definition mnlxt_xfrm_policy_get_dst_port ::
  "mnlxt_xfrm_policy_t option \<Rightarrow> u16 \<Rightarrow> errno \<Rightarrow> int \<times> u16 \<times> errno" where
  "mnlxt_xfrm_policy_get_dst_port policy port e = mnlxt_xfrm_policy_get_u16 policy MNLXT_XFRM_POLICY_DST_PORT port e"

definition mnlxt_xfrm_policy_set_ifindex ::
  "mnlxt_xfrm_policy_t option \<Rightarrow> u32 \<Rightarrow> errno \<Rightarrow> int \<times> mnlxt_xfrm_policy_t option \<times> errno" where
  "mnlxt_xfrm_policy_set_ifindex policy ifindex e = mnlxt_xfrm_policy_set_u32 policy MNLXT_XFRM_POLICY_IFINDEX ifindex e"

definition mnlxt_xfrm_policy_get_ifindex ::
  "mnlxt_xfrm_policy_t option \<Rightarrow> u32 \<Rightarrow> errno \<Rightarrow> int \<times> u32 \<times> errno" where
  "mnlxt_xfrm_policy_get_ifindex policy ifindex e = mnlxt_xfrm_policy_get_u32 policy MNLXT_XFRM_POLICY_IFINDEX ifindex e"

definition mnlxt_xfrm_policy_set_action ::
  "mnlxt_xfrm_policy_t option \<Rightarrow> u8 \<Rightarrow> errno \<Rightarrow> int \<times> mnlxt_xfrm_policy_t option \<times> errno" where
  "mnlxt_xfrm_policy_set_action policy action e =
     (if XFRM_POLICY_ALLOW \<noteq> action \<and> XFRM_POLICY_BLOCK \<noteq> action then (- 1, policy, EINVAL)
      else mnlxt_xfrm_policy_set_u8 policy MNLXT_XFRM_POLICY_ACTION action e)"

definition mnlxt_xfrm_policy_get_action ::
  "mnlxt_xfrm_policy_t option \<Rightarrow> u8 \<Rightarrow> errno \<Rightarrow> int \<times> u8 \<times> errno" where
  "mnlxt_xfrm_policy_get_action policy action e = mnlxt_xfrm_policy_get_u8 policy MNLXT_XFRM_POLICY_ACTION action e"

definition mnlxt_xfrm_policy_set_dir ::
  "mnlxt_xfrm_policy_t option \<Rightarrow> u8 \<Rightarrow> errno \<Rightarrow> int \<times> mnlxt_xfrm_policy_t option \<times> errno" where
  "mnlxt_xfrm_policy_set_dir policy dir e =
     (if XFRM_POLICY_MAX \<le> dir then (- 1, policy, EINVAL)
      else mnlxt_xfrm_policy_set_u8 policy MNLXT_XFRM_POLICY_DIR dir e)"

definition mnlxt_xfrm_policy_get_dir ::
  "mnlxt_xfrm_policy_t option \<Rightarrow> u8 \<Rightarrow> errno \<Rightarrow> int \<times> u8 \<times> errno" where
  "mnlxt_xfrm_policy_get_dir policy dir e = mnlxt_xfrm_policy_get_u8 policy MNLXT_XFRM_POLICY_DIR dir e"

definition mnlxt_xfrm_policy_set_priority ::
  "mnlxt_xfrm_policy_t option \<Rightarrow> u32 \<Rightarrow> errno \<Rightarrow> int \<times> mnlxt_xfrm_policy_t option \<times> errno" where
  "mnlxt_xfrm_policy_set_priority policy priority e =
     (case policy of None \<Rightarrow> (- 1, None, EINVAL)
      | Some ob \<Rightarrow>
          (0, Some (ob\<lparr>policy_prop_flags := set_prop_flag (policy_prop_flags ob) MNLXT_XFRM_POLICY_PRIO,
             policy_priority := priority\<rparr>), e))"

definition mnlxt_xfrm_policy_get_priority ::
  "mnlxt_xfrm_policy_t option \<Rightarrow> u32 option \<Rightarrow> errno \<Rightarrow> int \<times> u32 option \<times> errno" where
  "mnlxt_xfrm_policy_get_priority policy priority e =
     (case (policy, priority) of
        (Some ob, Some _) \<Rightarrow>
          if get_prop_flag (policy_prop_flags ob) MNLXT_XFRM_POLICY_PRIO
          then (0, Some (policy_priority ob), e) else (1, priority, e)
      | _ \<Rightarrow> (- 1, priority, EINVAL))"

text \<open>The mark is handed to the 32 bit setter, while the table has the width of the whole mark.\<close>

definition mnlxt_xfrm_policy_set_mark ::
  "mnlxt_xfrm_policy_t option \<Rightarrow> u32 \<Rightarrow> u32 \<Rightarrow> errno \<Rightarrow> int \<times> mnlxt_xfrm_policy_t option \<times> errno" where
  "mnlxt_xfrm_policy_set_mark policy mark msk e =
     (case mnlxt_xfrm_policy_set_u32 policy MNLXT_XFRM_POLICY_MARK mark e of
        (rc, p, e') \<Rightarrow>
          (rc, if rc = 0 then map_option (\<lambda>ob. ob\<lparr>policy_mark := (policy_mark ob)
                 \<lparr>mark_mask := (if msk \<noteq> 0 then msk else - 1)\<rparr>\<rparr>) p else p, e'))"

definition mnlxt_xfrm_policy_get_mark ::
  "mnlxt_xfrm_policy_t option \<Rightarrow> u32 option \<Rightarrow> u32 option \<Rightarrow> errno \<Rightarrow>
     int \<times> u32 option \<times> u32 option \<times> errno" where
  "mnlxt_xfrm_policy_get_mark policy mark msk e =
     (case (mnlxt_xfrm_policy_get_u32 policy MNLXT_XFRM_POLICY_MARK 0 e, policy) of
        ((rc, m, e'), Some ob) \<Rightarrow>
          if rc = 0 then
            (rc, map_option (\<lambda>_. m) mark, map_option (\<lambda>_. mark_mask (policy_mark ob)) msk, e')
          else (rc, mark, msk, e')
      | ((rc, m, e'), None) \<Rightarrow> (rc, mark, msk, e'))"

definition mnlxt_xfrm_policy_set_index ::
  "mnlxt_xfrm_policy_t option \<Rightarrow> u32 \<Rightarrow> errno \<Rightarrow> int \<times> mnlxt_xfrm_policy_t option \<times> errno" where
  "mnlxt_xfrm_policy_set_index policy index e = mnlxt_xfrm_policy_set_u32 policy MNLXT_XFRM_POLICY_INDEX index e"

definition mnlxt_xfrm_policy_get_index ::
  "mnlxt_xfrm_policy_t option \<Rightarrow> u32 \<Rightarrow> errno \<Rightarrow> int \<times> u32 \<times> errno" where
  "mnlxt_xfrm_policy_get_index policy index e = mnlxt_xfrm_policy_get_u32 policy MNLXT_XFRM_POLICY_INDEX index e"

section \<open>The object implements a map of its properties\<close>

definition policy_abs :: "mnlxt_xfrm_policy_t \<Rightarrow> (nat \<rightharpoonup> cval)" where
  "policy_abs ob i =
     (if policy_data i \<noteq> 0 \<and> bit (policy_prop_flags ob) i then Some (policy_load i ob) else None)"

lemma policy_data_bound: "policy_data i \<noteq> 0 \<Longrightarrow> i < MNLXT_XFRM_POLICY_MAX"
  by (simp add: policy_data_def split: if_splits)

lemma policy_store_flags [simp]: "policy_prop_flags (policy_store i v ob) = policy_prop_flags ob"
  by (simp add: policy_store_def)

lemma policy_load_store:
  "policy_data i = csize v \<Longrightarrow> policy_load j (policy_store i v ob) = (if i = j then v else policy_load j ob)"
  by (auto simp: policy_data_def policy_store_def policy_load_def split: if_splits)

lemma policy_load_flags [simp]: "policy_load j (ob\<lparr>policy_prop_flags := w\<rparr>) = policy_load j ob"
  by (simp add: policy_load_def)

lemma policy_load_size: "policy_data i \<noteq> 0 \<Longrightarrow> csize (policy_load i ob) = policy_data i"
  by (simp add: policy_data_def policy_load_def split: if_splits)

interpretation policy_obj: prop_object mnlxt_xfrm_policy_set_ptr mnlxt_xfrm_policy_get_ptr policy_abs policy_data
proof (unfold_locales, goal_cases)
  case (1 i v ob e)
  then have "policy_data i \<noteq> 0" by simp
  with policy_data_bound [OF this] 1 show ?case
    by (auto simp: mnlxt_xfrm_policy_set_ptr_def policy_abs_def policy_load_store fun_eq_iff)
next
  case (2 i v ob e)
  then show ?case by (simp add: mnlxt_xfrm_policy_set_ptr_def)
next
  case (3 i v e)
  then show ?case by (simp add: mnlxt_xfrm_policy_set_ptr_def)
next
  case (4 i c ob e)
  then have "policy_data i \<noteq> 0" by simp
  with policy_data_bound [OF this] 4 show ?case
    by (simp add: mnlxt_xfrm_policy_get_ptr_def policy_abs_def)
next
  case (5 i c ob e)
  then show ?case by (simp add: mnlxt_xfrm_policy_get_ptr_def)
next
  case (6 i c e)
  then show ?case by (simp add: mnlxt_xfrm_policy_get_ptr_def)
qed


section \<open>Policies built by the public setters\<close>

abbreviation policy_has :: "mnlxt_xfrm_policy_t \<Rightarrow> nat \<Rightarrow> bool" where
  "policy_has p i \<equiv> bit (policy_prop_flags p) i"

inductive policy_api :: "mnlxt_xfrm_policy_t \<Rightarrow> mnlxt_xfrm_policy_t \<Rightarrow> bool" where
  family: "mnlxt_xfrm_policy_set_family (Some p) f e = (rc, Some p', e') \<Longrightarrow> policy_api p p'"
| proto: "mnlxt_xfrm_policy_set_proto (Some p) f e = (rc, Some p', e') \<Longrightarrow> policy_api p p'"
| src_prefixlen: "mnlxt_xfrm_policy_set_src_prefixlen (Some p) f e = (rc, Some p', e') \<Longrightarrow> policy_api p p'"
| dst_prefixlen: "mnlxt_xfrm_policy_set_dst_prefixlen (Some p) f e = (rc, Some p', e') \<Longrightarrow> policy_api p p'"
| src_addr: "inet_ok a \<Longrightarrow> mnlxt_xfrm_policy_set_src_addr (Some p) f (Some a) e = (rc, Some p', e') \<Longrightarrow>
    policy_api p p'"
| dst_addr: "inet_ok a \<Longrightarrow> mnlxt_xfrm_policy_set_dst_addr (Some p) f (Some a) e = (rc, Some p', e') \<Longrightarrow>
    policy_api p p'"
| src_port: "mnlxt_xfrm_policy_set_src_port (Some p) x e = (rc, Some p', e') \<Longrightarrow> policy_api p p'"
| dst_port: "mnlxt_xfrm_policy_set_dst_port (Some p) x e = (rc, Some p', e') \<Longrightarrow> policy_api p p'"
| ifindex: "mnlxt_xfrm_policy_set_ifindex (Some p) u e = (rc, Some p', e') \<Longrightarrow> policy_api p p'"
| action: "mnlxt_xfrm_policy_set_action (Some p) f e = (rc, Some p', e') \<Longrightarrow> policy_api p p'"
| dir: "mnlxt_xfrm_policy_set_dir (Some p) f e = (rc, Some p', e') \<Longrightarrow> policy_api p p'"
| priority: "mnlxt_xfrm_policy_set_priority (Some p) u e = (rc, Some p', e') \<Longrightarrow> policy_api p p'"
| mark: "mnlxt_xfrm_policy_set_mark (Some p) u k e = (rc, Some p', e') \<Longrightarrow> policy_api p p'"
| index: "mnlxt_xfrm_policy_set_index (Some p) u e = (rc, Some p', e') \<Longrightarrow> policy_api p p'"

inductive policy_reach :: "mnlxt_xfrm_policy_t \<Rightarrow> bool" where
  new: "policy_reach policy_zero"
| call: "policy_reach p \<Longrightarrow> policy_api p p' \<Longrightarrow> policy_reach p'"

definition policy_inv :: "mnlxt_xfrm_policy_t \<Rightarrow> bool" where
  "policy_inv p \<longleftrightarrow>
     inet_ok (site_addr (policy_src p)) \<and> inet_ok (site_addr (policy_dst p)) \<and>
     (policy_has p MNLXT_XFRM_POLICY_FAMILY \<longrightarrow> policy_family p = AF_INET \<or> policy_family p = AF_INET6) \<and>
     (policy_has p MNLXT_XFRM_POLICY_SRC_ADDR \<or> policy_has p MNLXT_XFRM_POLICY_DST_ADDR \<longrightarrow>
        policy_has p MNLXT_XFRM_POLICY_FAMILY) \<and>
     (policy_has p MNLXT_XFRM_POLICY_PROTO \<and>
        (policy_has p MNLXT_XFRM_POLICY_SRC_PORT \<or> policy_has p MNLXT_XFRM_POLICY_DST_PORT) \<longrightarrow>
        mnlxt_port_proto (policy_proto p)) \<and>
     (policy_has p MNLXT_XFRM_POLICY_ACTION \<longrightarrow>
        policy_action p = XFRM_POLICY_ALLOW \<or> policy_action p = XFRM_POLICY_BLOCK) \<and>
     (policy_has p MNLXT_XFRM_POLICY_DIR \<longrightarrow> policy_dir p < XFRM_POLICY_MAX) \<and>
     \<not> policy_has p MNLXT_XFRM_POLICY_MARK \<and> \<not> policy_has p MNLXT_XFRM_POLICY_TMPLS"

definition policy_ext :: "mnlxt_xfrm_policy_t \<Rightarrow> mnlxt_xfrm_policy_t \<Rightarrow> bool" where
  "policy_ext p p' \<longleftrightarrow>
     (\<forall>i. policy_has p i \<longrightarrow> policy_has p' i) \<and>
     (policy_has p MNLXT_XFRM_POLICY_FAMILY \<longrightarrow> policy_family p' = policy_family p)"

lemma policy_ext_refl [simp]: "policy_ext p p"
  by (simp add: policy_ext_def)

lemma policy_ext_trans: "policy_ext p q \<Longrightarrow> policy_ext q r \<Longrightarrow> policy_ext p r"
  by (simp add: policy_ext_def)

lemma policy_inv_zero: "policy_inv policy_zero"
  by (simp add: policy_inv_def policy_zero_def site_zero_def)

lemma policy_set_mark_fails:
  "mnlxt_xfrm_policy_set_mark p mark msk e = (- 1, p, EINVAL)"
  by (cases p) (simp_all add: mnlxt_xfrm_policy_set_mark_def mnlxt_xfrm_policy_set_u32_def
      mnlxt_xfrm_policy_set_ptr_def policy_data_def)

lemma policy_get_mark_fails:
  "mnlxt_xfrm_policy_get_mark p mark msk e = (- 1, mark, msk, EINVAL)"
  by (cases p) (simp_all add: mnlxt_xfrm_policy_get_mark_def mnlxt_xfrm_policy_get_u32_def
      mnlxt_xfrm_policy_get_ptr_def policy_data_def)

lemma policy_set_ptr_keeps:
  assumes "mnlxt_xfrm_policy_set_ptr (Some p) i v e = (rc, Some p', e')"
    and "i \<in> {MNLXT_XFRM_POLICY_SRC_PREFIXLEN, MNLXT_XFRM_POLICY_DST_PREFIXLEN, MNLXT_XFRM_POLICY_INDEX,
      MNLXT_XFRM_POLICY_IFINDEX}"
  shows "(policy_inv p \<longrightarrow> policy_inv p') \<and> policy_ext p p'"
proof (cases "policy_data i = csize v")
  case True
  with assms have p': "p' = policy_store i v
      (p\<lparr>policy_prop_flags := set_prop_flag (policy_prop_flags p) i\<rparr>)"
    by (auto simp: mnlxt_xfrm_policy_set_ptr_def)
  show ?thesis
    unfolding p' using assms(2)
    by (elim insertE emptyE; simp add: policy_inv_def policy_ext_def policy_store_def)
next
  case False
  with assms show ?thesis by (simp add: mnlxt_xfrm_policy_set_ptr_def)
qed

lemma policy_set_action_keeps:
  assumes "mnlxt_xfrm_policy_set_action (Some p) f e = (rc, Some p', e')"
  shows "(policy_inv p \<longrightarrow> policy_inv p') \<and> policy_ext p p'"
proof (cases "f = XFRM_POLICY_ALLOW \<or> f = XFRM_POLICY_BLOCK")
  case True
  with assms have "p' = p\<lparr>policy_prop_flags := set_prop_flag (policy_prop_flags p) MNLXT_XFRM_POLICY_ACTION,
      policy_action := f\<rparr>"
    by (auto simp: mnlxt_xfrm_policy_set_action_def mnlxt_xfrm_policy_set_u8_def mnlxt_xfrm_policy_set_ptr_def
        policy_data_def policy_store_def not_le [symmetric])
  with True show ?thesis by (simp add: policy_inv_def policy_ext_def)
next
  case False
  with assms have "p' = p" by (simp add: mnlxt_xfrm_policy_set_action_def not_less)
  then show ?thesis by simp
qed

lemma policy_set_dir_keeps:
  assumes "mnlxt_xfrm_policy_set_dir (Some p) f e = (rc, Some p', e')"
  shows "(policy_inv p \<longrightarrow> policy_inv p') \<and> policy_ext p p'"
proof (cases "f < XFRM_POLICY_MAX")
  case True
  with assms have "p' = p\<lparr>policy_prop_flags := set_prop_flag (policy_prop_flags p) MNLXT_XFRM_POLICY_DIR,
      policy_dir := f\<rparr>"
    by (auto simp: mnlxt_xfrm_policy_set_dir_def mnlxt_xfrm_policy_set_u8_def mnlxt_xfrm_policy_set_ptr_def
        policy_data_def policy_store_def not_le [symmetric])
  with True show ?thesis by (simp add: policy_inv_def policy_ext_def)
next
  case False
  with assms have "p' = p" by (simp add: mnlxt_xfrm_policy_set_dir_def not_less)
  then show ?thesis by simp
qed

lemma policy_set_family_keeps:
  assumes "mnlxt_xfrm_policy_set_family (Some p) f e = (rc, Some p', e')"
  shows "(policy_inv p \<longrightarrow> policy_inv p') \<and> policy_ext p p' \<and>
    (rc = 0 \<longrightarrow> policy_has p' MNLXT_XFRM_POLICY_FAMILY \<and> policy_family p' = f \<and>
       (f = AF_INET \<or> f = AF_INET6)) \<and> (rc \<noteq> 0 \<longrightarrow> p' = p)"
proof -
  let ?new = "p\<lparr>policy_family := f,
      policy_prop_flags := set_prop_flag (policy_prop_flags p) MNLXT_XFRM_POLICY_FAMILY\<rparr>"
  from assms consider "rc \<noteq> 0" "p' = p"
    | "rc = 0" "f = AF_INET \<or> f = AF_INET6" "policy_has p MNLXT_XFRM_POLICY_FAMILY" "policy_family p = f" "p' = p"
    | "rc = 0" "f = AF_INET \<or> f = AF_INET6" "\<not> policy_has p MNLXT_XFRM_POLICY_FAMILY" "p' = ?new"
    by (auto simp: mnlxt_xfrm_policy_set_family_def split: if_splits)
  then show ?thesis
  proof cases
    case 3
    then have "policy_inv p \<longrightarrow> policy_inv ?new" by (simp add: policy_inv_def)
    moreover have "policy_ext p ?new" using 3 by (simp add: policy_ext_def)
    ultimately show ?thesis using 3 by simp
  qed simp_all
qed

lemma policy_set_family_never_null:
  "\<exists>rc p' e'. mnlxt_xfrm_policy_set_family (Some p) f e = (rc, Some p', e')"
  by (auto simp: mnlxt_xfrm_policy_set_family_def)

lemma policy_set_src_addr_keeps:
  assumes "inet_ok a" "mnlxt_xfrm_policy_set_src_addr (Some p) f (Some a) e = (rc, Some p', e')"
  shows "(policy_inv p \<longrightarrow> policy_inv p') \<and> policy_ext p p'"
proof -
  obtain rc1 p1 e1 where s: "mnlxt_xfrm_policy_set_family (Some p) f e = (rc1, Some p1, e1)"
    using policy_set_family_never_null by blast
  let ?p2 = "p1\<lparr>policy_src := (policy_src p1)\<lparr>site_addr := a\<rparr>,
      policy_prop_flags := set_prop_flag (policy_prop_flags p1) MNLXT_XFRM_POLICY_SRC_ADDR\<rparr>"
  from assms(2) have p': "p' = (if rc1 = 0 then ?p2 else p1)"
    by (simp add: s mnlxt_xfrm_policy_set_src_addr_def split: if_splits)
  have "policy_ext p1 ?p2" by (simp add: policy_ext_def)
  moreover have "policy_inv p1 \<Longrightarrow> policy_has p1 MNLXT_XFRM_POLICY_FAMILY \<Longrightarrow> policy_inv ?p2"
    using assms(1) by (simp add: policy_inv_def)
  ultimately show ?thesis
    unfolding p' using policy_set_family_keeps [OF s] policy_ext_trans by (cases "rc1 = 0") auto
qed

lemma policy_set_dst_addr_keeps:
  assumes "inet_ok a" "mnlxt_xfrm_policy_set_dst_addr (Some p) f (Some a) e = (rc, Some p', e')"
  shows "(policy_inv p \<longrightarrow> policy_inv p') \<and> policy_ext p p'"
proof -
  obtain rc1 p1 e1 where s: "mnlxt_xfrm_policy_set_family (Some p) f e = (rc1, Some p1, e1)"
    using policy_set_family_never_null by blast
  let ?p2 = "p1\<lparr>policy_dst := (policy_dst p1)\<lparr>site_addr := a\<rparr>,
      policy_prop_flags := set_prop_flag (policy_prop_flags p1) MNLXT_XFRM_POLICY_DST_ADDR\<rparr>"
  from assms(2) have p': "p' = (if rc1 = 0 then ?p2 else p1)"
    by (simp add: s mnlxt_xfrm_policy_set_dst_addr_def split: if_splits)
  have "policy_ext p1 ?p2" by (simp add: policy_ext_def)
  moreover have "policy_inv p1 \<Longrightarrow> policy_has p1 MNLXT_XFRM_POLICY_FAMILY \<Longrightarrow> policy_inv ?p2"
    using assms(1) by (simp add: policy_inv_def)
  ultimately show ?thesis
    unfolding p' using policy_set_family_keeps [OF s] policy_ext_trans by (cases "rc1 = 0") auto
qed

lemma policy_set_proto_keeps:
  assumes "mnlxt_xfrm_policy_set_proto (Some p) f e = (rc, Some p', e')"
  shows "(policy_inv p \<longrightarrow> policy_inv p') \<and> policy_ext p p'"
proof (cases "(policy_has p MNLXT_XFRM_POLICY_DST_PORT \<or> policy_has p MNLXT_XFRM_POLICY_SRC_PORT) \<and>
    \<not> mnlxt_port_proto f")
  case True
  with assms have "p' = p" by (simp add: mnlxt_xfrm_policy_set_proto_def)
  then show ?thesis by simp
next
  case False
  with assms have p': "p' = p\<lparr>policy_prop_flags := set_prop_flag (policy_prop_flags p) MNLXT_XFRM_POLICY_PROTO,
      policy_proto := f\<rparr>"
    by (simp add: mnlxt_xfrm_policy_set_proto_def)
  have "policy_ext p p'" by (simp add: p' policy_ext_def)
  moreover have "policy_inv p \<longrightarrow> policy_inv p'"
    unfolding p' policy_inv_def using False by simp blast
  ultimately show ?thesis by blast
qed

lemma policy_set_src_port_keeps:
  assumes "mnlxt_xfrm_policy_set_src_port (Some p) x e = (rc, Some p', e')"
  shows "(policy_inv p \<longrightarrow> policy_inv p') \<and> policy_ext p p'"
proof (cases "policy_has p MNLXT_XFRM_POLICY_PROTO \<and> \<not> mnlxt_port_proto (policy_proto p)")
  case True
  with assms have "p' = p" by (simp add: mnlxt_xfrm_policy_set_src_port_def)
  then show ?thesis by simp
next
  case False
  with assms have p': "p' = p\<lparr>policy_prop_flags := set_prop_flag (policy_prop_flags p) MNLXT_XFRM_POLICY_SRC_PORT,
      policy_src := (policy_src p)\<lparr>site_port := x\<rparr>\<rparr>"
    by (simp add: mnlxt_xfrm_policy_set_src_port_def split: if_splits)
  have "policy_ext p p'" by (simp add: p' policy_ext_def)
  moreover have "policy_inv p \<longrightarrow> policy_inv p'"
    unfolding p' policy_inv_def using False by simp
  ultimately show ?thesis by blast
qed

lemma policy_set_dst_port_keeps:
  assumes "mnlxt_xfrm_policy_set_dst_port (Some p) x e = (rc, Some p', e')"
  shows "(policy_inv p \<longrightarrow> policy_inv p') \<and> policy_ext p p'"
proof (cases "policy_has p MNLXT_XFRM_POLICY_PROTO \<and> \<not> mnlxt_port_proto (policy_proto p)")
  case True
  with assms have "p' = p" by (simp add: mnlxt_xfrm_policy_set_dst_port_def)
  then show ?thesis by simp
next
  case False
  with assms have p': "p' = p\<lparr>policy_prop_flags := set_prop_flag (policy_prop_flags p) MNLXT_XFRM_POLICY_DST_PORT,
      policy_dst := (policy_dst p)\<lparr>site_port := x\<rparr>\<rparr>"
    by (simp add: mnlxt_xfrm_policy_set_dst_port_def split: if_splits)
  have "policy_ext p p'" by (simp add: p' policy_ext_def)
  moreover have "policy_inv p \<longrightarrow> policy_inv p'"
    unfolding p' policy_inv_def using False by simp
  ultimately show ?thesis by blast
qed

lemma policy_api_keeps: "policy_api p p' \<Longrightarrow> (policy_inv p \<longrightarrow> policy_inv p') \<and> policy_ext p p'"
proof (induction rule: policy_api.induct)
  case (family p f e rc p' e')
  then show ?case using policy_set_family_keeps by blast
next
  case (proto p f e rc p' e')
  then show ?case by (rule policy_set_proto_keeps)
next
  case (src_addr a p f e rc p' e')
  then show ?case by (rule policy_set_src_addr_keeps)
next
  case (dst_addr a p f e rc p' e')
  then show ?case by (rule policy_set_dst_addr_keeps)
next
  case (src_port p x e rc p' e')
  then show ?case by (rule policy_set_src_port_keeps)
next
  case (dst_port p x e rc p' e')
  then show ?case by (rule policy_set_dst_port_keeps)
next
  case (action p f e rc p' e')
  then show ?case by (rule policy_set_action_keeps)
next
  case (dir p f e rc p' e')
  then show ?case by (rule policy_set_dir_keeps)
next
  case (priority p u e rc p' e')
  then show ?case
    by (simp add: mnlxt_xfrm_policy_set_priority_def) (force simp: policy_inv_def policy_ext_def)
next
  case (mark p u k e rc p' e')
  then show ?case by (simp add: policy_set_mark_fails)
qed (unfold mnlxt_xfrm_policy_set_src_prefixlen_def mnlxt_xfrm_policy_set_dst_prefixlen_def
    mnlxt_xfrm_policy_set_ifindex_def mnlxt_xfrm_policy_set_index_def mnlxt_xfrm_policy_set_u8_def
    mnlxt_xfrm_policy_set_u32_def, (erule policy_set_ptr_keeps, simp)+)

lemma policy_reach_inv_holds: "policy_reach p \<Longrightarrow> policy_inv p"
  by (induction rule: policy_reach.induct) (auto simp: policy_inv_zero dest: policy_api_keeps)

section \<open>The templates: ownership and the deep clone\<close>

definition policy_tmpls_ok :: "('m, 'p) xheap \<Rightarrow> mnlxt_xfrm_policy_t \<Rightarrow> bool" where
  "policy_tmpls_ok h p \<longleftrightarrow>
     (\<forall>q. policy_tmpls p = Some q \<longrightarrow>
        policy_has p MNLXT_XFRM_POLICY_TMPLS \<and>
        (\<exists>xs. arrs h q = Some xs \<and> length xs = unat (policy_tmpl_num p))) \<and>
     (policy_has p MNLXT_XFRM_POLICY_TMPLS \<and> policy_tmpl_num p \<noteq> 0 \<longrightarrow> policy_tmpls p \<noteq> None)"

text \<open>The templates that a policy carries.\<close>

definition policy_tmpl_list :: "('m, 'p) xheap \<Rightarrow> mnlxt_xfrm_policy_t \<Rightarrow> mnlxt_xfrm_tmpl_t list" where
  "policy_tmpl_list h p =
     (case Option.bind (policy_tmpls p) (arrs h) of None \<Rightarrow> [] | Some xs \<Rightarrow> xs)"

lemma bit_policy_flags_filtered:
  "bit (ucast (ucast w AND flt :: u64) :: u16) i \<longleftrightarrow> bit (w :: u16) i \<and> bit flt i"
  by (auto simp: bit_ucast_iff bit_and_iff dest: bit_imp_le_length)

lemma policy_flags_none:
  assumes "(ucast w AND flt :: u64) = 0"
  shows "\<not> (bit (w :: u16) i \<and> bit flt i)"
  using assms bit_policy_flags_filtered [of w flt i] by auto

text \<open>A deep copy, as for addresses, with the array of templates in place of the label.\<close>

definition policy_deep_copy ::
  "('m, 'p) xheap \<Rightarrow> mnlxt_xfrm_policy_t \<Rightarrow> u64 \<Rightarrow> mnlxt_xfrm_policy_t option \<times> ('m, 'p) xheap \<times> errno \<Rightarrow> bool" where
  "policy_deep_copy h s flt res \<longleftrightarrow>
     (case res of (r, h', e') \<Rightarrow> heap_ok h' \<and>
        (case r of
           None \<Rightarrow> arrs h' = arrs h \<and> e' = ENOMEM
         | Some d \<Rightarrow>
             policy_tmpls_ok h' d \<and> (\<forall>p. arrs h p \<noteq> None \<longrightarrow> arrs h' p = arrs h p) \<and>
             policy_tmpl_list h' d = (if bit flt MNLXT_XFRM_POLICY_TMPLS then policy_tmpl_list h s else []) \<and>
             (policy_tmpls d \<noteq> None \<longrightarrow> policy_tmpls d \<noteq> policy_tmpls s) \<and>
             (\<forall>i. policy_has d i \<longleftrightarrow> policy_has s i \<and> bit flt i)))"

text \<open>With templates that the filter selects.\<close>

lemma policy_clone_tmpls:
  assumes ok: "policy_tmpls_ok h s" "heap_ok h"
    and t: "bit flt MNLXT_XFRM_POLICY_TMPLS" "policy_tmpls s = Some q" "policy_tmpl_num s \<noteq> 0"
  shows "\<exists>res. mnlxt_xfrm_policy_clone mem (Some s) flt h e = Some res \<and> policy_deep_copy h s flt res"
proof -
  from ok(1) t obtain xs where x: "arrs h q = Some xs" "length xs = unat (policy_tmpl_num s)"
      "policy_has s MNLXT_XFRM_POLICY_TMPLS"
    by (auto simp: policy_tmpls_ok_def)
  let ?fl = "ucast (policy_prop_flags s) AND flt :: u64"
  have w: "bit ?fl MNLXT_XFRM_POLICY_TMPLS" using t(1) x(3) by (simp add: bit_and_iff bit_ucast_iff)
  then have nz: "?fl \<noteq> 0" "?fl AND MNLXT_FLAG MNLXT_XFRM_POLICY_TMPLS \<noteq> 0" by auto
  have c: "copy_tmpls q (unat (policy_tmpl_num s)) h = Some (new_arr xs h)" by (simp add: copy_tmpls_def x)
  from ok(2) show ?thesis
  proof (cases rule: copy_arr_cases [of h xs])
    case (null h')
    then show ?thesis using nz t c by (simp add: mnlxt_xfrm_policy_clone_def Let_def policy_deep_copy_def)
  next
    case (copy p h' h'')
    show ?thesis
    proof (cases mem)
      case True
      have "mnlxt_xfrm_policy_clone mem (Some s) flt h e =
          Some (Some (s\<lparr>policy_tmpls := Some p, policy_prop_flags := ucast ?fl\<rparr>), h', e)"
        using nz t c copy(1) True by (simp add: mnlxt_xfrm_policy_clone_def Let_def mnlxt_xfrm_policy_new_def)
      with copy t x w show ?thesis
        by (auto simp: policy_deep_copy_def policy_tmpls_ok_def policy_tmpl_list_def bit_policy_flags_filtered bit_and_iff)
    next
      case False
      then show ?thesis using nz t c copy
        by (simp add: mnlxt_xfrm_policy_clone_def Let_def mnlxt_xfrm_policy_new_def free_arr_opt_def policy_deep_copy_def)
    qed
  qed
qed

text \<open>Without any.\<close>

lemma policy_clone_plain:
  assumes ok: "policy_tmpls_ok h s" "heap_ok h"
    and t: "\<not> (bit flt MNLXT_XFRM_POLICY_TMPLS \<and> policy_tmpls s \<noteq> None \<and> policy_tmpl_num s \<noteq> 0)"
  shows "\<exists>res. mnlxt_xfrm_policy_clone mem (Some s) flt h e = Some res \<and> policy_deep_copy h s flt res"
proof -
  let ?fl = "ucast (policy_prop_flags s) AND flt :: u64"
  from t ok(1) have lab: "\<not> (policy_has s MNLXT_XFRM_POLICY_TMPLS \<and>
      bit flt MNLXT_XFRM_POLICY_TMPLS \<and> policy_tmpl_num s \<noteq> 0)"
    by (auto simp: policy_tmpls_ok_def)
  then have nw: "\<not> (?fl AND MNLXT_FLAG MNLXT_XFRM_POLICY_TMPLS \<noteq> 0 \<and> policy_tmpls s \<noteq> None \<and>
      policy_tmpl_num s \<noteq> 0)"
    by (simp add: bit_and_iff bit_ucast_iff)
  have none: "bit flt MNLXT_XFRM_POLICY_TMPLS \<Longrightarrow> policy_tmpl_list h s = []"
    using t ok(1) by (cases "policy_tmpls s") (auto simp: policy_tmpl_list_def policy_tmpls_ok_def)
  show ?thesis
  proof (cases mem)
    case True
    let ?d = "if ?fl = 0 then policy_zero else s\<lparr>policy_tmpls := None, policy_prop_flags := ucast ?fl\<rparr>"
    have "mnlxt_xfrm_policy_clone mem (Some s) flt h e = Some (Some ?d, h, e)"
      using nw True
      by (auto simp: mnlxt_xfrm_policy_clone_def Let_def mnlxt_xfrm_policy_new_def free_arr_opt_def)
    moreover have "policy_tmpls_ok h ?d \<and> policy_tmpl_list h ?d = [] \<and> policy_tmpls ?d = None"
      using lab by (auto simp: policy_tmpls_ok_def policy_tmpl_list_def policy_zero_def bit_policy_flags_filtered)
    moreover have "policy_has ?d i \<longleftrightarrow> policy_has s i \<and> bit flt i" for i
      using policy_flags_none [of "policy_prop_flags s" flt i]
      by (simp add: policy_zero_def bit_policy_flags_filtered)
    ultimately show ?thesis using none ok(2) by (simp add: policy_deep_copy_def)
  next
    case False
    then have "mnlxt_xfrm_policy_clone mem (Some s) flt h e = Some (None, h, ENOMEM)"
      using nw by (auto simp: mnlxt_xfrm_policy_clone_def Let_def mnlxt_xfrm_policy_new_def free_arr_opt_def)
    with ok(2) show ?thesis by (simp add: policy_deep_copy_def)
  qed
qed

lemma policy_clone_deep:
  assumes "policy_tmpls_ok h s" "heap_ok h"
  shows "\<exists>res. mnlxt_xfrm_policy_clone mem (Some s) flt h e = Some res \<and> policy_deep_copy h s flt res"
  using policy_clone_tmpls [OF assms] policy_clone_plain [OF assms] by blast

lemma policy_free_tmpls_ok:
  "policy_tmpls_ok h p \<Longrightarrow>
     policy_free_tmpls p h = Some (h\<lparr>arrs := (arrs h) |` (- set_option (policy_tmpls p))\<rparr>)"
  by (cases "policy_tmpls p")
    (auto simp: policy_free_tmpls_def free_arr_opt_def free_arr_def policy_tmpls_ok_def restrict_map_def
      fun_eq_iff intro!: cheap.equality)

end
