(* ===== verification/MData.thy ===== *)
theory MData
  imports CHeap
begin

text \<open>
  The message list of src/mnlxt_data.c over the heap: messages, the \<open>first\<close>/\<open>last\<close>
  linked list of \<open>mnlxt_data_t\<close>, iteration, insertion, removal and the clean-up. Function
  pointers of a handler are the names of the modules whose \<open>*_DATA\<close>, \<open>*_PUT\<close> and
  \<open>*_FREE\<close> functions the tables of rtnl.c and xfrm.c hold. \<open>data_inv h d ps\<close>: the
  data object \<open>d\<close> represents the list \<open>ps\<close> of message addresses.
\<close>

section \<open>Types (include/libmnlxt/core.h, include/libmnlxt/data.h)\<close>

datatype mnlxt_cb = RtLink | RtAddr | RtRoute | RtRule | XfrmPolicy

record mnlxt_data_cb_t =
  cb_name :: "string option"
  cb_parse :: "mnlxt_cb option"
  cb_put :: "mnlxt_cb option"
  cb_free :: "mnlxt_cb option"
  cb_flags :: u16

record mnlxt_message_t =
  msg_next :: "ptr option"
  msg_type :: u16
  msg_flags :: u16
  msg_payload :: "ptr option"
  msg_handler :: "mnlxt_data_cb_t option"

record mnlxt_data_t =
  data_first :: "ptr option"
  data_last :: "ptr option"
  data_error_str :: "string option"
  data_handlers :: "mnlxt_data_cb_t list option"
  data_nhandlers :: nat
  data_error_buf :: string

type_synonym ('t, 'p) mheap = "('t, mnlxt_message_t, 'p) cheap"

definition message_zero :: mnlxt_message_t where
  "message_zero = \<lparr>msg_next = None, msg_type = 0, msg_flags = 0, msg_payload = None,
     msg_handler = None\<rparr>"

definition data_zero :: mnlxt_data_t where
  "data_zero = \<lparr>data_first = None, data_last = None, data_error_str = None,
     data_handlers = None, data_nhandlers = 0, data_error_buf = []\<rparr>"

section \<open>Messages\<close>

definition mnlxt_message_type :: "mnlxt_message_t option \<Rightarrow> string option" where
  "mnlxt_message_type msg =
     (case msg of None \<Rightarrow> None
      | Some m \<Rightarrow> (case msg_handler m of None \<Rightarrow> None | Some cb \<Rightarrow> cb_name cb))"

definition mnlxt_message_new :: "('t, 'p) mheap \<Rightarrow> ptr option \<times> ('t, 'p) mheap" where
  "mnlxt_message_new h = new_msg message_zero h"

text \<open>
  \<open>call\<close> runs the \<open>*_FREE\<close> function that a handler names on the payload; without one
  the code frees the payload itself.
\<close>

definition free_payload ::
  "(mnlxt_cb \<Rightarrow> ptr \<Rightarrow> ('t, 'p) mheap \<Rightarrow> ('t, 'p) mheap option) \<Rightarrow>
   mnlxt_data_cb_t option \<Rightarrow> ptr \<Rightarrow> ('t, 'p) mheap \<Rightarrow> ('t, 'p) mheap option" where
  "free_payload call handler pl h =
     (case Option.bind handler cb_free of
        Some free_foo \<Rightarrow> call free_foo pl h
      | None \<Rightarrow> free_obj pl h)"

definition mnlxt_message_free ::
  "(mnlxt_cb \<Rightarrow> ptr \<Rightarrow> ('t, 'p) mheap \<Rightarrow> ('t, 'p) mheap option) \<Rightarrow>
   ptr option \<Rightarrow> ('t, 'p) mheap \<Rightarrow> ('t, 'p) mheap option" where
  "mnlxt_message_free call message h =
     (case message of None \<Rightarrow> Some h
      | Some q \<Rightarrow>
          (case msgs h q of None \<Rightarrow> None
           | Some m \<Rightarrow>
               (case msg_payload m of
                  None \<Rightarrow> free_msg q h
                | Some pl \<Rightarrow>
                    (case free_payload call (msg_handler m) pl h of
                       None \<Rightarrow> None
                     | Some h' \<Rightarrow> free_msg q h'))))"

section \<open>The linked list\<close>

text \<open>\<open>message->next\<close> and the assignment to it; through a dangling pointer they are undefined.\<close>

definition next_of :: "('t, 'p) mheap \<Rightarrow> ptr \<Rightarrow> ptr option option" where
  "next_of h q = map_option msg_next (msgs h q)"

definition set_next :: "ptr \<Rightarrow> ptr option \<Rightarrow> ('t, 'p) mheap \<Rightarrow> ('t, 'p) mheap option" where
  "set_next q nx h =
     (case msgs h q of None \<Rightarrow> None
      | Some m \<Rightarrow> Some (h\<lparr>msgs := (msgs h)(q \<mapsto> m\<lparr>msg_next := nx\<rparr>)\<rparr>))"

definition mnlxt_data_iterate ::
  "mnlxt_data_t option \<Rightarrow> ptr option \<Rightarrow> ('t, 'p) mheap \<Rightarrow> errno \<Rightarrow> (ptr option \<times> errno) option" where
  "mnlxt_data_iterate data message h e =
     (case data of None \<Rightarrow> Some (None, EINVAL)
      | Some d \<Rightarrow>
          (case message of
             Some q \<Rightarrow> map_option (\<lambda>nx. (nx, e)) (next_of h q)
           | None \<Rightarrow> Some (data_first d, e)))"

text \<open>The loop \<open>while (msg && msg->next != message) msg = msg->next\<close>.\<close>

partial_function (option) find_prev ::
  "('t, 'p) mheap \<Rightarrow> ptr option \<Rightarrow> ptr \<Rightarrow> ptr option option" where
  "find_prev h msg message =
     (case msg of None \<Rightarrow> Some None
      | Some q \<Rightarrow>
          (case next_of h q of None \<Rightarrow> None
           | Some nx \<Rightarrow> if nx = Some message then Some (Some q) else find_prev h nx message))"

text \<open>The branch of \<open>mnlxt_data_remove\<close> for the first message.\<close>

definition remove_first ::
  "mnlxt_data_t \<Rightarrow> ptr \<Rightarrow> ('t, 'p) mheap \<Rightarrow> errno \<Rightarrow>
     (ptr option \<times> mnlxt_data_t option \<times> ('t, 'p) mheap \<times> errno) option" where
  "remove_first d m h e =
     do {
       nx \<leftarrow> next_of h m;
       h' \<leftarrow> set_next m None h;
       Some (Some m,
         Some (d\<lparr>data_last := (if data_last d = Some m then None else data_last d),
                data_first := nx\<rparr>), h', e)
     }"

definition mnlxt_data_remove ::
  "mnlxt_data_t option \<Rightarrow> ptr option \<Rightarrow> ('t, 'p) mheap \<Rightarrow> errno \<Rightarrow>
     (ptr option \<times> mnlxt_data_t option \<times> ('t, 'p) mheap \<times> errno) option" where
  "mnlxt_data_remove data message h e =
     (case data of None \<Rightarrow> Some (None, None, h, EINVAL)
      | Some d \<Rightarrow>
          (case message of
             Some m \<Rightarrow>
               if data_first d \<noteq> Some m then
                 do {
                   prev \<leftarrow> find_prev h (data_first d) m;
                   (case prev of
                      None \<Rightarrow> Some (None, Some d, h, e)
                    | Some q \<Rightarrow>
                        do {
                          nx \<leftarrow> next_of h m;
                          h1 \<leftarrow> set_next q nx h;
                          h2 \<leftarrow> set_next m None h1;
                          Some (Some m,
                            Some (if data_last d = Some m then d\<lparr>data_last := Some q\<rparr> else d), h2, e)
                        })
                 }
               else remove_first d m h e
           | None \<Rightarrow>
               (case data_first d of
                  None \<Rightarrow> Some (None, Some d, h, e)
                | Some m \<Rightarrow> remove_first d m h e)))"

definition mnlxt_data_add ::
  "mnlxt_data_t option \<Rightarrow> ptr option \<Rightarrow> ('t, 'p) mheap \<Rightarrow> errno \<Rightarrow>
     (mnlxt_data_t option \<times> ('t, 'p) mheap \<times> errno) option" where
  "mnlxt_data_add data message h e =
     (case (data, message) of
        (Some d, Some m) \<Rightarrow>
          do {
            (d1, h1) \<leftarrow> (case data_last d of
                Some q \<Rightarrow> map_option (\<lambda>h'. (d, h')) (set_next q (Some m) h)
              | None \<Rightarrow> Some (d\<lparr>data_first := Some m\<rparr>, h));
            h2 \<leftarrow> set_next m None h1;
            Some (Some (d1\<lparr>data_last := Some m\<rparr>), h2, e)
          }
      | _ \<Rightarrow> Some (data, h, EINVAL))"

text \<open>
  The loop of \<open>mnlxt_data_clean\<close>: remove and free the first message until none is left.
\<close>

partial_function (option) clean_loop ::
  "(mnlxt_cb \<Rightarrow> ptr \<Rightarrow> ('t, 'p) mheap \<Rightarrow> ('t, 'p) mheap option) \<Rightarrow>
   mnlxt_data_t option \<Rightarrow> ('t, 'p) mheap \<Rightarrow> errno \<Rightarrow> (('t, 'p) mheap \<times> errno) option" where
  "clean_loop call data h e =
     Option.bind (mnlxt_data_remove data None h e) (\<lambda>(msg, data', h', e').
       case msg of None \<Rightarrow> Some (h', e')
       | Some m \<Rightarrow> Option.bind (mnlxt_message_free call (Some m) h') (\<lambda>h''.
           clean_loop call data' h'' e'))"

definition mnlxt_data_clean ::
  "(mnlxt_cb \<Rightarrow> ptr \<Rightarrow> ('t, 'p) mheap \<Rightarrow> ('t, 'p) mheap option) \<Rightarrow>
   mnlxt_data_t option \<Rightarrow> ('t, 'p) mheap \<Rightarrow> errno \<Rightarrow>
   (mnlxt_data_t option \<times> ('t, 'p) mheap \<times> errno) option" where
  "mnlxt_data_clean call data h e =
     (case data of None \<Rightarrow> Some (None, h, e)
      | Some d \<Rightarrow> map_option (\<lambda>(h', e'). (Some data_zero, h', e')) (clean_loop call (Some d) h e))"

section \<open>The list that a data object represents\<close>

fun chain :: "(ptr \<rightharpoonup> mnlxt_message_t) \<Rightarrow> ptr option \<Rightarrow> ptr list \<Rightarrow> bool" where
  "chain ms p [] \<longleftrightarrow> p = None"
| "chain ms p (q # qs) \<longleftrightarrow>
     p = Some q \<and> q \<notin> set qs \<and> (\<exists>m. ms q = Some m \<and> chain ms (msg_next m) qs)"

definition data_inv :: "('t, 'p) mheap \<Rightarrow> mnlxt_data_t \<Rightarrow> ptr list \<Rightarrow> bool" where
  "data_inv h d ps \<longleftrightarrow>
     chain (msgs h) (data_first d) ps \<and> data_last d = (if ps = [] then None else Some (last ps))"

text \<open>Two heaps that differ in \<open>next\<close> fields only.\<close>

definition same_but_next :: "('t, 'p) mheap \<Rightarrow> ('t, 'p) mheap \<Rightarrow> bool" where
  "same_but_next h h' \<longleftrightarrow>
     (\<exists>ms. h' = h\<lparr>msgs := ms\<rparr> \<and>
       (\<forall>q. map_option (\<lambda>m. m\<lparr>msg_next := None\<rparr>) (ms q) =
            map_option (\<lambda>m. m\<lparr>msg_next := None\<rparr>) (msgs h q)))"

lemma chain_distinct: "chain ms p qs \<Longrightarrow> distinct qs"
  by (induction qs arbitrary: p) auto

lemma chain_dom: "chain ms p qs \<Longrightarrow> set qs \<subseteq> dom ms"
  by (induction qs arbitrary: p) auto

lemma chain_frame: "(\<And>q. q \<in> set qs \<Longrightarrow> ms' q = ms q) \<Longrightarrow> chain ms' p qs = chain ms p qs"
  by (induction qs arbitrary: p) auto

lemma chain_upd [simp]: "q \<notin> set qs \<Longrightarrow> chain (ms(q := x)) p qs = chain ms p qs"
  by (rule chain_frame) auto

lemma chain_unique: "chain ms p qs \<Longrightarrow> chain ms p rs \<Longrightarrow> qs = rs"
proof (induction qs arbitrary: p rs)
  case Nil
  then show ?case by (cases rs) auto
next
  case (Cons q qs)
  then show ?case by (cases rs) auto
qed

lemma chain_append:
  assumes "chain ms p qs" "ms n = Some m" "msg_next m = None" "n \<notin> set qs" "qs \<noteq> []"
  shows "chain (ms(last qs := Some ((the (ms (last qs)))\<lparr>msg_next := Some n\<rparr>))) p (qs @ [n])"
  using assms
proof (induction qs arbitrary: p)
  case Nil
  then show ?case by simp
next
  case (Cons q qs)
  show ?case
  proof (cases "qs = []")
    case True
    with Cons.prems show ?thesis by auto
  next
    case False
    with Cons.prems(1) have "q \<noteq> last qs" by auto
    moreover from Cons.prems obtain mq where mq: "ms q = Some mq" "chain ms (msg_next mq) qs" by auto
    ultimately show ?thesis using Cons False by auto
  qed
qed

lemma chain_remove:
  assumes "chain ms p (xs @ [q, m] @ ys)" "ms q = Some mq" "ms m = Some mm"
  shows "chain (ms(q \<mapsto> mq\<lparr>msg_next := msg_next mm\<rparr>, m \<mapsto> mm\<lparr>msg_next := None\<rparr>)) p (xs @ [q] @ ys)"
  using assms by (induction xs arbitrary: p) auto

lemma find_prev_chain:
  "chain (msgs h) p qs \<Longrightarrow>
     find_prev h p m = Some (if m \<in> set (tl qs) then Some (last (takeWhile (\<lambda>x. x \<noteq> m) qs)) else None)"
proof (induction qs arbitrary: p)
  case Nil
  then show ?case by (simp add: find_prev.simps)
next
  case (Cons q qs)
  then obtain mq where mq: "p = Some q" "msgs h q = Some mq" "chain (msgs h) (msg_next mq) qs"
    and q: "q \<notin> set qs"
    by auto
  note IH = Cons.IH [OF mq(3)]
  show ?case
  proof (cases qs)
    case Nil
    with mq show ?thesis by (simp add: find_prev.simps next_of_def)
  next
    case (Cons r rs)
    with mq IH q show ?thesis
      by (subst find_prev.simps) (auto simp: next_of_def)
  qed
qed

section \<open>Insertion, removal and iteration refine the list operations\<close>

lemma same_but_next_refl [simp]: "same_but_next h h"
  unfolding same_but_next_def by (rule exI [of _ "msgs h"]) simp

lemma same_but_next_trans: "same_but_next h h' \<Longrightarrow> same_but_next h' h'' \<Longrightarrow> same_but_next h h''"
  by (force simp: same_but_next_def)

lemma same_but_next_dom: "same_but_next h h' \<Longrightarrow> dom (msgs h') = dom (msgs h)"
  unfolding same_but_next_def by (auto simp: dom_def) (metis option.map_disc_iff not_Some_eq)+

lemma same_but_next_msg:
  assumes "same_but_next h h'" "msgs h q = Some m"
  shows "\<exists>nx. msgs h' q = Some (m\<lparr>msg_next := nx\<rparr>)"
proof -
  from assms(1) have "map_option (\<lambda>m. m\<lparr>msg_next := None\<rparr>) (msgs h' q) =
      map_option (\<lambda>m. m\<lparr>msg_next := None\<rparr>) (msgs h q)"
    by (auto simp: same_but_next_def)
  with assms(2) obtain m' where m': "msgs h' q = Some m'"
      "m'\<lparr>msg_next := None\<rparr> = m\<lparr>msg_next := None\<rparr>"
    by (cases "msgs h' q") auto
  from m'(2) have "m' = m\<lparr>msg_next := msg_next m'\<rparr>"
    by (cases m, cases m') simp
  with m'(1) show ?thesis by metis
qed

lemma set_next_same: "set_next q nx h = Some h' \<Longrightarrow> same_but_next h h'"
  unfolding set_next_def same_but_next_def by (auto split: option.splits)

definition same_but_links :: "mnlxt_data_t \<Rightarrow> mnlxt_data_t \<Rightarrow> bool" where
  "same_but_links d d' \<longleftrightarrow> d'\<lparr>data_first := data_first d, data_last := data_last d\<rparr> = d"

lemma data_inv_dom: "data_inv h d ps \<Longrightarrow> set ps \<subseteq> dom (msgs h)"
  by (auto simp: data_inv_def dest: chain_dom)

lemma data_inv_distinct: "data_inv h d ps \<Longrightarrow> distinct ps"
  by (auto simp: data_inv_def dest: chain_distinct)

lemma add_refines:
  assumes inv: "data_inv h d ps" and new: "n \<notin> set ps" "n \<in> dom (msgs h)"
  shows "\<exists>d' h'. mnlxt_data_add (Some d) (Some n) h e = Some (Some d', h', e) \<and>
    data_inv h' d' (ps @ [n]) \<and> same_but_next h h' \<and> same_but_links d d'"
proof -
  from new obtain m where m: "msgs h n = Some m" by auto
  let ?m = "m\<lparr>msg_next := None\<rparr>"
  show ?thesis
  proof (cases "ps = []")
    case True
    with inv m have "mnlxt_data_add (Some d) (Some n) h e =
        Some (Some (d\<lparr>data_first := Some n, data_last := Some n\<rparr>), h\<lparr>msgs := (msgs h)(n \<mapsto> ?m)\<rparr>, e)"
      by (simp add: mnlxt_data_add_def data_inv_def set_next_def)
    with True m show ?thesis
      by (auto simp: data_inv_def same_but_links_def intro: set_next_same [of n None] simp: set_next_def)
  next
    case False
    let ?q = "last ps"
    from inv False obtain mq where mq: "msgs h ?q = Some mq"
      using data_inv_dom [OF inv] last_in_set [OF False] by blast
    from False new(1) have ne: "?q \<noteq> n" using last_in_set by metis
    let ?ms = "(msgs h)(?q \<mapsto> mq\<lparr>msg_next := Some n\<rparr>, n \<mapsto> ?m)"
    have eq: "mnlxt_data_add (Some d) (Some n) h e =
        Some (Some (d\<lparr>data_last := Some n\<rparr>), h\<lparr>msgs := ?ms\<rparr>, e)"
      using inv False m mq ne by (simp add: mnlxt_data_add_def data_inv_def set_next_def)
    have "chain ((msgs h)(n \<mapsto> ?m)) (data_first d) ps"
      using inv new by (simp add: data_inv_def)
    from chain_append [OF this, of n ?m] new(1) False mq ne
    have ch: "chain ?ms (data_first d) (ps @ [n])"
      by (simp add: fun_upd_twist)
    have "same_but_next h (h\<lparr>msgs := ?ms\<rparr>)"
      using m mq ne by (auto simp: same_but_next_def)
    with eq ch show ?thesis
      by (auto simp: data_inv_def same_but_links_def)
  qed
qed

lemma remove_first_refines:
  assumes inv: "data_inv h d (p # ps)"
  shows "\<exists>d' h'. remove_first d p h e = Some (Some p, Some d', h', e) \<and>
    data_inv h' d' ps \<and> same_but_next h h' \<and> same_but_links d d' \<and> next_of h' p = Some None"
proof -
  from inv obtain m where m: "msgs h p = Some m" "chain (msgs h) (msg_next m) ps" "p \<notin> set ps"
    by (auto simp: data_inv_def)
  let ?d = "d\<lparr>data_last := (if data_last d = Some p then None else data_last d),
      data_first := msg_next m\<rparr>"
  let ?h = "h\<lparr>msgs := (msgs h)(p \<mapsto> m\<lparr>msg_next := None\<rparr>)\<rparr>"
  have "remove_first d p h e = Some (Some p, Some ?d, ?h, e)"
    using m by (simp add: remove_first_def next_of_def set_next_def)
  moreover have "ps \<noteq> [] \<Longrightarrow> last ps \<noteq> p" using m(3) last_in_set by metis
  with inv m have "data_inv ?h ?d ps" by (auto simp: data_inv_def)
  moreover have "same_but_next h ?h" using m by (auto simp: same_but_next_def)
  ultimately show ?thesis using m(1) by (auto simp: same_but_links_def next_of_def)
qed

lemma remove_null_refines:
  assumes "data_inv h d ps"
  shows "case ps of
      [] \<Rightarrow> mnlxt_data_remove (Some d) None h e = Some (None, Some d, h, e)
    | p # qs \<Rightarrow> (\<exists>d' h'. mnlxt_data_remove (Some d) None h e = Some (Some p, Some d', h', e) \<and>
        data_inv h' d' qs \<and> same_but_next h h' \<and> same_but_links d d' \<and> next_of h' p = Some None)"
proof (cases ps)
  case Nil
  with assms show ?thesis by (simp add: mnlxt_data_remove_def data_inv_def)
next
  case (Cons p qs)
  with assms have "data_first d = Some p" by (simp add: data_inv_def)
  with remove_first_refines [of h d p qs e] assms Cons show ?thesis
    by (simp add: mnlxt_data_remove_def)
qed

lemma remove_member_refines:
  assumes inv: "data_inv h d ps" and mem: "m \<in> set ps"
  shows "\<exists>d' h'. mnlxt_data_remove (Some d) (Some m) h e = Some (Some m, Some d', h', e) \<and>
    data_inv h' d' (remove1 m ps) \<and> same_but_next h h' \<and> same_but_links d d' \<and>
    next_of h' m = Some None"
proof (cases "data_first d = Some m")
  case True
  with inv mem obtain qs where ps: "ps = m # qs" by (cases ps) (auto simp: data_inv_def)
  with True remove_first_refines [of h d m qs e] inv show ?thesis
    by (simp add: mnlxt_data_remove_def)
next
  case False
  from inv have dist: "distinct ps" by (rule data_inv_distinct)
  from mem obtain us ys where us: "ps = us @ m # ys" "m \<notin> set us" by (meson split_list_first)
  with False inv have "us \<noteq> []" by (auto simp: data_inv_def)
  then obtain xs q where xs: "us = xs @ [q]" by (metis append_butlast_last_id)
  with us have ps: "ps = xs @ [q, m] @ ys" by simp
  with dist have qm: "q \<noteq> m" "m \<notin> set xs" "m \<notin> set ys" "q \<notin> set ys" by auto
  from ps inv obtain mq mm where mq: "msgs h q = Some mq" and mm: "msgs h m = Some mm"
    using data_inv_dom [OF inv] by fastforce
  have fp: "find_prev h (data_first d) m = Some (Some q)"
  proof -
    from inv have "chain (msgs h) (data_first d) ps" by (simp add: data_inv_def)
    note f = find_prev_chain [OF this, of m]
    have tw: "takeWhile (\<lambda>x. x \<noteq> m) (xs @ q # m # ys) = xs @ [q]"
      using qm by (subst takeWhile_append2) auto
    have "m \<in> set (tl ps)" by (cases xs) (simp_all add: ps)
    with f tw show ?thesis by (simp add: ps)
  qed
  let ?ms = "(msgs h)(q \<mapsto> mq\<lparr>msg_next := msg_next mm\<rparr>, m \<mapsto> mm\<lparr>msg_next := None\<rparr>)"
  let ?d = "if data_last d = Some m then d\<lparr>data_last := Some q\<rparr> else d"
  have eq: "mnlxt_data_remove (Some d) (Some m) h e = Some (Some m, Some ?d, h\<lparr>msgs := ?ms\<rparr>, e)"
    using False fp mq mm qm by (simp add: mnlxt_data_remove_def next_of_def set_next_def)
  have r: "remove1 m ps = xs @ [q] @ ys" using qm by (simp add: ps remove1_append)
  have "chain ?ms (data_first d) (remove1 m ps)"
    unfolding r using inv mq mm by (intro chain_remove) (simp_all add: data_inv_def ps)
  moreover have "data_last ?d = Some (last (xs @ [q] @ ys))"
    using inv qm by (cases ys rule: rev_cases) (auto simp: data_inv_def ps)
  ultimately have "data_inv (h\<lparr>msgs := ?ms\<rparr>) ?d (remove1 m ps)"
    by (simp add: data_inv_def r)
  moreover have "same_but_next h (h\<lparr>msgs := ?ms\<rparr>)" using mq mm qm by (auto simp: same_but_next_def)
  ultimately show ?thesis unfolding eq by (auto simp: same_but_links_def next_of_def)
qed

lemma remove_nonmember_refines:
  assumes inv: "data_inv h d ps" and mem: "m \<notin> set ps"
  shows "mnlxt_data_remove (Some d) (Some m) h e = Some (None, Some d, h, e)"
proof -
  from inv have ch: "chain (msgs h) (data_first d) ps" by (simp add: data_inv_def)
  from ch mem have "data_first d \<noteq> Some m" by (cases ps) auto
  moreover have "m \<notin> set (tl ps)" using mem by (cases ps) auto
  ultimately show ?thesis
    using find_prev_chain [OF ch, of m] by (simp add: mnlxt_data_remove_def)
qed

lemma iterate_first:
  "data_inv h d ps \<Longrightarrow>
     mnlxt_data_iterate (Some d) None h e = Some (if ps = [] then None else Some (hd ps), e)"
  by (cases ps) (auto simp: mnlxt_data_iterate_def data_inv_def)

lemma chain_next:
  "chain ms p (xs @ q # ys) \<Longrightarrow>
     \<exists>m. ms q = Some m \<and> msg_next m = (if ys = [] then None else Some (hd ys))"
proof (induction xs arbitrary: p)
  case Nil
  then show ?case by (cases ys) auto
next
  case (Cons x xs)
  then show ?case by auto
qed

lemma iterate_next:
  assumes "data_inv h d (xs @ q # ys)"
  shows "mnlxt_data_iterate (Some d) (Some q) h e =
    Some (if ys = [] then None else Some (hd ys), e)"
  using assms chain_next [of "msgs h" "data_first d" xs q ys]
  by (auto simp: mnlxt_data_iterate_def data_inv_def next_of_def)

section \<open>The iteration loop of the object modules\<close>

text \<open>
  \<^verbatim>\<open>while ((*iterator = mnlxt_data_iterate(data, *iterator))) if ((x = get(*iterator))) break;\<close>
  as each \<open>*_iterate\<close> function runs it with its own \<open>get\<close>.
\<close>

partial_function (option) iterate_loop ::
  "(mnlxt_message_t \<Rightarrow> ptr option) \<Rightarrow> mnlxt_data_t option \<Rightarrow> ptr option \<Rightarrow> ('t, 'p) mheap \<Rightarrow> errno \<Rightarrow>
   (ptr option \<times> ptr option \<times> errno) option" where
  "iterate_loop get data it h e =
     Option.bind (mnlxt_data_iterate data it h e) (\<lambda>(it', e').
       case it' of None \<Rightarrow> Some (None, None, e')
       | Some q \<Rightarrow>
           (case msgs h q of None \<Rightarrow> None
            | Some m \<Rightarrow>
                (case get m of Some pl \<Rightarrow> Some (Some pl, Some q, e')
                 | None \<Rightarrow> iterate_loop get data (Some q) h e')))"

text \<open>The result that the loop computes: the first message after the iterator with a payload of the kind.\<close>

definition first_with :: "(mnlxt_message_t \<Rightarrow> ptr option) \<Rightarrow> ('t, 'p) mheap \<Rightarrow> ptr list \<Rightarrow> ptr option \<times> ptr option" where
  "first_with get h qs =
     (case dropWhile (\<lambda>q. Option.bind (msgs h q) get = None) qs of
        [] \<Rightarrow> (None, None)
      | q # _ \<Rightarrow> (Option.bind (msgs h q) get, Some q))"

lemma iterate_loop_first_with:
  assumes "data_inv h d (xs @ ys)"
  shows "iterate_loop get (Some d) (if xs = [] then None else Some (last xs)) h e =
    (case first_with get h ys of (pl, it) \<Rightarrow> Some (pl, it, e))"
  using assms
proof (induction ys arbitrary: xs)
  case Nil
  show ?case
  proof (cases xs rule: rev_cases)
    case Nil
    with \<open>data_inv h d (xs @ [])\<close> show ?thesis
      by (subst iterate_loop.simps) (simp add: iterate_first first_with_def)
  next
    case (snoc us q)
    with \<open>data_inv h d (xs @ [])\<close> iterate_next [of h d us q "[]"] show ?thesis
      by (subst iterate_loop.simps) (simp add: first_with_def)
  qed
next
  case (Cons q ys)
  have it: "mnlxt_data_iterate (Some d) (if xs = [] then None else Some (last xs)) h e = Some (Some q, e)"
  proof (cases xs rule: rev_cases)
    case Nil
    with Cons.prems show ?thesis by (simp add: iterate_first)
  next
    case (snoc us p)
    with Cons.prems iterate_next [of h d us p "q # ys"] show ?thesis by simp
  qed
  from Cons.prems have "q \<in> dom (msgs h)" using data_inv_dom by fastforce
  then obtain m where m: "msgs h q = Some m" by blast
  from Cons.IH [of "xs @ [q]"] Cons.prems
  have IH: "iterate_loop get (Some d) (Some q) h e =
      (case first_with get h ys of (pl, it) \<Rightarrow> Some (pl, it, e))"
    by simp
  show ?case
    by (subst iterate_loop.simps) (simp add: it m IH first_with_def split: option.splits)
qed

section \<open>First in, first out: an interface of the message list\<close>

text \<open>
  What a client of the list relies on: \<open>push\<close> appends, \<open>pop\<close> takes the first element, and
  neither changes which addresses are allocated.
\<close>

fun push_all :: "(ptr \<Rightarrow> 's \<Rightarrow> 's option) \<Rightarrow> ptr list \<Rightarrow> 's \<Rightarrow> 's option" where
  "push_all push [] s = Some s"
| "push_all push (n # ns) s = Option.bind (push n s) (push_all push ns)"

fun pop_many :: "('s \<Rightarrow> (ptr option \<times> 's) option) \<Rightarrow> nat \<Rightarrow> 's \<Rightarrow> (ptr option list \<times> 's) option" where
  "pop_many pop 0 s = Some ([], s)"
| "pop_many pop (Suc n) s =
     Option.bind (pop s) (\<lambda>(p, s'). map_option (\<lambda>(ps, t). (p # ps, t)) (pop_many pop n s'))"

locale fifo =
  fixes rep :: "'s \<Rightarrow> ptr list \<Rightarrow> bool"
    and live :: "'s \<Rightarrow> ptr set"
    and push :: "ptr \<Rightarrow> 's \<Rightarrow> 's option"
    and pop :: "'s \<Rightarrow> (ptr option \<times> 's) option"
  assumes push: "rep s ps \<Longrightarrow> n \<in> live s \<Longrightarrow> n \<notin> set ps \<Longrightarrow>
      \<exists>s'. push n s = Some s' \<and> rep s' (ps @ [n]) \<and> live s' = live s"
    and pop_empty: "rep s [] \<Longrightarrow> pop s = Some (None, s)"
    and pop_first: "rep s (p # ps) \<Longrightarrow> \<exists>s'. pop s = Some (Some p, s') \<and> rep s' ps \<and> live s' = live s"
begin

lemma push_all_rep:
  "rep s ps \<Longrightarrow> set ns \<subseteq> live s \<Longrightarrow> distinct (ps @ ns) \<Longrightarrow>
     \<exists>s'. push_all push ns s = Some s' \<and> rep s' (ps @ ns) \<and> live s' = live s"
proof (induction ns arbitrary: s ps)
  case Nil
  then show ?case by auto
next
  case (Cons n ns)
  then obtain s1 where s1: "push n s = Some s1" "rep s1 (ps @ [n])" "live s1 = live s"
    using push [of s ps n] by auto
  with Cons.IH [of s1 "ps @ [n]"] Cons.prems show ?case by auto
qed

lemma pop_many_rep:
  "rep s ps \<Longrightarrow> k \<le> length ps \<Longrightarrow>
     \<exists>s'. pop_many pop k s = Some (map Some (take k ps), s') \<and> rep s' (drop k ps)"
proof (induction k arbitrary: s ps)
  case 0
  then show ?case by auto
next
  case (Suc k)
  then obtain p qs where ps: "ps = p # qs" by (cases ps) auto
  with Suc.prems obtain s1 where "pop s = Some (Some p, s1)" "rep s1 qs"
    using pop_first by blast
  with Suc.IH [of s1 qs] Suc.prems ps show ?case by auto
qed

lemma drain_after_push:
  assumes "rep s []" "set ns \<subseteq> live s" "distinct ns"
  shows "\<exists>s1 s2. push_all push ns s = Some s1 \<and>
    pop_many pop (length ns) s1 = Some (map Some ns, s2) \<and> rep s2 [] \<and> pop s2 = Some (None, s2)"
proof -
  obtain s1 where s1: "push_all push ns s = Some s1" "rep s1 ns"
    using push_all_rep [OF assms(1,2)] assms(3) by auto
  from pop_many_rep [OF s1(2), of "length ns"] obtain s2 where
      "pop_many pop (length ns) s1 = Some (map Some ns, s2)" "rep s2 []" by auto
  with s1(1) pop_empty show ?thesis by blast
qed

end

text \<open>The code's list: a state is the data object and the heap.\<close>

definition list_push ::
  "ptr \<Rightarrow> mnlxt_data_t \<times> ('t, 'p) mheap \<Rightarrow> (mnlxt_data_t \<times> ('t, 'p) mheap) option" where
  "list_push n s =
     map_option (\<lambda>(d, h, e). (the d, h)) (mnlxt_data_add (Some (fst s)) (Some n) (snd s) 0)"

definition list_pop ::
  "mnlxt_data_t \<times> ('t, 'p) mheap \<Rightarrow> (ptr option \<times> mnlxt_data_t \<times> ('t, 'p) mheap) option" where
  "list_pop s =
     map_option (\<lambda>(m, d, h, e). (m, the d, h)) (mnlxt_data_remove (Some (fst s)) None (snd s) 0)"

interpretation msg_fifo: fifo
  "\<lambda>(d, h :: ('t, 'p) mheap). data_inv h d" "\<lambda>(d, h). dom (msgs h)" list_push list_pop
proof (unfold_locales, goal_cases)
  case (1 s ps n)
  then obtain d h where s: "s = (d, h)" "data_inv h d ps" "n \<in> dom (msgs h)" "n \<notin> set ps"
    by (cases s) auto
  from add_refines [OF s(2) s(4) s(3), of 0] obtain d' h' where
    "mnlxt_data_add (Some d) (Some n) h 0 = Some (Some d', h', 0)" "data_inv h' d' (ps @ [n])"
    "same_but_next h h'" by blast
  then show ?case using same_but_next_dom by (fastforce simp: s(1) list_push_def)
next
  case (2 s)
  then show ?case using remove_null_refines [of "snd s" "fst s" "[]" 0]
    by (cases s) (simp add: list_pop_def)
next
  case (3 s p ps)
  then obtain d h where s: "s = (d, h)" "data_inv h d (p # ps)" by (cases s) auto
  from remove_null_refines [OF s(2), of 0] obtain d' h' where
    "mnlxt_data_remove (Some d) None h 0 = Some (Some p, Some d', h', 0)" "data_inv h' d' ps"
    "same_but_next h h'" by auto
  then show ?case using same_but_next_dom by (fastforce simp: s(1) list_pop_def)
qed

section \<open>Freeing the payloads: an interface of the object modules\<close>

text \<open>
  \<open>owned h xs\<close>: the payloads \<open>xs\<close>, each with the handler of its message, can be freed
  one after the other; the modules' \<open>*_FREE\<close> functions provide it. \<open>parts x\<close> are the
  addresses of the strings and arrays that go with the payload \<open>x\<close>.
\<close>

locale payload_owner =
  fixes call :: "mnlxt_cb \<Rightarrow> ptr \<Rightarrow> ('t, 'p) mheap \<Rightarrow> ('t, 'p) mheap option"
    and owned :: "('t, 'p) mheap \<Rightarrow> (mnlxt_data_cb_t option \<times> ptr) list \<Rightarrow> bool"
    and parts :: "'p \<Rightarrow> ptr set"
  assumes free: "owned h ((cb, pl) # xs) \<Longrightarrow>
      \<exists>h' x. free_payload call cb pl h = Some h' \<and> msgs h' = msgs h \<and> objs h pl = Some x \<and>
        objs h' = (objs h)(pl := None) \<and> strs h' = (strs h) |` (- parts x) \<and>
        arrs h' = (arrs h) |` (- parts x) \<and> owned h' xs"
    and distinct: "owned h xs \<Longrightarrow> distinct (map snd xs)"
    and no_msgs: "owned h xs \<Longrightarrow> owned (h\<lparr>msgs := ms\<rparr>) xs"

text \<open>All that belongs to a list of payloads.\<close>

definition all_parts :: "('p \<Rightarrow> ptr set) \<Rightarrow> (ptr \<rightharpoonup> 'p) \<Rightarrow> ptr set \<Rightarrow> ptr set" where
  "all_parts parts ob qs = (\<Union>q \<in> qs. \<Union>x \<in> set_option (ob q). parts x)"

lemma all_parts_upd [simp]: "q \<notin> qs \<Longrightarrow> all_parts parts (ob(q := z)) qs = all_parts parts ob qs"
  unfolding all_parts_def by (rule SUP_cong) auto

lemma all_parts_insert: "all_parts parts ob (insert q qs) = (\<Union>x \<in> set_option (ob q). parts x) \<union> all_parts parts ob qs"
  by (auto simp: all_parts_def)

fun payloads :: "(ptr \<rightharpoonup> mnlxt_message_t) \<Rightarrow> ptr list \<Rightarrow> (mnlxt_data_cb_t option \<times> ptr) list" where
  "payloads ms [] = []"
| "payloads ms (q # qs) =
     (case ms q of None \<Rightarrow> payloads ms qs
      | Some m \<Rightarrow>
          (case msg_payload m of None \<Rightarrow> payloads ms qs
           | Some pl \<Rightarrow> (msg_handler m, pl) # payloads ms qs))"

lemma payloads_upd [simp]: "q \<notin> set qs \<Longrightarrow> payloads (ms(q := x)) qs = payloads ms qs"
  by (induction qs) (auto split: option.splits)

lemma remove_null_exact:
  assumes "data_inv h d (p # ps)"
  shows "\<exists>m d'. msgs h p = Some m \<and> p \<notin> set ps \<and>
    mnlxt_data_remove (Some d) None h e =
      Some (Some p, Some d', h\<lparr>msgs := (msgs h)(p \<mapsto> m\<lparr>msg_next := None\<rparr>)\<rparr>, e) \<and>
    data_inv (h\<lparr>msgs := (msgs h)(p \<mapsto> m\<lparr>msg_next := None\<rparr>)\<rparr>) d' ps"
proof -
  from assms obtain m where m: "msgs h p = Some m" "p \<notin> set ps" by (auto simp: data_inv_def)
  from remove_first_refines [OF assms, of e] obtain d' h' where r:
    "remove_first d p h e = Some (Some p, Some d', h', e)" "data_inv h' d' ps" by blast
  moreover from r(1) m have "h' = h\<lparr>msgs := (msgs h)(p \<mapsto> m\<lparr>msg_next := None\<rparr>)\<rparr>"
    by (simp add: remove_first_def next_of_def set_next_def)
  moreover from assms have "data_first d = Some p" by (simp add: data_inv_def)
  ultimately show ?thesis using m by (simp add: mnlxt_data_remove_def)
qed

context payload_owner
begin

text \<open>One message that has been taken out of the list, and what it owns.\<close>

lemma message_free_owned:
  assumes m: "msgs h p = Some m" and own: "owned h (payloads (msgs h) (p # ps))" and p: "p \<notin> set ps"
  obtains h2 where "mnlxt_message_free call (Some p) (h\<lparr>msgs := (msgs h)(p \<mapsto> m\<lparr>msg_next := None\<rparr>)\<rparr>) = Some h2"
    "msgs h2 = (msgs h)(p := None)" "owned h2 (payloads (msgs h) ps)"
    "objs h2 = (case msg_payload m of None \<Rightarrow> objs h | Some pl \<Rightarrow> (objs h)(pl := None))"
    "strs h2 = (case msg_payload m of None \<Rightarrow> strs h
      | Some pl \<Rightarrow> (strs h) |` (- (\<Union>x \<in> set_option (objs h pl). parts x)))"
    "arrs h2 = (case msg_payload m of None \<Rightarrow> arrs h
      | Some pl \<Rightarrow> (arrs h) |` (- (\<Union>x \<in> set_option (objs h pl). parts x)))"
proof (cases "msg_payload m")
  case None
  let ?h1 = "h\<lparr>msgs := (msgs h)(p \<mapsto> m\<lparr>msg_next := None\<rparr>)\<rparr>"
  let ?h2 = "?h1\<lparr>msgs := (msgs h)(p := None)\<rparr>"
  have "mnlxt_message_free call (Some p) ?h1 = Some ?h2"
    using None by (simp add: mnlxt_message_free_def free_msg_def)
  moreover have "owned ?h2 (payloads (msgs h) ps)"
    using own m None no_msgs [of h "payloads (msgs h) ps" "(msgs h)(p := None)"] by simp
  ultimately show thesis using that [of ?h2] None by simp
next
  case (Some pl)
  let ?h1 = "h\<lparr>msgs := (msgs h)(p \<mapsto> m\<lparr>msg_next := None\<rparr>)\<rparr>"
  from own m Some have "owned h ((msg_handler m, pl) # payloads (msgs h) ps)" by simp
  from free [OF no_msgs [OF this, of "msgs ?h1"]] obtain h' x where h':
    "free_payload call (msg_handler m) pl ?h1 = Some h'" "msgs h' = msgs ?h1"
    "objs h pl = Some x" "objs h' = (objs h)(pl := None)" "strs h' = (strs h) |` (- parts x)"
    "arrs h' = (arrs h) |` (- parts x)" "owned h' (payloads (msgs h) ps)" by auto
  let ?h2 = "h'\<lparr>msgs := (msgs h)(p := None)\<rparr>"
  have "mnlxt_message_free call (Some p) ?h1 = Some ?h2"
    using Some h' by (simp add: mnlxt_message_free_def free_msg_def)
  moreover have "owned ?h2 (payloads (msgs h) ps)" using h'(7) by (rule no_msgs)
  ultimately show thesis using that [of ?h2] Some h' by simp
qed

lemma clean_loop_frees:
  "data_inv h d ps \<Longrightarrow> owned h (payloads (msgs h) ps) \<Longrightarrow>
     \<exists>h'. clean_loop call (Some d) h e = Some (h', e) \<and>
       msgs h' = (msgs h) |` (- set ps) \<and>
       objs h' = (objs h) |` (- snd ` set (payloads (msgs h) ps)) \<and>
       strs h' = (strs h) |` (- all_parts parts (objs h) (snd ` set (payloads (msgs h) ps))) \<and>
       arrs h' = (arrs h) |` (- all_parts parts (objs h) (snd ` set (payloads (msgs h) ps)))"
proof (induction ps arbitrary: h d)
  case Nil
  then show ?case
    using remove_null_refines [of h d "[]" e]
    by (subst clean_loop.simps) (simp add: restrict_map_def all_parts_def)
next
  case (Cons p ps)
  obtain m d' where r: "msgs h p = Some m" "p \<notin> set ps"
    "mnlxt_data_remove (Some d) None h e =
      Some (Some p, Some d', h\<lparr>msgs := (msgs h)(p \<mapsto> m\<lparr>msg_next := None\<rparr>)\<rparr>, e)"
    "data_inv (h\<lparr>msgs := (msgs h)(p \<mapsto> m\<lparr>msg_next := None\<rparr>)\<rparr>) d' ps"
    using remove_null_exact [OF Cons.prems(1)] by blast
  from r(1) Cons.prems(2) r(2) obtain h2 where h2:
    "mnlxt_message_free call (Some p) (h\<lparr>msgs := (msgs h)(p \<mapsto> m\<lparr>msg_next := None\<rparr>)\<rparr>) = Some h2"
    "msgs h2 = (msgs h)(p := None)" "owned h2 (payloads (msgs h) ps)"
    "objs h2 = (case msg_payload m of None \<Rightarrow> objs h | Some pl \<Rightarrow> (objs h)(pl := None))"
    "strs h2 = (case msg_payload m of None \<Rightarrow> strs h
      | Some pl \<Rightarrow> (strs h) |` (- (\<Union>x \<in> set_option (objs h pl). parts x)))"
    "arrs h2 = (case msg_payload m of None \<Rightarrow> arrs h
      | Some pl \<Rightarrow> (arrs h) |` (- (\<Union>x \<in> set_option (objs h pl). parts x)))" by (rule message_free_owned)
  have inv2: "data_inv h2 d' ps" using r(2,4) h2(2) by (simp add: data_inv_def)
  have pls: "payloads (msgs h2) ps = payloads (msgs h) ps" using h2(2) r(2) by simp
  let ?qs = "snd ` set (payloads (msgs h) ps)" and ?all = "payloads (msgs h) (p # ps)"
  from Cons.IH [OF inv2] h2(3) obtain h3 where h3:
    "clean_loop call (Some d') h2 e = Some (h3, e)" "msgs h3 = (msgs h2) |` (- set ps)"
    "objs h3 = (objs h2) |` (- ?qs)"
    "strs h3 = (strs h2) |` (- all_parts parts (objs h2) ?qs)"
    "arrs h3 = (arrs h2) |` (- all_parts parts (objs h2) ?qs)" unfolding pls by blast
  have "clean_loop call (Some d) h e = Some (h3, e)"
    by (subst clean_loop.simps) (simp add: r(3) h2(1) h3(1))
  moreover have "msgs h3 = (msgs h) |` (- set (p # ps))"
    using h3(2) h2(2) by (auto simp: restrict_map_def fun_eq_iff)
  moreover have "objs h3 = (objs h) |` (- snd ` set ?all)"
    using h3(3) h2(4) r(1)
    by (auto simp: restrict_map_def fun_eq_iff image_iff split: option.splits)
  moreover have "strs h3 = (strs h) |` (- all_parts parts (objs h) (snd ` set ?all)) \<and>
      arrs h3 = (arrs h) |` (- all_parts parts (objs h) (snd ` set ?all))"
  proof (cases "msg_payload m")
    case None
    then show ?thesis using h3(4,5) h2(4-6) r(1) by simp
  next
    case (Some pl)
    with distinct [OF Cons.prems(2)] r(1) have pl: "pl \<notin> ?qs" by auto
    have all: "snd ` set ?all = insert pl ?qs" using Some r(1) by simp
    have "all_parts parts (objs h2) ?qs = all_parts parts (objs h) ?qs"
      using pl h2(4) Some by simp
    then show ?thesis
      unfolding all all_parts_insert using h3(4,5) h2(5,6) Some
      by (simp add: restrict_restrict Compl_Un)
  qed
  ultimately show ?case by blast
qed

lemma clean_frees:
  assumes "data_inv h d ps" "owned h (payloads (msgs h) ps)"
  shows "\<exists>h'. mnlxt_data_clean call (Some d) h e = Some (Some data_zero, h', e) \<and>
    data_inv h' data_zero [] \<and> msgs h' = (msgs h) |` (- set ps) \<and>
    objs h' = (objs h) |` (- snd ` set (payloads (msgs h) ps)) \<and>
    strs h' = (strs h) |` (- all_parts parts (objs h) (snd ` set (payloads (msgs h) ps))) \<and>
    arrs h' = (arrs h) |` (- all_parts parts (objs h) (snd ` set (payloads (msgs h) ps)))"
  using clean_loop_frees [OF assms, of e]
  by (auto simp: mnlxt_data_clean_def data_inv_def data_zero_def)

end

end
