(* ===== verification/Netlink.thy ===== *)
theory Netlink
  imports MData Inet
begin

text \<open>
  What the modules use of libmnl and of the kernel's netlink interface. libmnl is not part of the
  repository, so its functions are the fields of a record \<open>libmnl\<close> that every definition
  using them takes as a parameter; \<open>libmnl_laws\<close> states the documented behaviour that the
  round trip properties need, and \<open>tlv_mnl\<close> is an instance that satisfies it. The second half
  is the frame of the attribute loops: every \<open>*_data\<close> function walks the attributes of a
  message, validates each, hands it to a setter and stops at the first failure.
\<close>

section \<open>Constants of linux/netlink.h and libmnl.h\<close>

abbreviation NLMSG_NOOP :: u16 where "NLMSG_NOOP \<equiv> 1"
abbreviation NLMSG_ERROR :: u16 where "NLMSG_ERROR \<equiv> 2"
abbreviation NLMSG_DONE :: u16 where "NLMSG_DONE \<equiv> 3"
abbreviation NLMSG_OVERRUN :: u16 where "NLMSG_OVERRUN \<equiv> 4"
abbreviation NLM_F_REQUEST :: u16 where "NLM_F_REQUEST \<equiv> 0x1"
abbreviation NLM_F_ACK :: u16 where "NLM_F_ACK \<equiv> 0x4"
abbreviation NLM_F_DUMP_INTR :: u16 where "NLM_F_DUMP_INTR \<equiv> 0x10"
abbreviation NLM_F_REPLACE :: u16 where "NLM_F_REPLACE \<equiv> 0x100"
abbreviation NLM_F_DUMP :: u16 where "NLM_F_DUMP \<equiv> 0x300"
abbreviation NLM_F_CREATE :: u16 where "NLM_F_CREATE \<equiv> 0x400"

text \<open>Two attribute types of linux/rtnetlink.h, which routes and rules share.\<close>

abbreviation RTA_DST :: nat where "RTA_DST \<equiv> 1"
abbreviation RTA_SRC :: nat where "RTA_SRC \<equiv> 2"

abbreviation MNL_CB_ERROR :: int where "MNL_CB_ERROR \<equiv> - 1"
abbreviation MNL_CB_STOP :: int where "MNL_CB_STOP \<equiv> 0"
abbreviation MNL_CB_OK :: int where "MNL_CB_OK \<equiv> 1"

datatype mnl_attr_data_type = MNL_TYPE_U8 | MNL_TYPE_U16 | MNL_TYPE_U32 | MNL_TYPE_STRING | MNL_TYPE_BINARY

section \<open>Messages and the functions of libmnl\<close>

text \<open>A netlink message: the members of \<open>struct nlmsghdr\<close> that the code uses, and what follows it.\<close>

record 'b nlmsghdr =
  nlmsg_type :: u16
  nlmsg_flags :: u16
  nlmsg_seq :: u32
  nlmsg_body :: 'b

text \<open>
  \<open>'h\<close> is the family specific struct behind the header, \<open>'b\<close> the message body,
  \<open>'a\<close> an attribute. \<open>hdr_read\<close> and \<open>hdr_write\<close> are the accesses through
  the pointer to the struct that \<open>mnl_nlmsg_put_extra_header\<close> and
  \<open>mnl_nlmsg_get_payload\<close> return; \<open>attrs\<close> and \<open>nested\<close> list what
  \<open>mnl_attr_for_each\<close> and \<open>mnl_attr_for_each_nested\<close> visit; \<open>get_payload a i\<close> is the
  byte at offset \<open>i\<close> from the payload of the attribute, which a caller may read beyond its end.
\<close>

record ('h, 'b, 'a) libmnl =
  put_extra_header :: "'b \<Rightarrow> 'b"
  hdr_read :: "'b \<Rightarrow> 'h"
  hdr_write :: "'h \<Rightarrow> 'b \<Rightarrow> 'b"
  attr_put :: "nat \<Rightarrow> u8 list \<Rightarrow> 'b \<Rightarrow> 'b"
  attr_put_u16 :: "nat \<Rightarrow> u16 \<Rightarrow> 'b \<Rightarrow> 'b"
  attr_put_u32 :: "nat \<Rightarrow> u32 \<Rightarrow> 'b \<Rightarrow> 'b"
  attr_put_str :: "nat \<Rightarrow> string \<Rightarrow> 'b \<Rightarrow> 'b"
  nest_start :: "nat \<Rightarrow> 'b \<Rightarrow> nat \<times> 'b"
  nest_end :: "nat \<Rightarrow> 'b \<Rightarrow> 'b"
  attrs :: "'b \<Rightarrow> 'a list"
  nested :: "'a \<Rightarrow> 'a list"
  attr_type :: "'a \<Rightarrow> nat"
  attr_type_valid :: "'a \<Rightarrow> nat \<Rightarrow> errno \<Rightarrow> int \<times> errno"
  attr_validate :: "'a \<Rightarrow> mnl_attr_data_type \<Rightarrow> errno \<Rightarrow> int \<times> errno"
  attr_validate2 :: "'a \<Rightarrow> mnl_attr_data_type \<Rightarrow> nat \<Rightarrow> errno \<Rightarrow> int \<times> errno"
  attr_get_u8 :: "'a \<Rightarrow> u8"
  attr_get_u16 :: "'a \<Rightarrow> u16"
  attr_get_u32 :: "'a \<Rightarrow> u32"
  attr_get_str :: "'a \<Rightarrow> string"
  attr_get_len :: "'a \<Rightarrow> u16"
  attr_get_payload :: "'a \<Rightarrow> nat \<Rightarrow> u8"

text \<open>An assignment through the pointer to the family specific struct.\<close>

definition hdr_upd :: "('h, 'b, 'a) libmnl \<Rightarrow> ('h \<Rightarrow> 'h) \<Rightarrow> 'b \<Rightarrow> 'b" where
  "hdr_upd M f b = hdr_write M (f (hdr_read M b)) b"

text \<open>
  The payload of an attribute read as an address: the setters copy the whole union, also where the
  attribute holds the four bytes of an IPv4 address only.
\<close>

definition payload_inet :: "('h, 'b, 'a) libmnl \<Rightarrow> 'a \<Rightarrow> mnlxt_inet_addr_t" where
  "payload_inet M a = map (attr_get_payload M a) [0..<16]"

lemma inet_ok_payload [simp]: "inet_ok (payload_inet M a)"
  by (simp add: inet_ok_def payload_inet_def)

text \<open>The bytes that \<open>mnl_attr_put(nlh, type, size, &addr)\<close> copies.\<close>

definition inet_bytes :: "nat \<Rightarrow> mnlxt_inet_addr_t \<Rightarrow> u8 list" where
  "inet_bytes n a = take n a"

text \<open>A 32 bit value in memory, on the little endian machine of the model.\<close>

definition le32 :: "u32 \<Rightarrow> u8 list" where
  "le32 x = [ucast x, ucast (drop_bit 8 x), ucast (drop_bit 16 x), ucast (drop_bit 24 x)]"

text \<open>The bytes that \<open>mnl_attr_put_str\<close> copies: the characters, without the terminating NUL.\<close>

definition str_bytes :: "string \<Rightarrow> u8 list" where
  "str_bytes s = map (\<lambda>c. of_nat (of_char c)) s"

text \<open>
  Strings that \<open>mnl_attr_get_str\<close> reads back: an attribute is padded with zeros to a multiple of four
  bytes, and a payload of such a length is followed by whatever comes behind it.
\<close>

definition padded_str :: "string \<Rightarrow> bool" where
  "padded_str s \<longleftrightarrow> length s mod 4 \<noteq> 0 \<and> CHR 0x00 \<notin> set s"

definition un_le32 :: "u8 \<Rightarrow> u8 \<Rightarrow> u8 \<Rightarrow> u8 \<Rightarrow> u32" where
  "un_le32 a b c d =
     ucast a OR push_bit 8 (ucast b) OR push_bit 16 (ucast c) OR push_bit 24 (ucast d)"

text \<open>A 32 bit member of a struct read through the pointer to an attribute's payload, at offset \<open>i\<close>.\<close>

definition payload_u32 :: "('h, 'b, 'a) libmnl \<Rightarrow> 'a \<Rightarrow> nat \<Rightarrow> u32" where
  "payload_u32 M a i = un_le32 (attr_get_payload M a i) (attr_get_payload M a (i + 1))
     (attr_get_payload M a (i + 2)) (attr_get_payload M a (i + 3))"

lemma length_le32 [simp]: "length (le32 x) = 4"
  by (simp add: le32_def)

lemma un_le32_inverse:
  "un_le32 (ucast x) (ucast (drop_bit 8 x)) (ucast (drop_bit 16 x)) (ucast (drop_bit 24 x)) = x"
proof (rule bit_word_eqI)
  fix n assume "n < LENGTH(32)"
  then consider "n < 8" | "8 \<le> n" "n < 16" | "16 \<le> n" "n < 24" | "24 \<le> n" "n < 32" by fastforce
  then show "bit (un_le32 (ucast x) (ucast (drop_bit 8 x)) (ucast (drop_bit 16 x)) (ucast (drop_bit 24 x))) n =
      bit x n"
    by cases (auto simp: un_le32_def bit_or_iff bit_push_bit_iff bit_ucast_iff bit_drop_bit_eq less_diff_conv2)
qed

section \<open>Documented behaviour of libmnl\<close>

text \<open>
  Writing the struct and reading it back; an attribute is appended to the message and comes back from
  the iteration with its type, its payload and the checks of its own width passing.
  \<open>mk t bs\<close> is the attribute of type \<open>t\<close> with payload \<open>bs\<close>, \<open>b0\<close> a
  message without attributes, \<open>z\<close> the zeroed struct.
\<close>

definition libmnl_laws :: "('h, 'b, 'a) libmnl \<Rightarrow> (nat \<Rightarrow> u8 list \<Rightarrow> 'a) \<Rightarrow> 'b \<Rightarrow> 'h \<Rightarrow> bool" where
  "libmnl_laws M mk b0 z \<longleftrightarrow>
     hdr_read M (put_extra_header M b0) = z \<and> attrs M (put_extra_header M b0) = [] \<and>
     (\<forall>h b. hdr_read M (hdr_write M h b) = h) \<and>
     (\<forall>h b. attrs M (hdr_write M h b) = attrs M b) \<and>
     (\<forall>t bs b. hdr_read M (attr_put M t bs b) = hdr_read M b) \<and>
     (\<forall>t bs b. attrs M (attr_put M t bs b) = attrs M b @ [mk t bs]) \<and>
     (\<forall>t x b. attr_put_u32 M t x b = attr_put M t (le32 x) b) \<and>
     (\<forall>t bs. attr_type M (mk t bs) = t) \<and>
     (\<forall>t bs mx e. t \<le> mx \<longrightarrow> attr_type_valid M (mk t bs) mx e = (1, e)) \<and>
     (\<forall>t bs e. attr_validate2 M (mk t bs) MNL_TYPE_BINARY (length bs) e = (0, e)) \<and>
     (\<forall>t x e. attr_validate M (mk t (le32 x)) MNL_TYPE_U32 e = (0, e)) \<and>
     (\<forall>t x. attr_get_u32 M (mk t (le32 x)) = x) \<and>
     (\<forall>t bs i. i < length bs \<longrightarrow> attr_get_payload M (mk t bs) i = bs ! i) \<and>
     (\<forall>t s b. attr_put_str M t s b = attr_put M t (str_bytes s) b) \<and>
     (\<forall>t bs e. bs \<noteq> [] \<longrightarrow> attr_validate M (mk t bs) MNL_TYPE_STRING e = (0, e)) \<and>
     (\<forall>t s. padded_str s \<longrightarrow> attr_get_str M (mk t (str_bytes s)) = s) \<and>
     (\<forall>t bs. attr_get_len M (mk t bs) = of_nat (length bs + 4))"

lemma libmnl_lawsD:
  assumes "libmnl_laws M mk b0 z"
  shows "hdr_read M (put_extra_header M b0) = z" "attrs M (put_extra_header M b0) = []"
    "hdr_read M (hdr_write M h b) = h" "attrs M (hdr_write M h b) = attrs M b"
    "hdr_read M (attr_put M t bs b) = hdr_read M b"
    "attrs M (attr_put M t bs b) = attrs M b @ [mk t bs]"
    "attr_put_u32 M t x b = attr_put M t (le32 x) b" "attr_type M (mk t bs) = t"
    "t \<le> mx \<Longrightarrow> attr_type_valid M (mk t bs) mx e = (1, e)"
    "n = length bs \<Longrightarrow> attr_validate2 M (mk t bs) MNL_TYPE_BINARY n e = (0, e)"
    "attr_validate M (mk t (le32 x)) MNL_TYPE_U32 e = (0, e)"
    "attr_get_u32 M (mk t (le32 x)) = x"
    "i < length bs \<Longrightarrow> attr_get_payload M (mk t bs) i = bs ! i"
    "attr_put_str M t s b = attr_put M t (str_bytes s) b"
    "bs \<noteq> [] \<Longrightarrow> attr_validate M (mk t bs) MNL_TYPE_STRING e = (0, e)"
    "padded_str s \<Longrightarrow> attr_get_str M (mk t (str_bytes s)) = s"
    "attr_get_len M (mk t bs) = of_nat (length bs + 4)"
  using assms by (simp_all add: libmnl_laws_def)

text \<open>
  An instance: a store with a struct in it and a list of type-length-value attributes, zero bytes behind each.
  In \<open>tlv_mnl\<close> the store is the struct itself.
\<close>

definition tlv_in ::
  "('s \<Rightarrow> 'h) \<Rightarrow> ('h \<Rightarrow> 's \<Rightarrow> 's) \<Rightarrow> 'h \<Rightarrow> ('h, 's \<times> (nat \<times> u8 list) list, nat \<times> u8 list) libmnl" where
  "tlv_in rd wr z = \<lparr>
     put_extra_header = (\<lambda>b. (wr z (fst b), snd b)),
     hdr_read = (\<lambda>b. rd (fst b)),
     hdr_write = (\<lambda>h b. (wr h (fst b), snd b)),
     attr_put = (\<lambda>t bs b. (fst b, snd b @ [(t, bs)])),
     attr_put_u16 = (\<lambda>t x b. (fst b, snd b @ [(t, [ucast x, ucast (drop_bit 8 x)])])),
     attr_put_u32 = (\<lambda>t x b. (fst b, snd b @ [(t, le32 x)])),
     attr_put_str = (\<lambda>t s b. (fst b, snd b @ [(t, str_bytes s)])),
     nest_start = (\<lambda>t b. (length (snd b), b)),
     nest_end = (\<lambda>n b. b),
     attrs = snd,
     nested = (\<lambda>a. []),
     attr_type = fst,
     attr_type_valid = (\<lambda>a mx e. (if fst a \<le> mx then 1 else - 1, e)),
     attr_validate = (\<lambda>a t e.
       (if length (snd a) = (case t of MNL_TYPE_U8 \<Rightarrow> 1 | MNL_TYPE_U16 \<Rightarrow> 2 | MNL_TYPE_U32 \<Rightarrow> 4
          | _ \<Rightarrow> length (snd a)) then (0, e) else (- 1, 34))),
     attr_validate2 = (\<lambda>a t n e. (if length (snd a) = n then (0, e) else (- 1, 34))),
     attr_get_u8 = (\<lambda>a. hd (snd a)),
     attr_get_u16 = (\<lambda>a. ucast (hd (snd a)) OR push_bit 8 (ucast (snd a ! 1))),
     attr_get_u32 = (\<lambda>a. un_le32 (snd a ! 0) (snd a ! 1) (snd a ! 2) (snd a ! 3)),
     attr_get_str = (\<lambda>a. map (\<lambda>x. char_of (unat x)) (snd a)),
     attr_get_len = (\<lambda>a. of_nat (length (snd a) + 4)),
     attr_get_payload = (\<lambda>a i. if i < length (snd a) then snd a ! i else 0)\<rparr>"

definition tlv_mnl :: "'h \<Rightarrow> ('h, 'h \<times> (nat \<times> u8 list) list, nat \<times> u8 list) libmnl" where
  "tlv_mnl z = tlv_in (\<lambda>h. h) (\<lambda>h _. h) z"

text \<open>Any store in which the struct can be read back satisfies the laws.\<close>

lemma tlv_in_laws:
  assumes "\<And>h s. rd (wr h s) = h"
  shows "libmnl_laws (tlv_in rd wr z) Pair (s0, []) z"
proof -
  have "map (\<lambda>x. char_of (unat x)) (str_bytes s) = s" for s
    by (induction s) (simp_all add: str_bytes_def unat_of_nat take_bit_eq_mod)
  then show ?thesis by (simp add: libmnl_laws_def tlv_in_def le32_def un_le32_inverse assms)
qed

lemma tlv_mnl_laws: "libmnl_laws (tlv_mnl z) Pair (z, []) z"
  unfolding tlv_mnl_def by (rule tlv_in_laws) simp

section \<open>The attribute loops\<close>

text \<open>
  One step of parsing keeps the object under construction, the data object and the heap, and either
  goes on or has failed. \<open>None\<close> is undefined behaviour.
\<close>

type_synonym ('o, 't, 'p) pstate = "'o \<times> mnlxt_data_t \<times> ('t, 'p) mheap"

datatype 's parse = Fail 's errno | Next 's errno

definition fail_with ::
  "string \<Rightarrow> ('o, 't, 'p) pstate \<Rightarrow> errno \<Rightarrow> ('o, 't, 'p) pstate parse option" where
  "fail_with msg s e = (case s of (ob, d, h) \<Rightarrow> Some (Fail (ob, d\<lparr>data_error_str := Some msg\<rparr>, h) e))"

text \<open>\<^verbatim>\<open>if (0 > mnl_attr_validate(...)) { data->error_str = msg; goto end; }\<close> and the rest.\<close>

definition on_valid ::
  "int \<times> errno \<Rightarrow> string \<Rightarrow> ('o, 't, 'p) pstate \<Rightarrow>
     (errno \<Rightarrow> ('o, 't, 'p) pstate parse option) \<Rightarrow> ('o, 't, 'p) pstate parse option" where
  "on_valid v msg s k = (case v of (rc, e) \<Rightarrow> if rc < 0 then fail_with msg s e else k e)"

text \<open>\<^verbatim>\<open>if (-1 == setter(ob, ...)) { data->error_str = msg; goto end; }\<close>\<close>

definition store_set ::
  "int \<times> 'o option \<times> errno \<Rightarrow> string \<Rightarrow> ('o, 't, 'p) pstate \<Rightarrow> ('o, 't, 'p) pstate parse option" where
  "store_set r msg s =
     (case (r, s) of ((rc, p, e), (ob, d, h)) \<Rightarrow>
        (let ob' = (case p of None \<Rightarrow> ob | Some x \<Rightarrow> x)
         in if rc = - 1 then fail_with msg (ob', d, h) e else Some (Next (ob', d, h) e)))"

text \<open>The same for a setter that works on the heap.\<close>

definition store_set_h ::
  "(int \<times> 'o option \<times> ('t, 'p) mheap \<times> errno) option \<Rightarrow> string \<Rightarrow> ('o, 't, 'p) pstate \<Rightarrow>
     ('o, 't, 'p) pstate parse option" where
  "store_set_h r msg s =
     Option.bind r (\<lambda>(rc, p, h', e). case s of (ob, d, h) \<Rightarrow> store_set (rc, p, e) msg (ob, d, h'))"

text \<open>A setter that follows on success, its result ignored.\<close>

definition also_set ::
  "('o option \<Rightarrow> errno \<Rightarrow> int \<times> 'o option \<times> errno) \<Rightarrow> ('o, 't, 'p) pstate parse option \<Rightarrow>
     ('o, 't, 'p) pstate parse option" where
  "also_set f r =
     (case r of
        Some (Next (ob, d, h) e) \<Rightarrow>
          (case f (Some ob) e of (rc, p, e') \<Rightarrow> Some (Next (case p of None \<Rightarrow> ob | Some x \<Rightarrow> x, d, h) e'))
      | r \<Rightarrow> r)"

fun attr_loop ::
  "('a \<Rightarrow> 's \<Rightarrow> errno \<Rightarrow> 's parse option) \<Rightarrow> 'a list \<Rightarrow> 's \<Rightarrow> errno \<Rightarrow> 's parse option" where
  "attr_loop f [] s e = Some (Next s e)"
| "attr_loop f (a # as) s e =
     (case f a s e of
        Some (Next s' e') \<Rightarrow> attr_loop f as s' e'
      | r \<Rightarrow> r)"

text \<open>Setters whose result the code ignores, one after the other.\<close>

fun run_setters ::
  "('o option \<Rightarrow> errno \<Rightarrow> int \<times> 'o option \<times> errno) list \<Rightarrow> 'o \<Rightarrow> errno \<Rightarrow> 'o \<times> errno" where
  "run_setters [] ob e = (ob, e)"
| "run_setters (f # fs) ob e =
     (case f (Some ob) e of (rc, p, e') \<Rightarrow> run_setters fs (case p of None \<Rightarrow> ob | Some x \<Rightarrow> x) e')"

lemma attr_loop_single: "attr_loop f [a] s e = f a s e"
  by (auto split: option.splits parse.splits)

lemma attr_loop_append:
  "attr_loop f (as @ bs) s e =
     (case attr_loop f as s e of Some (Next s' e') \<Rightarrow> attr_loop f bs s' e' | r \<Rightarrow> r)"
  by (induction as arbitrary: s e) (auto split: option.splits parse.splits)

text \<open>A property of the state that every step keeps, whether it goes on or fails, holds at the end.\<close>

definition parse_all :: "('s \<Rightarrow> bool) \<Rightarrow> 's parse option \<Rightarrow> bool" where
  "parse_all P r \<longleftrightarrow> (case r of None \<Rightarrow> False | Some (Fail s _) \<Rightarrow> P s | Some (Next s _) \<Rightarrow> P s)"

lemma parse_all_simps [simp]:
  "parse_all P (Some (Fail s e)) = P s" "parse_all P (Some (Next s e)) = P s" "parse_all P None = False"
  by (simp_all add: parse_all_def)

lemma attr_loop_all:
  assumes step: "\<And>a s e. a \<in> set as \<Longrightarrow> P s \<Longrightarrow> parse_all P (f a s e)"
  shows "P s \<Longrightarrow> parse_all P (attr_loop f as s e)"
  using step
proof (induction as arbitrary: s e)
  case Nil
  then show ?case by simp
next
  case (Cons a as)
  from Cons.prems(2) [of a s e] Cons.prems(1) have "parse_all P (f a s e)" by simp
  then show ?case
  proof (cases "f a s e")
    case (Some r)
    with \<open>parse_all P (f a s e)\<close> Cons show ?thesis by (cases r) simp_all
  qed simp
qed

text \<open>How the three building blocks of a step keep a property.\<close>

lemma fail_with_all: "P (ob, d\<lparr>data_error_str := Some msg\<rparr>, h) \<Longrightarrow> parse_all P (fail_with msg (ob, d, h) e)"
  by (simp add: fail_with_def)

lemma on_valid_all:
  "P (ob, d\<lparr>data_error_str := Some msg\<rparr>, h) \<Longrightarrow> (\<And>e. parse_all P (k e)) \<Longrightarrow>
     parse_all P (on_valid v msg (ob, d, h) k)"
  by (cases v) (simp add: on_valid_def fail_with_def)

lemma also_set_all:
  assumes "parse_all P r" "\<And>ob d h e. P (ob, d, h) \<Longrightarrow> \<exists>rc ob' e'. f (Some ob) e = (rc, Some ob', e') \<and> P (ob', d, h)"
  shows "parse_all P (also_set f r)"
proof (cases r)
  case None
  with assms(1) show ?thesis by simp
next
  case (Some t)
  show ?thesis
  proof (cases t)
    case (Fail s e)
    with Some assms(1) show ?thesis by (simp add: also_set_def)
  next
    case (Next s e)
    obtain ob d h where s: "s = (ob, d, h)" by (cases s)
    with Some Next assms(1) have "P (ob, d, h)" by simp
    from assms(2) [OF this, of e] Some Next s show ?thesis by (auto simp: also_set_def)
  qed
qed

lemma store_set_all:
  assumes "r = (rc, Some ob', e)" "P (ob', d\<lparr>data_error_str := Some msg\<rparr>, h)" "P (ob', d, h)"
  shows "parse_all P (store_set r msg (ob, d, h))"
  using assms by (simp add: store_set_def fail_with_def)

end
