(* ===== verification/Payload.thy ===== *)
theory Payload
  imports Route Rule Addr Link Policy Netlink
begin

text \<open>
  The payloads that messages carry: the five property objects on the heap, their \<open>*_free\<close>
  functions, and the dispatch that a handler's \<open>free\<close> pointer makes. \<open>payload_mem\<close>
  interprets the ownership contract of MData on that dispatch.
\<close>

section \<open>Objects on the heap\<close>

datatype payload =
    PRoute mnlxt_rt_route_t
  | PRule mnlxt_rt_rule_t
  | PAddr mnlxt_rt_addr_t
  | PLink mnlxt_rt_link_t
  | PPolicy mnlxt_xfrm_policy_t

type_synonym pheap = "(mnlxt_xfrm_tmpl_t, payload) mheap"

text \<open>The object behind a typed pointer, undefined when there is none of the type.\<close>

definition obj_at :: "(payload \<Rightarrow> 'o option) \<Rightarrow> pheap \<Rightarrow> ptr \<Rightarrow> 'o option" where
  "obj_at sel h q = Option.bind (objs h q) sel"

fun un_PRoute :: "payload \<Rightarrow> mnlxt_rt_route_t option" where
  "un_PRoute (PRoute r) = Some r"
| "un_PRoute _ = None"

fun un_PRule :: "payload \<Rightarrow> mnlxt_rt_rule_t option" where
  "un_PRule (PRule r) = Some r"
| "un_PRule _ = None"

fun un_PAddr :: "payload \<Rightarrow> mnlxt_rt_addr_t option" where
  "un_PAddr (PAddr r) = Some r"
| "un_PAddr _ = None"

fun un_PLink :: "payload \<Rightarrow> mnlxt_rt_link_t option" where
  "un_PLink (PLink r) = Some r"
| "un_PLink _ = None"

fun un_PPolicy :: "payload \<Rightarrow> mnlxt_xfrm_policy_t option" where
  "un_PPolicy (PPolicy r) = Some r"
| "un_PPolicy _ = None"

lemma un_P_eq [simp]:
  "un_PRoute x = Some r \<longleftrightarrow> x = PRoute r" "un_PRule x = Some s \<longleftrightarrow> x = PRule s"
  "un_PAddr x = Some a \<longleftrightarrow> x = PAddr a" "un_PLink x = Some l \<longleftrightarrow> x = PLink l"
  "un_PPolicy x = Some p \<longleftrightarrow> x = PPolicy p"
  by (cases x; simp)+

definition put_obj :: "ptr \<Rightarrow> payload \<Rightarrow> pheap \<Rightarrow> pheap" where
  "put_obj q x h = h\<lparr>objs := (objs h)(q \<mapsto> x)\<rparr>"

section \<open>Release\<close>

definition mnlxt_rt_route_free :: "ptr option \<Rightarrow> pheap \<Rightarrow> pheap option" where
  "mnlxt_rt_route_free route h =
     (case route of None \<Rightarrow> Some h
      | Some q \<Rightarrow> do { _ \<leftarrow> obj_at un_PRoute h q; free_obj q h })"

definition mnlxt_rt_rule_free :: "ptr option \<Rightarrow> pheap \<Rightarrow> pheap option" where
  "mnlxt_rt_rule_free rule h =
     (case rule of None \<Rightarrow> Some h
      | Some q \<Rightarrow> do { r \<leftarrow> obj_at un_PRule h q; h' \<leftarrow> rule_free_names r h; free_obj q h' })"

definition mnlxt_rt_addr_free :: "ptr option \<Rightarrow> pheap \<Rightarrow> pheap option" where
  "mnlxt_rt_addr_free addr h =
     (case addr of None \<Rightarrow> Some h
      | Some q \<Rightarrow> do { a \<leftarrow> obj_at un_PAddr h q; h' \<leftarrow> addr_free_label a h; free_obj q h' })"

definition mnlxt_rt_link_free :: "ptr option \<Rightarrow> pheap \<Rightarrow> pheap option" where
  "mnlxt_rt_link_free rt_link h =
     (case rt_link of None \<Rightarrow> Some h
      | Some q \<Rightarrow> do { _ \<leftarrow> obj_at un_PLink h q; free_obj q h })"

definition mnlxt_xfrm_policy_free :: "ptr option \<Rightarrow> pheap \<Rightarrow> pheap option" where
  "mnlxt_xfrm_policy_free policy h =
     (case policy of None \<Rightarrow> Some h
      | Some q \<Rightarrow> do { p \<leftarrow> obj_at un_PPolicy h q; h' \<leftarrow> policy_free_tmpls p h; free_obj q h' })"

text \<open>The functions behind the \<open>free\<close> pointers of the handler tables.\<close>

fun call_free :: "mnlxt_cb \<Rightarrow> ptr \<Rightarrow> pheap \<Rightarrow> pheap option" where
  "call_free RtLink q h = mnlxt_rt_link_free (Some q) h"
| "call_free RtAddr q h = mnlxt_rt_addr_free (Some q) h"
| "call_free RtRoute q h = mnlxt_rt_route_free (Some q) h"
| "call_free RtRule q h = mnlxt_rt_rule_free (Some q) h"
| "call_free XfrmPolicy q h = mnlxt_xfrm_policy_free (Some q) h"

section \<open>Ownership\<close>

fun payload_cb :: "payload \<Rightarrow> mnlxt_cb" where
  "payload_cb (PRoute _) = RtRoute"
| "payload_cb (PRule _) = RtRule"
| "payload_cb (PAddr _) = RtAddr"
| "payload_cb (PLink _) = RtLink"
| "payload_cb (PPolicy _) = XfrmPolicy"

fun str_parts :: "payload \<Rightarrow> ptr list" where
  "str_parts (PRule r) =
     (case rule_iif_name r of None \<Rightarrow> [] | Some q \<Rightarrow> [q]) @
     (case rule_oif_name r of None \<Rightarrow> [] | Some q \<Rightarrow> [q])"
| "str_parts (PAddr a) = (case addr_label a of None \<Rightarrow> [] | Some q \<Rightarrow> [q])"
| "str_parts _ = []"

fun arr_parts :: "payload \<Rightarrow> ptr list" where
  "arr_parts (PPolicy p) = (case policy_tmpls p of None \<Rightarrow> [] | Some q \<Rightarrow> [q])"
| "arr_parts _ = []"

definition payload_parts :: "payload \<Rightarrow> ptr set" where
  "payload_parts x = set (str_parts x) \<union> set (arr_parts x)"

text \<open>The strings and arrays of a payload are live, and no two of them are the same.\<close>

definition parts_live :: "pheap \<Rightarrow> payload \<Rightarrow> bool" where
  "parts_live h x \<longleftrightarrow>
     distinct (str_parts x) \<and>
     (\<forall>q \<in> set (str_parts x). strs h q \<noteq> None \<and> arrs h q = None) \<and>
     (\<forall>q \<in> set (arr_parts x). arrs h q \<noteq> None \<and> strs h q = None)"

definition payload_owned :: "pheap \<Rightarrow> (mnlxt_data_cb_t option \<times> ptr) list \<Rightarrow> bool" where
  "payload_owned h xs \<longleftrightarrow>
     distinct (map snd xs) \<and>
     (\<forall>(cb, pl) \<in> set xs. \<exists>x. objs h pl = Some x \<and> Option.bind cb cb_free = Some (payload_cb x) \<and>
        parts_live h x) \<and>
     (\<forall>q \<in> snd ` set xs. \<forall>q' \<in> snd ` set xs. \<forall>x y. q \<noteq> q' \<and> objs h q = Some x \<and> objs h q' = Some y \<longrightarrow>
        payload_parts x \<inter> payload_parts y = {})"

lemma restrict_none: "(\<And>q. q \<in> X \<Longrightarrow> m q = None) \<Longrightarrow> m |` (- X) = m"
  by (auto simp: restrict_map_def fun_eq_iff)

lemma call_free_ok:
  assumes "objs h q = Some x" "parts_live h x"
  shows "\<exists>h'. call_free (payload_cb x) q h = Some h' \<and> msgs h' = msgs h \<and>
    objs h' = (objs h)(q := None) \<and> strs h' = (strs h) |` (- payload_parts x) \<and>
    arrs h' = (arrs h) |` (- payload_parts x) \<and> brk h' = brk h \<and> oom h' = oom h"
proof (cases x)
  case (PRule r)
  with assms show ?thesis
    by (cases "rule_iif_name r"; cases "rule_oif_name r")
      (auto simp: mnlxt_rt_rule_free_def obj_at_def rule_free_names_def free_str_opt_def free_str_def
        free_obj_def parts_live_def payload_parts_def restrict_map_def fun_eq_iff)
next
  case (PAddr a)
  with assms show ?thesis
    by (cases "addr_label a")
      (auto simp: mnlxt_rt_addr_free_def obj_at_def addr_free_label_def free_str_opt_def free_str_def
        free_obj_def parts_live_def payload_parts_def restrict_map_def fun_eq_iff)
next
  case (PPolicy p)
  with assms show ?thesis
    by (cases "policy_tmpls p")
      (auto simp: mnlxt_xfrm_policy_free_def obj_at_def policy_free_tmpls_def free_arr_opt_def free_arr_def
        free_obj_def parts_live_def payload_parts_def restrict_map_def fun_eq_iff)
qed (use assms in \<open>auto simp: mnlxt_rt_route_free_def mnlxt_rt_link_free_def obj_at_def free_obj_def
    payload_parts_def restrict_map_def fun_eq_iff\<close>)

lemma parts_live_restrict:
  assumes "parts_live h y" "payload_parts x \<inter> payload_parts y = {}"
    "strs h' = (strs h) |` (- payload_parts x)" "arrs h' = (arrs h) |` (- payload_parts x)"
  shows "parts_live h' y"
  using assms unfolding parts_live_def payload_parts_def
  by (auto simp: restrict_map_def)

interpretation payload_mem: payload_owner call_free payload_owned payload_parts
proof (unfold_locales, goal_cases)
  case (1 h cb pl xs)
  then obtain x where x: "objs h pl = Some x" "Option.bind cb cb_free = Some (payload_cb x)" "parts_live h x"
    by (fastforce simp: payload_owned_def)
  from call_free_ok [OF x(1,3)] obtain h' where h':
    "call_free (payload_cb x) pl h = Some h'" "msgs h' = msgs h" "objs h' = (objs h)(pl := None)"
    "strs h' = (strs h) |` (- payload_parts x)" "arrs h' = (arrs h) |` (- payload_parts x)" by blast
  have "payload_owned h' xs"
    unfolding payload_owned_def
  proof (intro conjI ballI, goal_cases)
    case 1
    then show ?case using \<open>payload_owned h ((cb, pl) # xs)\<close> by (simp add: payload_owned_def)
  next
    case (2 z)
    then obtain cb' pl' where z: "z = (cb', pl')" "(cb', pl') \<in> set xs" by (metis surj_pair)
    with \<open>payload_owned h ((cb, pl) # xs)\<close> have ne: "pl' \<noteq> pl" by (force simp: payload_owned_def)
    from z \<open>payload_owned h ((cb, pl) # xs)\<close> obtain y where y:
      "objs h pl' = Some y" "Option.bind cb' cb_free = Some (payload_cb y)" "parts_live h y"
      by (fastforce simp: payload_owned_def)
    from z have "pl' \<in> snd ` set ((cb, pl) # xs)" "pl \<in> snd ` set ((cb, pl) # xs)" by force+
    with \<open>payload_owned h ((cb, pl) # xs)\<close> x(1) y(1) ne have "payload_parts x \<inter> payload_parts y = {}"
      unfolding payload_owned_def by blast
    from parts_live_restrict [OF y(3) this h'(4,5)] show ?case using y ne h'(3) z by simp
  next
    case (3 q q')
    show ?case
    proof (intro allI impI)
      fix x' y' assume a: "q \<noteq> q' \<and> objs h' q = Some x' \<and> objs h' q' = Some y'"
      then have "objs h q = Some x'" "objs h q' = Some y'" using h'(3) by (auto split: if_splits)
      moreover from 3 have "q \<in> snd ` set ((cb, pl) # xs)" "q' \<in> snd ` set ((cb, pl) # xs)" by auto
      ultimately show "payload_parts x' \<inter> payload_parts y' = {}"
        using a \<open>payload_owned h ((cb, pl) # xs)\<close> unfolding payload_owned_def by blast
    qed
  qed
  with x h' show ?case by (auto simp: free_payload_def)
next
  case (2 h xs)
  then show ?case by (simp add: payload_owned_def)
next
  case (3 h xs ms)
  then show ?case by (simp add: payload_owned_def parts_live_def)
qed

end
