(* ===== verification/Handlers.thy ===== *)
theory Handlers
  imports Payload
begin

text \<open>
  The handler tables of src/rtnl/rtnl.c and src/xfrm/xfrm.c, the lookup by message type and the
  construction of messages; and the end that all \<open>*_data\<close> functions share: wrap the parsed
  object into a message, append it to the data object, or free everything again. A message type
  indexes the table like the C designated initialisers do; the gaps are zeroed entries. \<open>None\<close>
  is the read behind the end of the table.
\<close>

section \<open>Message types\<close>

abbreviation RTM_NEWLINK :: u16 where "RTM_NEWLINK \<equiv> 16"
abbreviation RTM_DELLINK :: u16 where "RTM_DELLINK \<equiv> 17"
abbreviation RTM_GETLINK :: u16 where "RTM_GETLINK \<equiv> 18"
abbreviation RTM_SETLINK :: u16 where "RTM_SETLINK \<equiv> 19"
abbreviation RTM_NEWADDR :: u16 where "RTM_NEWADDR \<equiv> 20"
abbreviation RTM_DELADDR :: u16 where "RTM_DELADDR \<equiv> 21"
abbreviation RTM_GETADDR :: u16 where "RTM_GETADDR \<equiv> 22"
abbreviation RTM_NEWROUTE :: u16 where "RTM_NEWROUTE \<equiv> 24"
abbreviation RTM_DELROUTE :: u16 where "RTM_DELROUTE \<equiv> 25"
abbreviation RTM_GETROUTE :: u16 where "RTM_GETROUTE \<equiv> 26"
abbreviation RTM_NEWRULE :: u16 where "RTM_NEWRULE \<equiv> 32"
abbreviation RTM_DELRULE :: u16 where "RTM_DELRULE \<equiv> 33"
abbreviation RTM_GETRULE :: u16 where "RTM_GETRULE \<equiv> 34"
abbreviation XFRM_MSG_NEWPOLICY :: u16 where "XFRM_MSG_NEWPOLICY \<equiv> 19"
abbreviation XFRM_MSG_DELPOLICY :: u16 where "XFRM_MSG_DELPOLICY \<equiv> 20"
abbreviation XFRM_MSG_GETPOLICY :: u16 where "XFRM_MSG_GETPOLICY \<equiv> 21"
abbreviation XFRM_MSG_UPDPOLICY :: u16 where "XFRM_MSG_UPDPOLICY \<equiv> 25"

section \<open>The tables\<close>

definition cb_zero :: mnlxt_data_cb_t where
  "cb_zero = \<lparr>cb_name = None, cb_parse = None, cb_put = None, cb_free = None, cb_flags = 0\<rparr>"

definition handler :: "string \<Rightarrow> mnlxt_cb \<Rightarrow> u16 \<Rightarrow> mnlxt_data_cb_t" where
  "handler name m flags =
     \<lparr>cb_name = Some name, cb_parse = Some m, cb_put = Some m, cb_free = Some m, cb_flags = flags\<rparr>"

definition rt_data_handlers :: "mnlxt_data_cb_t list" where
  "rt_data_handlers = (replicate 35 cb_zero)
     [16 := handler ''NEWLINK'' RtLink NLM_F_CREATE,
      17 := handler ''DELLINK'' RtLink 0,
      18 := handler ''GETLINK'' RtLink 0,
      19 := handler ''SETLINK'' RtLink (NLM_F_CREATE OR NLM_F_REPLACE),
      20 := handler ''NEWADDR'' RtAddr NLM_F_CREATE,
      21 := handler ''DELADDR'' RtAddr 0,
      22 := handler ''GETADDR'' RtAddr 0,
      24 := handler ''NEWROUTE'' RtRoute NLM_F_CREATE,
      25 := handler ''DELROUTE'' RtRoute 0,
      26 := handler ''GETROUTE'' RtRoute 0,
      32 := handler ''NEWRULE'' RtRule NLM_F_CREATE,
      33 := handler ''DELRULE'' RtRule 0,
      34 := handler ''GETRULE'' RtRule 0]"

definition rt_data_nhandlers :: nat where
  "rt_data_nhandlers = length rt_data_handlers"

definition xfrm_data_handlers :: "mnlxt_data_cb_t list" where
  "xfrm_data_handlers = (replicate 26 cb_zero)
     [19 := handler ''NEWPOLICY'' XfrmPolicy NLM_F_CREATE,
      20 := handler ''DELPOLICY'' XfrmPolicy 0,
      21 := handler ''GETPOLICY'' XfrmPolicy 0,
      25 := handler ''UPDPOLICY'' XfrmPolicy (NLM_F_CREATE OR NLM_F_REPLACE)]"

definition xfrm_data_nhandlers :: nat where
  "xfrm_data_nhandlers = length xfrm_data_handlers"

text \<open>\<open>&data_handlers[type]\<close> and the read of its name.\<close>

definition handler_at :: "mnlxt_data_cb_t list \<Rightarrow> nat \<Rightarrow> mnlxt_data_cb_t option" where
  "handler_at hs i = (if i < length hs then Some (hs ! i) else None)"

definition mnlxt_rt_type_handler :: "u16 \<Rightarrow> errno \<Rightarrow> (mnlxt_data_cb_t option \<times> errno) option" where
  "mnlxt_rt_type_handler type e =
     (if rt_data_nhandlers < unat type then Some (None, EBADMSG)
      else map_option (\<lambda>cb. if cb_name cb = None then (None, EBADMSG) else (Some cb, e))
             (handler_at rt_data_handlers (unat type)))"

definition mnlxt_xfrm_type_handler :: "u16 \<Rightarrow> errno \<Rightarrow> (mnlxt_data_cb_t option \<times> errno) option" where
  "mnlxt_xfrm_type_handler type e =
     (if xfrm_data_nhandlers < unat type then Some (None, EBADMSG)
      else map_option (\<lambda>cb. if cb_name cb = None then (None, EBADMSG) else (Some cb, e))
             (handler_at xfrm_data_handlers (unat type)))"

section \<open>Messages\<close>

text \<open>\<open>mnlxt_message_new\<close> and the assignments to the members of the new message.\<close>

definition message_with ::
  "u16 \<Rightarrow> u16 \<Rightarrow> ptr option \<Rightarrow> mnlxt_data_cb_t \<Rightarrow> pheap \<Rightarrow> errno \<Rightarrow> ptr option \<times> pheap \<times> errno" where
  "message_with type flags payload cb h e =
     (case mnlxt_message_new h of
        (None, h') \<Rightarrow> (None, h', ENOMEM)
      | (Some q, h') \<Rightarrow>
          (Some q, h'\<lparr>msgs := (msgs h')(q \<mapsto> message_zero\<lparr>msg_type := type, msg_flags := flags,
             msg_payload := payload, msg_handler := Some cb\<rparr>)\<rparr>, e))"

definition mnlxt_rt_message_new ::
  "u16 \<Rightarrow> u16 \<Rightarrow> ptr option \<Rightarrow> pheap \<Rightarrow> errno \<Rightarrow> (ptr option \<times> pheap \<times> errno) option" where
  "mnlxt_rt_message_new type flags payload h e =
     map_option (\<lambda>(cb, e'). case cb of None \<Rightarrow> (None, h, EINVAL)
       | Some cb \<Rightarrow> message_with type flags payload cb h e') (mnlxt_rt_type_handler type e)"

definition mnlxt_xfrm_message_new ::
  "u16 \<Rightarrow> u16 \<Rightarrow> ptr option \<Rightarrow> pheap \<Rightarrow> errno \<Rightarrow> (ptr option \<times> pheap \<times> errno) option" where
  "mnlxt_xfrm_message_new type flags payload h e =
     map_option (\<lambda>(cb, e'). case cb of None \<Rightarrow> (None, h, EINVAL)
       | Some cb \<Rightarrow> message_with type flags payload cb h e') (mnlxt_xfrm_type_handler type e)"

section \<open>The end of a parser\<close>

text \<open>
  From the end of the attribute loop on: \<open>message_new\<close>, \<open>mnlxt_data_add\<close>, and after
  \<open>end:\<close> the release of what was not handed over. \<open>q\<close> is the object under
  construction, \<open>wrap\<close> its type, \<open>err\<close> the text for a failed \<open>message_new\<close>.
\<close>

definition parse_end ::
  "(u16 \<Rightarrow> u16 \<Rightarrow> ptr option \<Rightarrow> pheap \<Rightarrow> errno \<Rightarrow> (ptr option \<times> pheap \<times> errno) option) \<Rightarrow>
   (ptr option \<Rightarrow> pheap \<Rightarrow> pheap option) \<Rightarrow> ('o \<Rightarrow> payload) \<Rightarrow> string \<Rightarrow> u16 \<Rightarrow> ptr \<Rightarrow>
   ('o, mnlxt_xfrm_tmpl_t, payload) pstate parse \<Rightarrow> (int \<times> mnlxt_data_t option \<times> pheap \<times> errno) option" where
  "parse_end message_new free_ob wrap err type q r =
     (case r of
        Fail (ob, d, h) e \<Rightarrow>
          map_option (\<lambda>h'. (MNL_CB_ERROR, Some d, h', e)) (free_ob (Some q) (put_obj q (wrap ob) h))
      | Next (ob, d, h) e \<Rightarrow>
          do {
            (msg, h1, e1) \<leftarrow> message_new type 0 (Some q) (put_obj q (wrap ob) h) e;
            (case msg of
               None \<Rightarrow>
                 map_option (\<lambda>h'. (MNL_CB_ERROR, Some (d\<lparr>data_error_str := Some err\<rparr>), h', e1))
                   (free_ob (Some q) h1)
             | Some m \<Rightarrow>
                 map_option (\<lambda>(d', h', e'). (MNL_CB_OK, d', h', e')) (mnlxt_data_add (Some d) (Some m) h1 e1))
          })"

text \<open>
  The start of a parser: the NULL checks, the message type, and the allocation of the object.
  \<open>body\<close> goes on with the address of the new object.
\<close>

definition parse_start ::
  "u16 list \<Rightarrow> 'b nlmsghdr option \<Rightarrow> mnlxt_data_t option \<Rightarrow> pheap \<Rightarrow>
   ('b nlmsghdr \<Rightarrow> mnlxt_data_t \<Rightarrow> (int \<times> mnlxt_data_t option \<times> pheap \<times> errno) option) \<Rightarrow>
   (int \<times> mnlxt_data_t option \<times> pheap \<times> errno) option" where
  "parse_start types nlh data h body =
     (case data of None \<Rightarrow> Some (MNL_CB_ERROR, None, h, EINVAL)
      | Some d \<Rightarrow>
          (case nlh of
             None \<Rightarrow> Some (MNL_CB_ERROR, Some (d\<lparr>data_error_str := Some ''invalid arguments''\<rparr>), h, EINVAL)
           | Some n \<Rightarrow>
               if nlmsg_type n \<notin> set types then
                 Some (MNL_CB_ERROR, Some (d\<lparr>data_error_str := Some ''unsupported message type''\<rparr>), h, EBADMSG)
               else body n d))"

definition parse_new ::
  "payload \<Rightarrow> string \<Rightarrow> mnlxt_data_t \<Rightarrow> pheap \<Rightarrow>
   (ptr \<Rightarrow> pheap \<Rightarrow> (int \<times> mnlxt_data_t option \<times> pheap \<times> errno) option) \<Rightarrow>
   (int \<times> mnlxt_data_t option \<times> pheap \<times> errno) option" where
  "parse_new x err d h body =
     (case new_obj x h of
        (None, h') \<Rightarrow> Some (MNL_CB_ERROR, Some (d\<lparr>data_error_str := Some err\<rparr>), h', ENOMEM)
      | (Some q, h') \<Rightarrow> body q h')"

section \<open>Facts about the tables\<close>

lemma rt_handlers_length [simp]: "length rt_data_handlers = 35" "rt_data_nhandlers = 35"
  by (simp_all add: rt_data_handlers_def rt_data_nhandlers_def)

lemma xfrm_handlers_length [simp]: "length xfrm_data_handlers = 26" "xfrm_data_nhandlers = 26"
  by (simp_all add: xfrm_data_handlers_def xfrm_data_nhandlers_def)

lemma rt_handlers_nth:
  "i < 35 \<Longrightarrow> rt_data_handlers ! i =
     (if i = 16 then handler ''NEWLINK'' RtLink NLM_F_CREATE
      else if i = 17 then handler ''DELLINK'' RtLink 0
      else if i = 18 then handler ''GETLINK'' RtLink 0
      else if i = 19 then handler ''SETLINK'' RtLink (NLM_F_CREATE OR NLM_F_REPLACE)
      else if i = 20 then handler ''NEWADDR'' RtAddr NLM_F_CREATE
      else if i = 21 then handler ''DELADDR'' RtAddr 0
      else if i = 22 then handler ''GETADDR'' RtAddr 0
      else if i = 24 then handler ''NEWROUTE'' RtRoute NLM_F_CREATE
      else if i = 25 then handler ''DELROUTE'' RtRoute 0
      else if i = 26 then handler ''GETROUTE'' RtRoute 0
      else if i = 32 then handler ''NEWRULE'' RtRule NLM_F_CREATE
      else if i = 33 then handler ''DELRULE'' RtRule 0
      else if i = 34 then handler ''GETRULE'' RtRule 0 else cb_zero)"
  by (simp add: rt_data_handlers_def nth_list_update)

lemma xfrm_handlers_nth:
  "i < 26 \<Longrightarrow> xfrm_data_handlers ! i =
     (if i = 19 then handler ''NEWPOLICY'' XfrmPolicy NLM_F_CREATE
      else if i = 20 then handler ''DELPOLICY'' XfrmPolicy 0
      else if i = 21 then handler ''GETPOLICY'' XfrmPolicy 0
      else if i = 25 then handler ''UPDPOLICY'' XfrmPolicy (NLM_F_CREATE OR NLM_F_REPLACE) else cb_zero)"
  by (simp add: xfrm_data_handlers_def nth_list_update)

lemma rt_type_handler_undefined: "mnlxt_rt_type_handler type e = None \<longleftrightarrow> unat type = rt_data_nhandlers"
  by (auto simp: mnlxt_rt_type_handler_def handler_at_def)

lemma xfrm_type_handler_undefined: "mnlxt_xfrm_type_handler type e = None \<longleftrightarrow> unat type = xfrm_data_nhandlers"
  by (auto simp: mnlxt_xfrm_type_handler_def handler_at_def)

text \<open>What the tables are for: the module of each message type, and the flags that a new message of the type gets.\<close>

definition rt_module :: "u16 \<Rightarrow> mnlxt_cb option" where
  "rt_module type =
     (if type \<in> {RTM_NEWLINK, RTM_DELLINK, RTM_GETLINK, RTM_SETLINK} then Some RtLink
      else if type \<in> {RTM_NEWADDR, RTM_DELADDR, RTM_GETADDR} then Some RtAddr
      else if type \<in> {RTM_NEWROUTE, RTM_DELROUTE, RTM_GETROUTE} then Some RtRoute
      else if type \<in> {RTM_NEWRULE, RTM_DELRULE, RTM_GETRULE} then Some RtRule else None)"

definition rt_new_flags :: "u16 \<Rightarrow> u16" where
  "rt_new_flags type =
     (if type \<in> {RTM_NEWLINK, RTM_NEWADDR, RTM_NEWROUTE, RTM_NEWRULE} then NLM_F_CREATE
      else if type = RTM_SETLINK then NLM_F_CREATE OR NLM_F_REPLACE else 0)"

definition xfrm_module :: "u16 \<Rightarrow> mnlxt_cb option" where
  "xfrm_module type =
     (if type \<in> {XFRM_MSG_NEWPOLICY, XFRM_MSG_DELPOLICY, XFRM_MSG_GETPOLICY, XFRM_MSG_UPDPOLICY} then Some XfrmPolicy
      else None)"

definition xfrm_new_flags :: "u16 \<Rightarrow> u16" where
  "xfrm_new_flags type =
     (if type = XFRM_MSG_NEWPOLICY then NLM_F_CREATE
      else if type = XFRM_MSG_UPDPOLICY then NLM_F_CREATE OR NLM_F_REPLACE else 0)"

text \<open>A handler that serves a module with its callbacks.\<close>

definition handles :: "mnlxt_data_cb_t \<Rightarrow> mnlxt_cb \<Rightarrow> bool" where
  "handles c m \<longleftrightarrow> cb_parse c = Some m \<and> cb_put c = Some m \<and> cb_free c = Some m"

definition looked_up ::
  "nat \<Rightarrow> mnlxt_cb option \<Rightarrow> u16 \<Rightarrow> u16 \<Rightarrow> errno \<Rightarrow> (mnlxt_data_cb_t option \<times> errno) option \<Rightarrow> bool" where
  "looked_up entries module flags type e r \<longleftrightarrow>
     (case r of
        None \<Rightarrow> unat type = entries
      | Some (None, e') \<Rightarrow> unat type \<noteq> entries \<and> module = None \<and> e' = EBADMSG
      | Some (Some c, e') \<Rightarrow> unat type < entries \<and> e' = e \<and> cb_flags c = flags \<and> (\<exists>m. module = Some m \<and> handles c m))"

lemma u16_of_unat: "n < 65536 \<Longrightarrow> unat (w :: u16) = n \<longleftrightarrow> w = of_nat n"
  by (simp add: word_unat_eq_iff unat_of_nat take_bit_eq_mod)

lemma rt_looked_up:
  "looked_up (length rt_data_handlers) (rt_module type) (rt_new_flags type) type e (mnlxt_rt_type_handler type e)"
proof (cases "unat type < 35")
  case True
  then show ?thesis
    by (simp add: looked_up_def mnlxt_rt_type_handler_def handler_at_def rt_handlers_nth handler_def cb_zero_def u16_of_unat
        rt_module_def rt_new_flags_def handles_def) auto
next
  case False
  then have "rt_module type = None" by (auto simp: rt_module_def)
  with False show ?thesis by (simp add: looked_up_def mnlxt_rt_type_handler_def handler_at_def)
qed

lemma xfrm_looked_up:
  "looked_up (length xfrm_data_handlers) (xfrm_module type) (xfrm_new_flags type) type e (mnlxt_xfrm_type_handler type e)"
proof (cases "unat type < 26")
  case True
  then show ?thesis
    by (simp add: looked_up_def mnlxt_xfrm_type_handler_def handler_at_def xfrm_handlers_nth handler_def cb_zero_def u16_of_unat
        xfrm_module_def xfrm_new_flags_def handles_def) auto
next
  case False
  then have "xfrm_module type = None" by (auto simp: xfrm_module_def)
  with False show ?thesis by (simp add: looked_up_def mnlxt_xfrm_type_handler_def handler_at_def)
qed

text \<open>A found handler names one module for parsing, writing and freeing.\<close>

lemma rt_type_handler_module:
  assumes "mnlxt_rt_type_handler type e = Some (Some cb, e')"
  shows "\<exists>m. cb_parse cb = Some m \<and> cb_put cb = Some m \<and> cb_free cb = Some m \<and>
    (m = RtLink \<longleftrightarrow> type \<in> {RTM_NEWLINK, RTM_DELLINK, RTM_GETLINK, RTM_SETLINK}) \<and>
    (m = RtAddr \<longleftrightarrow> type \<in> {RTM_NEWADDR, RTM_DELADDR, RTM_GETADDR}) \<and>
    (m = RtRoute \<longleftrightarrow> type \<in> {RTM_NEWROUTE, RTM_DELROUTE, RTM_GETROUTE}) \<and>
    (m = RtRule \<longleftrightarrow> type \<in> {RTM_NEWRULE, RTM_DELRULE, RTM_GETRULE}) \<and> m \<noteq> XfrmPolicy"
proof -
  from assms have i: "unat type < 35"
    by (auto simp: mnlxt_rt_type_handler_def handler_at_def split: if_splits)
  have cb: "cb = rt_data_handlers ! unat type" and n: "cb_name cb \<noteq> None"
    using assms i by (auto simp: mnlxt_rt_type_handler_def handler_at_def split: if_splits)
  have u: "unat type = n \<longleftrightarrow> type = of_nat n" if "n < 65536" for n
    using that by (simp add: word_unat_eq_iff unat_of_nat take_bit_eq_mod)
  from n show ?thesis
    unfolding cb rt_handlers_nth [OF i] by (auto simp: handler_def cb_zero_def u split: if_splits)
qed

lemma rt_message_new_found:
  "unat type < 35 \<Longrightarrow> cb_name (rt_data_handlers ! unat type) \<noteq> None \<Longrightarrow>
     mnlxt_rt_message_new type flags pl h e =
       Some (message_with type flags pl (rt_data_handlers ! unat type) h e)"
  by (auto simp: mnlxt_rt_message_new_def mnlxt_rt_type_handler_def handler_at_def)

lemma xfrm_message_new_found:
  "unat type < 26 \<Longrightarrow> cb_name (xfrm_data_handlers ! unat type) \<noteq> None \<Longrightarrow>
     mnlxt_xfrm_message_new type flags pl h e =
       Some (message_with type flags pl (xfrm_data_handlers ! unat type) h e)"
  by (auto simp: mnlxt_xfrm_message_new_def mnlxt_xfrm_type_handler_def handler_at_def)

lemma message_with_cases:
  assumes "heap_ok h"
  obtains (null) h' where "message_with type flags pl cb h e = (None, h', ENOMEM)" "msgs h' = msgs h"
      "objs h' = objs h" "strs h' = strs h" "arrs h' = arrs h" "heap_ok h'" "oom h' = oom h" "oom h (brk h)"
  | (new) m where "message_with type flags pl cb h e =
        (Some m, h\<lparr>brk := Suc (brk h), msgs := (msgs h)(m \<mapsto> \<lparr>msg_next = None, msg_type = type,
           msg_flags = flags, msg_payload = pl, msg_handler = Some cb\<rparr>)\<rparr>, e)" "m = brk h" "msgs h m = None"
proof (cases "oom h (brk h)")
  case True
  with assms null show thesis
    by (simp add: message_with_def mnlxt_message_new_def heap_news heap_ok_def less_Suc_eq)
next
  case False
  with assms heap_ok_fresh(3) [OF assms] new show thesis
    by (simp add: message_with_def mnlxt_message_new_def heap_news message_zero_def)
qed

end
