(* ===== verification/Core.thy ===== *)
theory Core
  imports Handlers
begin

text \<open>
  src/mnlxt.c and the request half of src/mnlxt_data.c: connecting, sending, receiving, the parsing
  of a received buffer, and the loop of a request. The socket functions of libmnl and of the system are the
  fields of a record \<open>netio\<close> over a state \<open>'w\<close> of the world; the function pointers of
  the handler tables are the record \<open>callbacks\<close>. The two loops of the code, the retry of an
  interrupted \<open>recvfrom\<close> and the \<open>while (1)\<close> of a request, need not end: they are partial
  functions, and \<open>None\<close> is not returning (or undefined behaviour of a callback).
\<close>

section \<open>The world behind the sockets\<close>

type_synonym pdata = "mnlxt_data_t \<times> pheap"

record ('w, 'f, 'b) netio =
  socket_open :: "int \<Rightarrow> 'w \<Rightarrow> errno \<Rightarrow> nat option \<times> 'w \<times> errno"
  socket_bind :: "nat \<Rightarrow> int \<Rightarrow> 'w \<Rightarrow> errno \<Rightarrow> int \<times> 'w \<times> errno"
  socket_close :: "nat \<Rightarrow> 'w \<Rightarrow> 'w"
  socket_sendto :: "nat \<Rightarrow> 'b nlmsghdr \<Rightarrow> 'w \<Rightarrow> errno \<Rightarrow> int \<times> 'w \<times> errno"
  socket_recvfrom :: "nat \<Rightarrow> 'w \<Rightarrow> errno \<Rightarrow> int \<times> 'f \<times> 'w \<times> errno"
  socket_get_portid :: "nat \<Rightarrow> int"
  socket_get_fd :: "nat \<Rightarrow> int"
  clock :: "'w \<Rightarrow> u32"
  malloc_ok :: "'w \<Rightarrow> bool"
  cb_run :: "'f \<Rightarrow> u32 \<Rightarrow> int \<Rightarrow>
    ('b nlmsghdr \<Rightarrow> pdata \<Rightarrow> errno \<Rightarrow> (int \<times> pdata \<times> errno) option) option \<Rightarrow>
    pdata \<Rightarrow> errno \<Rightarrow> (int \<times> pdata \<times> errno) option"
  body_empty :: 'b
  put_rtgenmsg :: "u8 \<Rightarrow> 'b \<Rightarrow> 'b"
  nlmsgerr_short :: "'b \<Rightarrow> bool"
  nlmsgerr_error :: "'b \<Rightarrow> int"
  strerror :: "int \<Rightarrow> string"

record 'b callbacks =
  call_parse :: "mnlxt_cb \<Rightarrow> 'b nlmsghdr \<Rightarrow> mnlxt_data_t \<Rightarrow> pheap \<Rightarrow> errno \<Rightarrow>
    (int \<times> mnlxt_data_t option \<times> pheap \<times> errno) option"
  call_put :: "mnlxt_cb \<Rightarrow> 'b nlmsghdr \<Rightarrow> ptr option \<Rightarrow> u16 \<Rightarrow> pheap \<Rightarrow> errno \<Rightarrow>
    (int \<times> 'b nlmsghdr \<times> errno) option"

abbreviation NETLINK_ROUTE :: int where "NETLINK_ROUTE \<equiv> 0"
abbreviation NETLINK_XFRM :: int where "NETLINK_XFRM \<equiv> 6"

section \<open>Handle and buffer (include/libmnlxt/core.h)\<close>

record mnlxt_handle_t =
  h_nl :: "nat option"
  h_seq :: u32
  h_error_str :: "string option"
  h_data_handlers :: "mnlxt_data_cb_t list option"
  h_data_nhandlers :: nat

record 'f mnlxt_buffer_t =
  b_portid :: int
  b_buf :: "'f option"
  b_len :: int
  b_seq :: u32
  b_data_handlers :: "mnlxt_data_cb_t list option"
  b_data_nhandlers :: nat

definition handle_zero :: mnlxt_handle_t where
  "handle_zero = \<lparr>h_nl = None, h_seq = 0, h_error_str = None, h_data_handlers = None, h_data_nhandlers = 0\<rparr>"

definition buffer_zero :: "'f mnlxt_buffer_t" where
  "buffer_zero = \<lparr>b_portid = 0, b_buf = None, b_len = 0, b_seq = 0, b_data_handlers = None,
     b_data_nhandlers = 0\<rparr>"

section \<open>src/mnlxt.c\<close>

definition mnlxt_connect ::
  "('w, 'f, 'b) netio \<Rightarrow> mnlxt_handle_t option \<Rightarrow> int \<Rightarrow> int \<Rightarrow> 'w \<Rightarrow> errno \<Rightarrow>
     int \<times> mnlxt_handle_t option \<times> 'w \<times> errno" where
  "mnlxt_connect io handle bus groups w e =
     (case handle of None \<Rightarrow> (- 1, None, w, EINVAL)
      | Some _ \<Rightarrow>
          (case socket_open io bus w e of
             (None, w1, e1) \<Rightarrow>
               (- 1, Some (handle_zero\<lparr>h_error_str := Some ''open socket failed''\<rparr>), w1, e1)
           | (Some nl, w1, e1) \<Rightarrow>
               (case socket_bind io nl groups w1 e1 of (rc, w2, e2) \<Rightarrow>
                  if rc < 0 then
                    (- 1, Some (handle_zero\<lparr>h_error_str := Some ''bind socket failed''\<rparr>),
                      socket_close io nl w2, e2)
                  else (0, Some (handle_zero\<lparr>h_nl := Some nl, h_seq := clock io w2\<rparr>), w2, e2))))"

definition mnlxt_disconnect ::
  "('w, 'f, 'b) netio \<Rightarrow> mnlxt_handle_t option \<Rightarrow> 'w \<Rightarrow> mnlxt_handle_t option \<times> 'w" where
  "mnlxt_disconnect io handle w =
     (case handle of None \<Rightarrow> (None, w)
      | Some hnd \<Rightarrow>
          (case h_nl hnd of None \<Rightarrow> (Some hnd, w)
           | Some nl \<Rightarrow> (Some (hnd\<lparr>h_nl := None\<rparr>), socket_close io nl w)))"

text \<open>The code does not check the handle here; without a socket the call is undefined.\<close>

definition mnlxt_send ::
  "('w, 'f, 'b) netio \<Rightarrow> mnlxt_handle_t \<Rightarrow> 'b nlmsghdr \<Rightarrow> 'w \<Rightarrow> errno \<Rightarrow>
     (int \<times> mnlxt_handle_t \<times> 'b nlmsghdr \<times> 'w \<times> errno) option" where
  "mnlxt_send io handle nlh w e =
     (let handle1 = handle\<lparr>h_seq := h_seq handle + 1\<rparr>;
          nlh1 = nlh\<lparr>nlmsg_seq := h_seq handle1\<rparr>
      in map_option (\<lambda>nl.
           (case socket_sendto io nl nlh1 w e of (rc, w', e') \<Rightarrow>
              (rc, if 0 > rc then handle1\<lparr>h_error_str := Some ''send failed''\<rparr> else handle1, nlh1, w', e')))
         (h_nl handle))"

datatype 'f received = RecvNothing | RecvError | RecvGot int 'f

partial_function (option) recv_loop ::
  "('w, 'f, 'b) netio \<Rightarrow> nat \<Rightarrow> 'w \<Rightarrow> errno \<Rightarrow> ('f received \<times> 'w \<times> errno) option" where
  "recv_loop io nl w e =
     (case socket_recvfrom io nl w e of (len, f, w', e') \<Rightarrow>
        if 0 > len then
          (if EWOULDBLOCK = e' then Some (RecvNothing, w', e')
           else if EINTR \<noteq> e' \<and> EAGAIN \<noteq> e' then Some (RecvError, w', e')
           else recv_loop io nl w' e')
        else Some (RecvGot len f, w', e'))"

definition mnlxt_receive ::
  "('w, 'f, 'b) netio \<Rightarrow> mnlxt_handle_t option \<Rightarrow> 'f mnlxt_buffer_t option \<Rightarrow> 'w \<Rightarrow> errno \<Rightarrow>
     (int \<times> mnlxt_handle_t option \<times> 'f mnlxt_buffer_t option \<times> 'w \<times> errno) option" where
  "mnlxt_receive io handle buffer w e =
     (case (handle, buffer) of
        (Some hnd, Some b) \<Rightarrow>
          (case h_nl hnd of None \<Rightarrow> Some (- 1, handle, buffer, w, EINVAL)
           | Some nl \<Rightarrow>
               map_option (\<lambda>(r, w', e').
                 (case r of
                    RecvNothing \<Rightarrow> (0, handle, buffer, w', e')
                  | RecvError \<Rightarrow>
                      (- 1, Some (hnd\<lparr>h_error_str := Some ''receive failed''\<rparr>), buffer, w', e')
                  | RecvGot len f \<Rightarrow>
                      if 0 < len then
                        (if \<not> malloc_ok io w' then
                           (- 1, Some (hnd\<lparr>h_error_str := Some ''malloc failed''\<rparr>),
                             Some (b\<lparr>b_buf := None\<rparr>), w', ENOMEM)
                         else
                           (let b1 = b\<lparr>b_buf := Some f, b_len := len, b_portid := socket_get_portid io nl,
                                  b_seq := h_seq hnd\<rparr>
                            in (len, handle,
                                Some (if h_data_handlers hnd \<noteq> None
                                      then b1\<lparr>b_data_handlers := h_data_handlers hnd,
                                              b_data_nhandlers := h_data_nhandlers hnd\<rparr>
                                      else b1), w', e')))
                      else (len, handle, buffer, w', e')))
                 (recv_loop io nl w e))
      | _ \<Rightarrow> Some (- 1, handle, buffer, w, EINVAL))"

definition mnlxt_handel_get_fd :: "('w, 'f, 'b) netio \<Rightarrow> mnlxt_handle_t option \<Rightarrow> int" where
  "mnlxt_handel_get_fd io handle =
     (case Option.bind handle h_nl of None \<Rightarrow> - 1 | Some nl \<Rightarrow> socket_get_fd io nl)"

section \<open>src/mnlxt_data.c: parsing a received buffer\<close>

text \<open>\<open>data->handlers[type].parse\<close>, read only below \<open>nhandlers\<close>.\<close>

definition data_parse_cb :: "mnlxt_data_t \<Rightarrow> u16 \<Rightarrow> mnlxt_cb option" where
  "data_parse_cb d type =
     (if unat type < data_nhandlers d then
        Option.bind (data_handlers d) (\<lambda>hs. Option.bind (handler_at hs (unat type)) cb_parse)
      else None)"

definition mnlxt_data_cb ::
  "('w, 'f, 'b) netio \<Rightarrow> 'b callbacks \<Rightarrow> 'b nlmsghdr option \<Rightarrow> mnlxt_data_t option \<Rightarrow> pheap \<Rightarrow> errno \<Rightarrow>
     (int \<times> mnlxt_data_t option \<times> pheap \<times> errno) option" where
  "mnlxt_data_cb io cbs nlh data h e =
     (case (nlh, data) of
        (Some n, Some d) \<Rightarrow>
          if NLM_F_DUMP_INTR AND nlmsg_flags n \<noteq> 0 then
            Some (MNL_CB_ERROR, Some (d\<lparr>data_error_str := Some ''dump interruption''\<rparr>), h, EINTR)
          else
            (case data_parse_cb d (nlmsg_type n) of
               Some cb_foo \<Rightarrow> call_parse cbs cb_foo n d h e
             | None \<Rightarrow>
                 if NLMSG_ERROR = nlmsg_type n then
                   if nlmsgerr_short io (nlmsg_body n) then
                     Some (MNL_CB_ERROR, Some (d\<lparr>data_error_str := Some ''invalid message''\<rparr>), h, EBADMSG)
                   else if 0 \<noteq> nlmsgerr_error io (nlmsg_body n) then
                     (let msg = strerror io (- nlmsgerr_error io (nlmsg_body n))
                      in Some (MNL_CB_ERROR, Some (d\<lparr>data_error_buf := msg, data_error_str := Some msg\<rparr>), h,
                           - nlmsgerr_error io (nlmsg_body n)))
                   else Some (MNL_CB_STOP, Some d, h, e)
                 else if NLMSG_NOOP = nlmsg_type n \<or> NLMSG_OVERRUN = nlmsg_type n then
                   Some (MNL_CB_OK, Some d, h, e)
                 else if NLMSG_DONE = nlmsg_type n then Some (MNL_CB_STOP, Some d, h, e)
                 else Some (MNL_CB_OK, Some (d\<lparr>data_error_str := Some ''unsupported message type''\<rparr>), h, EBADMSG))
      | _ \<Rightarrow> Some (MNL_CB_ERROR, data, h, EINVAL))"

text \<open>The callback that \<open>mnl_cb_run\<close> gets: a data object that is not NULL stays so.\<close>

definition data_cb_fn ::
  "('w, 'f, 'b) netio \<Rightarrow> 'b callbacks \<Rightarrow> 'b nlmsghdr \<Rightarrow> pdata \<Rightarrow> errno \<Rightarrow> (int \<times> pdata \<times> errno) option" where
  "data_cb_fn io cbs nlh s e =
     map_option (\<lambda>(rc, d', h', e'). (rc, (case d' of None \<Rightarrow> fst s | Some d1 \<Rightarrow> d1, h'), e'))
       (mnlxt_data_cb io cbs (Some nlh) (Some (fst s)) (snd s) e)"

definition mnlxt_data_parse ::
  "('w, 'f, 'b) netio \<Rightarrow> 'b callbacks \<Rightarrow> mnlxt_data_t option \<Rightarrow> 'f mnlxt_buffer_t option \<Rightarrow> pheap \<Rightarrow> errno \<Rightarrow>
     (int \<times> mnlxt_data_t option \<times> pheap \<times> errno) option" where
  "mnlxt_data_parse io cbs data buffer h e =
     (case Option.bind buffer (\<lambda>b. if b_len b = 0 then None else map_option (Pair b) (b_buf b)) of
        None \<Rightarrow> Some (- 1, data, h, EINVAL)
      | Some (b, f) \<Rightarrow>
          (let data1 = map_option (\<lambda>d. if data_handlers d = None
                 then d\<lparr>data_handlers := b_data_handlers b, data_nhandlers := b_data_nhandlers b\<rparr> else d) data
           in do {
             (ret, data2, h2, e2) \<leftarrow>
               (case data1 of
                  Some d \<Rightarrow>
                    map_option (\<lambda>(ret, (d', h'), e'). (ret, Some d', h', e'))
                      (cb_run io f (b_seq b) (b_portid b) (Some (data_cb_fn io cbs)) (d, h) e)
                | None \<Rightarrow>
                    map_option (\<lambda>(ret, (d', h'), e'). (ret, None, h', e'))
                      (cb_run io f (b_seq b) (b_portid b) None (data_zero, h) e));
             Some
               (if MNL_CB_ERROR = ret then
                  (- 1, map_option (\<lambda>d. if data_error_str d = None
                     then d\<lparr>data_error_str := Some ''mnl_cb_run failed''\<rparr> else d) data2, h2, e2)
                else if MNL_CB_STOP = ret then (1, data2, h2, e2)
                else (0, data2, h2, e2))
           }))"

definition mnlxt_buffer_clean :: "'f mnlxt_buffer_t option \<Rightarrow> 'f mnlxt_buffer_t option" where
  "mnlxt_buffer_clean buffer = map_option (\<lambda>_. buffer_zero) buffer"

section \<open>src/mnlxt_data.c: requests\<close>

text \<open>\<open>if (NULL != data) data->error_str = handle.error_str;\<close>\<close>

definition data_set_error :: "string option \<Rightarrow> mnlxt_data_t option \<Rightarrow> mnlxt_data_t option" where
  "data_set_error s data = map_option (\<lambda>d. d\<lparr>data_error_str := s\<rparr>) data"

text \<open>The \<open>while (1)\<close> of \<open>mnlxt_request\<close>: receive, parse, until an answer ends it.\<close>

partial_function (option) request_loop ::
  "('w, 'f, 'b) netio \<Rightarrow> 'b callbacks \<Rightarrow> mnlxt_handle_t option \<Rightarrow> 'f mnlxt_buffer_t option \<Rightarrow>
     mnlxt_data_t option \<Rightarrow> pheap \<Rightarrow> 'w \<Rightarrow> errno \<Rightarrow>
     (int \<times> mnlxt_handle_t option \<times> mnlxt_data_t option \<times> pheap \<times> 'w \<times> errno) option" where
  "request_loop io cbs handle buffer data h w e =
     Option.bind (mnlxt_receive io handle buffer w e) (\<lambda>(ret, handle1, buffer1, w1, e1).
       if 0 < ret then
         Option.bind (mnlxt_data_parse io cbs data buffer1 h e1) (\<lambda>(ret2, data2, h2, e2).
           if 0 \<noteq> ret2 then
             Some (if 1 = ret2 then 0 else - 1, handle1, data2, h2, w1, e2)
           else request_loop io cbs handle1 (mnlxt_buffer_clean buffer1) data2 h2 w1 e2)
       else if 0 > ret then
         Some (- 1, handle1, data_set_error (Option.bind handle1 h_error_str) data, h, w1, e1)
       else Some (0, handle1, data, h, w1, e1))"

definition mnlxt_request ::
  "('w, 'f, 'b) netio \<Rightarrow> 'b callbacks \<Rightarrow> 'b nlmsghdr option \<Rightarrow> int \<Rightarrow> mnlxt_data_t option \<Rightarrow> pheap \<Rightarrow>
     'w \<Rightarrow> errno \<Rightarrow> (int \<times> mnlxt_data_t option \<times> pheap \<times> 'w \<times> errno) option" where
  "mnlxt_request io cbs nlh bus data h w e =
     (case nlh of None \<Rightarrow> Some (- 1, data, h, w, EINVAL)
      | Some n \<Rightarrow>
          (case mnlxt_connect io (Some handle_zero) bus 0 w e of
             (rc, Some handle, w1, e1) \<Rightarrow>
               if rc = 0 then
                 do {
                   (sent, handle2, _, w2, e2) \<leftarrow> mnlxt_send io handle n w1 e1;
                   (rc3, handle3, data3, h3, w3, e3) \<leftarrow>
                     (if 0 < sent then
                        request_loop io cbs (Some handle2) (Some buffer_zero) data h w2 e2
                      else if h_error_str handle2 \<noteq> None then
                        Some (- 1, Some handle2, data_set_error (h_error_str handle2) data, h, w2, e2)
                      else Some (- 1, Some handle2, data, h, w2, e2));
                   (case mnlxt_disconnect io handle3 w3 of (_, w4) \<Rightarrow> Some (rc3, data3, h3, w4, e3))
                 }
               else Some (- 1, data, h, w1, e1)
           | (rc, None, w1, e1) \<Rightarrow> Some (- 1, data, h, w1, e1)))"

text \<open>The message is a local buffer; the copy that \<open>malloc\<close> makes of it is the result.\<close>

definition mnlxt_msghdr_create ::
  "('w, 'f, 'b) netio \<Rightarrow> 'b callbacks \<Rightarrow> mnlxt_message_t \<Rightarrow> pheap \<Rightarrow> 'w \<Rightarrow> errno \<Rightarrow>
     ('b nlmsghdr option \<times> errno) option" where
  "mnlxt_msghdr_create io cbs message h w e =
     (let nlh = \<lparr>nlmsg_type = msg_type message, nlmsg_flags = 0, nlmsg_seq = 0, nlmsg_body = body_empty io\<rparr>
      in (case msg_handler message of
            None \<Rightarrow> Some (None, EBADMSG)
          | Some cb \<Rightarrow>
              (case cb_put cb of
                 None \<Rightarrow> Some (None, EBADMSG)
               | Some cb_foo \<Rightarrow>
                   map_option (\<lambda>(rc, nlh', e').
                     if 0 = rc then (if malloc_ok io w then (Some nlh', e') else (None, ENOMEM)) else (None, e'))
                     (call_put cbs cb_foo nlh (msg_payload message) (msg_type message) h e))))"

definition mnlxt_message_request ::
  "('w, 'f, 'b) netio \<Rightarrow> 'b callbacks \<Rightarrow> mnlxt_message_t option \<Rightarrow> int \<Rightarrow> pheap \<Rightarrow> 'w \<Rightarrow> errno \<Rightarrow>
     (int \<times> pheap \<times> 'w \<times> errno) option" where
  "mnlxt_message_request io cbs message bus h w e =
     (case message of None \<Rightarrow> Some (- 1, h, w, EINVAL)
      | Some m \<Rightarrow>
          do {
            (nlh, e1) \<leftarrow> mnlxt_msghdr_create io cbs m h w e;
            (case nlh of
               None \<Rightarrow> Some (- 1, h, w, e1)
             | Some n \<Rightarrow>
                 (let base = NLM_F_REQUEST OR NLM_F_ACK;
                      flags = (if msg_flags m \<noteq> 0 then base OR msg_flags m
                               else (case msg_handler m of Some cb \<Rightarrow> base OR cb_flags cb | None \<Rightarrow> base))
                  in map_option (\<lambda>(rc, _, h', w', e'). (rc, h', w', e'))
                       (mnlxt_request io cbs (Some (n\<lparr>nlmsg_flags := flags\<rparr>)) bus None h w e1)))
          })"

definition mnlxt_data_dump ::
  "('w, 'f, 'b) netio \<Rightarrow> 'b callbacks \<Rightarrow> mnlxt_data_t option \<Rightarrow> int \<Rightarrow> 'b nlmsghdr option \<Rightarrow> pheap \<Rightarrow>
     'w \<Rightarrow> errno \<Rightarrow> (int \<times> mnlxt_data_t option \<times> pheap \<times> 'w \<times> errno) option" where
  "mnlxt_data_dump io cbs data bus nlh h w e =
     (case (nlh, data) of
        (Some n, Some d) \<Rightarrow>
          mnlxt_request io cbs (Some (n\<lparr>nlmsg_flags := NLM_F_REQUEST OR NLM_F_DUMP\<rparr>)) bus data h w e
      | _ \<Rightarrow> Some (- 1, data, h, w, EINVAL))"

section \<open>src/rtnl/rtnl.c and src/xfrm/xfrm.c: the two buses\<close>

definition mnlxt_rt_connect ::
  "('w, 'f, 'b) netio \<Rightarrow> mnlxt_handle_t option \<Rightarrow> int \<Rightarrow> 'w \<Rightarrow> errno \<Rightarrow> int \<times> mnlxt_handle_t option \<times> 'w \<times> errno" where
  "mnlxt_rt_connect io handle groups w e =
     (case mnlxt_connect io handle NETLINK_ROUTE groups w e of (rc, hnd, w', e') \<Rightarrow>
        (rc, if rc = 0 then map_option (\<lambda>x. x\<lparr>h_data_handlers := Some rt_data_handlers,
               h_data_nhandlers := rt_data_nhandlers\<rparr>) hnd else hnd, w', e'))"

definition mnlxt_xfrm_connect ::
  "('w, 'f, 'b) netio \<Rightarrow> mnlxt_handle_t option \<Rightarrow> int \<Rightarrow> 'w \<Rightarrow> errno \<Rightarrow> int \<times> mnlxt_handle_t option \<times> 'w \<times> errno" where
  "mnlxt_xfrm_connect io handle groups w e =
     (case mnlxt_connect io handle NETLINK_XFRM groups w e of (rc, hnd, w', e') \<Rightarrow>
        (rc, if rc = 0 then map_option (\<lambda>x. x\<lparr>h_data_handlers := Some xfrm_data_handlers,
               h_data_nhandlers := xfrm_data_nhandlers\<rparr>) hnd else hnd, w', e'))"

definition mnlxt_rt_data_dump ::
  "('w, 'f, 'b) netio \<Rightarrow> 'b callbacks \<Rightarrow> mnlxt_data_t option \<Rightarrow> u16 \<Rightarrow> u8 \<Rightarrow> pheap \<Rightarrow> 'w \<Rightarrow> errno \<Rightarrow>
     (int \<times> mnlxt_data_t option \<times> pheap \<times> 'w \<times> errno) option" where
  "mnlxt_rt_data_dump io cbs data type family h w e =
     (case data of None \<Rightarrow> Some (- 1, None, h, w, EINVAL)
      | Some d \<Rightarrow>
          mnlxt_data_dump io cbs
            (Some (d\<lparr>data_handlers := Some rt_data_handlers, data_nhandlers := rt_data_nhandlers\<rparr>)) NETLINK_ROUTE
            (Some \<lparr>nlmsg_type = type, nlmsg_flags = 0, nlmsg_seq = 0,
               nlmsg_body = put_rtgenmsg io family (body_empty io)\<rparr>) h w e)"

definition mnlxt_xfrm_data_dump ::
  "('w, 'f, 'b) netio \<Rightarrow> 'b callbacks \<Rightarrow> mnlxt_data_t option \<Rightarrow> u16 \<Rightarrow> pheap \<Rightarrow> 'w \<Rightarrow> errno \<Rightarrow>
     (int \<times> mnlxt_data_t option \<times> pheap \<times> 'w \<times> errno) option" where
  "mnlxt_xfrm_data_dump io cbs data type h w e =
     (case data of None \<Rightarrow> Some (- 1, None, h, w, EINVAL)
      | Some d \<Rightarrow>
          mnlxt_data_dump io cbs
            (Some (d\<lparr>data_handlers := Some xfrm_data_handlers, data_nhandlers := xfrm_data_nhandlers\<rparr>)) NETLINK_XFRM
            (Some \<lparr>nlmsg_type = type, nlmsg_flags = 0, nlmsg_seq = 0, nlmsg_body = body_empty io\<rparr>) h w e)"

text \<open>A message on the heap gets the handler of its type and is sent.\<close>

definition send_message ::
  "('w, 'f, 'b) netio \<Rightarrow> 'b callbacks \<Rightarrow> (u16 \<Rightarrow> errno \<Rightarrow> (mnlxt_data_cb_t option \<times> errno) option) \<Rightarrow> int \<Rightarrow>
     ptr option \<Rightarrow> pheap \<Rightarrow> 'w \<Rightarrow> errno \<Rightarrow> (int \<times> pheap \<times> 'w \<times> errno) option" where
  "send_message io cbs type_handler bus message h w e =
     (case message of None \<Rightarrow> Some (- 1, h, w, EINVAL)
      | Some q \<Rightarrow>
          do {
            m \<leftarrow> msgs h q;
            (cb, e1) \<leftarrow> type_handler (msg_type m) e;
            (case cb of
               None \<Rightarrow> Some (- 1, h, w, e1)
             | Some c \<Rightarrow>
                 (let m1 = m\<lparr>msg_handler := Some c\<rparr>
                  in mnlxt_message_request io cbs (Some m1) bus (h\<lparr>msgs := (msgs h)(q \<mapsto> m1)\<rparr>) w e1))
          })"

definition mnlxt_rt_message_request ::
  "('w, 'f, 'b) netio \<Rightarrow> 'b callbacks \<Rightarrow> ptr option \<Rightarrow> pheap \<Rightarrow> 'w \<Rightarrow> errno \<Rightarrow>
     (int \<times> pheap \<times> 'w \<times> errno) option" where
  "mnlxt_rt_message_request io cbs message h w e =
     send_message io cbs mnlxt_rt_type_handler NETLINK_ROUTE message h w e"

definition mnlxt_xfrm_message_request ::
  "('w, 'f, 'b) netio \<Rightarrow> 'b callbacks \<Rightarrow> ptr option \<Rightarrow> pheap \<Rightarrow> 'w \<Rightarrow> errno \<Rightarrow>
     (int \<times> pheap \<times> 'w \<times> errno) option" where
  "mnlxt_xfrm_message_request io cbs message h w e =
     send_message io cbs mnlxt_xfrm_type_handler NETLINK_XFRM message h w e"

text \<open>\<open>*_remove(message)\<close>: the payload, which the message no longer holds.\<close>

definition take_payload ::
  "(mnlxt_message_t option \<Rightarrow> ptr option) \<Rightarrow> ptr option \<Rightarrow> pheap \<Rightarrow> (ptr option \<times> pheap) option" where
  "take_payload get message h =
     (case message of None \<Rightarrow> Some (None, h)
      | Some q \<Rightarrow>
          do {
            m \<leftarrow> msgs h q;
            Some (case get (Some m) of
                None \<Rightarrow> (None, h)
              | Some pl \<Rightarrow> (Some pl, h\<lparr>msgs := (msgs h)(q \<mapsto> m\<lparr>msg_payload := None\<rparr>)\<rparr>))
          })"

text \<open>
  The common body of the \<open>*_request\<close> functions: build a message around the object, send it,
  take the object back and free the message. \<open>message\<close> and \<open>remove\<close> are the module's
  own functions, \<open>send\<close> the one of its bus.
\<close>

definition object_request ::
  "(ptr option \<Rightarrow> pheap \<Rightarrow> errno \<Rightarrow> (ptr option \<times> pheap \<times> errno) option) \<Rightarrow>
   (ptr option \<Rightarrow> pheap \<Rightarrow> (ptr option \<times> pheap) option) \<Rightarrow>
   (ptr option \<Rightarrow> pheap \<Rightarrow> 'w \<Rightarrow> errno \<Rightarrow> (int \<times> pheap \<times> 'w \<times> errno) option) \<Rightarrow>
   ptr option \<Rightarrow> pheap \<Rightarrow> 'w \<Rightarrow> errno \<Rightarrow> (int \<times> pheap \<times> 'w \<times> errno) option" where
  "object_request message remove send ob h w e =
     do {
       (msg, h1, e1) \<leftarrow> message ob h e;
       (case msg of
          None \<Rightarrow> Some (- 1, h1, w, e1)
        | Some q \<Rightarrow>
            do {
              (rc, h2, w2, e2) \<leftarrow> send (Some q) h1 w e1;
              (_, h3) \<leftarrow> remove (Some q) h2;
              h4 \<leftarrow> mnlxt_message_free call_free (Some q) h3;
              Some (rc, h4, w2, e2)
            })
     }"

end
