(* ===== verification/Parsing.thy ===== *)
theory Parsing
  imports Handlers
begin

text \<open>
  What every parser of a message guarantees, and the proof of it that the modules share.
  \<open>parsed\<close> is the contract: a parser either fails, and then has freed all that it allocated and left
  the message list alone, or skips the message, or appends exactly one message whose payload
  satisfies a given predicate \<open>P\<close> in the heap after the call; \<open>F\<close> says which values of \<open>errno\<close> a failure may
  leave, \<open>skip\<close> whether the message may be skipped. \<open>work_inv\<close> is what the attribute loop keeps on the way.
\<close>

text \<open>A parser leaves the handlers of the data object alone.\<close>

definition same_handlers :: "mnlxt_data_t \<Rightarrow> mnlxt_data_t \<Rightarrow> bool" where
  "same_handlers d d' \<longleftrightarrow> data_handlers d' = data_handlers d \<and> data_nhandlers d' = data_nhandlers d"

lemma same_handlers_simps [simp]:
  "same_handlers d d" "same_handlers d (d'\<lparr>data_error_str := s\<rparr>) = same_handlers d d'"
  "same_handlers d (d'\<lparr>data_error_buf := b\<rparr>) = same_handlers d d'"
  "same_handlers d (d'\<lparr>data_error_buf := b, data_error_str := s\<rparr>) = same_handlers d d'"
  by (simp_all add: same_handlers_def)

lemma same_handlers_trans: "same_handlers d1 d2 \<Longrightarrow> same_handlers d2 d3 \<Longrightarrow> same_handlers d1 d3"
  by (simp add: same_handlers_def)

text \<open>The new message: \<open>q\<close> is its payload's address, \<open>x\<close> the payload.\<close>

definition appended ::
  "pheap \<Rightarrow> ptr list \<Rightarrow> u16 \<Rightarrow> (pheap \<Rightarrow> payload \<Rightarrow> bool) \<Rightarrow> mnlxt_data_t \<Rightarrow> pheap \<Rightarrow> bool" where
  "appended h ps type P d' h' \<longleftrightarrow>
     (\<exists>m q x cb.
        msgs h m = None \<and> objs h q = None \<and> data_inv h' d' (ps @ [m]) \<and>
        msgs h' m = Some \<lparr>msg_next = None, msg_type = type, msg_flags = 0, msg_payload = Some q,
          msg_handler = Some cb\<rparr> \<and> cb_free cb = Some (payload_cb x) \<and>
        objs h' = (objs h)(q \<mapsto> x) \<and> P h' x \<and> parts_live h' x \<and>
        (\<forall>p. msgs h p \<noteq> None \<longrightarrow> map_option (\<lambda>m. m\<lparr>msg_next := None\<rparr>) (msgs h' p) =
           map_option (\<lambda>m. m\<lparr>msg_next := None\<rparr>) (msgs h p)) \<and>
        (\<forall>p. p \<notin> set ps \<and> p \<noteq> m \<longrightarrow> msgs h' p = msgs h p) \<and>
        (strs h') |` (- payload_parts x) = strs h \<and> (arrs h') |` (- payload_parts x) = arrs h)"

text \<open>The failures for want of memory: an allocation of the heap does fail.\<close>

definition memory_lost :: "pheap \<Rightarrow> errno \<Rightarrow> bool" where
  "memory_lost h e \<longleftrightarrow> e = ENOMEM \<and> (\<exists>p. oom h p)"

definition parse_failure :: "pheap \<Rightarrow> u16 list \<Rightarrow> u16 \<Rightarrow> errno \<Rightarrow> bool" where
  "parse_failure h types type e \<longleftrightarrow> memory_lost h e \<or> e = EBADMSG \<and> type \<notin> set types"

lemma parse_failureI:
  "memory_lost h e \<Longrightarrow> parse_failure h types type e" "type \<notin> set types \<Longrightarrow> parse_failure h types type EBADMSG"
  by (simp_all add: parse_failure_def)

text \<open>The same, as a relation on the states in which an attribute loop may fail.\<close>

abbreviation lost_at :: "'o \<times> mnlxt_data_t \<times> pheap \<Rightarrow> errno \<Rightarrow> bool" where
  "lost_at s e \<equiv> (case s of (_, _, h) \<Rightarrow> memory_lost h e)"

lemma memory_lostI: "oom h p \<Longrightarrow> memory_lost h ENOMEM"
  by (auto simp: memory_lost_def)

definition parsed ::
  "pheap \<Rightarrow> mnlxt_data_t \<Rightarrow> ptr list \<Rightarrow> u16 \<Rightarrow> (errno \<Rightarrow> bool) \<Rightarrow> bool \<Rightarrow> (pheap \<Rightarrow> payload \<Rightarrow> bool) \<Rightarrow>
     (int \<times> mnlxt_data_t option \<times> pheap \<times> errno) option \<Rightarrow> bool" where
  "parsed h d ps type F skip P r \<longleftrightarrow>
     (\<exists>rc d' h' e'. r = Some (rc, Some d', h', e') \<and> heap_ok h' \<and> oom h' = oom h \<and> same_handlers d d' \<and>
        (rc = MNL_CB_ERROR \<and> F e' \<and> data_inv h' d' ps \<and> msgs h' = msgs h \<and> objs h' = objs h \<and>
           strs h' = strs h \<and> arrs h' = arrs h \<or>
         rc = MNL_CB_OK \<and> (skip \<and> d' = d \<and> h' = h \<or> appended h ps type P d' h')))"

definition work_inv :: "pheap \<Rightarrow> mnlxt_data_t \<Rightarrow> ptr \<Rightarrow> payload \<Rightarrow> mnlxt_data_t \<Rightarrow> pheap \<Rightarrow> bool" where
  "work_inv h0 d0 q x d h \<longleftrightarrow>
     heap_ok h \<and> oom h = oom h0 \<and> msgs h = msgs h0 \<and> objs h0 q = None \<and> (\<exists>y. objs h = (objs h0)(q \<mapsto> y)) \<and>
     parts_live h x \<and> (strs h) |` (- payload_parts x) = strs h0 \<and> (arrs h) |` (- payload_parts x) = arrs h0 \<and>
     data_first d = data_first d0 \<and> data_last d = data_last d0 \<and> same_handlers d0 d"

lemma work_inv_error [simp]: "work_inv h0 d0 q x (d\<lparr>data_error_str := s\<rparr>) h = work_inv h0 d0 q x d h"
  by (simp add: work_inv_def)

lemma work_inv_lost: "work_inv h0 d0 q x d h \<Longrightarrow> memory_lost h e \<longleftrightarrow> memory_lost h0 e"
  by (simp add: work_inv_def memory_lost_def)

lemma parts_live_put_obj [simp]: "parts_live (put_obj q y h) x = parts_live h x"
  by (simp add: parts_live_def put_obj_def)

lemma restrict_minus: "m |` (- X) = m0 \<Longrightarrow> \<forall>p\<in>X. m0 p = None"
  by (auto simp: restrict_map_def)

lemma parse_fail_parsed:
  assumes inv: "data_inv h0 d0 ps" and w: "work_inv h0 d0 q x d h"
    and h1: "heap_ok h1" "oom h1 = oom h" "msgs h1 = msgs h" "objs h1 = (objs h)(q \<mapsto> x)" "strs h1 = strs h" "arrs h1 = arrs h"
    and d1: "data_first d1 = data_first d" "data_last d1 = data_last d" "same_handlers d d1"
    and F: "F e"
  shows "parsed h0 d0 ps type F skip P
    (map_option (\<lambda>h'. (MNL_CB_ERROR, Some d1, h', e)) (call_free (payload_cb x) q h1))"
proof -
  have live: "parts_live h1 x"
    using w h1(5,6) by (simp add: work_inv_def parts_live_def)
  have "objs h1 q = Some x" using h1(4) by simp
  from call_free_ok [OF this live] obtain h' where h':
    "call_free (payload_cb x) q h1 = Some h'" "msgs h' = msgs h1" "objs h' = (objs h1)(q := None)"
    "strs h' = (strs h1) |` (- payload_parts x)" "arrs h' = (arrs h1) |` (- payload_parts x)"
    "brk h' = brk h1" "oom h' = oom h1"
    by blast
  have o: "objs h' = objs h0" using w h'(3) h1(4) by (auto simp: work_inv_def)
  have "heap_ok h'"
  proof -
    have "dom (strs h') \<subseteq> dom (strs h1)" "dom (arrs h') \<subseteq> dom (arrs h1)" "dom (msgs h') \<subseteq> dom (msgs h1)"
      "dom (objs h') \<subseteq> dom (objs h1)"
      using h' by (auto simp: restrict_map_def split: if_splits)
    with h1(1) h'(6) show ?thesis by (intro heap_ok_sub [of h1 h']) simp_all
  qed
  moreover have "data_inv h' d1 ps"
    using inv w h'(2) h1(3) d1 by (simp add: data_inv_def work_inv_def)
  moreover have "same_handlers d0 d1"
    using w d1(3) by (simp add: work_inv_def same_handlers_def)
  ultimately show ?thesis
    using w o h' h1 F by (simp add: parsed_def work_inv_def)
qed

text \<open>Insertion writes the \<open>next\<close> fields of the last message and of the new one.\<close>

lemma add_frame:
  assumes "data_inv h d ps" "mnlxt_data_add (Some d) (Some n) h e = Some (d', h', e')"
  shows "p \<notin> set ps \<Longrightarrow> p \<noteq> n \<Longrightarrow> msgs h' p = msgs h p"
  using assms
  by (cases "ps = []")
    (auto simp: mnlxt_data_add_def set_next_def data_inv_def bind_eq_Some_conv split: option.splits if_splits)

text \<open>Adding the new message to the list: it has the fields that it was made with, the others keep theirs.\<close>

lemma add_fresh:
  assumes inv: "data_inv h d ps" "m \<notin> set ps" and m: "msgs h m = Some x" "msg_next x = None"
    and ok: "heap_ok h"
  obtains d' ms' where "mnlxt_data_add (Some d) (Some m) h e = Some (Some d', h\<lparr>msgs := ms'\<rparr>, e)"
    "data_inv (h\<lparr>msgs := ms'\<rparr>) d' (ps @ [m])" "same_but_links d d'" "ms' m = Some x" "heap_ok (h\<lparr>msgs := ms'\<rparr>)"
    "\<forall>p. map_option (\<lambda>m. m\<lparr>msg_next := None\<rparr>) (ms' p) = map_option (\<lambda>m. m\<lparr>msg_next := None\<rparr>) (msgs h p)"
    "\<forall>p. p \<notin> set ps \<and> p \<noteq> m \<longrightarrow> ms' p = msgs h p"
proof -
  from m(1) add_refines [OF inv, of e] obtain d' h' where a:
    "mnlxt_data_add (Some d) (Some m) h e = Some (Some d', h', e)" "data_inv h' d' (ps @ [m])"
    "same_but_next h h'" "same_but_links d d'" by auto
  from a(3) obtain ms' where h': "h' = h\<lparr>msgs := ms'\<rparr>"
    "\<And>p. map_option (\<lambda>m. m\<lparr>msg_next := None\<rparr>) (ms' p) = map_option (\<lambda>m. m\<lparr>msg_next := None\<rparr>) (msgs h p)"
    unfolding same_but_next_def by blast
  from chain_next [of "msgs h'" "data_first d'" ps m "[]"] a(2) obtain m1 where
    m1: "msgs h' m = Some m1" "msg_next m1 = None" by (auto simp: data_inv_def)
  from same_but_next_msg [OF a(3) m(1)] obtain nx where "msgs h' m = Some (x\<lparr>msg_next := nx\<rparr>)" by auto
  with m1 m(2) have new: "ms' m = Some x" by (auto simp: h'(1))
  have "dom ms' = dom (msgs h)" using same_but_next_dom [OF a(3)] by (simp add: h'(1))
  with ok have "heap_ok (h\<lparr>msgs := ms'\<rparr>)" by (simp add: heap_ok_def)
  with a h' new add_frame [OF inv(1) a(1)] show thesis by (intro that [of d' ms']) simp_all
qed

lemma parse_append_parsed:
  assumes ok: "data_inv h0 d0 ps" and w: "work_inv h0 d0 q (wrap ob) d h"
    and mn: "\<And>pl h e. message_new type 0 pl h e = Some (message_with type 0 pl cb h e)"
    and cb: "cb_free cb = Some (payload_cb (wrap ob))" and P: "P h (wrap ob)"
    and frame: "\<And>h h' x. P h x \<Longrightarrow> strs h' = strs h \<Longrightarrow> arrs h' = arrs h \<Longrightarrow> P h' x"
    and new: "message_with type 0 (Some q) cb (put_obj q (wrap ob) h) e =
      (Some m, h1, e)" "h1 = (put_obj q (wrap ob) h)\<lparr>brk := Suc (brk h), msgs := (msgs h)(m \<mapsto> \<lparr>msg_next = None,
        msg_type = type, msg_flags = 0, msg_payload = Some q, msg_handler = Some cb\<rparr>)\<rparr>" "m = brk h" "msgs h m = None"
  shows "parsed h0 d0 ps type F skip P (parse_end message_new free_ob wrap err type q (Next (ob, d, h) e))"
proof -
  let ?m = "\<lparr>msg_next = None, msg_type = type, msg_flags = 0, msg_payload = Some q, msg_handler = Some cb\<rparr>"
  have ms: "msgs h = msgs h0" and okh: "heap_ok h" using w by (simp_all add: work_inv_def)
  have ok1: "heap_ok h1" using w new(3) by (auto simp: new(2) work_inv_def heap_ok_def put_obj_def less_Suc_eq)
  with new(4) ms have m0: "msgs h0 m = None" by simp
  with data_inv_dom [OF ok] have mp: "m \<notin> set ps" by auto
  have inv1: "data_inv h1 d ps" using ok w mp by (simp add: new(2) data_inv_def work_inv_def put_obj_def)
  have m1: "msgs h1 m = Some ?m" "msg_next ?m = None" by (simp_all add: new(2))
  obtain d' ms' where a:
    "mnlxt_data_add (Some d) (Some m) h1 e = Some (Some d', h1\<lparr>msgs := ms'\<rparr>, e)"
    "data_inv (h1\<lparr>msgs := ms'\<rparr>) d' (ps @ [m])" "same_but_links d d'" "ms' m = Some ?m" "heap_ok (h1\<lparr>msgs := ms'\<rparr>)"
    "\<forall>p. map_option (\<lambda>m. m\<lparr>msg_next := None\<rparr>) (ms' p) = map_option (\<lambda>m. m\<lparr>msg_next := None\<rparr>) (msgs h1 p)"
    "\<forall>p. p \<notin> set ps \<and> p \<noteq> m \<longrightarrow> ms' p = msgs h1 p"
    by (rule add_fresh [OF inv1 mp m1 ok1, where e = e])
  have "appended h0 ps type P d' (h1\<lparr>msgs := ms'\<rparr>)"
    unfolding appended_def
  proof (intro exI conjI)
    show "objs (h1\<lparr>msgs := ms'\<rparr>) = (objs h0)(q \<mapsto> wrap ob)"
      using w by (auto simp: new(2) put_obj_def work_inv_def)
    show "parts_live (h1\<lparr>msgs := ms'\<rparr>) (wrap ob)"
      using w by (simp add: new(2) put_obj_def work_inv_def parts_live_def)
    show "\<forall>p. msgs h0 p \<noteq> None \<longrightarrow> map_option (\<lambda>m. m\<lparr>msg_next := None\<rparr>) (msgs (h1\<lparr>msgs := ms'\<rparr>) p) =
        map_option (\<lambda>m. m\<lparr>msg_next := None\<rparr>) (msgs h0 p)"
      using m0 ms by (auto simp: a(6) new(2))
    show "\<forall>p. p \<notin> set ps \<and> p \<noteq> m \<longrightarrow> msgs (h1\<lparr>msgs := ms'\<rparr>) p = msgs h0 p"
      using a(7) ms by (simp add: new(2))
    show "msgs (h1\<lparr>msgs := ms'\<rparr>) m = Some ?m" using a(4) by simp
    show "P (h1\<lparr>msgs := ms'\<rparr>) (wrap ob)" by (rule frame [OF P]) (simp_all add: new(2) put_obj_def)
  qed (use w m0 a(2) cb in \<open>simp_all add: new(2) put_obj_def work_inv_def\<close>)
  moreover have "same_handlers d0 d'"
    using w a(3) by (auto simp: work_inv_def same_handlers_def same_but_links_def)
  moreover have "oom h1 = oom h0" using w by (simp add: new(2) put_obj_def work_inv_def)
  ultimately show ?thesis
    unfolding parse_end_def using new(1) a(1,5) by (simp add: mn parsed_def)
qed

lemma parse_end_parsed:
  assumes ok: "heap_ok h0" "data_inv h0 d0 ps" and w: "work_inv h0 d0 q (wrap ob) d h"
    and free: "\<And>h. free_ob (Some q) h = call_free (payload_cb (wrap ob)) q h"
    and mn: "\<And>pl h e. message_new type 0 pl h e = Some (message_with type 0 pl cb h e)"
    and cb: "cb_free cb = Some (payload_cb (wrap ob))"
    and r: "r = Fail (ob, d, h) e \<and> F e \<or> r = Next (ob, d, h) e \<and> P h (wrap ob)"
    and F: "memory_lost h0 ENOMEM \<Longrightarrow> F ENOMEM"
    and frame: "\<And>h h' x. P h x \<Longrightarrow> strs h' = strs h \<Longrightarrow> arrs h' = arrs h \<Longrightarrow> P h' x"
  shows "parsed h0 d0 ps type F skip P (parse_end message_new free_ob wrap err type q r)"
proof -
  let ?h = "put_obj q (wrap ob) h"
  have okh: "heap_ok ?h" using w by (auto simp: work_inv_def heap_ok_def put_obj_def)
  show ?thesis
  proof (cases "r = Fail (ob, d, h) e")
    case True
    with r show ?thesis
      unfolding parse_end_def using okh
      by (simp add: free, intro parse_fail_parsed [OF ok(2) w]) (simp_all add: put_obj_def)
  next
    case False
    with r have r: "r = Next (ob, d, h) e" and P: "P h (wrap ob)" by simp_all
    from okh show ?thesis
    proof (cases rule: message_with_cases [of _ type 0 "Some q" cb e])
      case (null h1)
      from null(8) w F have "F ENOMEM" by (simp add: memory_lostI put_obj_def work_inv_def)
      with null show ?thesis
        unfolding parse_end_def r using okh
        by (simp add: mn free, intro parse_fail_parsed [OF ok(2) w]) (simp_all add: put_obj_def)
    next
      case (new m)
      then show ?thesis
        unfolding r
        by (intro parse_append_parsed [where P = P and wrap = wrap and ob = ob and message_new = message_new and type = type, OF ok(2) w mn cb P frame]) (simp_all add: put_obj_def)
    qed
  qed
qed

lemma parse_new_parsed:
  assumes ok: "heap_ok h" "data_inv h d ps" and parts: "payload_parts x = {}"
    and F: "memory_lost h ENOMEM \<Longrightarrow> F ENOMEM"
    and body: "\<And>q h1. work_inv h d q x d h1 \<Longrightarrow> parsed h d ps type F skip P (body q h1)"
  shows "parsed h d ps type F skip P (parse_new x err d h body)"
proof (cases "oom h (brk h)")
  case True
  then have "parse_new x err d h body =
      Some (MNL_CB_ERROR, Some (d\<lparr>data_error_str := Some err\<rparr>), h\<lparr>brk := Suc (brk h)\<rparr>, ENOMEM)"
    by (simp add: parse_new_def heap_news)
  moreover have "heap_ok (h\<lparr>brk := Suc (brk h)\<rparr>)" using ok(1) by (auto simp: heap_ok_def less_Suc_eq)
  moreover have "F ENOMEM" using True by (intro F memory_lostI)
  ultimately show ?thesis using ok(2) by (simp add: parsed_def data_inv_def)
next
  case False
  let ?h1 = "h\<lparr>brk := Suc (brk h), objs := (objs h)(brk h \<mapsto> x)\<rparr>"
  have n: "new_obj x h = (Some (brk h), ?h1)" using False by (simp add: heap_news)
  have "work_inv h d (brk h) x d ?h1"
    unfolding work_inv_def
  proof (intro conjI)
    show "heap_ok ?h1" using new_obj_ok [OF ok(1), of x] n by simp
    show "objs h (brk h) = None" using ok(1) by (rule heap_ok_fresh)
    show "parts_live ?h1 x" using parts by (auto simp: parts_live_def payload_parts_def)
    show "\<exists>y. objs ?h1 = (objs h)(brk h \<mapsto> y)" by auto
  qed (simp_all add: parts restrict_map_def)
  from body [OF this] show ?thesis by (simp add: parse_new_def n)
qed

lemma parse_start_handled:
  "nlmsg_type n \<in> set types \<Longrightarrow> parse_start types (Some n) (Some d) h body = body n d"
  by (simp add: parse_start_def)

lemma parse_start_refused:
  "nlmsg_type n \<notin> set types \<Longrightarrow> heap_ok h \<Longrightarrow> data_inv h d ps \<Longrightarrow> F EBADMSG \<Longrightarrow>
     parsed h d ps (nlmsg_type n) F skip P (parse_start types (Some n) (Some d) h body)"
  by (auto simp: parse_start_def parsed_def data_inv_def)

text \<open>A weaker predicate for the payload; strings that were there before are still there.\<close>

lemma parsed_mono:
  assumes "parsed h d ps type F skip P r"
    and "\<And>h' x. P h' x \<Longrightarrow> (\<And>p s. strs h p = Some s \<Longrightarrow> strs h' p = Some s) \<Longrightarrow> Q h' x"
  shows "parsed h d ps type F skip Q r"
proof -
  have "appended h ps type Q d' h'" if "appended h ps type P d' h'" for d' h'
  proof -
    have later: "strs h' p = Some s" if "(strs h') |` (- payload_parts x) = strs h" "strs h p = Some s" for p s x
      using that by (metis option.distinct(1) restrict_in restrict_out)
    from that obtain m q x cb where "P h' x" "(strs h') |` (- payload_parts x) = strs h"
      and a: "msgs h m = None" "objs h q = None" "data_inv h' d' (ps @ [m])"
        "msgs h' m = Some \<lparr>msg_next = None, msg_type = type, msg_flags = 0, msg_payload = Some q,
          msg_handler = Some cb\<rparr>" "cb_free cb = Some (payload_cb x)" "objs h' = (objs h)(q \<mapsto> x)"
        "parts_live h' x" "(arrs h') |` (- payload_parts x) = arrs h"
        "\<forall>p. msgs h p \<noteq> None \<longrightarrow> map_option (\<lambda>m. m\<lparr>msg_next := None\<rparr>) (msgs h' p) =
           map_option (\<lambda>m. m\<lparr>msg_next := None\<rparr>) (msgs h p)"
        "\<forall>p. p \<notin> set ps \<and> p \<noteq> m \<longrightarrow> msgs h' p = msgs h p"
      unfolding appended_def by blast
    moreover from this(1,2) have "Q h' x" using assms(2) later by blast
    ultimately show ?thesis unfolding appended_def by blast
  qed
  with assms(1) show ?thesis unfolding parsed_def by blast
qed

lemma parsed_any:
  assumes "parsed h d ps type F skip P r"
  shows "parsed h d ps type (\<lambda>_. True) True (\<lambda>_ _. True) r"
proof -
  from assms have "parsed h d ps type F skip (\<lambda>_ _. True) r" by (rule parsed_mono) (rule TrueI)
  then show ?thesis unfolding parsed_def by blast
qed

text \<open>A parser whose attribute loop cannot end well appends nothing.\<close>

lemma parsed_failed:
  assumes "parsed h d ps type F skip P r" "\<And>rc d' h' e'. r = Some (rc, d', h', e') \<Longrightarrow> rc = MNL_CB_ERROR"
  shows "parsed h d ps type F False (\<lambda>_ _. False) r"
  using assms unfolding parsed_def by fastforce

lemma parse_end_failed:
  assumes "\<And>s' e'. r \<noteq> Some (Next s' e')"
    and "Option.bind r (parse_end message_new free_ob wrap err type q) = Some (rc, d', h', e')"
  shows "rc = MNL_CB_ERROR"
  using assms by (cases r) (auto simp: parse_end_def split: parse.splits)

text \<open>Setters on an object that is there, within a step of the attribute loop.\<close>

lemma store_set_keeps:
  assumes "\<exists>rc ob' e. r = (rc, Some ob', e) \<and> P (ob', d, h) \<and> P (ob', d\<lparr>data_error_str := Some msg\<rparr>, h)"
  shows "parse_all P (store_set r msg (ob, d, h))"
  using assms by (auto simp: store_set_def fail_with_def)

lemma store_set_h_keeps:
  assumes "\<exists>rc ob' h' e. r = Some (rc, Some ob', h', e) \<and> P (ob', d, h') \<and>
      P (ob', d\<lparr>data_error_str := Some msg\<rparr>, h')"
  shows "parse_all P (store_set_h r msg (ob, d, h))"
  using assms by (auto simp: store_set_h_def store_set_def fail_with_def)

end
