(* ===== verification/Codec.thy ===== *)
theory Codec
  imports Core Parsing
begin

text \<open>
  What the five message modules share in their proofs: how the loop of a \<open>*_put\<close> function acts on
  the family specific struct and on the attributes of the message, what an attribute loop collects from
  the attributes written for each property, and the frame of a parser, from the checks of its arguments to
  the message that it appends.
\<close>

section \<open>The message that a put loop writes\<close>

text \<open>\<open>hp i\<close> is what property \<open>i\<close> does to the struct, \<open>ap i\<close> the attributes it appends.\<close>

lemma put_loop_view:
  assumes "\<And>i b. i < mx \<Longrightarrow> bit flags i \<Longrightarrow> hdr (put i b) = hp i (hdr b)"
    and "\<And>i b. i < mx \<Longrightarrow> bit flags i \<Longrightarrow> at (put i b) = at b @ ap i"
  shows "hdr (put_loop mx flags put 0 1 b) =
      fold (\<lambda>i t. if bit flags i then hp i t else t) [0..<mx] (hdr b)"
    and "at (put_loop mx flags put 0 1 b) =
      at b @ concat (map (\<lambda>i. if bit flags i then ap i else []) [0..<mx])"
proof -
  show "hdr (put_loop mx flags put 0 1 b) =
      fold (\<lambda>i t. if bit flags i then hp i t else t) [0..<mx] (hdr b)"
    unfolding put_loop_eq_fold by (rule fold_view) (simp add: assms(1))
  have "at (fold (\<lambda>i m. if bit flags i then put i m else m) [0..<mx] b) =
      fold (\<lambda>i as. as @ (if bit flags i then ap i else [])) [0..<mx] (at b)"
    by (rule fold_view) (simp add: assms(2))
  then show "at (put_loop mx flags put 0 1 b) =
      at b @ concat (map (\<lambda>i. if bit flags i then ap i else []) [0..<mx])"
    unfolding put_loop_eq_fold fold_append_concat .
qed

text \<open>The same for a loop whose bodies may read through bad pointers, where they do not.\<close>

lemma put_loop_Some:
  assumes "\<And>i b. i < mx \<Longrightarrow> bit flags i \<Longrightarrow> f i b = Some (g i b)"
  shows "put_loop mx flags (\<lambda>i m. Option.bind m (f i)) 0 1 (Some b) = Some (put_loop mx flags g 0 1 b)"
proof -
  have "fold (\<lambda>i m. if bit flags i then Option.bind m (f i) else m) is (Some b) =
      Some (fold (\<lambda>i m. if bit flags i then g i m else m) is b)" if "set is \<subseteq> {0..<mx}" for "is"
    using that assms by (induction "is" arbitrary: b) auto
  from this [of "[0..<mx]"] show ?thesis by (simp add: put_loop_eq_fold)
qed

lemma put_loop_view_m:
  assumes "\<And>i b. i < mx \<Longrightarrow> bit flags i \<Longrightarrow>
      \<exists>b'. f i b = Some b' \<and> hdr b' = hp i (hdr b) \<and> at b' = at b @ ap i"
  shows "\<exists>b'. put_loop mx flags (\<lambda>i m. Option.bind m (f i)) 0 1 (Some b) = Some b' \<and>
    hdr b' = fold (\<lambda>i t. if bit flags i then hp i t else t) [0..<mx] (hdr b) \<and>
    at b' = at b @ concat (map (\<lambda>i. if bit flags i then ap i else []) [0..<mx])"
proof -
  let ?g = "\<lambda>i b. the (f i b)"
  have g: "f i b = Some (?g i b)" "hdr (?g i b) = hp i (hdr b)" "at (?g i b) = at b @ ap i"
    if "i < mx" "bit flags i" for i b
    using assms [OF that, of b] by auto
  have "put_loop mx flags (\<lambda>i m. Option.bind m (f i)) 0 1 (Some b) = Some (put_loop mx flags ?g 0 1 b)"
    by (rule put_loop_Some) (rule g)
  moreover have "hdr (put_loop mx flags ?g 0 1 b) = fold (\<lambda>i t. if bit flags i then hp i t else t) [0..<mx] (hdr b)"
    by (rule put_loop_view(1) [where at = at and ap = ap]) (simp_all add: g(2,3))
  moreover have "at (put_loop mx flags ?g 0 1 b) =
      at b @ concat (map (\<lambda>i. if bit flags i then ap i else []) [0..<mx])"
    by (rule put_loop_view(2) [where hdr = hdr and hp = hp]) (simp_all add: g(2,3))
  ultimately show ?thesis by blast
qed

text \<open>A member of the struct that only property \<open>k\<close> writes.\<close>

lemma fold_field:
  assumes "\<And>i t. i < mx \<Longrightarrow> g (hp i t) = (if i = k then v (g t) else g t)"
  shows "g (fold (\<lambda>i t. if bit w i then hp i t else t) [0..<mx] z) = (if k < mx \<and> bit w k then v (g z) else g z)"
  using assms
proof (induction mx)
  case (Suc n)
  then have "g (fold (\<lambda>i t. if bit w i then hp i t else t) [0..<n] z) = (if k < n \<and> bit w k then v (g z) else g z)"
    by simp
  with Suc.prems [of n] show ?case by (auto simp: less_Suc_eq)
qed simp

section \<open>What an attribute loop collects\<close>

text \<open>The result of a parsing step: \<open>N\<close> holds when it goes on, \<open>B\<close> when it has failed.\<close>

definition parse_to :: "('s \<Rightarrow> bool) \<Rightarrow> ('s \<Rightarrow> errno \<Rightarrow> bool) \<Rightarrow> 's parse option \<Rightarrow> bool" where
  "parse_to N B r \<longleftrightarrow> (case r of None \<Rightarrow> False | Some (Fail s e) \<Rightarrow> B s e | Some (Next s _) \<Rightarrow> N s)"

lemma parse_to_simps [simp]:
  "parse_to N B (Some (Fail s e)) = B s e" "parse_to N B (Some (Next s e)) = N s" "parse_to N B None = False"
  by (simp_all add: parse_to_def)

lemma parse_to_all: "parse_all P r \<Longrightarrow> (\<And>s. P s \<Longrightarrow> N s) \<Longrightarrow> (\<And>s e. P s \<Longrightarrow> B s e) \<Longrightarrow> parse_to N B r"
  by (auto simp: parse_all_def parse_to_def split: option.splits parse.splits)

lemma parse_to_mono:
  "parse_to N B r \<Longrightarrow> (\<And>s. N s \<Longrightarrow> N' s) \<Longrightarrow> (\<And>s e. B s e \<Longrightarrow> B' s e) \<Longrightarrow> parse_to N' B' r"
  by (auto simp: parse_to_def split: option.splits parse.splits)

text \<open>A step together with the invariant of the loop, which it keeps in any case.\<close>

lemma parse_to_and:
  "parse_to N B r \<Longrightarrow> parse_all W r \<Longrightarrow> parse_to (\<lambda>s. N s \<and> W s) (\<lambda>s e. W s \<and> B s e) r"
  by (auto simp: parse_to_def parse_all_def split: option.splits parse.splits)

lemma parse_to_append:
  assumes "parse_to N B (attr_loop f as s e)" "\<And>s e. N s \<Longrightarrow> parse_to N' B (attr_loop f bs s e)"
  shows "parse_to N' B (attr_loop f (as @ bs) s e)"
proof (cases "attr_loop f as s e")
  case None
  with assms(1) show ?thesis by simp
next
  case (Some t)
  then show ?thesis using assms by (cases t) (simp_all add: attr_loop_append)
qed

lemma attr_loop_collects:
  assumes "\<And>i D s e. i \<in> set is \<Longrightarrow> A D s \<Longrightarrow> parse_to (A (insert i D)) B (attr_loop f (attr_of i) s e)"
  shows "A D s \<Longrightarrow> parse_to (A (D \<union> set is)) B (attr_loop f (concat (map attr_of is)) s e)"
  using assms
proof (induction "is" arbitrary: D s e)
  case Nil
  then show ?case by simp
next
  case (Cons i "is")
  have "parse_to (A (insert i D)) B (attr_loop f (attr_of i) s e)" using Cons.prems by simp
  moreover have "parse_to (A (insert i D \<union> set is)) B (attr_loop f (concat (map attr_of is)) s' e')"
    if "A (insert i D) s'" for s' e'
    using Cons.IH [OF that, of e'] Cons.prems(2) by simp
  ultimately show ?case by (simp add: parse_to_append)
qed

text \<open>The same in the order of the properties: \<open>A k\<close> holds when those below \<open>k\<close> are done.\<close>

lemma attr_loop_upto:
  assumes "\<And>k s e. k < n \<Longrightarrow> A k s \<Longrightarrow> parse_to (A (Suc k)) B (attr_loop f (attr_of k) s e)" "A 0 s"
  shows "parse_to (A n) B (attr_loop f (concat (map attr_of [0..<n])) s e)"
  using assms
proof (induction n)
  case 0
  then show ?case by simp
next
  case (Suc n)
  from Suc.IH [OF Suc.prems(1,2)] have "parse_to (A n) B (attr_loop f (concat (map attr_of [0..<n])) s e)" by simp
  moreover have "parse_to (A (Suc n)) B (attr_loop f (attr_of n) s' e')" if "A n s'" for s' e'
    using Suc.prems(1) [of n] that by simp
  ultimately show ?case by (simp add: parse_to_append)
qed

lemma parse_all_then:
  assumes "parse_all A (f a s e)" "\<And>s e. A s \<Longrightarrow> parse_all B (attr_loop f as s e)" "\<And>s. A s \<Longrightarrow> B s"
  shows "parse_all B (attr_loop f (a # as) s e)"
proof (cases "f a s e")
  case None
  with assms(1) show ?thesis by simp
next
  case (Some t)
  with assms show ?thesis by (cases t) simp_all
qed

text \<open>
  A loop over attributes of which at most one is of the kind \<open>once\<close>: \<open>A\<close> holds before it,
  \<open>B\<close> behind it.
\<close>

lemma attr_loop_once:
  assumes "\<And>a s e. \<not> once a \<Longrightarrow> A s \<Longrightarrow> parse_all A (f a s e)"
    and "\<And>a s e. \<not> once a \<Longrightarrow> B s \<Longrightarrow> parse_all B (f a s e)"
    and "\<And>a s e. once a \<Longrightarrow> A s \<Longrightarrow> parse_all B (f a s e)"
    and AB: "\<And>s. A s \<Longrightarrow> B s"
  shows "length (filter once as) \<le> 1 \<Longrightarrow> A s \<Longrightarrow> parse_all B (attr_loop f as s e)"
proof (induction as arbitrary: s e)
  case Nil
  then show ?case using AB by simp
next
  case (Cons a as)
  show ?case
  proof (cases "once a")
    case True
    with Cons.prems have "filter once as = []" by simp
    then have none: "\<not> once b" if "b \<in> set as" for b using that by (simp add: filter_empty_conv)
    have rest: "parse_all B (attr_loop f as s' e')" if "B s'" for s' e'
      by (rule attr_loop_all [where P = B]) (use assms(2) none that in blast)+
    from assms(3) [OF True Cons.prems(2), of e] rest show ?thesis by (rule parse_all_then) simp
  next
    case False
    with Cons.prems(1) have "length (filter once as) \<le> 1" by simp
    from parse_all_then [OF assms(1) [OF False Cons.prems(2), of e] Cons.IH [OF this]] AB show ?thesis by blast
  qed
qed

text \<open>An attribute that every state refuses ends the loop in failure, whatever stands before it.\<close>

lemma attr_loop_refuses:
  assumes "a \<in> set as" "\<And>s e. (case f a s e of Some (Next _ _) \<Rightarrow> False | _ \<Rightarrow> True)"
  shows "attr_loop f as s e \<noteq> Some (Next s' e')"
  using assms(1)
proof (induction as arbitrary: s e)
  case (Cons b as)
  show ?case
  proof (cases "a = b")
    case True
    with assms(2) [of s e] show ?thesis by (auto split: option.splits parse.splits)
  next
    case False
    with Cons show ?thesis by (auto split: option.splits parse.splits)
  qed
qed simp

section \<open>The frame of a parser\<close>

lemma parser_parsed:
  assumes ok: "heap_ok h" "data_inv h d ps" and F: "memory_lost h ENOMEM \<longrightarrow> F ENOMEM" "nlmsg_type n \<notin> set types \<longrightarrow> F EBADMSG"
    and types: "nlmsg_type n \<in> set types \<Longrightarrow>
      (\<forall>pl h e. message_new (nlmsg_type n) 0 pl h e = Some (message_with (nlmsg_type n) 0 pl cb h e)) \<and>
      cb_free cb = Some m"
    and m: "\<And>x. payload_cb (wrap x) = m" and free: "\<And>q h. free_ob (Some q) h = call_free m q h"
    and parts: "payload_parts (wrap z) = {}"
    and body: "body n d = (if c then Some (MNL_CB_OK, Some d, h, e)
      else parse_new (wrap z) err d h
        (\<lambda>q h1. Option.bind (loop q h1) (parse_end message_new free_ob wrap err' (nlmsg_type n) q)))"
    and skip: "c \<Longrightarrow> skip"
    and frame: "\<And>h h' x. P h x \<Longrightarrow> strs h' = strs h \<Longrightarrow> arrs h' = arrs h \<Longrightarrow> P h' x"
    and loop: "\<And>q h1. \<not> c \<Longrightarrow> work_inv h d q (wrap z) d h1 \<Longrightarrow>
      parse_to (\<lambda>(ob, d1, h2). work_inv h d q (wrap ob) d1 h2 \<and> P h2 (wrap ob))
        (\<lambda>(ob, d1, h2) e2. work_inv h d q (wrap ob) d1 h2 \<and> F e2) (loop q h1)"
  shows "parsed h d ps (nlmsg_type n) F skip P (parse_start types (Some n) (Some d) h body)"
proof (cases "nlmsg_type n \<in> set types")
  case False
  then show ?thesis using ok F by (intro parse_start_refused) simp_all
next
  case True
  note types = types [OF True]
  show ?thesis
  proof (cases c)
    case c: True
    then show ?thesis
      unfolding parse_start_handled [OF True] body using ok skip by (auto simp: parsed_def)
  next
    case c: False
    have "parsed h d ps (nlmsg_type n) F skip P
        (Option.bind (loop q h1) (parse_end message_new free_ob wrap err' (nlmsg_type n) q))"
      if w: "work_inv h d q (wrap z) d h1" for q h1
    proof -
      from loop [OF c w] obtain ob d1 h2 e2 t where l: "loop q h1 = Some t" "work_inv h d q (wrap ob) d1 h2"
          "t = Fail (ob, d1, h2) e2 \<and> F e2 \<or> t = Next (ob, d1, h2) e2 \<and> P h2 (wrap ob)"
        by (auto simp: parse_to_def split: option.splits parse.splits)
      have "parsed h d ps (nlmsg_type n) F skip P
          (parse_end message_new free_ob wrap err' (nlmsg_type n) q t)"
        using types m free F(1) l(2,3)
        by (intro parse_end_parsed [OF ok, where ob = ob and d = d1 and h = h2 and cb = cb and e = e2]) (auto intro: frame)
      then show ?thesis by (simp add: l(1))
    qed
    then show ?thesis
      unfolding parse_start_handled [OF True] body if_not_P [OF c]
      using F(1) by (intro parse_new_parsed [OF ok parts]) simp_all
  qed
qed

text \<open>The body of such a parser, from an invariant of its attribute loop.\<close>

lemma attr_loop_work:
  assumes "W (ob, d, h1)" and step: "\<And>a s e. a \<in> set as \<Longrightarrow> W s \<Longrightarrow> parse_all W (f a s e)"
    and "\<And>ob d h. W (ob, d, h) \<Longrightarrow> work_inv h0 d0 q (wrap ob) d h \<and> P h (wrap ob)"
  shows "parse_to (\<lambda>(ob, d1, h2). work_inv h0 d0 q (wrap ob) d1 h2 \<and> P h2 (wrap ob))
    (\<lambda>(ob, d1, h2) e2. work_inv h0 d0 q (wrap ob) d1 h2 \<and> True) (attr_loop f as (ob, d, h1) e)"
proof -
  have "parse_all W (attr_loop f as (ob, d, h1) e)" by (rule attr_loop_all [OF step assms(1)])
  then show ?thesis by (rule parse_to_all) (use assms(3) in auto)
qed

section \<open>Strings that an object under construction owns\<close>

text \<open>Replacing an owned string leaves the rest of the heap as it was before the object was created.\<close>

lemma restrict_replace:
  assumes "s |` (- A) = s0" "s q = None" "old \<subseteq> A"
  shows "((s |` (- old))(q \<mapsto> x)) |` (- insert q (A - old)) = s0"
  using assms by (auto simp: restrict_map_def fun_eq_iff split: if_splits)

lemma work_inv_replace_str:
  assumes w: "work_inv h0 d0 a x d h"
    and h': "strs h' = ((strs h) |` (- old))(q \<mapsto> t)" "strs h q = None" "arrs h q = None" "arrs h' = arrs h"
      "objs h' = objs h" "msgs h' = msgs h" "oom h' = oom h" "heap_ok h'"
    and x: "old \<subseteq> set (str_parts x)" "arr_parts x = []" "arr_parts x' = []"
      "set (str_parts x') = insert q (set (str_parts x) - old)" "distinct (str_parts x')"
  shows "work_inv h0 d0 a x' d h'"
proof -
  have p: "payload_parts x = set (str_parts x)" "payload_parts x' = insert q (set (str_parts x) - old)"
    using x by (simp_all add: payload_parts_def)
  from w have s: "(strs h) |` (- set (str_parts x)) = strs h0" and a: "(arrs h) |` (- set (str_parts x)) = arrs h0"
    and l: "parts_live h x" by (simp_all add: work_inv_def p)
  have "(strs h') |` (- payload_parts x') = strs h0"
    unfolding h'(1) p by (rule restrict_replace [OF s h'(2) x(1)])
  moreover have none: "\<And>p. p \<in> set (str_parts x') \<Longrightarrow> arrs h p = None"
    using l h'(3) x(4) by (auto simp: parts_live_def)
  then have "(arrs h') |` (- payload_parts x') = arrs h"
    unfolding h'(4) using x(3) by (intro restrict_none) (auto simp: payload_parts_def)
  moreover have "(arrs h) |` (- set (str_parts x)) = arrs h"
    using l by (intro restrict_none) (auto simp: parts_live_def)
  moreover have "parts_live h' x'"
    using l none x by (auto simp: parts_live_def h'(1,4) restrict_map_def)
  ultimately show ?thesis using w h' a by (simp add: work_inv_def)
qed

lemma work_inv_same_parts:
  assumes "work_inv h0 d0 a x d h" "strs h' = strs h" "arrs h' = arrs h" "objs h' = objs h" "msgs h' = msgs h"
    "oom h' = oom h" "heap_ok h'" "str_parts x' = str_parts x" "arr_parts x' = arr_parts x"
  shows "work_inv h0 d0 a x' d h'"
  using assms by (simp add: work_inv_def parts_live_def payload_parts_def)

section \<open>Addresses in attributes\<close>

lemma payload_inet_prefix:
  assumes L: "libmnl_laws M mk b0 z" and n: "n \<le> 16" "inet_ok a"
  shows "take n (payload_inet M (mk t (inet_bytes n a))) = take n a"
  using n by (intro nth_equalityI) (auto simp: payload_inet_def inet_bytes_def inet_ok_def libmnl_lawsD [OF L])

lemma inet_size_le [simp]: "inet_size f \<le> 16"
  by (simp add: inet_size_def)

lemma in_addr_any_prefix: "take 4 a = take 4 b \<Longrightarrow> in_addr_any a = in_addr_any b"
  by (simp add: in_addr_any_def)

lemma in6_unspecified_prefix: "take 16 a = take 16 b \<Longrightarrow> in6_unspecified a = in6_unspecified b"
  by (simp add: in6_unspecified_def)

lemma length_inet_bytes [simp]: "inet_ok x \<Longrightarrow> length (inet_bytes (inet_size f) x) = inet_size f"
  by (simp add: inet_bytes_def inet_ok_def)

end
