(* ===== verification/RouteData.thy ===== *)
theory RouteData
  imports Codec
begin

text \<open>
  src/rtnl/route_data.c: comparing routes, writing a route into a netlink message, parsing one
  out of a message, and the operations on messages that carry routes. \<open>route_compare\<close>
  interprets the comparison contracts of Props. The loops over the property bits are
  \<open>cmp_loop\<close> and \<open>put_loop\<close> of Prelude, their \<open>switch\<close> statements are
  \<open>mnlxt_rt_route_cmp\<close> and \<open>route_put_prop\<close>; \<open>route_attr\<close> is one round of the
  attribute loop of the parser.
\<close>

section \<open>Comparison\<close>

definition mnlxt_rt_route_cmp :: "mnlxt_rt_route_t \<Rightarrow> mnlxt_rt_route_t \<Rightarrow> nat \<Rightarrow> int" where
  "mnlxt_rt_route_cmp a b data =
     (let failed =
        (if data = MNLXT_RT_ROUTE_FAMILY then route_family a \<noteq> route_family b
         else if data = MNLXT_RT_ROUTE_TABLE then route_table a \<noteq> route_table b
         else if data = MNLXT_RT_ROUTE_TYPE then route_type a \<noteq> route_type b
         else if data = MNLXT_RT_ROUTE_PROTOCOL then route_protocol a \<noteq> route_protocol b
         else if data = MNLXT_RT_ROUTE_SCOPE then route_scope a \<noteq> route_scope b
         else if data = MNLXT_RT_ROUTE_PRIORITY then route_priority a \<noteq> route_priority b
         else if data = MNLXT_RT_ROUTE_IIFINDEX then route_iif_index a \<noteq> route_iif_index b
         else if data = MNLXT_RT_ROUTE_OIFINDEX then route_oif_index a \<noteq> route_oif_index b
         else if data = MNLXT_RT_ROUTE_SRC_PREFIX then route_src_prefix a \<noteq> route_src_prefix b
         else if data = MNLXT_RT_ROUTE_DST_PREFIX then route_dst_prefix a \<noteq> route_dst_prefix b
         else if data = MNLXT_RT_ROUTE_SRC then \<not> inet_memcmp (inet_size (route_family a)) (route_src a) (route_src b)
         else if data = MNLXT_RT_ROUTE_DST then \<not> inet_memcmp (inet_size (route_family a)) (route_dst a) (route_dst b)
         else if data = MNLXT_RT_ROUTE_GATEWAY then \<not> inet_memcmp (inet_size (route_family a)) (route_gateway a) (route_gateway b)
         else False)
      in if failed then int data + 1 else 0)"

definition mnlxt_rt_route_compare ::
  "mnlxt_rt_route_t option \<Rightarrow> mnlxt_rt_route_t option \<Rightarrow> u64 \<Rightarrow> errno \<Rightarrow> int \<times> errno" where
  "mnlxt_rt_route_compare a b flt e =
     (case (a, b) of
        (Some x, Some y) \<Rightarrow>
          (cmp_loop (MNLXT_RT_ROUTE_MAX) flt (ucast (route_prop_flags x)) (ucast (route_prop_flags y)) (mnlxt_rt_route_cmp x y) 0 1, e)
      | _ \<Rightarrow> (- 1, EINVAL))"

definition mnlxt_rt_route_match ::
  "mnlxt_rt_route_t option \<Rightarrow> mnlxt_rt_route_t option \<Rightarrow> errno \<Rightarrow> int \<times> errno" where
  "mnlxt_rt_route_match a m e =
     (case m of None \<Rightarrow> (- 1, EINVAL)
      | Some y \<Rightarrow> mnlxt_rt_route_compare a m (ucast (route_prop_flags y)) e)"

section \<open>Messages that carry a route\<close>

definition mnlxt_rt_route_get :: "mnlxt_message_t option \<Rightarrow> ptr option" where
  "mnlxt_rt_route_get message =
     (case message of None \<Rightarrow> None
      | Some m \<Rightarrow> if msg_type m \<in> {RTM_NEWROUTE, RTM_GETROUTE, RTM_DELROUTE} then msg_payload m else None)"

definition mnlxt_rt_route_remove :: "ptr option \<Rightarrow> pheap \<Rightarrow> (ptr option \<times> pheap) option" where
  "mnlxt_rt_route_remove message h = take_payload mnlxt_rt_route_get message h"

section \<open>Writing a message\<close>

text \<open>\<open>struct rtmsg\<close> and the attributes of linux/rtnetlink.h.\<close>

record rtmsg =
  rtm_family :: u8
  rtm_dst_len :: u8
  rtm_src_len :: u8
  rtm_tos :: u8
  rtm_table :: u8
  rtm_protocol :: u8
  rtm_scope :: u8
  rtm_type :: u8
  rtm_flags :: u32

definition rtmsg_zero :: rtmsg where
  "rtmsg_zero = \<lparr>rtm_family = 0, rtm_dst_len = 0, rtm_src_len = 0, rtm_tos = 0, rtm_table = 0,
     rtm_protocol = 0, rtm_scope = 0, rtm_type = 0, rtm_flags = 0\<rparr>"

abbreviation RTA_UNSPEC :: nat where "RTA_UNSPEC \<equiv> 0"
abbreviation RTA_IIF :: nat where "RTA_IIF \<equiv> 3"
abbreviation RTA_OIF :: nat where "RTA_OIF \<equiv> 4"
abbreviation RTA_GATEWAY :: nat where "RTA_GATEWAY \<equiv> 5"
abbreviation RTA_PRIORITY :: nat where "RTA_PRIORITY \<equiv> 6"
abbreviation RTA_MAX :: nat where "RTA_MAX \<equiv> 30"

type_synonym ('b, 'a) rt_mnl = "(rtmsg, 'b, 'a) libmnl"

definition route_put_prop :: "('b, 'a) rt_mnl \<Rightarrow> mnlxt_rt_route_t \<Rightarrow> nat \<Rightarrow> nat \<Rightarrow> 'b \<Rightarrow> 'b" where
  "route_put_prop M route family_size i b =
     (if i = MNLXT_RT_ROUTE_FAMILY then hdr_upd M (\<lambda>r. r\<lparr>rtm_family := route_family route\<rparr>) b
      else if i = MNLXT_RT_ROUTE_TABLE then hdr_upd M (\<lambda>r. r\<lparr>rtm_table := route_table route\<rparr>) b
      else if i = MNLXT_RT_ROUTE_TYPE then hdr_upd M (\<lambda>r. r\<lparr>rtm_type := route_type route\<rparr>) b
      else if i = MNLXT_RT_ROUTE_PROTOCOL then hdr_upd M (\<lambda>r. r\<lparr>rtm_protocol := route_protocol route\<rparr>) b
      else if i = MNLXT_RT_ROUTE_SCOPE then hdr_upd M (\<lambda>r. r\<lparr>rtm_scope := route_scope route\<rparr>) b
      else if i = MNLXT_RT_ROUTE_PRIORITY then attr_put_u32 M RTA_PRIORITY (route_priority route) b
      else if i = MNLXT_RT_ROUTE_OIFINDEX then attr_put_u32 M RTA_OIF (route_oif_index route) b
      else if i = MNLXT_RT_ROUTE_IIFINDEX then attr_put_u32 M RTA_IIF (route_iif_index route) b
      else if i = MNLXT_RT_ROUTE_SRC_PREFIX then hdr_upd M (\<lambda>r. r\<lparr>rtm_src_len := route_src_prefix route\<rparr>) b
      else if i = MNLXT_RT_ROUTE_DST_PREFIX then hdr_upd M (\<lambda>r. r\<lparr>rtm_dst_len := route_dst_prefix route\<rparr>) b
      else if i = MNLXT_RT_ROUTE_SRC then attr_put M RTA_SRC (inet_bytes family_size (route_src route)) b
      else if i = MNLXT_RT_ROUTE_DST then attr_put M RTA_DST (inet_bytes family_size (route_dst route)) b
      else if i = MNLXT_RT_ROUTE_GATEWAY then
        attr_put M RTA_GATEWAY (inet_bytes family_size (route_gateway route)) b
      else b)"

definition mnlxt_rt_route_put ::
  "('b, 'a) rt_mnl \<Rightarrow> 'b nlmsghdr option \<Rightarrow> mnlxt_rt_route_t option \<Rightarrow> errno \<Rightarrow>
     int \<times> 'b nlmsghdr option \<times> errno" where
  "mnlxt_rt_route_put M nlh route e =
     (case (route, nlh) of
        (Some r, Some n) \<Rightarrow>
          (0, Some (n\<lparr>nlmsg_body :=
             put_loop (MNLXT_RT_ROUTE_MAX) (route_prop_flags r)
               (route_put_prop M r (inet_size (route_family r))) 0 1
               (put_extra_header M (nlmsg_body n))\<rparr>), e)
      | _ \<Rightarrow> (- 1, nlh, EINVAL))"

section \<open>Parsing a message\<close>

type_synonym route_state = "(mnlxt_rt_route_t, mnlxt_xfrm_tmpl_t, payload) pstate"

definition route_attr ::
  "('b, 'a) rt_mnl \<Rightarrow> nat \<Rightarrow> rtmsg \<Rightarrow> 'a \<Rightarrow> route_state \<Rightarrow> errno \<Rightarrow> route_state parse option" where
  "route_attr M family_size rtm a s e =
     (let type = attr_type M a; route = Some (fst s) in
      case attr_type_valid M a RTA_MAX e of (v, e0) \<Rightarrow>
        if v < 0 then Some (Next s e0)
        else if type = RTA_DST then
          on_valid (attr_validate2 M a MNL_TYPE_BINARY family_size e0) ''RTA_DST validation failed'' s
            (\<lambda>e1. store_set (mnlxt_rt_route_set_dst route (rtm_family rtm) (Some (payload_inet M a)) e1)
               ''mnlxt_rt_route_set_dst failed'' s)
        else if type = RTA_SRC then
          on_valid (attr_validate2 M a MNL_TYPE_BINARY family_size e0) ''RTA_SRC validation failed'' s
            (\<lambda>e1. store_set (mnlxt_rt_route_set_src route (rtm_family rtm) (Some (payload_inet M a)) e1)
               ''mnlxt_rt_route_set_src failed'' s)
        else if type = RTA_GATEWAY then
          on_valid (attr_validate2 M a MNL_TYPE_BINARY family_size e0) ''RTA_GATEWAY validation failed'' s
            (\<lambda>e1. store_set (mnlxt_rt_route_set_gateway route (rtm_family rtm) (Some (payload_inet M a)) e1)
               ''mnlxt_rt_route_set_gateway failed'' s)
        else if type = RTA_PRIORITY then
          on_valid (attr_validate M a MNL_TYPE_U32 e0) ''RTA_PRIORITY validation failed'' s
            (\<lambda>e1. store_set (mnlxt_rt_route_set_priority route (attr_get_u32 M a) e1)
               ''mnlxt_rt_route_set_priority failed'' s)
        else if type = RTA_OIF then
          on_valid (attr_validate M a MNL_TYPE_U32 e0) ''RTA_OIF validation failed'' s
            (\<lambda>e1. store_set (mnlxt_rt_route_set_oifindex route (attr_get_u32 M a) e1)
               ''mnlxt_rt_route_set_oif_index failed'' s)
        else if type = RTA_IIF then
          on_valid (attr_validate M a MNL_TYPE_U32 e0) ''RTA_IIF validation failed'' s
            (\<lambda>e1. store_set (mnlxt_rt_route_set_iifindex route (attr_get_u32 M a) e1)
               ''mnlxt_rt_route_set_iif_index failed'' s)
        else Some (Next s e0))"

text \<open>The setters that run before the attributes, their results ignored.\<close>

definition route_from_hdr :: "rtmsg \<Rightarrow> errno \<Rightarrow> mnlxt_rt_route_t \<times> errno" where
  "route_from_hdr rtm e =
     run_setters
       [\<lambda>p. mnlxt_rt_route_set_family p (rtm_family rtm),
        \<lambda>p. mnlxt_rt_route_set_protocol p (rtm_protocol rtm),
        \<lambda>p. mnlxt_rt_route_set_table p (rtm_table rtm),
        \<lambda>p. mnlxt_rt_route_set_type p (rtm_type rtm),
        \<lambda>p. mnlxt_rt_route_set_scope p (rtm_scope rtm),
        \<lambda>p. mnlxt_rt_route_set_dst_prefix p (rtm_dst_len rtm),
        \<lambda>p. mnlxt_rt_route_set_src_prefix p (rtm_src_len rtm)] route_zero e"

definition mnlxt_rt_route_data ::
  "('b, 'a) rt_mnl \<Rightarrow> 'b nlmsghdr option \<Rightarrow> mnlxt_data_t option \<Rightarrow> pheap \<Rightarrow> errno \<Rightarrow>
     (int \<times> mnlxt_data_t option \<times> pheap \<times> errno) option" where
  "mnlxt_rt_route_data M nlh data h e =
     parse_start [RTM_GETROUTE, RTM_NEWROUTE, RTM_DELROUTE] nlh data h
       (\<lambda>n d. let rtm = hdr_read M (nlmsg_body n) in
          if AF_INET \<noteq> rtm_family rtm \<and> AF_INET6 \<noteq> rtm_family rtm
          then Some (MNL_CB_OK, Some d, h, e)
          else
            parse_new (PRoute route_zero) ''mnlxt_rt_route_new failed'' d h
              (\<lambda>q h1. case route_from_hdr rtm e of (r, e1) \<Rightarrow>
                 Option.bind
                   (attr_loop (route_attr M (inet_size (rtm_family rtm)) rtm) (attrs M (nlmsg_body n))
                     (r, d, h1) e1)
                   (parse_end mnlxt_rt_message_new mnlxt_rt_route_free PRoute
                      ''mnlxt_rt_message_new failed'' (nlmsg_type n) q)))"

section \<open>Iterating, dumping and requesting\<close>

definition mnlxt_rt_route_iterate ::
  "mnlxt_data_t option \<Rightarrow> ptr option option \<Rightarrow> pheap \<Rightarrow> errno \<Rightarrow>
     (ptr option \<times> ptr option option \<times> errno) option" where
  "mnlxt_rt_route_iterate data iterator h e =
     (case iterator of None \<Rightarrow> Some (None, None, e)
      | Some it \<Rightarrow>
          map_option (\<lambda>(pl, it', e'). (pl, Some it', e'))
            (iterate_loop (\<lambda>m. mnlxt_rt_route_get (Some m)) data it h e))"

definition mnlxt_rt_route_dump ::
  "('w, 'f, 'b) netio \<Rightarrow> 'b callbacks \<Rightarrow> mnlxt_data_t option \<Rightarrow> u8 \<Rightarrow> pheap \<Rightarrow> 'w \<Rightarrow> errno \<Rightarrow>
     (int \<times> mnlxt_data_t option \<times> pheap \<times> 'w \<times> errno) option" where
  "mnlxt_rt_route_dump io cbs data family h w e =
     (if AF_INET \<noteq> family \<and> AF_INET6 \<noteq> family \<and> AF_UNSPEC \<noteq> family
      then Some (- 1, data, h, w, EAFNOSUPPORT)
      else mnlxt_rt_data_dump io cbs data RTM_GETROUTE family h w e)"

text \<open>The caller's pointer is cleared when the message has taken the object over.\<close>

definition mnlxt_rt_route_message ::
  "ptr option option \<Rightarrow> u16 \<Rightarrow> u16 \<Rightarrow> pheap \<Rightarrow> errno \<Rightarrow>
     (ptr option \<times> ptr option option \<times> pheap \<times> errno) option" where
  "mnlxt_rt_route_message ob type flags h e =
     (case ob of
        Some (Some q) \<Rightarrow>
          if type \<notin> {RTM_NEWROUTE, RTM_DELROUTE} then Some (None, ob, h, EINVAL)
          else
            map_option (\<lambda>(msg, h', e'). (msg, if msg = None then ob else Some None, h', e'))
              (mnlxt_rt_message_new type flags (Some q) h e)
      | _ \<Rightarrow> Some (None, ob, h, EINVAL))"

definition mnlxt_rt_route_request ::
  "('w, 'f, 'b) netio \<Rightarrow> 'b callbacks \<Rightarrow> ptr option \<Rightarrow> u16 \<Rightarrow> u16 \<Rightarrow> pheap \<Rightarrow> 'w \<Rightarrow> errno \<Rightarrow>
     (int \<times> pheap \<times> 'w \<times> errno) option" where
  "mnlxt_rt_route_request io cbs ob type flags h w e =
     object_request
       (\<lambda>p h e. map_option (\<lambda>(msg, _, h', e'). (msg, h', e')) (mnlxt_rt_route_message (Some p) type flags h e))
       mnlxt_rt_route_remove (mnlxt_rt_message_request io cbs) ob h w e"

section \<open>What comparison decides\<close>

interpretation route_compare: prop_match "\<lambda>_. True" mnlxt_rt_route_compare mnlxt_rt_route_cmp route_prop_flags
  MNLXT_RT_ROUTE_MAX mnlxt_rt_route_match
  by unfold_locales (auto simp: mnlxt_rt_route_compare_def mnlxt_rt_route_match_def split: option.splits)

lemma route_cmp_refl: "mnlxt_rt_route_cmp r r i = 0"
  by (simp add: mnlxt_rt_route_cmp_def)

lemma route_cmp_sym:
  "route_family a = route_family b \<Longrightarrow> mnlxt_rt_route_cmp a b i = 0 \<Longrightarrow> mnlxt_rt_route_cmp b a i = 0"
  unfolding mnlxt_rt_route_cmp_def Let_def
  by (auto split: if_splits dest: inet_memcmp_sym)

section \<open>Parsing appends a well formed route or changes nothing\<close>

lemma route_set_src_never_null: "\<exists>rc r' e'. mnlxt_rt_route_set_src (Some r) f (Some a) e = (rc, Some r', e')"
  using route_set_family_never_null [of r f e] by (auto simp: mnlxt_rt_route_set_src_def)

lemma route_set_dst_never_null: "\<exists>rc r' e'. mnlxt_rt_route_set_dst (Some r) f (Some a) e = (rc, Some r', e')"
  using route_set_family_never_null [of r f e] by (auto simp: mnlxt_rt_route_set_dst_def)

lemma route_set_gateway_never_null:
  "\<exists>rc r' e'. mnlxt_rt_route_set_gateway (Some r) f (Some a) e = (rc, Some r', e')"
  using route_set_family_never_null [of r f e] by (auto simp: mnlxt_rt_route_set_gateway_def)

text \<open>What holds of the route during parsing: its family is set and nothing set is lost.\<close>

definition route_work :: "pheap \<Rightarrow> mnlxt_data_t \<Rightarrow> ptr \<Rightarrow> mnlxt_rt_route_t \<Rightarrow> route_state \<Rightarrow> bool" where
  "route_work h0 d0 q r0 s \<longleftrightarrow>
     (case s of (r, d, h) \<Rightarrow> work_inv h0 d0 q (PRoute route_zero) d h \<and> route_inv r \<and> route_ext r0 r)"

lemma work_inv_route: "work_inv h0 d0 q (PRoute r) d h = work_inv h0 d0 q (PRoute r') d h"
  by (simp add: work_inv_def parts_live_def payload_parts_def)

lemma route_step_keeps:
  assumes "route_work h0 d0 q r0 (r, d, h)" "\<exists>rc r' e'. x = (rc, Some r', e')"
    "\<And>rc r' e'. x = (rc, Some r', e') \<Longrightarrow> (route_inv r \<longrightarrow> route_inv r') \<and> route_ext r r'"
  shows "parse_all (route_work h0 d0 q r0) (store_set x msg (r, d, h))"
proof -
  from assms(2) obtain rc r' e' where x: "x = (rc, Some r', e')" by blast
  with assms(1,3) show ?thesis
    by (intro store_set_keeps) (auto simp: route_work_def intro: route_ext_trans)
qed

lemma route_set_ptr_never_null: "\<exists>rc r' e'. mnlxt_rt_route_set_ptr (Some r) i v e = (rc, Some r', e')"
  using route_obj.set_never_null by blast

lemma route_attr_keeps:
  assumes "route_work h0 d0 q r0 s"
  shows "parse_all (route_work h0 d0 q r0) (route_attr M n rtm a s e)"
proof -
  obtain r d h where s: "s = (r, d, h)" by (cases s)
  note w = assms [unfolded s]
  from w have we: "route_work h0 d0 q r0 (r, d\<lparr>data_error_str := Some msg\<rparr>, h)" for msg
    by (simp add: route_work_def)
  have a: "route_api r r' \<Longrightarrow> (route_inv r \<longrightarrow> route_inv r') \<and> route_ext r r'" for r' by (rule route_api_keeps)
  have dst: "parse_all (route_work h0 d0 q r0)
      (store_set (mnlxt_rt_route_set_dst (Some r) f (Some (payload_inet M a)) e1) msg (r, d, h))" for f e1 msg
    by (rule route_step_keeps [OF w route_set_dst_never_null]) (rule route_set_dst_keeps, simp_all)
  have src: "parse_all (route_work h0 d0 q r0)
      (store_set (mnlxt_rt_route_set_src (Some r) f (Some (payload_inet M a)) e1) msg (r, d, h))" for f e1 msg
    by (rule route_step_keeps [OF w route_set_src_never_null]) (rule route_set_src_keeps, simp_all)
  have gw: "parse_all (route_work h0 d0 q r0)
      (store_set (mnlxt_rt_route_set_gateway (Some r) f (Some (payload_inet M a)) e1) msg (r, d, h))" for f e1 msg
    by (rule route_step_keeps [OF w route_set_gateway_never_null]) (rule route_set_gateway_keeps, simp_all)
  have num: "parse_all (route_work h0 d0 q r0)
      (store_set (mnlxt_rt_route_set_ptr (Some r) i v e1) msg (r, d, h))"
    if "i \<noteq> MNLXT_RT_ROUTE_FAMILY" for i v e1 msg
    by (rule route_step_keeps [OF w route_set_ptr_never_null]) (rule route_set_ptr_keeps, use that in simp_all)
  note numeric = mnlxt_rt_route_set_priority_def mnlxt_rt_route_set_oifindex_def mnlxt_rt_route_set_iifindex_def
    mnlxt_rt_route_set_u32_def
  show ?thesis
    using w unfolding s route_attr_def Let_def fst_conv numeric
    by (cases "attr_type_valid M a RTA_MAX e")
      (auto intro!: on_valid_all we dst src gw num simp: prod.case)
qed

lemma route_from_hdr_eq:
  assumes "rtm_family rtm = AF_INET \<or> rtm_family rtm = AF_INET6"
  shows "route_from_hdr rtm e =
    (route_zero\<lparr>route_family := rtm_family rtm, route_protocol := rtm_protocol rtm, route_table := rtm_table rtm,
       route_type := rtm_type rtm, route_scope := rtm_scope rtm, route_dst_prefix := rtm_dst_len rtm,
       route_src_prefix := rtm_src_len rtm,
       route_prop_flags := fold (\<lambda>i w. set_prop_flag w i)
         [MNLXT_RT_ROUTE_FAMILY, MNLXT_RT_ROUTE_PROTOCOL, MNLXT_RT_ROUTE_TABLE, MNLXT_RT_ROUTE_TYPE,
          MNLXT_RT_ROUTE_SCOPE, MNLXT_RT_ROUTE_DST_PREFIX, MNLXT_RT_ROUTE_SRC_PREFIX] 0\<rparr>, e)"
  using assms
  by (auto simp: route_from_hdr_def mnlxt_rt_route_set_family_def mnlxt_rt_route_set_protocol_def
      mnlxt_rt_route_set_table_def mnlxt_rt_route_set_type_def mnlxt_rt_route_set_scope_def
      mnlxt_rt_route_set_dst_prefix_def mnlxt_rt_route_set_src_prefix_def mnlxt_rt_route_set_u8_def
      mnlxt_rt_route_set_ptr_def route_data_def route_store_def route_zero_def)

lemma route_from_hdr_inv:
  assumes "rtm_family rtm = AF_INET \<or> rtm_family rtm = AF_INET6"
  shows "route_inv (fst (route_from_hdr rtm e))"
  using assms by (auto simp: route_from_hdr_eq route_inv_def route_zero_def)

abbreviation route_loop ::
  "('b, 'a) rt_mnl \<Rightarrow> 'b nlmsghdr \<Rightarrow> mnlxt_data_t \<Rightarrow> errno \<Rightarrow> ptr \<Rightarrow> pheap \<Rightarrow> route_state parse option" where
  "route_loop M n d e q h1 \<equiv>
     attr_loop (route_attr M (inet_size (rtm_family (hdr_read M (nlmsg_body n)))) (hdr_read M (nlmsg_body n)))
       (attrs M (nlmsg_body n)) (fst (route_from_hdr (hdr_read M (nlmsg_body n)) e), d, h1)
       (snd (route_from_hdr (hdr_read M (nlmsg_body n)) e))"

text \<open>The messages that the parser accepts.\<close>

abbreviation route_types :: "u16 list" where
  "route_types \<equiv> [RTM_GETROUTE, RTM_NEWROUTE, RTM_DELROUTE]"

lemma route_parse_frame:
  assumes ok: "heap_ok h" "data_inv h d ps"
    and F: "memory_lost h ENOMEM \<longrightarrow> F ENOMEM" "nlmsg_type n \<notin> set route_types \<longrightarrow> F EBADMSG"
    and skip: "rtm_family (hdr_read M (nlmsg_body n)) \<notin> {AF_INET, AF_INET6} \<Longrightarrow> skip"
    and frame: "\<And>h h' x. P h x \<Longrightarrow> strs h' = strs h \<Longrightarrow> arrs h' = arrs h \<Longrightarrow> P h' x"
    and loop: "\<And>q h1. rtm_family (hdr_read M (nlmsg_body n)) \<in> {AF_INET, AF_INET6} \<Longrightarrow>
      work_inv h d q (PRoute route_zero) d h1 \<Longrightarrow>
      parse_to (\<lambda>(r, d1, h2). work_inv h d q (PRoute r) d1 h2 \<and> P h2 (PRoute r))
        (\<lambda>(r, d1, h2) e2. work_inv h d q (PRoute r) d1 h2 \<and> F e2) (route_loop M n d e q h1)"
  shows "parsed h d ps (nlmsg_type n) F skip P (mnlxt_rt_route_data M (Some n) (Some d) h e)"
  unfolding mnlxt_rt_route_data_def
proof (rule parser_parsed [OF ok F, where cb = "rt_data_handlers ! unat (nlmsg_type n)" and m = RtRoute
      and wrap = PRoute and z = route_zero and message_new = mnlxt_rt_message_new and free_ob = mnlxt_rt_route_free
      and c = "AF_INET \<noteq> rtm_family (hdr_read M (nlmsg_body n)) \<and> AF_INET6 \<noteq> rtm_family (hdr_read M (nlmsg_body n))"
      and err = "''mnlxt_rt_route_new failed''" and err' = "''mnlxt_rt_message_new failed''" and e = e
      and loop = "route_loop M n d e"], goal_cases)
  case 1
  then have "unat (nlmsg_type n) < 35" "cb_name (rt_data_handlers ! unat (nlmsg_type n)) \<noteq> None"
    by (auto simp: rt_handlers_nth handler_def)
  with 1 show ?case by (auto simp: rt_message_new_found) (auto simp: rt_handlers_nth handler_def)
next
  case (7 h h' x)
  then show ?case by (rule frame)
qed (use skip loop in \<open>simp_all add: Let_def case_prod_beta payload_parts_def\<close>)

lemma route_data_parsed:
  assumes ok: "heap_ok h" "data_inv h d ps"
  shows "parsed h d ps (nlmsg_type n) (\<lambda>_. True) True
    (\<lambda>_ x. \<exists>r. x = PRoute r \<and> route_inv r \<and> route_has r MNLXT_RT_ROUTE_FAMILY \<and>
       route_family r = rtm_family (hdr_read M (nlmsg_body n)))
    (mnlxt_rt_route_data M (Some n) (Some d) h e)"
proof (rule route_parse_frame [OF ok], goal_cases)
  case (5 q h1)
  let ?rtm = "hdr_read M (nlmsg_body n)"
  let ?r0 = "fst (route_from_hdr ?rtm e)"
  from 5 have fam: "rtm_family ?rtm = AF_INET \<or> rtm_family ?rtm = AF_INET6" by simp
  have r0: "route_has ?r0 MNLXT_RT_ROUTE_FAMILY" "route_family ?r0 = rtm_family ?rtm"
    using fam by (auto simp: route_from_hdr_eq)
  show ?case
  proof (rule attr_loop_work [where W = "route_work h d q ?r0"])
    show "route_work h d q ?r0 (?r0, d, h1)"
      using 5 route_from_hdr_inv [of ?rtm e] fam by (auto simp: route_work_def)
  next
    fix r d1 h2 assume "route_work h d q ?r0 (r, d1, h2)"
    then have "work_inv h d q (PRoute route_zero) d1 h2" "route_inv r" "route_ext ?r0 r"
      by (simp_all add: route_work_def)
    with r0 show "work_inv h d q (PRoute r) d1 h2 \<and> (\<exists>ra. PRoute r = PRoute ra \<and> route_inv ra \<and>
        route_has ra MNLXT_RT_ROUTE_FAMILY \<and> route_family ra = rtm_family ?rtm)"
      using work_inv_route [of h d q r d1 h2 route_zero] by (simp add: route_ext_def)
  qed (rule route_attr_keeps)
qed simp_all

section \<open>Writing and parsing back\<close>

text \<open>What \<open>route_put_prop\<close> does to the struct and to the attributes of the message.\<close>

definition route_hdr_prop :: "mnlxt_rt_route_t \<Rightarrow> nat \<Rightarrow> rtmsg \<Rightarrow> rtmsg" where
  "route_hdr_prop r i t =
     (if i = MNLXT_RT_ROUTE_FAMILY then t\<lparr>rtm_family := route_family r\<rparr>
      else if i = MNLXT_RT_ROUTE_TABLE then t\<lparr>rtm_table := route_table r\<rparr>
      else if i = MNLXT_RT_ROUTE_TYPE then t\<lparr>rtm_type := route_type r\<rparr>
      else if i = MNLXT_RT_ROUTE_PROTOCOL then t\<lparr>rtm_protocol := route_protocol r\<rparr>
      else if i = MNLXT_RT_ROUTE_SCOPE then t\<lparr>rtm_scope := route_scope r\<rparr>
      else if i = MNLXT_RT_ROUTE_SRC_PREFIX then t\<lparr>rtm_src_len := route_src_prefix r\<rparr>
      else if i = MNLXT_RT_ROUTE_DST_PREFIX then t\<lparr>rtm_dst_len := route_dst_prefix r\<rparr>
      else t)"

definition route_attr_of :: "(nat \<Rightarrow> u8 list \<Rightarrow> 'a) \<Rightarrow> mnlxt_rt_route_t \<Rightarrow> nat \<Rightarrow> 'a list" where
  "route_attr_of mk r i =
     (if i = MNLXT_RT_ROUTE_PRIORITY then [mk RTA_PRIORITY (le32 (route_priority r))]
      else if i = MNLXT_RT_ROUTE_OIFINDEX then [mk RTA_OIF (le32 (route_oif_index r))]
      else if i = MNLXT_RT_ROUTE_IIFINDEX then [mk RTA_IIF (le32 (route_iif_index r))]
      else if i = MNLXT_RT_ROUTE_SRC then [mk RTA_SRC (inet_bytes (inet_size (route_family r)) (route_src r))]
      else if i = MNLXT_RT_ROUTE_DST then [mk RTA_DST (inet_bytes (inet_size (route_family r)) (route_dst r))]
      else if i = MNLXT_RT_ROUTE_GATEWAY then
        [mk RTA_GATEWAY (inet_bytes (inet_size (route_family r)) (route_gateway r))]
      else [])"

lemma route_put_prop_view:
  assumes L: "libmnl_laws M mk b0 z"
  shows "hdr_read M (route_put_prop M r (inet_size (route_family r)) i b) = route_hdr_prop r i (hdr_read M b)"
    and "attrs M (route_put_prop M r (inet_size (route_family r)) i b) = attrs M b @ route_attr_of mk r i"
  by (simp_all add: route_put_prop_def route_hdr_prop_def route_attr_of_def hdr_upd_def libmnl_lawsD [OF L])

lemma route_put_view:
  fixes r :: mnlxt_rt_route_t and M :: "('b, 'a) rt_mnl"
  assumes L: "libmnl_laws M mk b0 rtmsg_zero"
  defines "b \<equiv> put_loop (MNLXT_RT_ROUTE_MAX) (route_prop_flags r)
      (route_put_prop M r (inet_size (route_family r))) 0 1 (put_extra_header M b0)"
  shows "hdr_read M b =
      fold (\<lambda>i t. if route_has r i then route_hdr_prop r i t else t) [0..<MNLXT_RT_ROUTE_MAX] rtmsg_zero"
    and "attrs M b =
      concat (map (\<lambda>i. if route_has r i then route_attr_of mk r i else []) [0..<MNLXT_RT_ROUTE_MAX])"
  unfolding b_def
  using put_loop_view [of MNLXT_RT_ROUTE_MAX "route_prop_flags r" "hdr_read M"
      "route_put_prop M r (inet_size (route_family r))" "route_hdr_prop r" "attrs M" "route_attr_of mk r"
      "put_extra_header M b0"]
  by (simp_all add: route_put_prop_view [OF L] libmnl_lawsD(1,2) [OF L])

text \<open>The parsed route \<open>r'\<close> has the properties \<open>D\<close> of \<open>r\<close>.\<close>

definition route_agrees :: "mnlxt_rt_route_t \<Rightarrow> nat set \<Rightarrow> mnlxt_rt_route_t \<Rightarrow> bool" where
  "route_agrees r D r' \<longleftrightarrow>
     route_has r' MNLXT_RT_ROUTE_FAMILY \<and> route_family r' = route_family r \<and>
     (\<forall>i \<in> D. route_has r i \<longrightarrow> route_has r' i \<and> mnlxt_rt_route_cmp r' r i = 0)"

abbreviation route_hdr_props :: "nat set" where
  "route_hdr_props \<equiv> {MNLXT_RT_ROUTE_FAMILY, MNLXT_RT_ROUTE_TYPE, MNLXT_RT_ROUTE_TABLE, MNLXT_RT_ROUTE_PROTOCOL,
     MNLXT_RT_ROUTE_SCOPE, MNLXT_RT_ROUTE_SRC_PREFIX, MNLXT_RT_ROUTE_DST_PREFIX}"

abbreviation route_attr_props :: "nat set" where
  "route_attr_props \<equiv> {MNLXT_RT_ROUTE_PRIORITY, MNLXT_RT_ROUTE_IIFINDEX, MNLXT_RT_ROUTE_OIFINDEX,
     MNLXT_RT_ROUTE_SRC, MNLXT_RT_ROUTE_DST, MNLXT_RT_ROUTE_GATEWAY}"

lemma route_agrees_num:
  assumes "route_agrees r D r'" "i \<in> {MNLXT_RT_ROUTE_PRIORITY, MNLXT_RT_ROUTE_IIFINDEX, MNLXT_RT_ROUTE_OIFINDEX}"
  shows "route_agrees r (insert i D)
    (route_store i (route_load i r) (r'\<lparr>route_prop_flags := set_prop_flag (route_prop_flags r') i\<rparr>))"
proof -
  let ?r = "route_store i (route_load i r) (r'\<lparr>route_prop_flags := set_prop_flag (route_prop_flags r') i\<rparr>)"
  have cmp: "mnlxt_rt_route_cmp ?r r j = (if j = i then 0 else mnlxt_rt_route_cmp r' r j)" for j
    using assms(2) unfolding mnlxt_rt_route_cmp_def Let_def
    by (cases "j = i") (elim insertE emptyE; simp add: route_store_def route_load_def cong: if_cong split del: if_split)+
  have "route_family ?r = route_family r'" using assms(2) by (auto simp: route_store_def)
  moreover have "bit (route_prop_flags ?r) j = (bit (route_prop_flags r') j \<or> j = i)" for j
    using assms(2) by auto
  ultimately show ?thesis using assms(1) unfolding route_agrees_def cmp by auto
qed

lemma route_num_attr:
  assumes L: "libmnl_laws M mk b0 z" and i: "i \<in> {MNLXT_RT_ROUTE_PRIORITY, MNLXT_RT_ROUTE_IIFINDEX, MNLXT_RT_ROUTE_OIFINDEX}"
  shows "\<exists>a. route_attr_of mk r i = [a] \<and> route_attr M n rtm a (r', d, h) e = Some (Next
    (route_store i (route_load i r) (r'\<lparr>route_prop_flags := set_prop_flag (route_prop_flags r') i\<rparr>), d, h) e)"
  using i
  by (auto simp: route_attr_of_def route_attr_def libmnl_lawsD [OF L] on_valid_def store_set_def Let_def
      mnlxt_rt_route_set_priority_def mnlxt_rt_route_set_iifindex_def mnlxt_rt_route_set_oifindex_def
      mnlxt_rt_route_set_u32_def mnlxt_rt_route_set_ptr_def route_data_def route_store_def route_load_def)

lemma route_set_family_same:
  "route_has r' MNLXT_RT_ROUTE_FAMILY \<Longrightarrow> route_family r' = f \<Longrightarrow> f = AF_INET \<or> f = AF_INET6 \<Longrightarrow>
     mnlxt_rt_route_set_family (Some r') f e = (0, Some r', e)"
  by (auto simp: mnlxt_rt_route_set_family_def)

lemma route_addr_attr:
  assumes L: "libmnl_laws M mk b0 z" and inv: "route_inv r" and has: "route_has r MNLXT_RT_ROUTE_FAMILY" "route_has r i"
    and i: "i \<in> {MNLXT_RT_ROUTE_SRC, MNLXT_RT_ROUTE_DST, MNLXT_RT_ROUTE_GATEWAY}"
    and ag: "route_agrees r D r'" and rtm: "rtm_family rtm = route_family r"
  shows "\<exists>a r''. route_attr_of mk r i = [a] \<and>
    route_attr M (inet_size (route_family r)) rtm a (r', d, h) e = Some (Next (r'', d, h) e) \<and>
    route_agrees r (insert i D) r''"
proof -
  let ?n = "inet_size (route_family r)"
  from inv has have fam: "route_family r = AF_INET \<or> route_family r = AF_INET6"
    and ok: "inet_ok (route_src r)" "inet_ok (route_dst r)" "inet_ok (route_gateway r)"
    and dst: "i = MNLXT_RT_ROUTE_DST \<Longrightarrow> \<not> (if route_family r = AF_INET then in_addr_any (route_dst r)
           else in6_unspecified (route_dst r))"
    by (simp_all add: route_inv_def)
  from ag have same: "mnlxt_rt_route_set_family (Some r') (route_family r) e' = (0, Some r', e')" for e'
    using fam by (intro route_set_family_same) (auto simp: route_agrees_def)
  have len: "?n = length (inet_bytes ?n x)" if "inet_ok x" for x
    using that by (simp add: inet_bytes_def inet_ok_def)
  note attr = route_attr_of_def route_attr_def libmnl_lawsD [OF L] on_valid_def store_set_def Let_def rtm
  have pre: "take ?n (payload_inet M (mk t (inet_bytes ?n x))) = take ?n x" if "inet_ok x" for t x
    using payload_inet_prefix [OF L _ that, of ?n] by simp
  consider "i = MNLXT_RT_ROUTE_SRC" | "i = MNLXT_RT_ROUTE_DST" | "i = MNLXT_RT_ROUTE_GATEWAY" using i by blast
  then show ?thesis
  proof cases
    case 1
    let ?r = "r'\<lparr>route_src := payload_inet M (mk RTA_SRC (inet_bytes ?n (route_src r))),
        route_prop_flags := set_prop_flag (route_prop_flags r') MNLXT_RT_ROUTE_SRC\<rparr>"
    have "route_agrees r (insert i D) ?r"
      using ag 1 pre [OF ok(1)] by (auto simp: route_agrees_def mnlxt_rt_route_cmp_def inet_memcmp_def)
    then show ?thesis
      using 1 same len [OF ok(1)] by (simp add: attr mnlxt_rt_route_set_src_def)
  next
    case 2
    let ?p = "payload_inet M (mk RTA_DST (inet_bytes ?n (route_dst r)))"
    let ?r = "r'\<lparr>route_dst := ?p,
        route_prop_flags := set_prop_flag (route_prop_flags r') MNLXT_RT_ROUTE_DST\<rparr>"
    have "AF_INET = route_family r \<and> \<not> in_addr_any ?p \<or> AF_INET6 = route_family r \<and> \<not> in6_unspecified ?p"
      using fam dst [OF 2] pre [OF ok(2), of RTA_DST]
      by (auto simp: inet_size_def dest: in_addr_any_prefix in6_unspecified_prefix)
    moreover have "route_agrees r (insert i D) ?r"
      using ag 2 pre [OF ok(2)] by (auto simp: route_agrees_def mnlxt_rt_route_cmp_def inet_memcmp_def)
    ultimately show ?thesis
      using 2 same len [OF ok(2)] by (simp add: attr mnlxt_rt_route_set_dst_def)
  next
    case 3
    let ?r = "r'\<lparr>route_gateway := payload_inet M (mk RTA_GATEWAY (inet_bytes ?n (route_gateway r))),
        route_prop_flags := set_prop_flag (route_prop_flags r') MNLXT_RT_ROUTE_GATEWAY\<rparr>"
    have "route_agrees r (insert i D) ?r"
      using ag 3 pre [OF ok(3)] by (auto simp: route_agrees_def mnlxt_rt_route_cmp_def inet_memcmp_def)
    then show ?thesis
      using 3 same len [OF ok(3)] by (simp add: attr mnlxt_rt_route_set_gateway_def)
  qed
qed

lemma route_attr_of_hdr: "i \<notin> route_attr_props \<Longrightarrow> route_attr_of mk r i = []"
  by (simp add: route_attr_of_def)

text \<open>What is written for one property, read back.\<close>

lemma route_prop_agrees:
  assumes L: "libmnl_laws M mk b0 z" and inv: "route_inv r" "route_has r MNLXT_RT_ROUTE_FAMILY"
    and rtm: "rtm_family rtm = route_family r" and i: "i \<in> route_hdr_props \<union> route_attr_props"
    and ag: "route_hdr_props \<subseteq> D" "route_agrees r D r'"
  shows "\<exists>r''. attr_loop (route_attr M (inet_size (route_family r)) rtm)
      (if route_has r i then route_attr_of mk r i else []) (r', d, h) e = Some (Next (r'', d, h) e) \<and>
    route_agrees r (insert i D) r''"
proof (cases "route_has r i \<and> i \<in> route_attr_props")
  case True
  then consider "i \<in> {MNLXT_RT_ROUTE_PRIORITY, MNLXT_RT_ROUTE_IIFINDEX, MNLXT_RT_ROUTE_OIFINDEX}"
    | "i \<in> {MNLXT_RT_ROUTE_SRC, MNLXT_RT_ROUTE_DST, MNLXT_RT_ROUTE_GATEWAY}" by blast
  then show ?thesis
  proof cases
    case 1
    from route_num_attr [OF L 1, of r "inet_size (route_family r)" rtm r' d h e] route_agrees_num [OF ag(2) 1] True
    show ?thesis by auto
  next
    case 2
    from route_addr_attr [OF L inv _ 2 ag(2) rtm, of d h e] True show ?thesis by fastforce
  qed
next
  case False
  then have "(if route_has r i then route_attr_of mk r i else []) = []"
    by (cases "route_has r i") (auto simp: route_attr_of_hdr)
  moreover have "route_agrees r (insert i D) r'" using False ag i by (auto simp: route_agrees_def)
  ultimately show ?thesis by simp
qed

lemma route_hdr_fields:
  fixes r :: mnlxt_rt_route_t
  defines "t \<equiv> fold (\<lambda>i t. if route_has r i then route_hdr_prop r i t else t) [0..<MNLXT_RT_ROUTE_MAX] rtmsg_zero"
  shows "route_has r MNLXT_RT_ROUTE_FAMILY \<Longrightarrow> rtm_family t = route_family r"
    "route_has r MNLXT_RT_ROUTE_TABLE \<Longrightarrow> rtm_table t = route_table r"
    "route_has r MNLXT_RT_ROUTE_TYPE \<Longrightarrow> rtm_type t = route_type r"
    "route_has r MNLXT_RT_ROUTE_PROTOCOL \<Longrightarrow> rtm_protocol t = route_protocol r"
    "route_has r MNLXT_RT_ROUTE_SCOPE \<Longrightarrow> rtm_scope t = route_scope r"
    "route_has r MNLXT_RT_ROUTE_SRC_PREFIX \<Longrightarrow> rtm_src_len t = route_src_prefix r"
    "route_has r MNLXT_RT_ROUTE_DST_PREFIX \<Longrightarrow> rtm_dst_len t = route_dst_prefix r"
proof -
  have upt: "[0..<MNLXT_RT_ROUTE_MAX] = [0, 1, 2, 3, 4, 5, 6, 7, 8, 9, 10, 11, 12]" by (simp add: upt_rec)
  show "route_has r MNLXT_RT_ROUTE_FAMILY \<Longrightarrow> rtm_family t = route_family r"
    unfolding t_def upt by (simp add: route_hdr_prop_def if_distrib [of rtm_family])
  show "route_has r MNLXT_RT_ROUTE_TABLE \<Longrightarrow> rtm_table t = route_table r"
    unfolding t_def upt by (simp add: route_hdr_prop_def if_distrib [of rtm_table])
  show "route_has r MNLXT_RT_ROUTE_TYPE \<Longrightarrow> rtm_type t = route_type r"
    unfolding t_def upt by (simp add: route_hdr_prop_def if_distrib [of rtm_type])
  show "route_has r MNLXT_RT_ROUTE_PROTOCOL \<Longrightarrow> rtm_protocol t = route_protocol r"
    unfolding t_def upt by (simp add: route_hdr_prop_def if_distrib [of rtm_protocol])
  show "route_has r MNLXT_RT_ROUTE_SCOPE \<Longrightarrow> rtm_scope t = route_scope r"
    unfolding t_def upt by (simp add: route_hdr_prop_def if_distrib [of rtm_scope])
  show "route_has r MNLXT_RT_ROUTE_SRC_PREFIX \<Longrightarrow> rtm_src_len t = route_src_prefix r"
    unfolding t_def upt by (simp add: route_hdr_prop_def if_distrib [of rtm_src_len])
  show "route_has r MNLXT_RT_ROUTE_DST_PREFIX \<Longrightarrow> rtm_dst_len t = route_dst_prefix r"
    unfolding t_def upt by (simp add: route_hdr_prop_def if_distrib [of rtm_dst_len])
qed

lemma route_roundtrip_parsed:
  assumes L: "libmnl_laws M mk b0 rtmsg_zero" and inv: "route_inv r" "route_has r MNLXT_RT_ROUTE_FAMILY"
    and ok: "heap_ok h" "data_inv h d ps" and n: "nlmsg_body n = b0"
    and put: "mnlxt_rt_route_put M (Some n) (Some r) e0 = (rc, Some n', e')"
  shows "parsed h d ps (nlmsg_type n) (parse_failure h route_types (nlmsg_type n)) False
    (\<lambda>_ x. \<exists>r'. x = PRoute r' \<and> mnlxt_rt_route_match (Some r') (Some r) e = (0, e))
    (mnlxt_rt_route_data M (Some n') (Some d) h e)"
proof -
  let ?t = "hdr_read M (nlmsg_body n')"
  from put have n': "nlmsg_type n' = nlmsg_type n" "nlmsg_body n' =
      put_loop (MNLXT_RT_ROUTE_MAX) (route_prop_flags r) (route_put_prop M r (inet_size (route_family r))) 0 1
        (put_extra_header M b0)"
    by (auto simp: mnlxt_rt_route_put_def n)
  note view = route_put_view [OF L, of r, folded n'(2)]
  note fields = route_hdr_fields [of r, folded view(1)]
  from inv have fam: "route_family r = AF_INET \<or> route_family r = AF_INET6" by (simp add: route_inv_def)
  have tf: "rtm_family ?t = route_family r" by (rule fields(1) [OF inv(2)])
  let ?F = "parse_failure h route_types (nlmsg_type n)"
  let ?P = "\<lambda>(_::pheap) x. \<exists>r'. x = PRoute r' \<and> mnlxt_rt_route_match (Some r') (Some r) e = (0, e)"
  let ?A = "\<lambda>q D (r', d1, h2). route_hdr_props \<subseteq> D \<and> route_agrees r D r' \<and> work_inv h d q (PRoute route_zero) d1 h2"
  have "parsed h d ps (nlmsg_type n') ?F False ?P (mnlxt_rt_route_data M (Some n') (Some d) h e)"
  proof (rule route_parse_frame [OF ok], goal_cases)
    case (5 q h1)
    let ?r0 = "fst (route_from_hdr ?t e)" and ?e0 = "snd (route_from_hdr ?t e)"
    have ag: "?A q route_hdr_props (?r0, d, h1)"
      using fam fields 5(2) by (auto simp: tf route_from_hdr_eq route_agrees_def mnlxt_rt_route_cmp_def)
    have sub: "set [0..<MNLXT_RT_ROUTE_MAX] \<subseteq> route_hdr_props \<union> route_attr_props"
      by (auto simp: less_Suc_eq numeral_eq_Suc)
    have step: "parse_to (?A q (insert i D)) (\<lambda>_ _. False)
        (attr_loop (route_attr M (inet_size (route_family r)) ?t)
          (if route_has r i then route_attr_of mk r i else []) s e')"
      if "i \<in> set [0..<MNLXT_RT_ROUTE_MAX]" "?A q D s" for i D s e'
    proof -
      obtain r' d1 h2 where s: "s = (r', d1, h2)" by (cases s)
      from sub that route_prop_agrees [OF L inv tf, of i D r' d1 h2 e'] show ?thesis unfolding s by fastforce
    qed
    have "parse_to (?A q (route_hdr_props \<union> set [0..<MNLXT_RT_ROUTE_MAX])) (\<lambda>_ _. False) (route_loop M n' d e q h1)"
      using attr_loop_collects [of "[0..<MNLXT_RT_ROUTE_MAX]" "?A q", OF step ag, of ?e0]
      unfolding view(2) tf .
    then show ?case
    proof (rule parse_to_mono)
      fix s assume a: "?A q (route_hdr_props \<union> set [0..<MNLXT_RT_ROUTE_MAX]) s"
      obtain r' d1 h2 where s: "s = (r', d1, h2)" by (cases s)
      from a have "\<forall>i < MNLXT_RT_ROUTE_MAX. route_has r i \<longrightarrow> route_has r' i \<and> mnlxt_rt_route_cmp r' r i = 0"
        and w: "work_inv h d q (PRoute r') d1 h2"
        using work_inv_route [of h d q r' d1 h2 route_zero] unfolding s route_agrees_def by simp_all
      then have "mnlxt_rt_route_match (Some r') (Some r) e = (0, e)"
        unfolding route_compare.match_zero_iff [OF TrueI TrueI] by blast
      with w show "case s of (ob, d1, h2) \<Rightarrow> work_inv h d q (PRoute ob) d1 h2 \<and> ?P h2 (PRoute ob)"
        unfolding s by simp
    qed simp
  qed (use fam tf n'(1) in \<open>auto intro: parse_failureI\<close>)
  then show ?thesis by (simp only: n'(1))
qed

end
