(* ===== verification/RuleData.thy ===== *)
theory RuleData
  imports Codec
begin

text \<open>
  src/rtnl/rule_data.c: comparing routing rules, writing a rule into a netlink message, parsing one
  out of a message, and the operations on messages that carry rules. The interface names are strings
  on the heap; comparing or writing a rule whose name pointer is bad is undefined (\<open>None\<close>).
\<close>

section \<open>Comparison\<close>

definition mnlxt_rt_rule_cmp :: "pheap \<Rightarrow> mnlxt_rt_rule_t \<Rightarrow> mnlxt_rt_rule_t \<Rightarrow> nat \<Rightarrow> int option" where
  "mnlxt_rt_rule_cmp h a b data =
     map_option (\<lambda>failed. if failed then int data + 1 else 0)
       (if data = MNLXT_RT_RULE_FAMILY then Some (rule_family a \<noteq> rule_family b)
        else if data = MNLXT_RT_RULE_TABLE then Some (rule_table a \<noteq> rule_table b)
        else if data = MNLXT_RT_RULE_TOS then Some (rule_tos a \<noteq> rule_tos b)
        else if data = MNLXT_RT_RULE_ACTION then Some (rule_action a \<noteq> rule_action b)
        else if data = MNLXT_RT_RULE_PRIORITY then Some (rule_priority a \<noteq> rule_priority b)
        else if data = MNLXT_RT_RULE_OIFNAME then str_differs h (rule_oif_name a) (rule_oif_name b)
        else if data = MNLXT_RT_RULE_IIFNAME then str_differs h (rule_iif_name a) (rule_iif_name b)
        else if data = MNLXT_RT_RULE_SRC_PREFIX then Some (rule_src_prefix a \<noteq> rule_src_prefix b)
        else if data = MNLXT_RT_RULE_DST_PREFIX then Some (rule_dst_prefix a \<noteq> rule_dst_prefix b)
        else if data = MNLXT_RT_RULE_SRC then 
          Some (\<not> inet_memcmp (inet_size (rule_family a)) (rule_src a) (rule_src b))
        else if data = MNLXT_RT_RULE_DST then 
          Some (\<not> inet_memcmp (inet_size (rule_family a)) (rule_dst a) (rule_dst b))
        else if data = MNLXT_RT_RULE_FWMARK then Some (rule_fwmark a \<noteq> rule_fwmark b)
        else if data = MNLXT_RT_RULE_FWMASK then Some (rule_fwmask a \<noteq> rule_fwmask b)
        else Some False)"

definition mnlxt_rt_rule_compare ::
  "pheap \<Rightarrow> mnlxt_rt_rule_t option \<Rightarrow> mnlxt_rt_rule_t option \<Rightarrow> u64 \<Rightarrow> errno \<Rightarrow> (int \<times> errno) option" where
  "mnlxt_rt_rule_compare h a b flt e =
     (case (a, b) of
        (Some x, Some y) \<Rightarrow>
          map_option (\<lambda>rc. (rc, e))
            (cmp_loop_m (MNLXT_RT_RULE_MAX) flt (ucast (rule_prop_flags x)) (ucast (rule_prop_flags y)) (mnlxt_rt_rule_cmp h x y) 0 1)
      | _ \<Rightarrow> Some (- 1, EINVAL))"

definition mnlxt_rt_rule_match ::
  "pheap \<Rightarrow> mnlxt_rt_rule_t option \<Rightarrow> mnlxt_rt_rule_t option \<Rightarrow> errno \<Rightarrow> (int \<times> errno) option" where
  "mnlxt_rt_rule_match h a m e =
     (case m of None \<Rightarrow> Some (- 1, EINVAL)
      | Some y \<Rightarrow> mnlxt_rt_rule_compare h a m (ucast (rule_prop_flags y)) e)"

section \<open>Messages that carry a rule\<close>

definition mnlxt_rt_rule_get :: "mnlxt_message_t option \<Rightarrow> ptr option" where
  "mnlxt_rt_rule_get message =
     (case message of None \<Rightarrow> None
      | Some m \<Rightarrow> if msg_type m \<in> {RTM_NEWRULE, RTM_GETRULE, RTM_DELRULE} then msg_payload m else None)"

definition mnlxt_rt_rule_remove :: "ptr option \<Rightarrow> pheap \<Rightarrow> (ptr option \<times> pheap) option" where
  "mnlxt_rt_rule_remove message h = take_payload mnlxt_rt_rule_get message h"

section \<open>Writing a message\<close>

text \<open>
  \<open>struct fib_rule_hdr\<close> and the attributes of linux/fib_rules.h. The code writes the addresses with the
  attribute types of linux/rtnetlink.h, which have the same numbers.
\<close>

record fib_rule_hdr =
  fr_family :: u8
  fr_dst_len :: u8
  fr_src_len :: u8
  fr_tos :: u8
  fr_table :: u8
  fr_action :: u8
  fr_flags :: u32

definition fib_rule_hdr_zero :: fib_rule_hdr where
  "fib_rule_hdr_zero = \<lparr>fr_family = 0, fr_dst_len = 0, fr_src_len = 0, fr_tos = 0, fr_table = 0,
     fr_action = 0, fr_flags = 0\<rparr>"

abbreviation FRA_UNSPEC :: nat where "FRA_UNSPEC \<equiv> 0"
abbreviation FRA_DST :: nat where "FRA_DST \<equiv> 1"
abbreviation FRA_SRC :: nat where "FRA_SRC \<equiv> 2"
abbreviation FRA_IIFNAME :: nat where "FRA_IIFNAME \<equiv> 3"
abbreviation FRA_PRIORITY :: nat where "FRA_PRIORITY \<equiv> 6"
abbreviation FRA_FWMARK :: nat where "FRA_FWMARK \<equiv> 10"
abbreviation FRA_FWMASK :: nat where "FRA_FWMASK \<equiv> 16"
abbreviation FRA_OIFNAME :: nat where "FRA_OIFNAME \<equiv> 17"

text \<open>The largest attribute type that the kernel headers of the build know.\<close>

abbreviation FRA_MAX :: nat where "FRA_MAX \<equiv> 24"

type_synonym ('b, 'a) fr_mnl = "(fib_rule_hdr, 'b, 'a) libmnl"

definition rule_put_prop ::
  "('b, 'a) fr_mnl \<Rightarrow> pheap \<Rightarrow> mnlxt_rt_rule_t \<Rightarrow> nat \<Rightarrow> nat \<Rightarrow> 'b \<Rightarrow> 'b option" where
  "rule_put_prop M h rule addr_size i b =
     (if i = MNLXT_RT_RULE_FAMILY then Some (hdr_upd M (\<lambda>r. r\<lparr>fr_family := rule_family rule\<rparr>) b)
      else if i = MNLXT_RT_RULE_TABLE then Some (hdr_upd M (\<lambda>r. r\<lparr>fr_table := rule_table rule\<rparr>) b)
      else if i = MNLXT_RT_RULE_ACTION then Some (hdr_upd M (\<lambda>r. r\<lparr>fr_action := rule_action rule\<rparr>) b)
      else if i = MNLXT_RT_RULE_TOS then Some (hdr_upd M (\<lambda>r. r\<lparr>fr_tos := rule_tos rule\<rparr>) b)
      else if i = MNLXT_RT_RULE_PRIORITY then Some (attr_put_u32 M FRA_PRIORITY (rule_priority rule) b)
      else if i = MNLXT_RT_RULE_OIFNAME then
        map_option (\<lambda>s. attr_put_str M FRA_OIFNAME s b) (Option.bind (rule_oif_name rule) (strs h))
      else if i = MNLXT_RT_RULE_IIFNAME then
        map_option (\<lambda>s. attr_put_str M FRA_IIFNAME s b) (Option.bind (rule_iif_name rule) (strs h))
      else if i = MNLXT_RT_RULE_SRC_PREFIX then Some (hdr_upd M (\<lambda>r. r\<lparr>fr_src_len := rule_src_prefix rule\<rparr>) b)
      else if i = MNLXT_RT_RULE_DST_PREFIX then Some (hdr_upd M (\<lambda>r. r\<lparr>fr_dst_len := rule_dst_prefix rule\<rparr>) b)
      else if i = MNLXT_RT_RULE_SRC then Some (attr_put M RTA_SRC (inet_bytes addr_size (rule_src rule)) b)
      else if i = MNLXT_RT_RULE_DST then Some (attr_put M RTA_DST (inet_bytes addr_size (rule_dst rule)) b)
      else if i = MNLXT_RT_RULE_FWMARK then Some (attr_put_u32 M FRA_FWMARK (rule_fwmark rule) b)
      else if i = MNLXT_RT_RULE_FWMASK then Some (attr_put_u32 M FRA_FWMASK (rule_fwmask rule) b)
      else Some b)"

definition mnlxt_rt_rule_put ::
  "('b, 'a) fr_mnl \<Rightarrow> pheap \<Rightarrow> 'b nlmsghdr option \<Rightarrow> mnlxt_rt_rule_t option \<Rightarrow> errno \<Rightarrow>
     (int \<times> 'b nlmsghdr option \<times> errno) option" where
  "mnlxt_rt_rule_put M h nlh rule e =
     (case (rule, nlh) of
        (Some r, Some n) \<Rightarrow>
          map_option (\<lambda>b. (0, Some (n\<lparr>nlmsg_body := b\<rparr>), e))
            (put_loop (MNLXT_RT_RULE_MAX) (rule_prop_flags r)
               (\<lambda>i m. Option.bind m (rule_put_prop M h r (inet_size (rule_family r)) i)) 0 1
               (Some (put_extra_header M (nlmsg_body n))))
      | _ \<Rightarrow> Some (- 1, nlh, EINVAL))"

section \<open>Parsing a message\<close>

type_synonym rule_state = "(mnlxt_rt_rule_t, mnlxt_xfrm_tmpl_t, payload) pstate"

definition rule_attr ::
  "('b, 'a) fr_mnl \<Rightarrow> nat \<Rightarrow> fib_rule_hdr \<Rightarrow> 'a \<Rightarrow> rule_state \<Rightarrow> errno \<Rightarrow> rule_state parse option" where
  "rule_attr M len hdr a s e =
     (let type = attr_type M a; rule = Some (fst s); h = snd (snd s) in
      case attr_type_valid M a FRA_MAX e of (v, e0) \<Rightarrow>
        if v < 0 then Some (Next s e0)
        else if type = FRA_DST then
          on_valid (attr_validate2 M a MNL_TYPE_BINARY len e0) ''RTA_DST validation failed'' s
            (\<lambda>e1. also_set (\<lambda>p. mnlxt_rt_rule_set_dst_prefix p (fr_dst_len hdr))
               (store_set (mnlxt_rt_rule_set_dst rule (fr_family hdr) (Some (payload_inet M a)) e1)
                  ''mnlxt_rt_rule_set_dst failed'' s))
        else if type = FRA_SRC then
          on_valid (attr_validate2 M a MNL_TYPE_BINARY len e0) ''RTA_SRC validation failed'' s
            (\<lambda>e1. also_set (\<lambda>p. mnlxt_rt_rule_set_src_prefix p (fr_src_len hdr))
               (store_set (mnlxt_rt_rule_set_src rule (fr_family hdr) (Some (payload_inet M a)) e1)
                  ''mnlxt_rt_rule_set_src failed'' s))
        else if type = FRA_FWMARK then
          on_valid (attr_validate M a MNL_TYPE_U32 e0) ''FRA_FWMARK validation failed'' s
            (\<lambda>e1. store_set (mnlxt_rt_rule_set_fwmark rule (attr_get_u32 M a) e1)
               ''mnlxt_rt_rule_set_femark failed'' s)
        else if type = FRA_FWMASK then
          on_valid (attr_validate M a MNL_TYPE_U32 e0) ''FRA_FWMASK validation failed'' s
            (\<lambda>e1. store_set (mnlxt_rt_rule_set_fwmask rule (attr_get_u32 M a) e1)
               ''mnlxt_rt_rule_set_femask failed'' s)
        else if type = FRA_PRIORITY then
          on_valid (attr_validate M a MNL_TYPE_U32 e0) ''RTA_PRIORITY validation failed'' s
            (\<lambda>e1. store_set (mnlxt_rt_rule_set_priority rule (attr_get_u32 M a) e1)
               ''mnlxt_rt_rule_set_priority failed'' s)
        else if type = FRA_OIFNAME then
          on_valid (attr_validate M a MNL_TYPE_STRING e0) ''FRA_OIFNAME validation failed'' s
            (\<lambda>e1. store_set_h (mnlxt_rt_rule_set_oif_name rule (Some (attr_get_str M a)) h e1)
               ''mnlxt_rt_rule_set_oif_name failed'' s)
        else if type = FRA_IIFNAME then
          on_valid (attr_validate M a MNL_TYPE_STRING e0) ''FRA_IIFNAME validation failed'' s
            (\<lambda>e1. store_set_h (mnlxt_rt_rule_set_iif_name rule (Some (attr_get_str M a)) h e1)
               ''mnlxt_rt_rule_set_iif_name failed'' s)
        else Some (Next s e0))"

text \<open>The setters that run before the attributes, their results ignored.\<close>

definition rule_from_hdr :: "fib_rule_hdr \<Rightarrow> errno \<Rightarrow> mnlxt_rt_rule_t \<times> errno" where
  "rule_from_hdr hdr e =
     run_setters
       [\<lambda>p. mnlxt_rt_rule_set_table p (fr_table hdr),
        \<lambda>p. mnlxt_rt_rule_set_action p (fr_action hdr),
        \<lambda>p. mnlxt_rt_rule_set_tos p (fr_tos hdr),
        \<lambda>p. mnlxt_rt_rule_set_family p (fr_family hdr)] rule_zero e"

definition mnlxt_rt_rule_data ::
  "('b, 'a) fr_mnl \<Rightarrow> 'b nlmsghdr option \<Rightarrow> mnlxt_data_t option \<Rightarrow> pheap \<Rightarrow> errno \<Rightarrow>
     (int \<times> mnlxt_data_t option \<times> pheap \<times> errno) option" where
  "mnlxt_rt_rule_data M nlh data h e =
     parse_start [RTM_GETRULE, RTM_NEWRULE, RTM_DELRULE] nlh data h
       (\<lambda>n d. let hdr = hdr_read M (nlmsg_body n) in
          if AF_INET \<noteq> fr_family hdr \<and> AF_INET6 \<noteq> fr_family hdr
          then Some (MNL_CB_OK, Some d, h, e)
          else
            parse_new (PRule rule_zero) ''mnlxt_rt_rule_new failed'' d h
              (\<lambda>q h1. case rule_from_hdr hdr e of (r, e1) \<Rightarrow>
                 Option.bind
                   (attr_loop (rule_attr M (inet_size (fr_family hdr)) hdr) (attrs M (nlmsg_body n))
                     (r, d, h1) e1)
                   (parse_end mnlxt_rt_message_new mnlxt_rt_rule_free PRule
                      ''mnlxt_rt_message_new failed'' (nlmsg_type n) q)))"

section \<open>Iterating, dumping and requesting\<close>

definition mnlxt_rt_rule_iterate ::
  "mnlxt_data_t option \<Rightarrow> ptr option option \<Rightarrow> pheap \<Rightarrow> errno \<Rightarrow>
     (ptr option \<times> ptr option option \<times> errno) option" where
  "mnlxt_rt_rule_iterate data iterator h e =
     (case iterator of None \<Rightarrow> Some (None, None, e)
      | Some it \<Rightarrow>
          map_option (\<lambda>(pl, it', e'). (pl, Some it', e'))
            (iterate_loop (\<lambda>m. mnlxt_rt_rule_get (Some m)) data it h e))"

definition mnlxt_rt_rule_dump ::
  "('w, 'f, 'b) netio \<Rightarrow> 'b callbacks \<Rightarrow> mnlxt_data_t option \<Rightarrow> u8 \<Rightarrow> pheap \<Rightarrow> 'w \<Rightarrow> errno \<Rightarrow>
     (int \<times> mnlxt_data_t option \<times> pheap \<times> 'w \<times> errno) option" where
  "mnlxt_rt_rule_dump io cbs data family h w e =
     (if AF_INET \<noteq> family \<and> AF_INET6 \<noteq> family \<and> AF_UNSPEC \<noteq> family
      then Some (- 1, data, h, w, EAFNOSUPPORT)
      else mnlxt_rt_data_dump io cbs data RTM_GETRULE family h w e)"

text \<open>The caller's pointer is cleared when the message has taken the object over.\<close>

definition mnlxt_rt_rule_message ::
  "ptr option option \<Rightarrow> u16 \<Rightarrow> u16 \<Rightarrow> pheap \<Rightarrow> errno \<Rightarrow>
     (ptr option \<times> ptr option option \<times> pheap \<times> errno) option" where
  "mnlxt_rt_rule_message ob type flags h e =
     (case ob of
        Some (Some q) \<Rightarrow>
          if type \<notin> {RTM_NEWRULE, RTM_DELRULE} then Some (None, ob, h, EINVAL)
          else
            map_option (\<lambda>(msg, h', e'). (msg, if msg = None then ob else Some None, h', e'))
              (mnlxt_rt_message_new type flags (Some q) h e)
      | _ \<Rightarrow> Some (None, ob, h, EINVAL))"

definition mnlxt_rt_rule_request ::
  "('w, 'f, 'b) netio \<Rightarrow> 'b callbacks \<Rightarrow> ptr option \<Rightarrow> u16 \<Rightarrow> u16 \<Rightarrow> pheap \<Rightarrow> 'w \<Rightarrow> errno \<Rightarrow>
     (int \<times> pheap \<times> 'w \<times> errno) option" where
  "mnlxt_rt_rule_request io cbs ob type flags h w e =
     object_request
       (\<lambda>p h e. map_option (\<lambda>(msg, _, h', e'). (msg, h', e')) (mnlxt_rt_rule_message (Some p) type flags h e))
       mnlxt_rt_rule_remove (mnlxt_rt_message_request io cbs) ob h w e"

section \<open>What comparison decides\<close>

lemma rule_cmp_defined:
  assumes "rule_names_ok h x" "rule_names_ok h y" "rule_has x i" "rule_has y i"
  shows "\<exists>c. mnlxt_rt_rule_cmp h x y i = Some c"
proof -
  have "str_differs h (rule_iif_name x) (rule_iif_name y) \<noteq> None" if "i = MNLXT_RT_RULE_IIFNAME"
    using assms that by (auto simp: rule_names_ok_def str_differs_def)
  moreover have "str_differs h (rule_oif_name x) (rule_oif_name y) \<noteq> None" if "i = MNLXT_RT_RULE_OIFNAME"
    using assms that by (auto simp: rule_names_ok_def str_differs_def)
  ultimately show ?thesis unfolding mnlxt_rt_rule_cmp_def by (auto split: if_split)
qed

lemma rule_compare_defined:
  assumes "rule_names_ok h x" "rule_names_ok h y"
  shows "mnlxt_rt_rule_compare h (Some x) (Some y) flt e =
    Some (cmp_loop MNLXT_RT_RULE_MAX flt (ucast (rule_prop_flags x)) (ucast (rule_prop_flags y))
      (\<lambda>i. the (mnlxt_rt_rule_cmp h x y i)) 0 1, e)"
proof -
  have "cmp_loop_m MNLXT_RT_RULE_MAX flt (ucast (rule_prop_flags x)) (ucast (rule_prop_flags y))
      (mnlxt_rt_rule_cmp h x y) 0 (2 ^ 0) =
    Some (cmp_loop MNLXT_RT_RULE_MAX flt (ucast (rule_prop_flags x)) (ucast (rule_prop_flags y))
      (\<lambda>i. the (mnlxt_rt_rule_cmp h x y i)) 0 (2 ^ 0))"
    using rule_cmp_defined [OF assms] by (intro cmp_loop_m_defined) (auto simp: bit_ucast_iff)
  then show ?thesis by (simp add: mnlxt_rt_rule_compare_def)
qed

interpretation rule_compare: prop_match "rule_names_ok h"
  "\<lambda>p q flt e. the (mnlxt_rt_rule_compare h p q flt e)" "\<lambda>x y i. the (mnlxt_rt_rule_cmp h x y i)"
  rule_prop_flags MNLXT_RT_RULE_MAX "\<lambda>p q e. the (mnlxt_rt_rule_match h p q e)" for h
proof (unfold_locales, goal_cases)
  case (1 x y flt e)
  then show ?case by (simp only: rule_compare_defined option.sel)
qed (auto simp: mnlxt_rt_rule_compare_def mnlxt_rt_rule_match_def split: option.splits)

lemma rule_match_zero:
  assumes "rule_names_ok h x" "rule_names_ok h m"
    "\<And>i. i < MNLXT_RT_RULE_MAX \<Longrightarrow> rule_has m i \<Longrightarrow> rule_has x i \<and> mnlxt_rt_rule_cmp h x m i = Some 0"
  shows "mnlxt_rt_rule_match h (Some x) (Some m) e = Some (0, e)"
proof -
  have "the (mnlxt_rt_rule_match h (Some x) (Some m) e) = (0, e)"
    unfolding rule_compare.match_zero_iff [OF assms(1,2)] using assms(3) by simp
  moreover have "mnlxt_rt_rule_match h (Some x) (Some m) e \<noteq> None"
    unfolding mnlxt_rt_rule_match_def by (simp only: option.case rule_compare_defined [OF assms(1,2)]) simp
  ultimately show ?thesis by auto
qed

section \<open>Parsing appends a well formed rule or changes nothing\<close>

definition rule_work :: "pheap \<Rightarrow> mnlxt_data_t \<Rightarrow> ptr \<Rightarrow> mnlxt_rt_rule_t \<Rightarrow> rule_state \<Rightarrow> bool" where
  "rule_work h0 d0 q r0 s \<longleftrightarrow>
     (case s of (r, d, h) \<Rightarrow> work_inv h0 d0 q (PRule r) d h \<and> rule_wf (r, h) \<and> rule_ext r0 r)"

lemma work_inv_heap_ok: "work_inv h0 d0 q x d h \<Longrightarrow> heap_ok h"
  by (simp add: work_inv_def)

lemma rule_parts_same: "same_names r r' \<Longrightarrow> str_parts (PRule r') = str_parts (PRule r)"
  by (simp add: same_names_def)

lemma rule_work_keeps:
  assumes "rule_work h0 d0 q r0 (r, d, h)" "rule_keeps r r'"
  shows "rule_work h0 d0 q r0 (r', d, h)"
proof -
  from assms(1) have w: "work_inv h0 d0 q (PRule r) d h" "rule_wf (r, h)" "rule_ext r0 r"
    by (simp_all add: rule_work_def)
  have "work_inv h0 d0 q (PRule r') d h"
    using assms(2) rule_parts_same [of r r'] w(1)
    by (intro work_inv_same_parts [OF w(1)]) (simp_all add: rule_keeps_def work_inv_heap_ok)
  then show ?thesis
    using w rule_keeps_wf [OF assms(2) w(2)] rule_ext_trans by (auto simp: rule_work_def)
qed

lemma rule_work_error [simp]:
  "rule_work h0 d0 q r0 (r, d\<lparr>data_error_str := m\<rparr>, h) = rule_work h0 d0 q r0 (r, d, h)"
  by (simp add: rule_work_def)

lemma rule_step_keeps:
  assumes "rule_work h0 d0 q r0 (r, d, h)" "x = (rc, Some r', e')" "rule_keeps r r'"
  shows "parse_all (rule_work h0 d0 q r0) (store_set x msg (r, d, h))"
  using rule_work_keeps [OF assms(1,3)] assms(2) by (intro store_set_keeps) auto

lemma rule_set_ptr_step:
  assumes "i \<noteq> MNLXT_RT_RULE_FAMILY"
  shows "\<exists>rc r' e'. mnlxt_rt_rule_set_ptr (Some r) i v e = (rc, Some r', e') \<and> rule_keeps r r'"
  using rule_obj.set_never_null [of r i v e] rule_set_ptr_keeps [OF _ assms] by blast

lemma rule_set_src_step:
  assumes "inet_ok a"
  shows "\<exists>rc r' e'. mnlxt_rt_rule_set_src (Some r) f (Some a) e = (rc, Some r', e') \<and> rule_keeps r r'"
proof -
  have "\<exists>rc r' e'. mnlxt_rt_rule_set_src (Some r) f (Some a) e = (rc, Some r', e')"
    using rule_set_family_never_null [of r f e] by (auto simp: mnlxt_rt_rule_set_src_def)
  then show ?thesis using rule_set_src_keeps [OF assms] by blast
qed

lemma rule_set_dst_step:
  assumes "inet_ok a"
  shows "\<exists>rc r' e'. mnlxt_rt_rule_set_dst (Some r) f (Some a) e = (rc, Some r', e') \<and> rule_keeps r r'"
proof -
  have "\<exists>rc r' e'. mnlxt_rt_rule_set_dst (Some r) f (Some a) e = (rc, Some r', e')"
    using rule_set_family_never_null [of r f e] by (auto simp: mnlxt_rt_rule_set_dst_def)
  then show ?thesis using rule_set_dst_keeps [OF assms] by blast
qed

text \<open>The parts of a rule after its name was replaced.\<close>

lemma rule_name_parts:
  assumes "rule_names_ok h r" "strs h q = None"
  shows "set (str_parts (PRule (r\<lparr>rule_iif_name := Some q, rule_prop_flags := w\<rparr>))) =
      insert q (set (str_parts (PRule r)) - set_option (rule_iif_name r))"
    and "distinct (str_parts (PRule (r\<lparr>rule_iif_name := Some q, rule_prop_flags := w\<rparr>)))"
    and "set (str_parts (PRule (r\<lparr>rule_oif_name := Some q, rule_prop_flags := w\<rparr>))) =
      insert q (set (str_parts (PRule r)) - set_option (rule_oif_name r))"
    and "distinct (str_parts (PRule (r\<lparr>rule_oif_name := Some q, rule_prop_flags := w\<rparr>)))"
  using assms by (auto simp: rule_names_ok_def split: option.splits)

lemma rule_iif_name_step:
  assumes w: "rule_work h0 d0 a r0 (r, d, h)"
  shows "parse_all (rule_work h0 d0 a r0)
    (store_set_h (mnlxt_rt_rule_set_iif_name (Some r) (Some name) h e) msg (r, d, h))"
proof -
  from w have wi: "work_inv h0 d0 a (PRule r) d h" and wf: "rule_wf (r, h)" and ext: "rule_ext r0 r"
    by (simp_all add: rule_work_def)
  from wf have ok: "rule_names_ok h r" "heap_ok h" by (simp_all add: rule_wf_def)
  then show ?thesis
  proof (cases rule: rule_set_iif_name_cases [of _ _ name e])
    case (fail h')
    have "rule_work h0 d0 a r0 (r, d, h')"
      using rule_set_iif_name_wf [OF wf fail(1)] work_inv_same_parts [OF wi fail(2-6,8)] ext
      by (simp add: rule_work_def)
    then show ?thesis by (intro store_set_h_keeps) (simp add: fail(1))
  next
    case (set q h')
    note p = rule_name_parts(1,2) [OF ok(1) set(3)]
    have "work_inv h0 d0 a (PRule (r\<lparr>rule_iif_name := Some q,
        rule_prop_flags := set_prop_flag (rule_prop_flags r) MNLXT_RT_RULE_IIFNAME\<rparr>)) d h'"
      by (rule work_inv_replace_str [OF wi set(2-9) _ _ _ p]) (auto split: option.splits)
    with rule_set_iif_name_wf [OF wf set(1)] ext
    show ?thesis by (intro store_set_h_keeps) (auto simp: rule_work_def set(1) intro: rule_ext_trans)
  qed
qed

lemma rule_oif_name_step:
  assumes w: "rule_work h0 d0 a r0 (r, d, h)"
  shows "parse_all (rule_work h0 d0 a r0)
    (store_set_h (mnlxt_rt_rule_set_oif_name (Some r) (Some name) h e) msg (r, d, h))"
proof -
  from w have wi: "work_inv h0 d0 a (PRule r) d h" and wf: "rule_wf (r, h)" and ext: "rule_ext r0 r"
    by (simp_all add: rule_work_def)
  from wf have ok: "rule_names_ok h r" "heap_ok h" by (simp_all add: rule_wf_def)
  then show ?thesis
  proof (cases rule: rule_set_oif_name_cases [of _ _ name e])
    case (fail h')
    have "rule_work h0 d0 a r0 (r, d, h')"
      using rule_set_oif_name_wf [OF wf fail(1)] work_inv_same_parts [OF wi fail(2-6,8)] ext
      by (simp add: rule_work_def)
    then show ?thesis by (intro store_set_h_keeps) (simp add: fail(1))
  next
    case (set q h')
    note p = rule_name_parts(3,4) [OF ok(1) set(3)]
    have "work_inv h0 d0 a (PRule (r\<lparr>rule_oif_name := Some q,
        rule_prop_flags := set_prop_flag (rule_prop_flags r) MNLXT_RT_RULE_OIFNAME\<rparr>)) d h'"
      by (rule work_inv_replace_str [OF wi set(2-9) _ _ _ p]) (auto split: option.splits)
    with rule_set_oif_name_wf [OF wf set(1)] ext
    show ?thesis by (intro store_set_h_keeps) (auto simp: rule_work_def set(1) intro: rule_ext_trans)
  qed
qed

lemma rule_attr_keeps:
  assumes "rule_work h0 d0 q r0 s"
  shows "parse_all (rule_work h0 d0 q r0) (rule_attr M n hdr a s e)"
proof -
  let ?W = "rule_work h0 d0 q r0"
  obtain r d h where s: "s = (r, d, h)" by (cases s)
  note w = assms [unfolded s]
  then have we: "?W (r, d\<lparr>data_error_str := Some m\<rparr>, h)" for m by simp
  have num: "parse_all ?W (store_set (mnlxt_rt_rule_set_ptr (Some r) i v e1) msg (r, d, h))"
    if "i \<noteq> MNLXT_RT_RULE_FAMILY" for i v e1 msg
    using rule_set_ptr_step [OF that, of r v e1] rule_step_keeps [OF w] by blast
  have src: "parse_all ?W (store_set (mnlxt_rt_rule_set_src (Some r) f (Some (payload_inet M a)) e1) msg (r, d, h))"
    for f e1 msg using rule_set_src_step [OF inet_ok_payload, of r f M a e1] rule_step_keeps [OF w] by blast
  have dst: "parse_all ?W (store_set (mnlxt_rt_rule_set_dst (Some r) f (Some (payload_inet M a)) e1) msg (r, d, h))"
    for f e1 msg using rule_set_dst_step [OF inet_ok_payload, of r f M a e1] rule_step_keeps [OF w] by blast
  have pre: "parse_all ?W (also_set (\<lambda>p. mnlxt_rt_rule_set_ptr p i v) x)"
    if "i \<noteq> MNLXT_RT_RULE_FAMILY" "parse_all ?W x" for i v x
    using that(2) by (rule also_set_all) (use rule_set_ptr_step [OF that(1)] rule_work_keeps in blast)
  note numeric = mnlxt_rt_rule_set_priority_def mnlxt_rt_rule_set_fwmark_def mnlxt_rt_rule_set_fwmask_def
    mnlxt_rt_rule_set_src_prefix_def mnlxt_rt_rule_set_dst_prefix_def mnlxt_rt_rule_set_u32_def
    mnlxt_rt_rule_set_u8_def
  show ?thesis
    using w unfolding s rule_attr_def Let_def fst_conv snd_conv numeric
    by (cases "attr_type_valid M a FRA_MAX e")
      (auto intro!: on_valid_all we num src dst pre rule_iif_name_step rule_oif_name_step simp: prod.case)
qed

lemma rule_from_hdr_eq:
  assumes "fr_family hdr = AF_INET \<or> fr_family hdr = AF_INET6"
  shows "rule_from_hdr hdr e =
    (rule_zero\<lparr>rule_table := fr_table hdr, rule_action := fr_action hdr, rule_tos := fr_tos hdr,
       rule_family := fr_family hdr,
       rule_prop_flags := fold (\<lambda>i w. set_prop_flag w i)
         [MNLXT_RT_RULE_TABLE, MNLXT_RT_RULE_ACTION, MNLXT_RT_RULE_TOS, MNLXT_RT_RULE_FAMILY] 0\<rparr>, e)"
  using assms
  by (auto simp: rule_from_hdr_def mnlxt_rt_rule_set_family_def mnlxt_rt_rule_set_table_def
      mnlxt_rt_rule_set_action_def mnlxt_rt_rule_set_tos_def mnlxt_rt_rule_set_u8_def
      mnlxt_rt_rule_set_ptr_def rule_data_def rule_store_def rule_zero_def)

lemma rule_from_hdr_keeps:
  assumes "fr_family hdr = AF_INET \<or> fr_family hdr = AF_INET6"
  shows "rule_inv (fst (rule_from_hdr hdr e))" "rule_names_ok h (fst (rule_from_hdr hdr e))"
    "str_parts (PRule (fst (rule_from_hdr hdr e))) = []"
    "rule_has (fst (rule_from_hdr hdr e)) MNLXT_RT_RULE_FAMILY"
    "rule_family (fst (rule_from_hdr hdr e)) = fr_family hdr" "snd (rule_from_hdr hdr e) = e"
  using assms by (auto simp: rule_from_hdr_eq rule_inv_def rule_names_ok_def rule_zero_def)

abbreviation rule_loop ::
  "('b, 'a) fr_mnl \<Rightarrow> 'b nlmsghdr \<Rightarrow> mnlxt_data_t \<Rightarrow> errno \<Rightarrow> ptr \<Rightarrow> pheap \<Rightarrow> rule_state parse option" where
  "rule_loop M n d e q h1 \<equiv>
     attr_loop (rule_attr M (inet_size (fr_family (hdr_read M (nlmsg_body n)))) (hdr_read M (nlmsg_body n)))
       (attrs M (nlmsg_body n)) (fst (rule_from_hdr (hdr_read M (nlmsg_body n)) e), d, h1)
       (snd (rule_from_hdr (hdr_read M (nlmsg_body n)) e))"

text \<open>The messages that the parser accepts.\<close>

abbreviation rule_types :: "u16 list" where
  "rule_types \<equiv> [RTM_GETRULE, RTM_NEWRULE, RTM_DELRULE]"

lemma rule_parse_frame:
  assumes ok: "heap_ok h" "data_inv h d ps"
    and F: "memory_lost h ENOMEM \<longrightarrow> F ENOMEM" "nlmsg_type n \<notin> set rule_types \<longrightarrow> F EBADMSG"
    and skip: "fr_family (hdr_read M (nlmsg_body n)) \<notin> {AF_INET, AF_INET6} \<Longrightarrow> skip"
    and frame: "\<And>h h' x. P h x \<Longrightarrow> strs h' = strs h \<Longrightarrow> arrs h' = arrs h \<Longrightarrow> P h' x"
    and loop: "\<And>q h1. fr_family (hdr_read M (nlmsg_body n)) \<in> {AF_INET, AF_INET6} \<Longrightarrow>
      work_inv h d q (PRule rule_zero) d h1 \<Longrightarrow>
      parse_to (\<lambda>(r, d1, h2). work_inv h d q (PRule r) d1 h2 \<and> P h2 (PRule r))
        (\<lambda>(r, d1, h2) e2. work_inv h d q (PRule r) d1 h2 \<and> F e2) (rule_loop M n d e q h1)"
  shows "parsed h d ps (nlmsg_type n) F skip P (mnlxt_rt_rule_data M (Some n) (Some d) h e)"
  unfolding mnlxt_rt_rule_data_def
proof (rule parser_parsed [OF ok F, where cb = "rt_data_handlers ! unat (nlmsg_type n)" and m = RtRule
      and wrap = PRule and z = rule_zero and message_new = mnlxt_rt_message_new and free_ob = mnlxt_rt_rule_free
      and c = "AF_INET \<noteq> fr_family (hdr_read M (nlmsg_body n)) \<and> AF_INET6 \<noteq> fr_family (hdr_read M (nlmsg_body n))"
      and err = "''mnlxt_rt_rule_new failed''" and err' = "''mnlxt_rt_message_new failed''" and e = e
      and loop = "rule_loop M n d e"], goal_cases)
  case 1
  then have "unat (nlmsg_type n) < 35" "cb_name (rt_data_handlers ! unat (nlmsg_type n)) \<noteq> None"
    by (auto simp: rt_handlers_nth handler_def)
  with 1 show ?case by (auto simp: rt_message_new_found) (auto simp: rt_handlers_nth handler_def)
next
  case (7 h h' x)
  then show ?case by (rule frame)
qed (use skip loop in \<open>simp_all add: Let_def case_prod_beta payload_parts_def rule_zero_def\<close>)

lemma rule_work_start:
  assumes "fr_family hdr \<in> {AF_INET, AF_INET6}" "work_inv h d q (PRule rule_zero) d h1"
  shows "rule_work h d q (fst (rule_from_hdr hdr e)) (fst (rule_from_hdr hdr e), d, h1)"
proof -
  from assms(1) have fam: "fr_family hdr = AF_INET \<or> fr_family hdr = AF_INET6" by simp
  note k = rule_from_hdr_keeps [OF this, where e = e]
  have "work_inv h d q (PRule (fst (rule_from_hdr hdr e))) d h1"
    using work_inv_heap_ok [OF assms(2)] k(3)
    by (intro work_inv_same_parts [OF assms(2)]) (simp_all add: rule_zero_def)
  with k work_inv_heap_ok [OF assms(2)] show ?thesis by (simp add: rule_work_def rule_wf_def)
qed

lemma rule_data_parsed:
  assumes ok: "heap_ok h" "data_inv h d ps"
  shows "parsed h d ps (nlmsg_type n) (\<lambda>_. True) True
    (\<lambda>h' x. \<exists>r. x = PRule r \<and> rule_inv r \<and> rule_names_ok h' r \<and> rule_has r MNLXT_RT_RULE_FAMILY \<and>
       rule_family r = fr_family (hdr_read M (nlmsg_body n)))
    (mnlxt_rt_rule_data M (Some n) (Some d) h e)"
proof (rule rule_parse_frame [OF ok], goal_cases)
  case (5 q h1)
  let ?hdr = "hdr_read M (nlmsg_body n)"
  let ?r0 = "fst (rule_from_hdr ?hdr e)"
  from 5 have fam: "fr_family ?hdr = AF_INET \<or> fr_family ?hdr = AF_INET6" by simp
  note r0 = rule_from_hdr_keeps [OF fam, where e = e]
  show ?case
  proof (rule attr_loop_work [where W = "rule_work h d q ?r0"])
    show "rule_work h d q ?r0 (?r0, d, h1)" by (rule rule_work_start [OF 5])
  next
    fix r d1 h2 assume "rule_work h d q ?r0 (r, d1, h2)"
    then have "work_inv h d q (PRule r) d1 h2" "rule_wf (r, h2)" "rule_ext ?r0 r"
      by (simp_all add: rule_work_def)
    with r0(4,5) show "work_inv h d q (PRule r) d1 h2 \<and> (\<exists>ra. PRule r = PRule ra \<and> rule_inv ra \<and>
        rule_names_ok h2 ra \<and> rule_has ra MNLXT_RT_RULE_FAMILY \<and> rule_family ra = fr_family ?hdr)"
      by (simp add: rule_ext_def rule_wf_def)
  qed (rule rule_attr_keeps)
qed (auto simp: rule_names_ok_def)

section \<open>Writing and parsing back\<close>

abbreviation rule_iif_str :: "pheap \<Rightarrow> mnlxt_rt_rule_t \<Rightarrow> string option" where
  "rule_iif_str h r \<equiv> Option.bind (rule_iif_name r) (strs h)"

abbreviation rule_oif_str :: "pheap \<Rightarrow> mnlxt_rt_rule_t \<Rightarrow> string option" where
  "rule_oif_str h r \<equiv> Option.bind (rule_oif_name r) (strs h)"

text \<open>
  What a message can carry of a rule: the names are such that the receiver can read them back, and a
  prefix length is sent only together with its address.
\<close>

definition rule_sendable :: "pheap \<Rightarrow> mnlxt_rt_rule_t \<Rightarrow> bool" where
  "rule_sendable h r \<longleftrightarrow>
     (\<forall>s. rule_iif_str h r = Some s \<or> rule_oif_str h r = Some s \<longrightarrow> padded_str s) \<and>
     (rule_has r MNLXT_RT_RULE_SRC_PREFIX \<longrightarrow> rule_has r MNLXT_RT_RULE_SRC) \<and>
     (rule_has r MNLXT_RT_RULE_DST_PREFIX \<longrightarrow> rule_has r MNLXT_RT_RULE_DST)"

text \<open>What writing one property does to the struct and to the attributes of the message.\<close>

definition rule_hdr_prop :: "mnlxt_rt_rule_t \<Rightarrow> nat \<Rightarrow> fib_rule_hdr \<Rightarrow> fib_rule_hdr" where
  "rule_hdr_prop r i t =
     (if i = MNLXT_RT_RULE_FAMILY then t\<lparr>fr_family := rule_family r\<rparr>
      else if i = MNLXT_RT_RULE_TABLE then t\<lparr>fr_table := rule_table r\<rparr>
      else if i = MNLXT_RT_RULE_ACTION then t\<lparr>fr_action := rule_action r\<rparr>
      else if i = MNLXT_RT_RULE_TOS then t\<lparr>fr_tos := rule_tos r\<rparr>
      else if i = MNLXT_RT_RULE_SRC_PREFIX then t\<lparr>fr_src_len := rule_src_prefix r\<rparr>
      else if i = MNLXT_RT_RULE_DST_PREFIX then t\<lparr>fr_dst_len := rule_dst_prefix r\<rparr>
      else t)"

definition rule_attr_of :: "(nat \<Rightarrow> u8 list \<Rightarrow> 'a) \<Rightarrow> pheap \<Rightarrow> mnlxt_rt_rule_t \<Rightarrow> nat \<Rightarrow> 'a list" where
  "rule_attr_of mk h r i =
     (if i = MNLXT_RT_RULE_PRIORITY then [mk FRA_PRIORITY (le32 (rule_priority r))]
      else if i = MNLXT_RT_RULE_OIFNAME then [mk FRA_OIFNAME (str_bytes (the (rule_oif_str h r)))]
      else if i = MNLXT_RT_RULE_IIFNAME then [mk FRA_IIFNAME (str_bytes (the (rule_iif_str h r)))]
      else if i = MNLXT_RT_RULE_SRC then [mk FRA_SRC (inet_bytes (inet_size (rule_family r)) (rule_src r))]
      else if i = MNLXT_RT_RULE_DST then [mk FRA_DST (inet_bytes (inet_size (rule_family r)) (rule_dst r))]
      else if i = MNLXT_RT_RULE_FWMARK then [mk FRA_FWMARK (le32 (rule_fwmark r))]
      else if i = MNLXT_RT_RULE_FWMASK then [mk FRA_FWMASK (le32 (rule_fwmask r))]
      else [])"

lemma rule_names_str:
  assumes "rule_names_ok h r"
  shows "rule_has r MNLXT_RT_RULE_IIFNAME \<Longrightarrow> \<exists>s. rule_iif_str h r = Some s \<and> length s < IF_NAMESIZE"
    and "rule_has r MNLXT_RT_RULE_OIFNAME \<Longrightarrow> \<exists>s. rule_oif_str h r = Some s \<and> length s < IF_NAMESIZE"
  using assms by (auto simp: rule_names_ok_def)

lemma rule_put_prop_view:
  assumes L: "libmnl_laws M mk b0 z" and "rule_names_ok h r" "rule_has r i"
  shows "\<exists>b'. rule_put_prop M h r (inet_size (rule_family r)) i b = Some b' \<and>
    hdr_read M b' = rule_hdr_prop r i (hdr_read M b) \<and> attrs M b' = attrs M b @ rule_attr_of mk h r i"
proof -
  consider "i = MNLXT_RT_RULE_OIFNAME" | "i = MNLXT_RT_RULE_IIFNAME"
    | "i \<noteq> MNLXT_RT_RULE_OIFNAME" "i \<noteq> MNLXT_RT_RULE_IIFNAME" by blast
  then show ?thesis
  proof cases
    case 1
    with assms(3) rule_names_str(2) [OF assms(2)] show ?thesis
      by (auto simp: rule_put_prop_def rule_hdr_prop_def rule_attr_of_def libmnl_lawsD [OF L])
  next
    case 2
    with assms(3) rule_names_str(1) [OF assms(2)] show ?thesis
      by (auto simp: rule_put_prop_def rule_hdr_prop_def rule_attr_of_def libmnl_lawsD [OF L])
  next
    case 3
    then show ?thesis
      by (simp add: rule_put_prop_def rule_hdr_prop_def rule_attr_of_def hdr_upd_def libmnl_lawsD [OF L])
  qed
qed

text \<open>With live names the message can be written, whatever buffer it is written to.\<close>

lemma rule_put_defined:
  assumes ok: "rule_names_ok h r"
  shows "mnlxt_rt_rule_put M h (Some n) (Some r) e \<noteq> None"
proof -
  have "\<exists>b'. rule_put_prop M h r (inet_size (rule_family r)) i b = Some b'" if "rule_has r i" for i b
    using rule_names_str [OF ok] that by (auto simp: rule_put_prop_def)
  with put_loop_view_m [of MNLXT_RT_RULE_MAX "rule_prop_flags r"
      "rule_put_prop M h r (inet_size (rule_family r))" "\<lambda>_. ()" "\<lambda>_ _. ()" "\<lambda>_. []" "\<lambda>_. []"
      "put_extra_header M (nlmsg_body n)"]
  show ?thesis by (auto simp: mnlxt_rt_rule_put_def)
qed

lemma rule_put_view:
  assumes L: "libmnl_laws M mk b0 fib_rule_hdr_zero" and ok: "rule_names_ok h r" and n: "nlmsg_body n = b0"
    and put: "mnlxt_rt_rule_put M h (Some n) (Some r) e = Some (rc, Some n', e')"
  shows "nlmsg_type n' = nlmsg_type n"
    and "hdr_read M (nlmsg_body n') =
      fold (\<lambda>i t. if rule_has r i then rule_hdr_prop r i t else t) [0..<MNLXT_RT_RULE_MAX] fib_rule_hdr_zero"
    and "attrs M (nlmsg_body n') =
      concat (map (\<lambda>i. if rule_has r i then rule_attr_of mk h r i else []) [0..<MNLXT_RT_RULE_MAX])"
proof -
  from put_loop_view_m [of MNLXT_RT_RULE_MAX "rule_prop_flags r"
      "rule_put_prop M h r (inet_size (rule_family r))" "hdr_read M" "rule_hdr_prop r" "attrs M"
      "rule_attr_of mk h r" "put_extra_header M b0"] rule_put_prop_view [OF L ok]
  obtain b' where b': "put_loop MNLXT_RT_RULE_MAX (rule_prop_flags r)
      (\<lambda>i m. Option.bind m (rule_put_prop M h r (inet_size (rule_family r)) i)) 0 1 (Some (put_extra_header M b0)) = Some b'"
    "hdr_read M b' = fold (\<lambda>i t. if rule_has r i then rule_hdr_prop r i t else t) [0..<MNLXT_RT_RULE_MAX]
      (hdr_read M (put_extra_header M b0))"
    "attrs M b' = attrs M (put_extra_header M b0) @
      concat (map (\<lambda>i. if rule_has r i then rule_attr_of mk h r i else []) [0..<MNLXT_RT_RULE_MAX])"
    by blast
  from put have n': "n' = n\<lparr>nlmsg_body := b'\<rparr>"
    using b'(1) by (auto simp: mnlxt_rt_rule_put_def n)
  show "nlmsg_type n' = nlmsg_type n" by (simp add: n')
  show "hdr_read M (nlmsg_body n') =
      fold (\<lambda>i t. if rule_has r i then rule_hdr_prop r i t else t) [0..<MNLXT_RT_RULE_MAX] fib_rule_hdr_zero"
    using b'(2) by (simp add: n' libmnl_lawsD(1) [OF L])
  show "attrs M (nlmsg_body n') =
      concat (map (\<lambda>i. if rule_has r i then rule_attr_of mk h r i else []) [0..<MNLXT_RT_RULE_MAX])"
    using b'(3) by (simp add: n' libmnl_lawsD(2) [OF L])
qed

lemma rule_hdr_fields:
  fixes r :: mnlxt_rt_rule_t
  defines "t \<equiv> fold (\<lambda>i t. if rule_has r i then rule_hdr_prop r i t else t) [0..<MNLXT_RT_RULE_MAX] fib_rule_hdr_zero"
  shows "rule_has r MNLXT_RT_RULE_FAMILY \<Longrightarrow> fr_family t = rule_family r"
    "rule_has r MNLXT_RT_RULE_TABLE \<Longrightarrow> fr_table t = rule_table r"
    "rule_has r MNLXT_RT_RULE_TOS \<Longrightarrow> fr_tos t = rule_tos r"
    "rule_has r MNLXT_RT_RULE_ACTION \<Longrightarrow> fr_action t = rule_action r"
    "rule_has r MNLXT_RT_RULE_SRC_PREFIX \<Longrightarrow> fr_src_len t = rule_src_prefix r"
    "rule_has r MNLXT_RT_RULE_DST_PREFIX \<Longrightarrow> fr_dst_len t = rule_dst_prefix r"
proof -
  have upt: "[0..<MNLXT_RT_RULE_MAX] = [0, 1, 2, 3, 4, 5, 6, 7, 8, 9, 10, 11, 12]" by (simp add: upt_rec)
  show "rule_has r MNLXT_RT_RULE_FAMILY \<Longrightarrow> fr_family t = rule_family r"
    unfolding t_def upt by (simp add: rule_hdr_prop_def if_distrib [of fr_family])
  show "rule_has r MNLXT_RT_RULE_TABLE \<Longrightarrow> fr_table t = rule_table r"
    unfolding t_def upt by (simp add: rule_hdr_prop_def if_distrib [of fr_table])
  show "rule_has r MNLXT_RT_RULE_TOS \<Longrightarrow> fr_tos t = rule_tos r"
    unfolding t_def upt by (simp add: rule_hdr_prop_def if_distrib [of fr_tos])
  show "rule_has r MNLXT_RT_RULE_ACTION \<Longrightarrow> fr_action t = rule_action r"
    unfolding t_def upt by (simp add: rule_hdr_prop_def if_distrib [of fr_action])
  show "rule_has r MNLXT_RT_RULE_SRC_PREFIX \<Longrightarrow> fr_src_len t = rule_src_prefix r"
    unfolding t_def upt by (simp add: rule_hdr_prop_def if_distrib [of fr_src_len])
  show "rule_has r MNLXT_RT_RULE_DST_PREFIX \<Longrightarrow> fr_dst_len t = rule_dst_prefix r"
    unfolding t_def upt by (simp add: rule_hdr_prop_def if_distrib [of fr_dst_len])
qed

text \<open>
  The parsed rule \<open>r'\<close> in the heap \<open>h1\<close> has property \<open>i\<close> of the written rule \<open>r\<close> in \<open>h\<close>, and what has been
  collected when the properties \<open>D\<close> are done: a prefix length comes with its address.
\<close>

definition rule_agree :: "pheap \<Rightarrow> mnlxt_rt_rule_t \<Rightarrow> pheap \<Rightarrow> mnlxt_rt_rule_t \<Rightarrow> nat \<Rightarrow> bool" where
  "rule_agree h r h1 r' i \<longleftrightarrow> rule_has r' i \<and>
     (if i = MNLXT_RT_RULE_IIFNAME then rule_iif_str h1 r' = rule_iif_str h r
      else if i = MNLXT_RT_RULE_OIFNAME then rule_oif_str h1 r' = rule_oif_str h r
      else mnlxt_rt_rule_cmp h1 r' r i = Some 0)"

definition rule_collected :: "pheap \<Rightarrow> mnlxt_rt_rule_t \<Rightarrow> nat set \<Rightarrow> pheap \<Rightarrow> mnlxt_rt_rule_t \<Rightarrow> bool" where
  "rule_collected h r D h1 r' \<longleftrightarrow>
     rule_has r' MNLXT_RT_RULE_FAMILY \<and> rule_family r' = rule_family r \<and>
     (\<forall>i \<in> D - {MNLXT_RT_RULE_SRC_PREFIX, MNLXT_RT_RULE_DST_PREFIX}. rule_has r i \<longrightarrow> rule_agree h r h1 r' i) \<and>
     (MNLXT_RT_RULE_SRC \<in> D \<and> rule_has r MNLXT_RT_RULE_SRC \<and> rule_has r MNLXT_RT_RULE_SRC_PREFIX \<longrightarrow>
        rule_agree h r h1 r' MNLXT_RT_RULE_SRC_PREFIX) \<and>
     (MNLXT_RT_RULE_DST \<in> D \<and> rule_has r MNLXT_RT_RULE_DST \<and> rule_has r MNLXT_RT_RULE_DST_PREFIX \<longrightarrow>
        rule_agree h r h1 r' MNLXT_RT_RULE_DST_PREFIX)"

lemma rule_collected_more:
  assumes "rule_collected h r D h1 r'" "rule_has r'' MNLXT_RT_RULE_FAMILY" "rule_family r'' = rule_family r"
    and "\<And>j. rule_agree h r h1 r' j \<Longrightarrow> rule_agree h r h2 r'' j"
    and "rule_has r i \<Longrightarrow> i \<notin> {MNLXT_RT_RULE_SRC_PREFIX, MNLXT_RT_RULE_DST_PREFIX} \<Longrightarrow> rule_agree h r h2 r'' i"
    and "i = MNLXT_RT_RULE_SRC \<Longrightarrow> rule_has r MNLXT_RT_RULE_SRC_PREFIX \<Longrightarrow> rule_agree h r h2 r'' MNLXT_RT_RULE_SRC_PREFIX"
    and "i = MNLXT_RT_RULE_DST \<Longrightarrow> rule_has r MNLXT_RT_RULE_DST_PREFIX \<Longrightarrow> rule_agree h r h2 r'' MNLXT_RT_RULE_DST_PREFIX"
  shows "rule_collected h r (insert i D) h2 r''"
  using assms unfolding rule_collected_def by (auto simp del: insert_iff simp: Set.insert_iff)

text \<open>How the comparison of one property sees the updates of the parser.\<close>

lemma rule_agree_num:
  assumes i: "i \<in> {MNLXT_RT_RULE_PRIORITY, MNLXT_RT_RULE_FWMARK, MNLXT_RT_RULE_FWMASK,
      MNLXT_RT_RULE_SRC_PREFIX, MNLXT_RT_RULE_DST_PREFIX}" and v: "csize v = rule_data i"
  shows "rule_agree h r h1 (rule_store i v (r'\<lparr>rule_prop_flags := set_prop_flag (rule_prop_flags r') i\<rparr>)) j \<longleftrightarrow>
    (if j = i then v = rule_load i r else rule_agree h r h1 r' j)"
proof -
  let ?r = "rule_store i v (r'\<lparr>rule_prop_flags := set_prop_flag (rule_prop_flags r') i\<rparr>)"
  have "mnlxt_rt_rule_cmp h1 ?r r i = Some 0 \<longleftrightarrow> v = rule_load i r"
    using i v unfolding mnlxt_rt_rule_cmp_def
    by (elim insertE emptyE) (auto simp: rule_store_def rule_load_def rule_data_def)
  moreover have "mnlxt_rt_rule_cmp h1 ?r r j = mnlxt_rt_rule_cmp h1 r' r j" if "j \<noteq> i"
    using i that unfolding mnlxt_rt_rule_cmp_def
    by (elim insertE emptyE; simp add: rule_store_def cong: if_cong split del: if_split)
  moreover have "rule_iif_name ?r = rule_iif_name r'" "rule_oif_name ?r = rule_oif_name r'"
    using i by (auto simp: rule_store_def)
  moreover have "i \<noteq> MNLXT_RT_RULE_IIFNAME" "i \<noteq> MNLXT_RT_RULE_OIFNAME" "i < 16"
    using i by auto
  ultimately show ?thesis by (auto simp: rule_agree_def)
qed

lemma rule_agree_src:
  "rule_family r' = rule_family r \<Longrightarrow>
   rule_agree h r h1 (r'\<lparr>rule_src := a, rule_prop_flags := set_prop_flag (rule_prop_flags r') MNLXT_RT_RULE_SRC\<rparr>) j \<longleftrightarrow>
    (if j = MNLXT_RT_RULE_SRC then inet_memcmp (inet_size (rule_family r)) a (rule_src r) else rule_agree h r h1 r' j)"
  unfolding rule_agree_def mnlxt_rt_rule_cmp_def
  by (cases "j = MNLXT_RT_RULE_SRC") (simp_all cong: if_cong split del: if_split, simp)

lemma rule_agree_dst:
  "rule_family r' = rule_family r \<Longrightarrow>
   rule_agree h r h1 (r'\<lparr>rule_dst := a, rule_prop_flags := set_prop_flag (rule_prop_flags r') MNLXT_RT_RULE_DST\<rparr>) j \<longleftrightarrow>
    (if j = MNLXT_RT_RULE_DST then inet_memcmp (inet_size (rule_family r)) a (rule_dst r) else rule_agree h r h1 r' j)"
  unfolding rule_agree_def mnlxt_rt_rule_cmp_def
  by (cases "j = MNLXT_RT_RULE_DST") (simp_all cong: if_cong split del: if_split, simp)

lemma rule_cmp_heap:
  "j \<noteq> MNLXT_RT_RULE_IIFNAME \<Longrightarrow> j \<noteq> MNLXT_RT_RULE_OIFNAME \<Longrightarrow>
     mnlxt_rt_rule_cmp h1 r' r j = mnlxt_rt_rule_cmp h2 r' r j"
  by (simp add: mnlxt_rt_rule_cmp_def)

lemma rule_agree_iif:
  assumes "rule_oif_str h2 r' = rule_oif_str h1 r'"
  shows "rule_agree h r h2 (r'\<lparr>rule_iif_name := p, rule_prop_flags := set_prop_flag (rule_prop_flags r') MNLXT_RT_RULE_IIFNAME\<rparr>) j \<longleftrightarrow>
    (if j = MNLXT_RT_RULE_IIFNAME then Option.bind p (strs h2) = rule_iif_str h r else rule_agree h r h1 r' j)"
  using assms unfolding rule_agree_def
  by (cases "j = MNLXT_RT_RULE_IIFNAME") (auto simp: mnlxt_rt_rule_cmp_def)

lemma rule_agree_oif:
  assumes "rule_iif_str h2 r' = rule_iif_str h1 r'"
  shows "rule_agree h r h2 (r'\<lparr>rule_oif_name := p, rule_prop_flags := set_prop_flag (rule_prop_flags r') MNLXT_RT_RULE_OIFNAME\<rparr>) j \<longleftrightarrow>
    (if j = MNLXT_RT_RULE_OIFNAME then Option.bind p (strs h2) = rule_oif_str h r else rule_agree h r h1 r' j)"
  using assms unfolding rule_agree_def
  by (cases "j = MNLXT_RT_RULE_OIFNAME") (auto simp: mnlxt_rt_rule_cmp_def)

section \<open>Reading back what was written for one property\<close>

lemma rule_num_attr:
  assumes L: "libmnl_laws M mk b0 z" and i: "i \<in> {MNLXT_RT_RULE_PRIORITY, MNLXT_RT_RULE_FWMARK, MNLXT_RT_RULE_FWMASK}"
  shows "attr_loop (rule_attr M n hdr) (rule_attr_of mk h r i) (r', d, h1) e = Some (Next
    (rule_store i (rule_load i r) (r'\<lparr>rule_prop_flags := set_prop_flag (rule_prop_flags r') i\<rparr>), d, h1) e)"
  using i
  by (auto simp: rule_attr_of_def rule_attr_def libmnl_lawsD [OF L] on_valid_def store_set_def Let_def
      mnlxt_rt_rule_set_priority_def mnlxt_rt_rule_set_fwmark_def mnlxt_rt_rule_set_fwmask_def
      mnlxt_rt_rule_set_u32_def mnlxt_rt_rule_set_ptr_def rule_data_def rule_store_def rule_load_def)

lemma rule_set_family_same:
  "rule_has r' MNLXT_RT_RULE_FAMILY \<Longrightarrow> f = AF_INET \<or> f = AF_INET6 \<Longrightarrow> rule_family r' = f \<Longrightarrow>
     mnlxt_rt_rule_set_family (Some r') f e = (0, Some r', e)"
  by (auto simp: mnlxt_rt_rule_set_family_def)

lemma rule_addr_attr:
  assumes L: "libmnl_laws M mk b0 z" and fam: "rule_family r = AF_INET \<or> rule_family r = AF_INET6"
    and r': "rule_has r' MNLXT_RT_RULE_FAMILY" "rule_family r' = rule_family r"
    and hdr: "fr_family hdr = rule_family r"
  shows "inet_ok (rule_src r) \<Longrightarrow>
    attr_loop (rule_attr M (inet_size (rule_family r)) hdr) (rule_attr_of mk h r MNLXT_RT_RULE_SRC) (r', d, h1) e =
    (let r1 = r'\<lparr>rule_src := payload_inet M (mk FRA_SRC (inet_bytes (inet_size (rule_family r)) (rule_src r))),
           rule_prop_flags := set_prop_flag (rule_prop_flags r') MNLXT_RT_RULE_SRC\<rparr>
     in Some (Next (rule_store MNLXT_RT_RULE_SRC_PREFIX (U8 (fr_src_len hdr))
       (r1\<lparr>rule_prop_flags := set_prop_flag (rule_prop_flags r1) MNLXT_RT_RULE_SRC_PREFIX\<rparr>), d, h1) e))"
  and "inet_ok (rule_dst r) \<Longrightarrow>
    attr_loop (rule_attr M (inet_size (rule_family r)) hdr) (rule_attr_of mk h r MNLXT_RT_RULE_DST) (r', d, h1) e =
    (let r1 = r'\<lparr>rule_dst := payload_inet M (mk FRA_DST (inet_bytes (inet_size (rule_family r)) (rule_dst r))),
           rule_prop_flags := set_prop_flag (rule_prop_flags r') MNLXT_RT_RULE_DST\<rparr>
     in Some (Next (rule_store MNLXT_RT_RULE_DST_PREFIX (U8 (fr_dst_len hdr))
       (r1\<lparr>rule_prop_flags := set_prop_flag (rule_prop_flags r1) MNLXT_RT_RULE_DST_PREFIX\<rparr>), d, h1) e))"
  using rule_set_family_same [OF r'(1) fam r'(2)]
  by (simp_all add: rule_attr_of_def rule_attr_def libmnl_lawsD [OF L] on_valid_def store_set_def also_set_def
      Let_def hdr mnlxt_rt_rule_set_src_def mnlxt_rt_rule_set_dst_def mnlxt_rt_rule_set_src_prefix_def
      mnlxt_rt_rule_set_dst_prefix_def mnlxt_rt_rule_set_u8_def mnlxt_rt_rule_set_ptr_def rule_data_def)

abbreviation rule_step_to ::
  "pheap \<Rightarrow> mnlxt_rt_rule_t \<Rightarrow> nat set \<Rightarrow> rule_state parse option \<Rightarrow> bool" where
  "rule_step_to h r D \<equiv>
     parse_to (\<lambda>(r', d1, h2). rule_collected h r D h2 r') lost_at"

lemma rule_iif_attr:
  assumes L: "libmnl_laws M mk b0 z" and ok: "rule_names_ok h1 r'" "heap_ok h1"
    and c: "rule_collected h r D h1 r'"
    and s: "rule_iif_str h r = Some s" "padded_str s" "length s < IF_NAMESIZE"
  shows "rule_step_to h r (insert MNLXT_RT_RULE_IIFNAME D)
    (attr_loop (rule_attr M n hdr) (rule_attr_of mk h r MNLXT_RT_RULE_IIFNAME) (r', d, h1) e)"
proof -
  have bs: "str_bytes s \<noteq> []" using s(2) by (auto simp: str_bytes_def padded_str_def)
  have step: "attr_loop (rule_attr M n hdr) (rule_attr_of mk h r MNLXT_RT_RULE_IIFNAME) (r', d, h1) e =
    store_set_h (mnlxt_rt_rule_set_iif_name (Some r') (Some s) h1 e) ''mnlxt_rt_rule_set_iif_name failed'' (r', d, h1)"
    by (simp add: rule_attr_of_def attr_loop_single rule_attr_def libmnl_lawsD [OF L] on_valid_def Let_def s(1,2) bs
        del: attr_loop.simps)
  from ok show ?thesis
  proof (cases rule: rule_set_iif_name_cases [of _ _ s e])
    case (fail h')
    then show ?thesis unfolding step by (simp add: store_set_h_def store_set_def fail_with_def memory_lostI)
  next
    case (set q h')
    let ?r = "r'\<lparr>rule_iif_name := Some q, rule_prop_flags := set_prop_flag (rule_prop_flags r') MNLXT_RT_RULE_IIFNAME\<rparr>"
    have l: "strs h' p = (if p = q then Some s else if rule_iif_name r' = Some p then None else strs h1 p)" for p
      using s(3) by (cases "rule_iif_name r'") (auto simp: set(2))
    have "rule_oif_str h' r' = rule_oif_str h1 r'"
      using ok(1) set(3) by (cases "rule_oif_name r'") (auto simp: l rule_names_ok_def)
    note ag = rule_agree_iif [OF this, of h r "Some q"]
    have "rule_collected h r (insert MNLXT_RT_RULE_IIFNAME D) h' ?r"
      by (rule rule_collected_more [OF c]) (use c s(1) in \<open>auto simp: ag l rule_collected_def\<close>)
    then show ?thesis unfolding step by (simp add: store_set_h_def store_set_def set(1))
  qed
qed

lemma rule_oif_attr:
  assumes L: "libmnl_laws M mk b0 z" and ok: "rule_names_ok h1 r'" "heap_ok h1"
    and c: "rule_collected h r D h1 r'"
    and s: "rule_oif_str h r = Some s" "padded_str s" "length s < IF_NAMESIZE"
  shows "rule_step_to h r (insert MNLXT_RT_RULE_OIFNAME D)
    (attr_loop (rule_attr M n hdr) (rule_attr_of mk h r MNLXT_RT_RULE_OIFNAME) (r', d, h1) e)"
proof -
  have bs: "str_bytes s \<noteq> []" using s(2) by (auto simp: str_bytes_def padded_str_def)
  have step: "attr_loop (rule_attr M n hdr) (rule_attr_of mk h r MNLXT_RT_RULE_OIFNAME) (r', d, h1) e =
    store_set_h (mnlxt_rt_rule_set_oif_name (Some r') (Some s) h1 e) ''mnlxt_rt_rule_set_oif_name failed'' (r', d, h1)"
    by (simp add: rule_attr_of_def attr_loop_single rule_attr_def libmnl_lawsD [OF L] on_valid_def Let_def s(1,2) bs
        del: attr_loop.simps)
  from ok show ?thesis
  proof (cases rule: rule_set_oif_name_cases [of _ _ s e])
    case (fail h')
    then show ?thesis unfolding step by (simp add: store_set_h_def store_set_def fail_with_def memory_lostI)
  next
    case (set q h')
    let ?r = "r'\<lparr>rule_oif_name := Some q, rule_prop_flags := set_prop_flag (rule_prop_flags r') MNLXT_RT_RULE_OIFNAME\<rparr>"
    have l: "strs h' p = (if p = q then Some s else if rule_oif_name r' = Some p then None else strs h1 p)" for p
      using s(3) by (cases "rule_oif_name r'") (auto simp: set(2))
    have "rule_iif_str h' r' = rule_iif_str h1 r'"
      using ok(1) set(3) by (cases "rule_iif_name r'") (auto simp: l rule_names_ok_def)
    note ag = rule_agree_oif [OF this, of h r "Some q"]
    have "rule_collected h r (insert MNLXT_RT_RULE_OIFNAME D) h' ?r"
      by (rule rule_collected_more [OF c]) (use c s(1) in \<open>auto simp: ag l rule_collected_def\<close>)
    then show ?thesis unfolding step by (simp add: store_set_h_def store_set_def set(1))
  qed
qed

lemma rule_addr_collected:
  assumes c: "rule_collected h r D h1 r'" and inv: "rule_inv r" "rule_has r MNLXT_RT_RULE_FAMILY"
    and L: "libmnl_laws M mk b0 z" and hdr: "fr_family hdr = rule_family r"
  shows "(rule_has r MNLXT_RT_RULE_SRC_PREFIX \<Longrightarrow> fr_src_len hdr = rule_src_prefix r) \<Longrightarrow>
    rule_step_to h r (insert MNLXT_RT_RULE_SRC D) (attr_loop (rule_attr M (inet_size (rule_family r)) hdr)
      (rule_attr_of mk h r MNLXT_RT_RULE_SRC) (r', d, h1) e)"
  and "(rule_has r MNLXT_RT_RULE_DST_PREFIX \<Longrightarrow> fr_dst_len hdr = rule_dst_prefix r) \<Longrightarrow>
    rule_step_to h r (insert MNLXT_RT_RULE_DST D) (attr_loop (rule_attr M (inet_size (rule_family r)) hdr)
      (rule_attr_of mk h r MNLXT_RT_RULE_DST) (r', d, h1) e)"
proof -
  from inv have fam: "rule_family r = AF_INET \<or> rule_family r = AF_INET6"
    and ok: "inet_ok (rule_src r)" "inet_ok (rule_dst r)" by (simp_all add: rule_inv_def)
  from c have r': "rule_has r' MNLXT_RT_RULE_FAMILY" "rule_family r' = rule_family r"
    by (simp_all add: rule_collected_def)
  have pre: "inet_memcmp (inet_size (rule_family r)) (payload_inet M (mk t (inet_bytes (inet_size (rule_family r)) x))) x"
    if "inet_ok x" for t x
    using payload_inet_prefix [OF L _ that, of "inet_size (rule_family r)"] by (simp add: inet_memcmp_def)
  show "rule_step_to h r (insert MNLXT_RT_RULE_SRC D) (attr_loop (rule_attr M (inet_size (rule_family r)) hdr)
      (rule_attr_of mk h r MNLXT_RT_RULE_SRC) (r', d, h1) e)"
    if "rule_has r MNLXT_RT_RULE_SRC_PREFIX \<Longrightarrow> fr_src_len hdr = rule_src_prefix r"
  proof -
    let ?r1 = "r'\<lparr>rule_src := payload_inet M (mk FRA_SRC (inet_bytes (inet_size (rule_family r)) (rule_src r))),
        rule_prop_flags := set_prop_flag (rule_prop_flags r') MNLXT_RT_RULE_SRC\<rparr>"
    let ?r2 = "rule_store MNLXT_RT_RULE_SRC_PREFIX (U8 (fr_src_len hdr))
        (?r1\<lparr>rule_prop_flags := set_prop_flag (rule_prop_flags ?r1) MNLXT_RT_RULE_SRC_PREFIX\<rparr>)"
    have ag: "rule_agree h r h1 ?r2 j \<longleftrightarrow> (if j = MNLXT_RT_RULE_SRC_PREFIX then fr_src_len hdr = rule_src_prefix r
        else j = MNLXT_RT_RULE_SRC \<or> rule_agree h r h1 r' j)" for j
      by (subst rule_agree_num) (simp_all add: rule_data_def rule_load_def rule_agree_src [OF r'(2)] pre [OF ok(1)])
    have "rule_collected h r (insert MNLXT_RT_RULE_SRC D) h1 ?r2"
      using c that r' unfolding rule_collected_def ag by (auto simp: rule_store_def)
    then show ?thesis
      unfolding rule_addr_attr(1) [OF L fam r' hdr ok(1)] Let_def by simp
  qed
  show "rule_step_to h r (insert MNLXT_RT_RULE_DST D) (attr_loop (rule_attr M (inet_size (rule_family r)) hdr)
      (rule_attr_of mk h r MNLXT_RT_RULE_DST) (r', d, h1) e)"
    if "rule_has r MNLXT_RT_RULE_DST_PREFIX \<Longrightarrow> fr_dst_len hdr = rule_dst_prefix r"
  proof -
    let ?r1 = "r'\<lparr>rule_dst := payload_inet M (mk FRA_DST (inet_bytes (inet_size (rule_family r)) (rule_dst r))),
        rule_prop_flags := set_prop_flag (rule_prop_flags r') MNLXT_RT_RULE_DST\<rparr>"
    let ?r2 = "rule_store MNLXT_RT_RULE_DST_PREFIX (U8 (fr_dst_len hdr))
        (?r1\<lparr>rule_prop_flags := set_prop_flag (rule_prop_flags ?r1) MNLXT_RT_RULE_DST_PREFIX\<rparr>)"
    have ag: "rule_agree h r h1 ?r2 j \<longleftrightarrow> (if j = MNLXT_RT_RULE_DST_PREFIX then fr_dst_len hdr = rule_dst_prefix r
        else j = MNLXT_RT_RULE_DST \<or> rule_agree h r h1 r' j)" for j
      by (subst rule_agree_num) (simp_all add: rule_data_def rule_load_def rule_agree_dst [OF r'(2)] pre [OF ok(2)])
    have "rule_collected h r (insert MNLXT_RT_RULE_DST D) h1 ?r2"
      using c that r' unfolding rule_collected_def ag by (auto simp: rule_store_def)
    then show ?thesis
      unfolding rule_addr_attr(2) [OF L fam r' hdr ok(2)] Let_def by simp
  qed
qed

text \<open>The properties whose values are in the struct, and those that are in attributes.\<close>

abbreviation rule_hdr_props :: "nat set" where
  "rule_hdr_props \<equiv> {MNLXT_RT_RULE_FAMILY, MNLXT_RT_RULE_TABLE, MNLXT_RT_RULE_TOS, MNLXT_RT_RULE_ACTION}"

abbreviation rule_attr_props :: "nat set" where
  "rule_attr_props \<equiv> {MNLXT_RT_RULE_PRIORITY, MNLXT_RT_RULE_FWMARK, MNLXT_RT_RULE_FWMASK, MNLXT_RT_RULE_SRC,
     MNLXT_RT_RULE_DST, MNLXT_RT_RULE_IIFNAME, MNLXT_RT_RULE_OIFNAME}"

lemma rule_prop_step:
  assumes L: "libmnl_laws M mk b0 z" and inv: "rule_inv r" "rule_has r MNLXT_RT_RULE_FAMILY" "rule_names_ok h r"
    "rule_sendable h r"
    and hdr: "fr_family hdr = rule_family r"
      "rule_has r MNLXT_RT_RULE_SRC_PREFIX \<Longrightarrow> fr_src_len hdr = rule_src_prefix r"
      "rule_has r MNLXT_RT_RULE_DST_PREFIX \<Longrightarrow> fr_dst_len hdr = rule_dst_prefix r"
    and i: "i < MNLXT_RT_RULE_MAX" and D: "rule_hdr_props \<subseteq> D"
    and c: "rule_collected h r D h1 r'" and ok: "rule_names_ok h1 r'" "heap_ok h1"
  shows "rule_step_to h r (insert i D) (attr_loop (rule_attr M (inet_size (rule_family r)) hdr)
      (if rule_has r i then rule_attr_of mk h r i else []) (r', d, h1) e)"
proof (cases "rule_has r i \<and> i \<in> rule_attr_props")
  case False
  then have "(if rule_has r i then rule_attr_of mk h r i else []) = []" by (auto simp: rule_attr_of_def)
  moreover have "\<not> rule_has r i \<or> i \<in> D \<or> i = MNLXT_RT_RULE_SRC_PREFIX \<or> i = MNLXT_RT_RULE_DST_PREFIX"
    using False D i by (auto simp: less_Suc_eq numeral_eq_Suc)
  then have "rule_collected h r (insert i D) h1 r'" using c by (auto simp: rule_collected_def)
  ultimately show ?thesis by simp
next
  case True
  then consider (num) "i \<in> {MNLXT_RT_RULE_PRIORITY, MNLXT_RT_RULE_FWMARK, MNLXT_RT_RULE_FWMASK}"
    | (src) "i = MNLXT_RT_RULE_SRC" | (dst) "i = MNLXT_RT_RULE_DST"
    | (iif) "i = MNLXT_RT_RULE_IIFNAME" | (oif) "i = MNLXT_RT_RULE_OIFNAME" by blast
  then show ?thesis
  proof cases
    case num
    let ?r = "rule_store i (rule_load i r) (r'\<lparr>rule_prop_flags := set_prop_flag (rule_prop_flags r') i\<rparr>)"
    have "csize (rule_load i r) = rule_data i" using num by (auto simp: rule_load_def rule_data_def)
    then have ag: "rule_agree h r h1 ?r j \<longleftrightarrow> j = i \<or> rule_agree h r h1 r' j" for j
      using num by (subst rule_agree_num) auto
    have fam: "rule_has r' MNLXT_RT_RULE_FAMILY" "rule_family r' = rule_family r"
      using c by (simp_all add: rule_collected_def)
    have "rule_has ?r MNLXT_RT_RULE_FAMILY" "rule_family ?r = rule_family r" "i \<noteq> MNLXT_RT_RULE_SRC" "i \<noteq> MNLXT_RT_RULE_DST"
      using num fam by (elim insertE emptyE; simp add: rule_store_def)+
    then have "rule_collected h r (insert i D) h1 ?r"
      by (intro rule_collected_more [OF c]) (simp_all only: ag, simp_all)
    then show ?thesis using True by (simp add: rule_num_attr [OF L num])
  next
    case src
    then show ?thesis using True rule_addr_collected(1) [OF c inv(1,2) L hdr(1,2)] by simp
  next
    case dst
    then show ?thesis using True rule_addr_collected(2) [OF c inv(1,2) L hdr(1,3)] by simp
  next
    case iif
    with True obtain s where s: "rule_iif_str h r = Some s" "length s < IF_NAMESIZE"
      using rule_names_str(1) [OF inv(3)] by auto
    moreover from s(1) inv(4) have "padded_str s" unfolding rule_sendable_def by blast
    ultimately show ?thesis using True iif rule_iif_attr [OF L ok c] by simp
  next
    case oif
    with True obtain s where s: "rule_oif_str h r = Some s" "length s < IF_NAMESIZE"
      using rule_names_str(2) [OF inv(3)] by auto
    moreover from s(1) inv(4) have "padded_str s" unfolding rule_sendable_def by blast
    ultimately show ?thesis using True oif rule_oif_attr [OF L ok c] by simp
  qed
qed

text \<open>Names that are in the old heap are also in the heap after parsing.\<close>

lemma work_inv_strs:
  assumes "work_inv h0 d0 q x d h" "strs h0 p = Some s"
  shows "strs h p = Some s"
proof -
  from assms have "((strs h) |` (- payload_parts x)) p = Some s" by (simp add: work_inv_def)
  then show ?thesis by (simp add: restrict_map_def split: if_splits)
qed

lemma rule_names_ok_later:
  "rule_names_ok h0 r \<Longrightarrow> work_inv h0 d0 q x d h \<Longrightarrow> rule_names_ok h r"
  unfolding rule_names_ok_def using work_inv_strs by blast

lemma rule_str_later:
  assumes "rule_names_ok h0 r" "work_inv h0 d0 q x d h"
  shows "rule_iif_str h r = rule_iif_str h0 r" "rule_oif_str h r = rule_oif_str h0 r"
  using assms(1) work_inv_strs [OF assms(2)]
  by (cases "rule_iif_name r"; fastforce simp: rule_names_ok_def)
    (cases "rule_oif_name r"; use assms(1) work_inv_strs [OF assms(2)] in \<open>fastforce simp: rule_names_ok_def\<close>)

lemma rule_collected_match:
  assumes c: "rule_collected h r D h1 r'" and D: "{0..<MNLXT_RT_RULE_MAX} \<subseteq> D" and s: "rule_sendable h r"
    and ok: "rule_names_ok h1 r'" "rule_names_ok h r" and w: "work_inv h d0 q x d h1"
  shows "mnlxt_rt_rule_match h1 (Some r') (Some r) e = Some (0, e)"
proof (rule rule_match_zero [OF ok(1) rule_names_ok_later [OF ok(2) w]])
  fix i assume i: "i < MNLXT_RT_RULE_MAX" "rule_has r i"
  have mem: "MNLXT_RT_RULE_SRC \<in> D" "MNLXT_RT_RULE_DST \<in> D" using D by auto
  have ag: "rule_agree h r h1 r' i"
  proof (cases "i = MNLXT_RT_RULE_SRC_PREFIX \<or> i = MNLXT_RT_RULE_DST_PREFIX")
    case True
    then show ?thesis
    proof
      assume "i = MNLXT_RT_RULE_SRC_PREFIX"
      with i s c mem show ?thesis by (simp add: rule_sendable_def rule_collected_def)
    next
      assume "i = MNLXT_RT_RULE_DST_PREFIX"
      with i s c mem show ?thesis by (simp add: rule_sendable_def rule_collected_def)
    qed
  next
    case False
    with i c D show ?thesis unfolding rule_collected_def by (auto simp: subset_iff)
  qed
  note str = rule_str_later [OF ok(2) w]
  have "mnlxt_rt_rule_cmp h1 r' r i = Some 0"
  proof -
    consider "i = MNLXT_RT_RULE_IIFNAME" | "i = MNLXT_RT_RULE_OIFNAME"
      | "i \<noteq> MNLXT_RT_RULE_IIFNAME" "i \<noteq> MNLXT_RT_RULE_OIFNAME" by blast
    then show ?thesis
    proof cases
      case 1
      with i(2) rule_names_str(1) [OF ok(2)] obtain s where "rule_iif_str h r = Some s" by auto
      with ag str 1 show ?thesis by (simp add: rule_agree_def mnlxt_rt_rule_cmp_def str_differs_def)
    next
      case 2
      with i(2) rule_names_str(2) [OF ok(2)] obtain s where "rule_oif_str h r = Some s" by auto
      with ag str 2 show ?thesis by (simp add: rule_agree_def mnlxt_rt_rule_cmp_def str_differs_def)
    next
      case 3
      with ag show ?thesis by (simp add: rule_agree_def)
    qed
  qed
  with ag show "rule_has r' i \<and> mnlxt_rt_rule_cmp h1 r' r i = Some 0" by (simp add: rule_agree_def)
qed

lemma rule_match_strs:
  assumes "strs h' = strs h"
  shows "mnlxt_rt_rule_match h' p q e = mnlxt_rt_rule_match h p q e"
proof -
  have "mnlxt_rt_rule_cmp h' x y = mnlxt_rt_rule_cmp h x y" for x y
    by (rule ext) (simp add: mnlxt_rt_rule_cmp_def str_differs_def assms)
  then show ?thesis by (cases q; cases p) (simp_all add: mnlxt_rt_rule_match_def mnlxt_rt_rule_compare_def)
qed

text \<open>The whole attribute loop, from the rule that the header gave.\<close>

lemma rule_loop_collects:
  fixes r :: mnlxt_rt_rule_t
  defines "t \<equiv> fold (\<lambda>i t. if rule_has r i then rule_hdr_prop r i t else t) [0..<MNLXT_RT_RULE_MAX] fib_rule_hdr_zero"
  assumes L: "libmnl_laws M mk b0 z"
    and inv: "rule_inv r" "rule_has r MNLXT_RT_RULE_FAMILY" "rule_names_ok h r" "rule_sendable h r"
    and w: "work_inv h d q (PRule rule_zero) d h1"
  shows "parse_to
    (\<lambda>s. (case s of (r', d1, h2) \<Rightarrow> rule_collected h r {0..<MNLXT_RT_RULE_MAX} h2 r') \<and>
       rule_work h d q (fst (rule_from_hdr t e)) s)
    (\<lambda>s e2. rule_work h d q (fst (rule_from_hdr t e)) s \<and> lost_at s e2)
    (attr_loop (rule_attr M (inet_size (rule_family r)) t)
       (concat (map (\<lambda>i. if rule_has r i then rule_attr_of mk h r i else []) [0..<MNLXT_RT_RULE_MAX]))
       (fst (rule_from_hdr t e), d, h1) e1)"
proof -
  note fields = rule_hdr_fields [of r, folded t_def]
  from inv have fam: "rule_family r = AF_INET \<or> rule_family r = AF_INET6" by (simp add: rule_inv_def)
  have tf: "fr_family t = rule_family r" by (rule fields(1) [OF inv(2)])
  let ?W = "rule_work h d q (fst (rule_from_hdr t e))"
  let ?A = "\<lambda>D s. (case s of (r', d1, h2) \<Rightarrow> rule_hdr_props \<subseteq> D \<and> rule_collected h r D h2 r') \<and> ?W s"
  have start: "?A rule_hdr_props (fst (rule_from_hdr t e), d, h1)"
    using fam fields rule_work_start [OF _ w, of t e]
    by (auto simp: tf rule_from_hdr_eq rule_collected_def rule_agree_def mnlxt_rt_rule_cmp_def)
  have step: "parse_to (?A (insert i D)) (\<lambda>s e. ?W s \<and> lost_at s e)
      (attr_loop (rule_attr M (inet_size (rule_family r)) t) (if rule_has r i then rule_attr_of mk h r i else []) s e')"
    if "i \<in> set [0..<MNLXT_RT_RULE_MAX]" "?A D s" for i D s e'
  proof (rule parse_to_and)
    obtain r' d1 h2 where s: "s = (r', d1, h2)" by (cases s)
    with that have a: "rule_hdr_props \<subseteq> D" "rule_collected h r D h2 r'" "?W s" "i < MNLXT_RT_RULE_MAX" by auto
    from a(3) have ok: "rule_names_ok h2 r'" "heap_ok h2" by (simp_all add: s rule_work_def rule_wf_def)
    from rule_prop_step [OF L inv tf fields(5,6) a(4,1,2) ok, of d1 e']
    have "rule_step_to h r (insert i D) (attr_loop (rule_attr M (inet_size (rule_family r)) t)
        (if rule_has r i then rule_attr_of mk h r i else []) s e')" unfolding s .
    then show "parse_to (\<lambda>s. case s of (r', d1, h2) \<Rightarrow> rule_hdr_props \<subseteq> insert i D \<and> rule_collected h r (insert i D) h2 r')
        lost_at (attr_loop (rule_attr M (inet_size (rule_family r)) t)
          (if rule_has r i then rule_attr_of mk h r i else []) s e')"
      by (rule parse_to_mono) (use a(1) in auto)
    show "parse_all ?W (attr_loop (rule_attr M (inet_size (rule_family r)) t)
        (if rule_has r i then rule_attr_of mk h r i else []) s e')"
      by (rule attr_loop_all [OF rule_attr_keeps a(3)])
  qed
  have all: "rule_hdr_props \<union> set [0..<MNLXT_RT_RULE_MAX] = {0..<MNLXT_RT_RULE_MAX}" by auto
  show ?thesis
    using attr_loop_collects [of "[0..<MNLXT_RT_RULE_MAX]" ?A, OF step start, of e1] unfolding all
    by (rule parse_to_mono) auto
qed

lemma rule_roundtrip_parsed:
  assumes L: "libmnl_laws M mk b0 fib_rule_hdr_zero"
    and inv: "rule_inv r" "rule_has r MNLXT_RT_RULE_FAMILY" "rule_names_ok h r" "rule_sendable h r"
    and ok: "heap_ok h" "data_inv h d ps" and n: "nlmsg_body n = b0"
    and put: "mnlxt_rt_rule_put M h (Some n) (Some r) e0 = Some (rc, Some n', e')"
  shows "parsed h d ps (nlmsg_type n) (parse_failure h rule_types (nlmsg_type n)) False
    (\<lambda>h' x. \<exists>r'. x = PRule r' \<and> mnlxt_rt_rule_match h' (Some r') (Some r) e = Some (0, e))
    (mnlxt_rt_rule_data M (Some n') (Some d) h e)"
proof -
  note view = rule_put_view [OF L inv(3) n put]
  let ?t = "hdr_read M (nlmsg_body n')"
  from inv have fam: "rule_family r = AF_INET \<or> rule_family r = AF_INET6" by (simp add: rule_inv_def)
  have tf: "fr_family ?t = rule_family r" unfolding view(2) by (rule rule_hdr_fields(1) [OF inv(2)])
  let ?F = "parse_failure h rule_types (nlmsg_type n)"
  let ?P = "\<lambda>h' x. \<exists>r'. x = PRule r' \<and> mnlxt_rt_rule_match h' (Some r') (Some r) e = Some (0, e)"
  have "parsed h d ps (nlmsg_type n') ?F False ?P (mnlxt_rt_rule_data M (Some n') (Some d) h e)"
  proof (rule rule_parse_frame [OF ok], goal_cases)
    case (4 h1 h2 x)
    then show ?case using rule_match_strs [OF 4(2)] by simp
  next
    case (5 q h1)
    from rule_loop_collects [OF L inv 5(2), of e "snd (rule_from_hdr ?t e)", folded view(2)]
    show ?case
      unfolding view(3) tf
    proof (rule parse_to_mono, goal_cases)
      case (1 s)
      obtain r' d1 h2 where s: "s = (r', d1, h2)" by (cases s)
      from 1 have c: "rule_collected h r {0..<MNLXT_RT_RULE_MAX} h2 r'"
        and w: "work_inv h d q (PRule r') d1 h2" "rule_names_ok h2 r'" by (auto simp: s rule_work_def rule_wf_def)
      from rule_collected_match [OF c order_refl inv(4) w(2) inv(3) w(1)] w(1) show ?case by (simp add: s)
    next
      case (2 s e2)
      then show ?case by (cases s) (auto simp: rule_work_def work_inv_lost intro: parse_failureI)
    qed
  qed (use fam tf view(1) in \<open>auto intro: parse_failureI\<close>)
  then show ?thesis by (simp only: view(1))
qed

end
