(* ===== verification/AddrData.thy ===== *)
theory AddrData
  imports Codec
begin

text \<open>
  src/rtnl/addr_data.c: comparing interface addresses, writing an address into a netlink message,
  parsing one out of a message, and the operations on messages that carry addresses. The parameter
  \<open>ext\<close> is the build option \<open>HAVE_IFA_FLAGS\<close>: whether the kernel headers know the attribute that
  holds all 32 flag bits.
\<close>

section \<open>Comparison\<close>

definition mnlxt_rt_addr_cmp :: "pheap \<Rightarrow> mnlxt_rt_addr_t \<Rightarrow> mnlxt_rt_addr_t \<Rightarrow> nat \<Rightarrow> int option" where
  "mnlxt_rt_addr_cmp h a b data =
     map_option (\<lambda>failed. if failed then int data + 1 else 0)
       (if data = MNLXT_RT_ADDR_FAMILY then Some (addr_family a \<noteq> addr_family b)
        else if data = MNLXT_RT_ADDR_PREFIXLEN then Some (addr_prefixlen a \<noteq> addr_prefixlen b)
        else if data = MNLXT_RT_ADDR_FLAGS then Some (addr_flags a \<noteq> addr_flags b)
        else if data = MNLXT_RT_ADDR_SCOPE then Some (addr_scope a \<noteq> addr_scope b)
        else if data = MNLXT_RT_ADDR_IFINDEX then Some (addr_if_index a \<noteq> addr_if_index b)
        else if data = MNLXT_RT_ADDR_ADDR then 
          Some (\<not> inet_memcmp (inet_size (addr_family a)) (addr_addr a) (addr_addr b))
        else if data = MNLXT_RT_ADDR_LOCAL then 
          Some (\<not> inet_memcmp (inet_size (addr_family a)) (addr_local a) (addr_local b))
        else if data = MNLXT_RT_ADDR_LABEL then 
          (if addr_label a = None \<or> addr_label b = None then Some True
           else str_differs h (addr_label a) (addr_label b))
        else if data = MNLXT_RT_ADDR_CACHEINFO then Some False
        else Some False)"

definition mnlxt_rt_addr_compare ::
  "pheap \<Rightarrow> mnlxt_rt_addr_t option \<Rightarrow> mnlxt_rt_addr_t option \<Rightarrow> u64 \<Rightarrow> errno \<Rightarrow> (int \<times> errno) option" where
  "mnlxt_rt_addr_compare h a b flt e =
     (case (a, b) of
        (Some x, Some y) \<Rightarrow>
          map_option (\<lambda>rc. (rc, e))
            (cmp_loop_m (MNLXT_RT_ADDR_MAX) flt (ucast (addr_prop_flags x)) (ucast (addr_prop_flags y)) (mnlxt_rt_addr_cmp h x y) 0 1)
      | _ \<Rightarrow> Some (- 1, EINVAL))"

definition mnlxt_rt_addr_match ::
  "pheap \<Rightarrow> mnlxt_rt_addr_t option \<Rightarrow> mnlxt_rt_addr_t option \<Rightarrow> errno \<Rightarrow> (int \<times> errno) option" where
  "mnlxt_rt_addr_match h a m e =
     (case m of None \<Rightarrow> Some (- 1, EINVAL)
      | Some y \<Rightarrow> mnlxt_rt_addr_compare h a m (ucast (addr_prop_flags y)) e)"

section \<open>Messages that carry an address\<close>

definition mnlxt_rt_addr_get :: "mnlxt_message_t option \<Rightarrow> ptr option" where
  "mnlxt_rt_addr_get message =
     (case message of None \<Rightarrow> None
      | Some m \<Rightarrow> if msg_type m \<in> {RTM_NEWADDR, RTM_GETADDR, RTM_DELADDR} then msg_payload m else None)"

definition mnlxt_rt_addr_remove :: "ptr option \<Rightarrow> pheap \<Rightarrow> (ptr option \<times> pheap) option" where
  "mnlxt_rt_addr_remove message h = take_payload mnlxt_rt_addr_get message h"

section \<open>Writing a message\<close>

text \<open>\<open>struct ifaddrmsg\<close> and the attributes of linux/if_addr.h.\<close>

record ifaddrmsg =
  ifa_family :: u8
  ifa_prefixlen :: u8
  ifa_flags :: u8
  ifa_scope :: u8
  ifa_index :: u32

definition ifaddrmsg_zero :: ifaddrmsg where
  "ifaddrmsg_zero = \<lparr>ifa_family = 0, ifa_prefixlen = 0, ifa_flags = 0, ifa_scope = 0, ifa_index = 0\<rparr>"

abbreviation IFA_UNSPEC :: nat where "IFA_UNSPEC \<equiv> 0"
abbreviation IFA_ADDRESS :: nat where "IFA_ADDRESS \<equiv> 1"
abbreviation IFA_LOCAL :: nat where "IFA_LOCAL \<equiv> 2"
abbreviation IFA_LABEL :: nat where "IFA_LABEL \<equiv> 3"
abbreviation IFA_BROADCAST :: nat where "IFA_BROADCAST \<equiv> 4"
abbreviation IFA_ANYCAST :: nat where "IFA_ANYCAST \<equiv> 5"
abbreviation IFA_CACHEINFO :: nat where "IFA_CACHEINFO \<equiv> 6"
abbreviation IFA_MULTICAST :: nat where "IFA_MULTICAST \<equiv> 7"
abbreviation IFA_FLAGS :: nat where "IFA_FLAGS \<equiv> 8"

text \<open>The largest attribute type that the kernel headers of the build know.\<close>

abbreviation IFA_MAX :: nat where "IFA_MAX \<equiv> 11"

type_synonym ('b, 'a) ifa_mnl = "(ifaddrmsg, 'b, 'a) libmnl"

text \<open>\<open>struct ifa_cacheinfo\<close> in memory, and read through the pointer to an attribute's payload.\<close>

definition cacheinfo_bytes :: "ifa_cacheinfo \<Rightarrow> u8 list" where
  "cacheinfo_bytes c = le32 (ifa_prefered c) @ le32 (ifa_valid c) @ le32 (cstamp c) @ le32 (tstamp c)"

definition payload_cacheinfo :: "('b, 'a) ifa_mnl \<Rightarrow> 'a \<Rightarrow> ifa_cacheinfo" where
  "payload_cacheinfo M a = \<lparr>ifa_prefered = payload_u32 M a 0, ifa_valid = payload_u32 M a 4,
     cstamp = payload_u32 M a 8, tstamp = payload_u32 M a 12\<rparr>"

definition addr_put_prop ::
  "bool \<Rightarrow> ('b, 'a) ifa_mnl \<Rightarrow> pheap \<Rightarrow> mnlxt_rt_addr_t \<Rightarrow> nat \<Rightarrow> nat \<Rightarrow> 'b \<Rightarrow> 'b option" where
  "addr_put_prop ext M h addr addr_size i b =
     (if i = MNLXT_RT_ADDR_FAMILY then Some (hdr_upd M (\<lambda>r. r\<lparr>ifa_family := addr_family addr\<rparr>) b)
      else if i = MNLXT_RT_ADDR_PREFIXLEN then Some (hdr_upd M (\<lambda>r. r\<lparr>ifa_prefixlen := addr_prefixlen addr\<rparr>) b)
      else if i = MNLXT_RT_ADDR_FLAGS then
        (let b1 = hdr_upd M (\<lambda>r. r\<lparr>ifa_flags := ucast (addr_flags addr)\<rparr>) b
         in Some (if ext then attr_put_u32 M IFA_FLAGS (addr_flags addr) b1 else b1))
      else if i = MNLXT_RT_ADDR_SCOPE then Some (hdr_upd M (\<lambda>r. r\<lparr>ifa_scope := addr_scope addr\<rparr>) b)
      else if i = MNLXT_RT_ADDR_IFINDEX then Some (hdr_upd M (\<lambda>r. r\<lparr>ifa_index := addr_if_index addr\<rparr>) b)
      else if i = MNLXT_RT_ADDR_ADDR then Some (attr_put M IFA_ADDRESS (inet_bytes addr_size (addr_addr addr)) b)
      else if i = MNLXT_RT_ADDR_LOCAL then Some (attr_put M IFA_LOCAL (inet_bytes addr_size (addr_local addr)) b)
      else if i = MNLXT_RT_ADDR_LABEL then
        map_option (\<lambda>s. attr_put_str M IFA_LABEL s b) (Option.bind (addr_label addr) (strs h))
      else if i = MNLXT_RT_ADDR_CACHEINFO then Some (attr_put M IFA_CACHEINFO (cacheinfo_bytes (addr_cacheinfo addr)) b)
      else Some b)"

definition mnlxt_rt_addr_put ::
  "bool \<Rightarrow> ('b, 'a) ifa_mnl \<Rightarrow> pheap \<Rightarrow> 'b nlmsghdr option \<Rightarrow> mnlxt_rt_addr_t option \<Rightarrow> errno \<Rightarrow>
     (int \<times> 'b nlmsghdr option \<times> errno) option" where
  "mnlxt_rt_addr_put ext M h nlh addr e =
     (case (addr, nlh) of
        (Some r, Some n) \<Rightarrow>
          map_option (\<lambda>b. (0, Some (n\<lparr>nlmsg_body := b\<rparr>), e))
            (put_loop (MNLXT_RT_ADDR_MAX) (addr_prop_flags r)
               (\<lambda>i m. Option.bind m (addr_put_prop ext M h r (inet_size (addr_family r)) i)) 0 1
               (Some (put_extra_header M (nlmsg_body n))))
      | _ \<Rightarrow> Some (- 1, nlh, EINVAL))"

section \<open>Parsing a message\<close>

type_synonym addr_state = "(mnlxt_rt_addr_t, mnlxt_xfrm_tmpl_t, payload) pstate"

text \<open>The assignment to the member and \<open>MNLXT_SET_PROP_FLAG\<close>, which the parser does itself.\<close>

definition addr_take_cacheinfo :: "ifa_cacheinfo \<Rightarrow> mnlxt_rt_addr_t \<Rightarrow> mnlxt_rt_addr_t" where
  "addr_take_cacheinfo c r = r\<lparr>addr_cacheinfo := c,
     addr_prop_flags := set_prop_flag (addr_prop_flags r) MNLXT_RT_ADDR_CACHEINFO\<rparr>"

definition addr_attr ::
  "bool \<Rightarrow> ('b, 'a) ifa_mnl \<Rightarrow> nat \<Rightarrow> ifaddrmsg \<Rightarrow> 'a \<Rightarrow> addr_state \<Rightarrow> errno \<Rightarrow> addr_state parse option" where
  "addr_attr ext M len ifam a s e =
     (let type = attr_type M a; addr = Some (fst s); h = snd (snd s) in
      case attr_type_valid M a IFA_MAX e of (v, e0) \<Rightarrow>
        if v < 0 then Some (Next s e0)
        else if type = IFA_ADDRESS then
          on_valid (attr_validate2 M a MNL_TYPE_BINARY len e0) ''IFA_ADDRESS validation failed'' s
            (\<lambda>e1. store_set (mnlxt_rt_addr_set_addr addr (ifa_family ifam) (Some (payload_inet M a)) e1)
               ''mnlxt_rt_addr_set_addr failed'' s)
        else if type = IFA_LOCAL then
          on_valid (attr_validate2 M a MNL_TYPE_BINARY len e0) ''IFA_LOCAL validation failed'' s
            (\<lambda>e1. Option.bind (mnlxt_rt_addr_set_local addr (ifa_family ifam) (Some (payload_inet M a)) e1)
               (\<lambda>r. store_set r ''mnlxt_rt_addr_set_local failed'' s))
        else if type = IFA_LABEL then
          on_valid (attr_validate M a MNL_TYPE_STRING e0) ''IFA_LABEL validation failed'' s
            (\<lambda>e1. store_set_h (mnlxt_rt_addr_set_label addr (Some (attr_get_str M a)) h e1)
               ''mnlxt_rt_addr_set_label failed'' s)
        else if type = IFA_CACHEINFO then
          on_valid (attr_validate2 M a MNL_TYPE_BINARY 16 e0) ''IFA_CACHEINFO validation failed'' s
            (\<lambda>e1. Some (Next (addr_take_cacheinfo (payload_cacheinfo M a) (fst s), snd s) e1))
        else if ext \<and> type = IFA_FLAGS then
          on_valid (attr_validate M a MNL_TYPE_U32 e0) ''IFA_FLAGS validation failed'' s
            (\<lambda>e1. store_set (mnlxt_rt_addr_set_flags addr (attr_get_u32 M a) e1)
               ''mnlxt_rt_addr_set_flags failed'' s)
        else Some (Next s e0))"

text \<open>What \<open>mnlxt_rt_addr_new\<close> gives, and the setters that run on it first, their results ignored.\<close>

definition addr_fresh :: mnlxt_rt_addr_t where
  "addr_fresh = the (fst (mnlxt_rt_addr_new True 0))"

definition addr_from_hdr :: "ifaddrmsg \<Rightarrow> errno \<Rightarrow> mnlxt_rt_addr_t \<times> errno" where
  "addr_from_hdr ifam e =
     run_setters
       [\<lambda>p. mnlxt_rt_addr_set_prefixlen p (ifa_prefixlen ifam),
        \<lambda>p. mnlxt_rt_addr_set_flags p (ucast (ifa_flags ifam)),
        \<lambda>p. mnlxt_rt_addr_set_ifindex p (ifa_index ifam),
        \<lambda>p. mnlxt_rt_addr_set_scope p (ifa_scope ifam)] addr_fresh e"

definition mnlxt_rt_addr_data ::
  "bool \<Rightarrow> ('b, 'a) ifa_mnl \<Rightarrow> 'b nlmsghdr option \<Rightarrow> mnlxt_data_t option \<Rightarrow> pheap \<Rightarrow> errno \<Rightarrow>
     (int \<times> mnlxt_data_t option \<times> pheap \<times> errno) option" where
  "mnlxt_rt_addr_data ext M nlh data h e =
     parse_start [RTM_GETADDR, RTM_NEWADDR, RTM_DELADDR] nlh data h
       (\<lambda>n d. let ifam = hdr_read M (nlmsg_body n) in
          if AF_INET \<noteq> ifa_family ifam \<and> AF_INET6 \<noteq> ifa_family ifam
          then Some (MNL_CB_OK, Some d, h, e)
          else
            parse_new (PAddr addr_fresh) ''mnlxt_rt_addr_new failed'' d h
              (\<lambda>q h1. case addr_from_hdr ifam e of (r, e1) \<Rightarrow>
                 Option.bind
                   (attr_loop (addr_attr ext M (inet_size (ifa_family ifam)) ifam) (attrs M (nlmsg_body n))
                     (r, d, h1) e1)
                   (parse_end mnlxt_rt_message_new mnlxt_rt_addr_free PAddr
                      ''mnlxt_rt_message_new failed'' (nlmsg_type n) q)))"

section \<open>Iterating, dumping and requesting\<close>

definition mnlxt_rt_addr_iterate ::
  "mnlxt_data_t option \<Rightarrow> ptr option option \<Rightarrow> pheap \<Rightarrow> errno \<Rightarrow>
     (ptr option \<times> ptr option option \<times> errno) option" where
  "mnlxt_rt_addr_iterate data iterator h e =
     (case iterator of None \<Rightarrow> Some (None, None, e)
      | Some it \<Rightarrow>
          map_option (\<lambda>(pl, it', e'). (pl, Some it', e'))
            (iterate_loop (\<lambda>m. mnlxt_rt_addr_get (Some m)) data it h e))"

definition mnlxt_rt_addr_dump ::
  "('w, 'f, 'b) netio \<Rightarrow> 'b callbacks \<Rightarrow> mnlxt_data_t option \<Rightarrow> u8 \<Rightarrow> pheap \<Rightarrow> 'w \<Rightarrow> errno \<Rightarrow>
     (int \<times> mnlxt_data_t option \<times> pheap \<times> 'w \<times> errno) option" where
  "mnlxt_rt_addr_dump io cbs data family h w e =
     (if AF_INET \<noteq> family \<and> AF_INET6 \<noteq> family \<and> AF_UNSPEC \<noteq> family
      then Some (- 1, data, h, w, EAFNOSUPPORT)
      else mnlxt_rt_data_dump io cbs data RTM_GETADDR family h w e)"

text \<open>The caller's pointer is cleared when the message has taken the object over.\<close>

definition mnlxt_rt_addr_message ::
  "ptr option option \<Rightarrow> u16 \<Rightarrow> u16 \<Rightarrow> pheap \<Rightarrow> errno \<Rightarrow>
     (ptr option \<times> ptr option option \<times> pheap \<times> errno) option" where
  "mnlxt_rt_addr_message ob type flags h e =
     (case ob of
        Some (Some q) \<Rightarrow>
          if type \<notin> {RTM_NEWADDR, RTM_DELADDR} then Some (None, ob, h, EINVAL)
          else
            map_option (\<lambda>(msg, h', e'). (msg, if msg = None then ob else Some None, h', e'))
              (mnlxt_rt_message_new type flags (Some q) h e)
      | _ \<Rightarrow> Some (None, ob, h, EINVAL))"

definition mnlxt_rt_addr_request ::
  "('w, 'f, 'b) netio \<Rightarrow> 'b callbacks \<Rightarrow> ptr option \<Rightarrow> u16 \<Rightarrow> u16 \<Rightarrow> pheap \<Rightarrow> 'w \<Rightarrow> errno \<Rightarrow>
     (int \<times> pheap \<times> 'w \<times> errno) option" where
  "mnlxt_rt_addr_request io cbs ob type flags h w e =
     object_request
       (\<lambda>p h e. map_option (\<lambda>(msg, _, h', e'). (msg, h', e')) (mnlxt_rt_addr_message (Some p) type flags h e))
       mnlxt_rt_addr_remove (mnlxt_rt_message_request io cbs) ob h w e"

section \<open>What comparison decides\<close>

lemma addr_cmp_defined:
  assumes "addr_label_ok h x" "addr_label_ok h y" "addr_has x i" "addr_has y i"
  shows "\<exists>c. mnlxt_rt_addr_cmp h x y i = Some c"
proof -
  have "str_differs h (addr_label x) (addr_label y) \<noteq> None" if "i = MNLXT_RT_ADDR_LABEL"
    using assms that by (auto simp: addr_label_ok_def str_differs_def)
  then show ?thesis unfolding mnlxt_rt_addr_cmp_def by (auto split: if_split)
qed

lemma addr_compare_defined:
  assumes "addr_label_ok h x" "addr_label_ok h y"
  shows "mnlxt_rt_addr_compare h (Some x) (Some y) flt e =
    Some (cmp_loop MNLXT_RT_ADDR_MAX flt (ucast (addr_prop_flags x)) (ucast (addr_prop_flags y))
      (\<lambda>i. the (mnlxt_rt_addr_cmp h x y i)) 0 1, e)"
proof -
  have "cmp_loop_m MNLXT_RT_ADDR_MAX flt (ucast (addr_prop_flags x)) (ucast (addr_prop_flags y))
      (mnlxt_rt_addr_cmp h x y) 0 (2 ^ 0) =
    Some (cmp_loop MNLXT_RT_ADDR_MAX flt (ucast (addr_prop_flags x)) (ucast (addr_prop_flags y))
      (\<lambda>i. the (mnlxt_rt_addr_cmp h x y i)) 0 (2 ^ 0))"
    using addr_cmp_defined [OF assms] by (intro cmp_loop_m_defined) (auto simp: bit_ucast_iff)
  then show ?thesis by (simp add: mnlxt_rt_addr_compare_def)
qed

interpretation addr_compare: prop_match "addr_label_ok h"
  "\<lambda>p q flt e. the (mnlxt_rt_addr_compare h p q flt e)" "\<lambda>x y i. the (mnlxt_rt_addr_cmp h x y i)"
  addr_prop_flags MNLXT_RT_ADDR_MAX "\<lambda>p q e. the (mnlxt_rt_addr_match h p q e)" for h
proof (unfold_locales, goal_cases)
  case (1 x y flt e)
  then show ?case by (simp only: addr_compare_defined option.sel)
qed (auto simp: mnlxt_rt_addr_compare_def mnlxt_rt_addr_match_def split: option.splits)

lemma addr_match_zero:
  assumes "addr_label_ok h x" "addr_label_ok h m"
    "\<And>i. i < MNLXT_RT_ADDR_MAX \<Longrightarrow> addr_has m i \<Longrightarrow> addr_has x i \<and> mnlxt_rt_addr_cmp h x m i = Some 0"
  shows "mnlxt_rt_addr_match h (Some x) (Some m) e = Some (0, e)"
proof -
  have "the (mnlxt_rt_addr_match h (Some x) (Some m) e) = (0, e)"
    unfolding addr_compare.match_zero_iff [OF assms(1,2)] using assms(3) by simp
  moreover have "mnlxt_rt_addr_match h (Some x) (Some m) e \<noteq> None"
    unfolding mnlxt_rt_addr_match_def by (simp only: option.case addr_compare_defined [OF assms(1,2)]) simp
  ultimately show ?thesis by auto
qed

lemma addr_match_strs:
  assumes "strs h' = strs h"
  shows "mnlxt_rt_addr_match h' p q e = mnlxt_rt_addr_match h p q e"
proof -
  have "mnlxt_rt_addr_cmp h' x y = mnlxt_rt_addr_cmp h x y" for x y
    by (rule ext) (simp add: mnlxt_rt_addr_cmp_def str_differs_def assms)
  then show ?thesis by (cases q; cases p) (simp_all add: mnlxt_rt_addr_match_def mnlxt_rt_addr_compare_def)
qed

section \<open>Parsing appends a well formed address or changes nothing\<close>

text \<open>\<open>f\<close> is the family in the message's header.\<close>

definition addr_work :: "u8 \<Rightarrow> pheap \<Rightarrow> mnlxt_data_t \<Rightarrow> ptr \<Rightarrow> mnlxt_rt_addr_t \<Rightarrow> addr_state \<Rightarrow> bool" where
  "addr_work f h0 d0 q r0 s \<longleftrightarrow>
     (case s of (r, d, h) \<Rightarrow> work_inv h0 d0 q (PAddr r) d h \<and> addr_label_ok h r \<and> addr_inv r \<and>
        (\<forall>i. addr_has r0 i \<longrightarrow> addr_has r i) \<and> (addr_has r MNLXT_RT_ADDR_FAMILY \<longrightarrow> addr_family r = f))"

lemma addr_work_error [simp]:
  "addr_work f h0 d0 q r0 (r, d\<lparr>data_error_str := m\<rparr>, h) = addr_work f h0 d0 q r0 (r, d, h)"
  by (simp add: addr_work_def)

lemma addr_work_keeps:
  assumes w: "addr_work f h0 d0 q r0 (r, d, h)" and k: "addr_keeps r r'"
    and f: "addr_has r' MNLXT_RT_ADDR_FAMILY \<longrightarrow> addr_family r' = f"
  shows "addr_work f h0 d0 q r0 (r', d, h)"
proof -
  from w have wi: "work_inv h0 d0 q (PAddr r) d h" by (simp add: addr_work_def)
  have "str_parts (PAddr r') = str_parts (PAddr r)" using k by (simp add: addr_keeps_def)
  then have "work_inv h0 d0 q (PAddr r') d h"
    by (intro work_inv_same_parts [OF wi]) (use wi in \<open>simp_all add: work_inv_def\<close>)
  with w k f show ?thesis by (auto simp: addr_work_def addr_keeps_label_ok) (simp_all add: addr_keeps_def)
qed

lemma addr_num_step:
  assumes w: "addr_work f h0 d0 q r0 (r, d, h)" and i: "i \<noteq> MNLXT_RT_ADDR_FAMILY"
  shows "parse_all (addr_work f h0 d0 q r0) (store_set (mnlxt_rt_addr_set_ptr (Some r) i v e) msg (r, d, h))"
proof -
  from addr_set_ptr_keeps [OF i, of r v e] obtain rc r' e' where
    s: "mnlxt_rt_addr_set_ptr (Some r) i v e = (rc, Some r', e')" "addr_keeps r r'" by blast
  then have "addr_family r' = addr_family r \<and> addr_has r' MNLXT_RT_ADDR_FAMILY = addr_has r MNLXT_RT_ADDR_FAMILY"
    using i by (auto simp: mnlxt_rt_addr_set_ptr_def addr_store_def split: if_splits)
  with w have "addr_work f h0 d0 q r0 (r', d, h)"
    by (intro addr_work_keeps [OF w s(2)]) (simp add: addr_work_def)
  then show ?thesis by (intro store_set_keeps) (auto simp: s(1))
qed

lemma addr_addr_step:
  assumes w: "addr_work f h0 d0 q r0 (r, d, h)" and b: "inet_ok b"
  shows "parse_all (addr_work f h0 d0 q r0) (store_set (mnlxt_rt_addr_set_addr (Some r) f (Some b) e) msg (r, d, h))"
proof -
  from addr_set_addr_keeps [OF b, of r f e] obtain rc r' e' where
    s: "mnlxt_rt_addr_set_addr (Some r) f (Some b) e = (rc, Some r', e')" "addr_keeps r r'"
      "addr_has r' MNLXT_RT_ADDR_FAMILY \<longrightarrow> addr_has r MNLXT_RT_ADDR_FAMILY \<or> addr_family r' = f" by blast
  have "addr_has r MNLXT_RT_ADDR_FAMILY \<longrightarrow> addr_family r = f" using w by (simp add: addr_work_def)
  then have "addr_has r' MNLXT_RT_ADDR_FAMILY \<longrightarrow> addr_family r' = f"
    using s(2,3) unfolding addr_keeps_def by blast
  then have "addr_work f h0 d0 q r0 (r', d, h)" by (rule addr_work_keeps [OF w s(2)])
  then show ?thesis by (intro store_set_keeps) (auto simp: s(1))
qed

lemma addr_local_step:
  assumes w: "addr_work f h0 d0 q r0 (r, d, h)" and b: "inet_ok b"
  shows "parse_all (addr_work f h0 d0 q r0)
    (Option.bind (mnlxt_rt_addr_set_local (Some r) f (Some b) e) (\<lambda>x. store_set x msg (r, d, h)))"
proof -
  from addr_set_local_keeps [OF b, of r f e] obtain rc r' e' where
    s: "mnlxt_rt_addr_set_local (Some r) f (Some b) e = Some (rc, Some r', e')" "addr_keeps r r'"
      "addr_has r' MNLXT_RT_ADDR_FAMILY \<longrightarrow> addr_has r MNLXT_RT_ADDR_FAMILY \<or> addr_family r' = f" by blast
  have "addr_has r MNLXT_RT_ADDR_FAMILY \<longrightarrow> addr_family r = f" using w by (simp add: addr_work_def)
  then have "addr_has r' MNLXT_RT_ADDR_FAMILY \<longrightarrow> addr_family r' = f"
    using s(2,3) unfolding addr_keeps_def by blast
  then have "addr_work f h0 d0 q r0 (r', d, h)" by (rule addr_work_keeps [OF w s(2)])
  then show ?thesis unfolding s(1) by simp (intro store_set_keeps, auto)
qed

lemma addr_label_step:
  assumes w: "addr_work f h0 d0 a r0 (r, d, h)"
  shows "parse_all (addr_work f h0 d0 a r0)
    (store_set_h (mnlxt_rt_addr_set_label (Some r) (Some name) h e) msg (r, d, h))"
proof -
  from w have wi: "work_inv h0 d0 a (PAddr r) d h" and ok: "addr_label_ok h r" "addr_inv r"
    by (simp_all add: addr_work_def)
  from wi have "heap_ok h" by (simp add: work_inv_def)
  with ok(1) show ?thesis
  proof (cases rule: addr_set_label_cases [of _ _ name e])
    case (fail h')
    have "addr_work f h0 d0 a r0 (r, d, h')"
      using work_inv_same_parts [OF wi fail(2-6,8)] w fail(2) by (simp add: addr_work_def addr_label_ok_def)
    then show ?thesis by (intro store_set_h_keeps) (simp add: fail(1))
  next
    case (set q h')
    let ?r = "r\<lparr>addr_label := Some q, addr_prop_flags := set_prop_flag (addr_prop_flags r) MNLXT_RT_ADDR_LABEL\<rparr>"
    have "work_inv h0 d0 a (PAddr ?r) d h'"
      by (rule work_inv_replace_str [OF wi set(2-9)]) (auto split: option.splits)
    moreover have "addr_label_ok h' ?r" using set(2) by (simp add: addr_label_ok_def)
    ultimately have "addr_work f h0 d0 a r0 (?r, d, h')"
      using w ok(2) by (auto simp: addr_work_def addr_inv_def)
    then show ?thesis by (intro store_set_h_keeps) (simp add: set(1))
  qed
qed

lemma addr_cacheinfo_work:
  "addr_work f h0 d0 q r0 (r, d, h) \<Longrightarrow> addr_work f h0 d0 q r0 (addr_take_cacheinfo c r, d, h)"
  by (rule addr_work_keeps) (auto simp: addr_take_cacheinfo_def addr_keeps_def addr_inv_def addr_work_def)

lemma addr_attr_keeps:
  assumes "addr_work (ifa_family ifam) h0 d0 q r0 s"
  shows "parse_all (addr_work (ifa_family ifam) h0 d0 q r0) (addr_attr ext M n ifam a s e)"
proof -
  obtain r d h where s: "s = (r, d, h)" by (cases s)
  note w = assms [unfolded s]
  then have we: "addr_work (ifa_family ifam) h0 d0 q r0 (r, d\<lparr>data_error_str := Some m\<rparr>, h)" for m by simp
  show ?thesis
    using w unfolding s addr_attr_def Let_def fst_conv snd_conv mnlxt_rt_addr_set_flags_def
      mnlxt_rt_addr_set_u32_def
    by (cases "attr_type_valid M a IFA_MAX e")
      (auto intro!: on_valid_all we addr_num_step addr_addr_step addr_local_step addr_label_step
        addr_cacheinfo_work simp: prod.case)
qed

lemma addr_fresh_eq:
  "addr_fresh = addr_zero\<lparr>addr_cacheinfo := cacheinfo_zero\<lparr>ifa_prefered := MNLXT_RT_ADDR_LIFE_TIME_INFINITY,
     ifa_valid := MNLXT_RT_ADDR_LIFE_TIME_INFINITY\<rparr>\<rparr>"
  "mnlxt_rt_addr_new True e = (Some addr_fresh, e)"
  by (simp_all add: addr_fresh_def mnlxt_rt_addr_new_def)

lemma addr_from_hdr_eq:
  "addr_from_hdr ifam e =
    (addr_fresh\<lparr>addr_prefixlen := ifa_prefixlen ifam, addr_flags := ucast (ifa_flags ifam),
       addr_if_index := ifa_index ifam, addr_scope := ifa_scope ifam,
       addr_prop_flags := fold (\<lambda>i w. set_prop_flag w i)
         [MNLXT_RT_ADDR_PREFIXLEN, MNLXT_RT_ADDR_FLAGS, MNLXT_RT_ADDR_IFINDEX, MNLXT_RT_ADDR_SCOPE] 0\<rparr>, e)"
  by (simp add: addr_from_hdr_def mnlxt_rt_addr_set_prefixlen_def mnlxt_rt_addr_set_flags_def
      mnlxt_rt_addr_set_ifindex_def mnlxt_rt_addr_set_scope_def mnlxt_rt_addr_set_u8_def
      mnlxt_rt_addr_set_u32_def mnlxt_rt_addr_set_ptr_def addr_data_def addr_store_def addr_fresh_eq addr_zero_def)

lemma addr_from_hdr_keeps:
  "addr_inv (fst (addr_from_hdr ifam e))" "addr_label_ok h (fst (addr_from_hdr ifam e))"
  "str_parts (PAddr (fst (addr_from_hdr ifam e))) = []"
  "\<not> addr_has (fst (addr_from_hdr ifam e)) MNLXT_RT_ADDR_FAMILY"
  by (simp_all add: addr_from_hdr_eq addr_inv_def addr_label_ok_def addr_fresh_eq addr_zero_def)

abbreviation addr_loop ::
  "bool \<Rightarrow> ('b, 'a) ifa_mnl \<Rightarrow> 'b nlmsghdr \<Rightarrow> mnlxt_data_t \<Rightarrow> errno \<Rightarrow> ptr \<Rightarrow> pheap \<Rightarrow> addr_state parse option" where
  "addr_loop ext M n d e q h1 \<equiv>
     attr_loop (addr_attr ext M (inet_size (ifa_family (hdr_read M (nlmsg_body n)))) (hdr_read M (nlmsg_body n)))
       (attrs M (nlmsg_body n)) (fst (addr_from_hdr (hdr_read M (nlmsg_body n)) e), d, h1)
       (snd (addr_from_hdr (hdr_read M (nlmsg_body n)) e))"

text \<open>The messages that the parser accepts.\<close>

abbreviation addr_types :: "u16 list" where
  "addr_types \<equiv> [RTM_GETADDR, RTM_NEWADDR, RTM_DELADDR]"

lemma addr_parse_frame:
  assumes ok: "heap_ok h" "data_inv h d ps"
    and F: "memory_lost h ENOMEM \<longrightarrow> F ENOMEM" "nlmsg_type n \<notin> set addr_types \<longrightarrow> F EBADMSG"
    and skip: "ifa_family (hdr_read M (nlmsg_body n)) \<notin> {AF_INET, AF_INET6} \<Longrightarrow> skip"
    and frame: "\<And>h h' x. P h x \<Longrightarrow> strs h' = strs h \<Longrightarrow> arrs h' = arrs h \<Longrightarrow> P h' x"
    and loop: "\<And>q h1. ifa_family (hdr_read M (nlmsg_body n)) \<in> {AF_INET, AF_INET6} \<Longrightarrow>
      work_inv h d q (PAddr addr_fresh) d h1 \<Longrightarrow>
      parse_to (\<lambda>(r, d1, h2). work_inv h d q (PAddr r) d1 h2 \<and> P h2 (PAddr r))
        (\<lambda>(r, d1, h2) e2. work_inv h d q (PAddr r) d1 h2 \<and> F e2) (addr_loop ext M n d e q h1)"
  shows "parsed h d ps (nlmsg_type n) F skip P (mnlxt_rt_addr_data ext M (Some n) (Some d) h e)"
  unfolding mnlxt_rt_addr_data_def
proof (rule parser_parsed [OF ok F, where cb = "rt_data_handlers ! unat (nlmsg_type n)" and m = RtAddr
      and wrap = PAddr and z = addr_fresh and message_new = mnlxt_rt_message_new and free_ob = mnlxt_rt_addr_free
      and c = "AF_INET \<noteq> ifa_family (hdr_read M (nlmsg_body n)) \<and> AF_INET6 \<noteq> ifa_family (hdr_read M (nlmsg_body n))"
      and err = "''mnlxt_rt_addr_new failed''" and err' = "''mnlxt_rt_message_new failed''" and e = e
      and loop = "addr_loop ext M n d e"], goal_cases)
  case 1
  then have "unat (nlmsg_type n) < 35" "cb_name (rt_data_handlers ! unat (nlmsg_type n)) \<noteq> None"
    by (auto simp: rt_handlers_nth handler_def)
  with 1 show ?case by (auto simp: rt_message_new_found) (auto simp: rt_handlers_nth handler_def)
next
  case (7 h h' x)
  then show ?case by (rule frame)
qed (use skip loop in \<open>simp_all add: Let_def case_prod_beta payload_parts_def addr_fresh_eq addr_zero_def\<close>)

lemma addr_work_start:
  assumes "work_inv h d q (PAddr addr_fresh) d h1"
  shows "addr_work f h d q (fst (addr_from_hdr ifam e)) (fst (addr_from_hdr ifam e), d, h1)"
proof -
  note k = addr_from_hdr_keeps [where ifam = ifam and e = e]
  have "work_inv h d q (PAddr (fst (addr_from_hdr ifam e))) d h1"
    by (intro work_inv_same_parts [OF assms])
      (use assms k(3) in \<open>simp_all add: work_inv_def addr_fresh_eq addr_zero_def\<close>)
  with k show ?thesis by (simp add: addr_work_def)
qed

lemma addr_data_parsed:
  assumes ok: "heap_ok h" "data_inv h d ps"
  shows "parsed h d ps (nlmsg_type n) (\<lambda>_. True) True
    (\<lambda>h' x. \<exists>r. x = PAddr r \<and> addr_inv r \<and> addr_label_ok h' r \<and>
       (\<forall>i \<in> {MNLXT_RT_ADDR_PREFIXLEN, MNLXT_RT_ADDR_FLAGS, MNLXT_RT_ADDR_SCOPE, MNLXT_RT_ADDR_IFINDEX}.
          addr_has r i) \<and>
       (addr_has r MNLXT_RT_ADDR_FAMILY \<longrightarrow> addr_family r = ifa_family (hdr_read M (nlmsg_body n))))
    (mnlxt_rt_addr_data ext M (Some n) (Some d) h e)"
proof (rule addr_parse_frame [OF ok], goal_cases)
  case (5 q h1)
  let ?ifam = "hdr_read M (nlmsg_body n)"
  show ?case
  proof (rule attr_loop_work [where W = "addr_work (ifa_family ?ifam) h d q (fst (addr_from_hdr ?ifam e))"])
    show "addr_work (ifa_family ?ifam) h d q (fst (addr_from_hdr ?ifam e)) (fst (addr_from_hdr ?ifam e), d, h1)"
      by (rule addr_work_start [OF 5(2)])
  next
    show "parse_all (addr_work (ifa_family ?ifam) h d q (fst (addr_from_hdr ?ifam e)))
        (addr_attr ext M (inet_size (ifa_family ?ifam)) ?ifam a s e')"
      if "addr_work (ifa_family ?ifam) h d q (fst (addr_from_hdr ?ifam e)) s" for a s e'
      using that by (rule addr_attr_keeps)
  qed (auto simp: addr_work_def addr_from_hdr_eq)
qed (auto simp: addr_label_ok_def)

section \<open>Writing and parsing back\<close>

text \<open>What writing one property does to the struct and to the attributes of the message.\<close>

definition addr_hdr_prop :: "mnlxt_rt_addr_t \<Rightarrow> nat \<Rightarrow> ifaddrmsg \<Rightarrow> ifaddrmsg" where
  "addr_hdr_prop r i t =
     (if i = MNLXT_RT_ADDR_FAMILY then t\<lparr>ifa_family := addr_family r\<rparr>
      else if i = MNLXT_RT_ADDR_PREFIXLEN then t\<lparr>ifa_prefixlen := addr_prefixlen r\<rparr>
      else if i = MNLXT_RT_ADDR_FLAGS then t\<lparr>ifa_flags := ucast (addr_flags r)\<rparr>
      else if i = MNLXT_RT_ADDR_SCOPE then t\<lparr>ifa_scope := addr_scope r\<rparr>
      else if i = MNLXT_RT_ADDR_IFINDEX then t\<lparr>ifa_index := addr_if_index r\<rparr>
      else t)"

definition addr_attr_of :: "bool \<Rightarrow> (nat \<Rightarrow> u8 list \<Rightarrow> 'a) \<Rightarrow> pheap \<Rightarrow> mnlxt_rt_addr_t \<Rightarrow> nat \<Rightarrow> 'a list" where
  "addr_attr_of ext mk h r i =
     (if i = MNLXT_RT_ADDR_FLAGS \<and> ext then [mk IFA_FLAGS (le32 (addr_flags r))]
      else if i = MNLXT_RT_ADDR_ADDR then [mk IFA_ADDRESS (inet_bytes (inet_size (addr_family r)) (addr_addr r))]
      else if i = MNLXT_RT_ADDR_LOCAL then [mk IFA_LOCAL (inet_bytes (inet_size (addr_family r)) (addr_local r))]
      else if i = MNLXT_RT_ADDR_LABEL then [mk IFA_LABEL (str_bytes (the (addr_label_str h r)))]
      else if i = MNLXT_RT_ADDR_CACHEINFO then [mk IFA_CACHEINFO (cacheinfo_bytes (addr_cacheinfo r))]
      else [])"

lemma addr_put_prop_view:
  assumes L: "libmnl_laws M mk b0 z" and "addr_label_ok h r" "addr_has r i"
  shows "\<exists>b'. addr_put_prop ext M h r (inet_size (addr_family r)) i b = Some b' \<and>
    hdr_read M b' = addr_hdr_prop r i (hdr_read M b) \<and> attrs M b' = attrs M b @ addr_attr_of ext mk h r i"
proof (cases "i = MNLXT_RT_ADDR_LABEL")
  case True
  with assms(2,3) show ?thesis
    by (auto simp: addr_put_prop_def addr_hdr_prop_def addr_attr_of_def addr_label_ok_def addr_label_str_def
        libmnl_lawsD [OF L])
next
  case False
  then show ?thesis
    by (simp add: addr_put_prop_def addr_hdr_prop_def addr_attr_of_def hdr_upd_def libmnl_lawsD [OF L] Let_def)
qed

text \<open>With a live label the message can be written, whatever buffer it is written to.\<close>

lemma addr_put_defined:
  assumes ok: "addr_label_ok h r"
  shows "mnlxt_rt_addr_put ext M h (Some n) (Some r) e \<noteq> None"
proof -
  have "\<exists>b'. addr_put_prop ext M h r (inet_size (addr_family r)) i b = Some b'" if "addr_has r i" for i b
    using ok that by (auto simp: addr_put_prop_def addr_label_ok_def Let_def)
  with put_loop_view_m [of MNLXT_RT_ADDR_MAX "addr_prop_flags r"
      "addr_put_prop ext M h r (inet_size (addr_family r))" "\<lambda>_. ()" "\<lambda>_ _. ()" "\<lambda>_. []" "\<lambda>_. []"
      "put_extra_header M (nlmsg_body n)"]
  show ?thesis by (auto simp: mnlxt_rt_addr_put_def)
qed

lemma addr_put_view:
  assumes L: "libmnl_laws M mk b0 ifaddrmsg_zero" and ok: "addr_label_ok h r" and n: "nlmsg_body n = b0"
    and put: "mnlxt_rt_addr_put ext M h (Some n) (Some r) e = Some (rc, Some n', e')"
  shows "nlmsg_type n' = nlmsg_type n"
    and "hdr_read M (nlmsg_body n') =
      fold (\<lambda>i t. if addr_has r i then addr_hdr_prop r i t else t) [0..<MNLXT_RT_ADDR_MAX] ifaddrmsg_zero"
    and "attrs M (nlmsg_body n') =
      concat (map (\<lambda>i. if addr_has r i then addr_attr_of ext mk h r i else []) [0..<MNLXT_RT_ADDR_MAX])"
proof -
  from put_loop_view_m [of MNLXT_RT_ADDR_MAX "addr_prop_flags r"
      "addr_put_prop ext M h r (inet_size (addr_family r))" "hdr_read M" "addr_hdr_prop r" "attrs M"
      "addr_attr_of ext mk h r" "put_extra_header M b0"] addr_put_prop_view [OF L ok]
  obtain b' where b': "put_loop MNLXT_RT_ADDR_MAX (addr_prop_flags r)
      (\<lambda>i m. Option.bind m (addr_put_prop ext M h r (inet_size (addr_family r)) i)) 0 1 (Some (put_extra_header M b0)) = Some b'"
    "hdr_read M b' = fold (\<lambda>i t. if addr_has r i then addr_hdr_prop r i t else t) [0..<MNLXT_RT_ADDR_MAX]
      (hdr_read M (put_extra_header M b0))"
    "attrs M b' = attrs M (put_extra_header M b0) @
      concat (map (\<lambda>i. if addr_has r i then addr_attr_of ext mk h r i else []) [0..<MNLXT_RT_ADDR_MAX])"
    by blast
  from put have n': "n' = n\<lparr>nlmsg_body := b'\<rparr>"
    using b'(1) by (auto simp: mnlxt_rt_addr_put_def n)
  show "nlmsg_type n' = nlmsg_type n" by (simp add: n')
  show "hdr_read M (nlmsg_body n') =
      fold (\<lambda>i t. if addr_has r i then addr_hdr_prop r i t else t) [0..<MNLXT_RT_ADDR_MAX] ifaddrmsg_zero"
    using b'(2) by (simp add: n' libmnl_lawsD(1) [OF L])
  show "attrs M (nlmsg_body n') =
      concat (map (\<lambda>i. if addr_has r i then addr_attr_of ext mk h r i else []) [0..<MNLXT_RT_ADDR_MAX])"
    using b'(3) by (simp add: n' libmnl_lawsD(2) [OF L])
qed

lemma addr_hdr_fields:
  fixes r :: mnlxt_rt_addr_t
  defines "t \<equiv> fold (\<lambda>i t. if addr_has r i then addr_hdr_prop r i t else t) [0..<MNLXT_RT_ADDR_MAX] ifaddrmsg_zero"
  shows "addr_has r MNLXT_RT_ADDR_FAMILY \<Longrightarrow> ifa_family t = addr_family r"
    "addr_has r MNLXT_RT_ADDR_PREFIXLEN \<Longrightarrow> ifa_prefixlen t = addr_prefixlen r"
    "addr_has r MNLXT_RT_ADDR_FLAGS \<Longrightarrow> ifa_flags t = ucast (addr_flags r)"
    "addr_has r MNLXT_RT_ADDR_SCOPE \<Longrightarrow> ifa_scope t = addr_scope r"
    "addr_has r MNLXT_RT_ADDR_IFINDEX \<Longrightarrow> ifa_index t = addr_if_index r"
proof -
  have upt: "[0..<MNLXT_RT_ADDR_MAX] = [0, 1, 2, 3, 4, 5, 6, 7, 8]" by (simp add: upt_rec)
  show "addr_has r MNLXT_RT_ADDR_FAMILY \<Longrightarrow> ifa_family t = addr_family r"
    unfolding t_def upt by (simp add: addr_hdr_prop_def if_distrib [of ifa_family])
  show "addr_has r MNLXT_RT_ADDR_PREFIXLEN \<Longrightarrow> ifa_prefixlen t = addr_prefixlen r"
    unfolding t_def upt by (simp add: addr_hdr_prop_def if_distrib [of ifa_prefixlen])
  show "addr_has r MNLXT_RT_ADDR_FLAGS \<Longrightarrow> ifa_flags t = ucast (addr_flags r)"
    unfolding t_def upt by (simp add: addr_hdr_prop_def if_distrib [of ifa_flags])
  show "addr_has r MNLXT_RT_ADDR_SCOPE \<Longrightarrow> ifa_scope t = addr_scope r"
    unfolding t_def upt by (simp add: addr_hdr_prop_def if_distrib [of ifa_scope])
  show "addr_has r MNLXT_RT_ADDR_IFINDEX \<Longrightarrow> ifa_index t = addr_if_index r"
    unfolding t_def upt by (simp add: addr_hdr_prop_def if_distrib [of ifa_index])
qed

text \<open>
  What the receiver has of the address \<open>r\<close> once the attributes of the properties below \<open>k\<close> are done.
  For IPv6 every property is its own; for IPv4 the peer address is stored as the local one, and the
  local one in place of the peer address.
\<close>

definition addr_echo_ips :: "mnlxt_rt_addr_t \<Rightarrow> nat \<Rightarrow> mnlxt_rt_addr_t \<Rightarrow> bool" where
  "addr_echo_ips r k r' \<longleftrightarrow>
     (let peer = addr_has r MNLXT_RT_ADDR_ADDR \<and> MNLXT_RT_ADDR_ADDR < k;
          own = addr_has r MNLXT_RT_ADDR_LOCAL \<and> MNLXT_RT_ADDR_LOCAL < k
      in (peer \<longrightarrow> addr_has r' MNLXT_RT_ADDR_ADDR) \<and> (own \<longrightarrow> addr_has r' MNLXT_RT_ADDR_LOCAL) \<and>
         (if addr_family r = AF_INET then
            (addr_has r' MNLXT_RT_ADDR_LOCAL \<longleftrightarrow> peer \<or> own) \<and>
            (peer \<longrightarrow> inet_memcmp 4 (addr_local r') (addr_addr r)) \<and>
            (own \<longrightarrow> inet_memcmp 4 (addr_addr r') (addr_local r)) \<and>
            (peer \<and> \<not> own \<longrightarrow> inet_memcmp 4 (addr_addr r') (addr_addr r))
          else
            (peer \<longrightarrow> inet_memcmp 16 (addr_addr r') (addr_addr r)) \<and>
            (own \<longrightarrow> inet_memcmp 16 (addr_local r') (addr_local r))))"

definition addr_echo :: "bool \<Rightarrow> pheap \<Rightarrow> mnlxt_rt_addr_t \<Rightarrow> nat \<Rightarrow> pheap \<Rightarrow> mnlxt_rt_addr_t \<Rightarrow> bool" where
  "addr_echo ext h r k h1 r' \<longleftrightarrow>
     (addr_has r MNLXT_RT_ADDR_PREFIXLEN \<longrightarrow> addr_prefixlen r' = addr_prefixlen r) \<and>
     (addr_has r MNLXT_RT_ADDR_SCOPE \<longrightarrow> addr_scope r' = addr_scope r) \<and>
     (addr_has r MNLXT_RT_ADDR_IFINDEX \<longrightarrow> addr_if_index r' = addr_if_index r) \<and>
     (addr_has r MNLXT_RT_ADDR_FLAGS \<longrightarrow>
        addr_flags r' = (if ext \<and> MNLXT_RT_ADDR_FLAGS < k then addr_flags r else ucast (ucast (addr_flags r) :: u8))) \<and>
     (addr_has r MNLXT_RT_ADDR_LABEL \<and> MNLXT_RT_ADDR_LABEL < k \<longrightarrow>
        addr_has r' MNLXT_RT_ADDR_LABEL \<and> addr_label_str h1 r' = addr_label_str h r) \<and>
     (addr_has r MNLXT_RT_ADDR_CACHEINFO \<and> MNLXT_RT_ADDR_CACHEINFO < k \<longrightarrow>
        addr_has r' MNLXT_RT_ADDR_CACHEINFO \<and> addr_cacheinfo r' = addr_cacheinfo r) \<and>
     addr_echo_ips r k r'"

abbreviation addr_step_to ::
  "bool \<Rightarrow> pheap \<Rightarrow> mnlxt_rt_addr_t \<Rightarrow> nat \<Rightarrow> addr_state parse option \<Rightarrow> bool" where
  "addr_step_to ext h r k \<equiv> parse_to (\<lambda>(r', d1, h2). addr_echo ext h r k h2 r') lost_at"

lemma addr_echo_same:
  assumes "addr_echo ext h r k h1 r'"
    and "addr_has r MNLXT_RT_ADDR_FLAGS \<Longrightarrow> ext \<Longrightarrow> (MNLXT_RT_ADDR_FLAGS < m) = (MNLXT_RT_ADDR_FLAGS < k)"
    "addr_has r MNLXT_RT_ADDR_ADDR \<Longrightarrow> (MNLXT_RT_ADDR_ADDR < m) = (MNLXT_RT_ADDR_ADDR < k)"
    "addr_has r MNLXT_RT_ADDR_LOCAL \<Longrightarrow> (MNLXT_RT_ADDR_LOCAL < m) = (MNLXT_RT_ADDR_LOCAL < k)"
    "addr_has r MNLXT_RT_ADDR_LABEL \<Longrightarrow> (MNLXT_RT_ADDR_LABEL < m) = (MNLXT_RT_ADDR_LABEL < k)"
    "addr_has r MNLXT_RT_ADDR_CACHEINFO \<Longrightarrow> (MNLXT_RT_ADDR_CACHEINFO < m) = (MNLXT_RT_ADDR_CACHEINFO < k)"
  shows "addr_echo ext h r m h1 r'"
proof -
  from assms(1) have "addr_echo_ips r k r'" by (simp add: addr_echo_def)
  then have "addr_echo_ips r m r'"
    unfolding addr_echo_ips_def Let_def by (simp only: assms(3,4) cong: conj_cong)
  with assms(1) show ?thesis
    unfolding addr_echo_def by (simp only: assms(2,5,6) cong: conj_cong) (use assms(2) in auto)
qed

lemma addr_echo_skip:
  assumes "addr_echo ext h r k h1 r'"
    "\<not> addr_has r k \<or> k < MNLXT_RT_ADDR_ADDR \<and> (k = MNLXT_RT_ADDR_FLAGS \<longrightarrow> \<not> ext)"
  shows "addr_echo ext h r (Suc k) h1 r'"
  by (rule addr_echo_same [OF assms(1)]; use assms(2) in \<open>cases k rule: linorder_cases\<close>; auto simp: less_Suc_eq)

text \<open>The steps for the single attributes.\<close>

lemma addr_flags_attr:
  assumes L: "libmnl_laws M mk b0 z" and ext
    and c: "addr_echo ext h r MNLXT_RT_ADDR_FLAGS h1 r'"
  shows "addr_step_to ext h r (Suc MNLXT_RT_ADDR_FLAGS)
    (attr_loop (addr_attr ext M n hdr) (addr_attr_of ext mk h r MNLXT_RT_ADDR_FLAGS) (r', d, h1) e)"
  using assms(2,3)
  by (auto simp: addr_attr_of_def addr_attr_def libmnl_lawsD [OF L] on_valid_def store_set_def Let_def
      mnlxt_rt_addr_set_flags_def mnlxt_rt_addr_set_u32_def mnlxt_rt_addr_set_ptr_def addr_data_def addr_store_def
      addr_echo_def addr_echo_ips_def addr_label_str_def)

lemma le32_nth:
  "un_le32 (le32 x ! 0) (le32 x ! Suc 0) (le32 x ! 2) (le32 x ! 3) = x"
  by (simp add: le32_def un_le32_inverse)

lemma payload_cacheinfo_back:
  assumes L: "libmnl_laws M mk b0 z"
  shows "payload_cacheinfo M (mk t (cacheinfo_bytes c)) = c"
proof -
  have "attr_get_payload M (mk t (cacheinfo_bytes c)) i = cacheinfo_bytes c ! i" if "i < 16" for i
    using that by (simp add: libmnl_lawsD(13) [OF L] cacheinfo_bytes_def)
  then show ?thesis
    by (simp add: payload_cacheinfo_def payload_u32_def) (simp add: cacheinfo_bytes_def le32_def un_le32_inverse)
qed

lemma addr_cacheinfo_attr:
  assumes L: "libmnl_laws M mk b0 z" and c: "addr_echo ext h r MNLXT_RT_ADDR_CACHEINFO h1 r'"
  shows "addr_step_to ext h r (Suc MNLXT_RT_ADDR_CACHEINFO)
    (attr_loop (addr_attr ext M n hdr) (addr_attr_of ext mk h r MNLXT_RT_ADDR_CACHEINFO) (r', d, h1) e)"
proof -
  have "length (cacheinfo_bytes (addr_cacheinfo r)) = 16" by (simp add: cacheinfo_bytes_def)
  with c show ?thesis
    by (simp add: addr_attr_of_def addr_attr_def libmnl_lawsD [OF L] on_valid_def Let_def payload_cacheinfo_back [OF L])
      (simp add: addr_take_cacheinfo_def addr_echo_def addr_echo_ips_def addr_label_str_def Let_def)
qed

lemma addr_set_family_ok:
  assumes "f = AF_INET \<or> f = AF_INET6" "addr_has r MNLXT_RT_ADDR_FAMILY \<Longrightarrow> addr_family r = f"
  shows "mnlxt_rt_addr_set_family (Some r) f e = (0, Some (r\<lparr>addr_family := f,
    addr_prop_flags := set_prop_flag (addr_prop_flags r) MNLXT_RT_ADDR_FAMILY\<rparr>), e)"
  using assms by (cases r) (auto simp: mnlxt_rt_addr_set_family_def set_prop_flag_idem)

lemma inet_memcmp_set_in: "inet_ok b \<Longrightarrow> inet_memcmp 4 (set_in b a) c \<longleftrightarrow> inet_memcmp 4 b c"
  by (simp add: inet_memcmp_def set_in_def inet_ok_def)

lemma addr_ip_attrs:
  assumes L: "libmnl_laws M mk b0 z" and fam: "addr_family r = AF_INET \<or> addr_family r = AF_INET6"
    and r': "addr_has r' MNLXT_RT_ADDR_FAMILY \<Longrightarrow> addr_family r' = addr_family r"
    and hdr: "ifa_family hdr = addr_family r"
  defines "p \<equiv> \<lambda>t x. payload_inet M (mk t (inet_bytes (inet_size (addr_family r)) x))"
  shows "inet_ok (addr_addr r) \<Longrightarrow>
      attr_loop (addr_attr ext M (inet_size (addr_family r)) hdr) (addr_attr_of ext mk h r MNLXT_RT_ADDR_ADDR)
        (r', d, h1) e =
      Some (Next (the (fst (snd (mnlxt_rt_addr_set_addr (Some r') (addr_family r) (Some (p IFA_ADDRESS (addr_addr r))) e))),
        d, h1) e)"
    and "inet_ok (addr_local r) \<Longrightarrow>
      attr_loop (addr_attr ext M (inet_size (addr_family r)) hdr) (addr_attr_of ext mk h r MNLXT_RT_ADDR_LOCAL)
        (r', d, h1) e =
      Some (Next (the (fst (snd (the (mnlxt_rt_addr_set_local (Some r') (addr_family r)
        (Some (p IFA_LOCAL (addr_local r))) e)))), d, h1) e)"
  by (simp_all add: p_def addr_attr_of_def addr_attr_def libmnl_lawsD [OF L] on_valid_def store_set_def Let_def hdr
      mnlxt_rt_addr_set_addr_def mnlxt_rt_addr_set_local_def addr_set_family_ok [OF fam r'])

lemma addr_ip_echo:
  assumes fam: "addr_family r = AF_INET \<or> addr_family r = AF_INET6"
    and r': "addr_has r' MNLXT_RT_ADDR_FAMILY \<Longrightarrow> addr_family r' = addr_family r" and ok: "inet_ok x"
  shows "addr_echo ext h r MNLXT_RT_ADDR_ADDR h1 r' \<Longrightarrow> addr_has r MNLXT_RT_ADDR_ADDR \<Longrightarrow>
      inet_memcmp (inet_size (addr_family r)) x (addr_addr r) \<Longrightarrow>
      addr_echo ext h r (Suc MNLXT_RT_ADDR_ADDR) h1
        (the (fst (snd (mnlxt_rt_addr_set_addr (Some r') (addr_family r) (Some x) e))))"
    and "addr_echo ext h r MNLXT_RT_ADDR_LOCAL h1 r' \<Longrightarrow> addr_has r MNLXT_RT_ADDR_LOCAL \<Longrightarrow>
      inet_memcmp (inet_size (addr_family r)) x (addr_local r) \<Longrightarrow>
      addr_echo ext h r (Suc MNLXT_RT_ADDR_LOCAL) h1
        (the (fst (snd (the (mnlxt_rt_addr_set_local (Some r') (addr_family r) (Some x) e)))))"
proof -
  note simps = mnlxt_rt_addr_set_addr_def mnlxt_rt_addr_set_local_def Let_def
    addr_echo_def addr_echo_ips_def addr_label_str_def inet_memcmp_set_in [OF ok] inet_size_def
  note fam_ok = addr_set_family_ok [OF fam r', of e]
  {
    assume c: "addr_echo ext h r MNLXT_RT_ADDR_ADDR h1 r'" "addr_has r MNLXT_RT_ADDR_ADDR"
      "inet_memcmp (inet_size (addr_family r)) x (addr_addr r)"
    from fam show "addr_echo ext h r (Suc MNLXT_RT_ADDR_ADDR) h1
        (the (fst (snd (mnlxt_rt_addr_set_addr (Some r') (addr_family r) (Some x) e))))"
    proof
      assume f: "addr_family r = AF_INET"
      with c(1) have "\<not> addr_has r' MNLXT_RT_ADDR_LOCAL" by (simp add: addr_echo_def addr_echo_ips_def)
      with fam_ok f c show ?thesis by (simp add: simps)
    next
      assume f: "addr_family r = AF_INET6"
      from fam_ok f c show ?thesis by (simp add: simps)
    qed
  next
    assume c: "addr_echo ext h r MNLXT_RT_ADDR_LOCAL h1 r'" "addr_has r MNLXT_RT_ADDR_LOCAL"
      "inet_memcmp (inet_size (addr_family r)) x (addr_local r)"
    from fam show "addr_echo ext h r (Suc MNLXT_RT_ADDR_LOCAL) h1
        (the (fst (snd (the (mnlxt_rt_addr_set_local (Some r') (addr_family r) (Some x) e)))))"
    proof
      assume f: "addr_family r = AF_INET"
      from fam_ok f c show ?thesis by (simp add: simps)
    next
      assume f: "addr_family r = AF_INET6"
      from fam_ok f c show ?thesis by (simp add: simps)
    qed
  }
qed

lemma addr_label_attr:
  assumes L: "libmnl_laws M mk b0 z" and ok: "addr_label_ok h1 r'" "heap_ok h1" "addr_label_ok h r"
    and c: "addr_echo ext h r MNLXT_RT_ADDR_LABEL h1 r'"
    and s: "\<And>s. addr_label_str h r = Some s \<Longrightarrow> padded_str s" and l: "addr_has r MNLXT_RT_ADDR_LABEL"
  shows "addr_step_to ext h r (Suc MNLXT_RT_ADDR_LABEL)
    (attr_loop (addr_attr ext M n hdr) (addr_attr_of ext mk h r MNLXT_RT_ADDR_LABEL) (r', d, h1) e)"
proof -
  from ok(3) l obtain x where x: "addr_label_str h r = Some x" "length x < IF_NAMESIZE"
    by (auto simp: addr_label_ok_def addr_label_str_def)
  with s have pad: "padded_str x" by simp
  then have bs: "str_bytes x \<noteq> []" by (auto simp: str_bytes_def padded_str_def)
  have step: "attr_loop (addr_attr ext M n hdr) (addr_attr_of ext mk h r MNLXT_RT_ADDR_LABEL) (r', d, h1) e =
    store_set_h (mnlxt_rt_addr_set_label (Some r') (Some x) h1 e) ''mnlxt_rt_addr_set_label failed'' (r', d, h1)"
    by (simp add: addr_attr_of_def attr_loop_single addr_attr_def libmnl_lawsD [OF L] on_valid_def Let_def x pad bs
        del: attr_loop.simps)
  from ok(1,2) show ?thesis
  proof (cases rule: addr_set_label_cases [of _ _ x e])
    case (fail h')
    then show ?thesis unfolding step by (simp add: store_set_h_def store_set_def fail_with_def memory_lostI)
  next
    case (set q h')
    have "addr_echo ext h r (Suc MNLXT_RT_ADDR_LABEL) h' (r'\<lparr>addr_label := Some q,
        addr_prop_flags := set_prop_flag (addr_prop_flags r') MNLXT_RT_ADDR_LABEL\<rparr>)"
      using c x set(2) by (simp add: addr_echo_def addr_echo_ips_def addr_label_str_def Let_def)
    then show ?thesis unfolding step by (simp add: set(1) store_set_h_def store_set_def)
  qed
qed

lemma addr_prop_step:
  assumes L: "libmnl_laws M mk b0 z" and inv: "addr_inv r" "addr_has r MNLXT_RT_ADDR_FAMILY" "addr_label_ok h r"
    and s: "\<And>s. addr_label_str h r = Some s \<Longrightarrow> padded_str s"
    and hdr: "ifa_family hdr = addr_family r" and k: "k < MNLXT_RT_ADDR_MAX"
    and w: "addr_work (addr_family r) h0 d0 q r0 (r', d, h1)" and c: "addr_echo ext h r k h1 r'"
  shows "addr_step_to ext h r (Suc k) (attr_loop (addr_attr ext M (inet_size (addr_family r)) hdr)
      (if addr_has r k then addr_attr_of ext mk h r k else []) (r', d, h1) e)"
proof (cases "\<not> addr_has r k \<or> k < MNLXT_RT_ADDR_ADDR \<and> (k = MNLXT_RT_ADDR_FLAGS \<longrightarrow> \<not> ext)")
  case True
  then have "(if addr_has r k then addr_attr_of ext mk h r k else []) = []" by (auto simp: addr_attr_of_def)
  with addr_echo_skip [OF c True] show ?thesis by simp
next
  case False
  then have has: "addr_has r k" by simp
  from False k consider "k = MNLXT_RT_ADDR_FLAGS" ext | "k = MNLXT_RT_ADDR_ADDR" | "k = MNLXT_RT_ADDR_LOCAL"
    | "k = MNLXT_RT_ADDR_LABEL" | "k = MNLXT_RT_ADDR_CACHEINFO" by fastforce
  note kind = this
  from inv have fam: "addr_family r = AF_INET \<or> addr_family r = AF_INET6"
    and ips: "inet_ok (addr_addr r)" "inet_ok (addr_local r)" by (simp_all add: addr_inv_def)
  from w have r': "addr_has r' MNLXT_RT_ADDR_FAMILY \<Longrightarrow> addr_family r' = addr_family r"
    and ok: "addr_label_ok h1 r'" "heap_ok h1" by (simp_all add: addr_work_def work_inv_def)
  have p: "inet_memcmp (inet_size (addr_family r))
      (payload_inet M (mk t (inet_bytes (inet_size (addr_family r)) x))) x" if "inet_ok x" for t x
    using payload_inet_prefix [OF L _ that, of "inet_size (addr_family r)"] by (simp add: inet_memcmp_def)
  from kind show ?thesis
  proof cases
    case 1
    with has c show ?thesis using addr_flags_attr [OF L, of ext] by simp
  next
    case 2
    with has c addr_ip_echo(1) [OF fam r' inet_ok_payload _ _ p] ips show ?thesis
      by (simp only: addr_ip_attrs [OF L fam r' hdr] if_True parse_to_simps prod.case)
  next
    case 3
    with has c addr_ip_echo(2) [OF fam r' inet_ok_payload _ _ p] ips show ?thesis
      by (simp only: addr_ip_attrs [OF L fam r' hdr] if_True parse_to_simps prod.case)
  next
    case 4
    with has c show ?thesis using addr_label_attr [OF L ok inv(3) _ s] by simp
  next
    case 5
    with has c show ?thesis using addr_cacheinfo_attr [OF L] by simp
  qed
qed

text \<open>The whole attribute loop, from the address that the header gave.\<close>

lemma addr_loop_echo:
  fixes r :: mnlxt_rt_addr_t
  defines "t \<equiv> fold (\<lambda>i t. if addr_has r i then addr_hdr_prop r i t else t) [0..<MNLXT_RT_ADDR_MAX] ifaddrmsg_zero"
  assumes L: "libmnl_laws M mk b0 z"
    and inv: "addr_inv r" "addr_has r MNLXT_RT_ADDR_FAMILY" "addr_label_ok h r"
    and pad: "\<forall>s. addr_label_str h r = Some s \<longrightarrow> padded_str s"
    and w: "work_inv h d q (PAddr addr_fresh) d h1"
  shows "parse_to
    (\<lambda>s. (case s of (r', d1, h2) \<Rightarrow> addr_echo ext h r MNLXT_RT_ADDR_MAX h2 r') \<and>
       addr_work (addr_family r) h d q (fst (addr_from_hdr t e)) s)
    (\<lambda>s e2. addr_work (addr_family r) h d q (fst (addr_from_hdr t e)) s \<and> lost_at s e2)
    (attr_loop (addr_attr ext M (inet_size (addr_family r)) t)
       (concat (map (\<lambda>i. if addr_has r i then addr_attr_of ext mk h r i else []) [0..<MNLXT_RT_ADDR_MAX]))
       (fst (addr_from_hdr t e), d, h1) e1)"
proof -
  have s: "\<And>s. addr_label_str h r = Some s \<Longrightarrow> padded_str s" using pad by blast
  note fields = addr_hdr_fields [of r, folded t_def]
  have tf: "ifa_family t = addr_family r" by (rule fields(1) [OF inv(2)])
  let ?W = "addr_work (addr_family r) h d q (fst (addr_from_hdr t e))"
  let ?A = "\<lambda>k s. (case s of (r', d1, h2) \<Rightarrow> addr_echo ext h r k h2 r') \<and> ?W s"
  have start: "?A 0 (fst (addr_from_hdr t e), d, h1)"
    using fields addr_work_start [OF w, of "addr_family r" t e]
    by (simp add: addr_from_hdr_eq addr_echo_def addr_echo_ips_def addr_fresh_eq addr_zero_def)
  have step: "parse_to (?A (Suc k)) (\<lambda>s e. ?W s \<and> lost_at s e) (attr_loop (addr_attr ext M (inet_size (addr_family r)) t)
      (if addr_has r k then addr_attr_of ext mk h r k else []) s' e')"
    if "k < MNLXT_RT_ADDR_MAX" "?A k s'" for k s' e'
  proof (rule parse_to_and)
    obtain r' d1 h2 where s': "s' = (r', d1, h2)" by (cases s')
    with that have a: "addr_echo ext h r k h2 r'" "?W (r', d1, h2)" by auto
    from addr_prop_step [OF L inv s tf that(1) a(2,1), of e']
    show "addr_step_to ext h r (Suc k) (attr_loop (addr_attr ext M (inet_size (addr_family r)) t)
        (if addr_has r k then addr_attr_of ext mk h r k else []) s' e')" unfolding s' .
    show "parse_all ?W (attr_loop (addr_attr ext M (inet_size (addr_family r)) t)
        (if addr_has r k then addr_attr_of ext mk h r k else []) s' e')"
      using a(2) unfolding s' tf [symmetric] by (intro attr_loop_all addr_attr_keeps)
  qed
  show ?thesis by (rule attr_loop_upto [of MNLXT_RT_ADDR_MAX ?A, OF step start])
qed

text \<open>What the receiver has of an address after the whole message.\<close>

lemma addr_echo_parsed:
  assumes L: "libmnl_laws M mk b0 ifaddrmsg_zero"
    and inv: "addr_inv r" "addr_has r MNLXT_RT_ADDR_FAMILY" "addr_label_ok h r"
    and s: "\<And>s. addr_label_str h r = Some s \<Longrightarrow> padded_str s"
    and ok: "heap_ok h" "data_inv h d ps" and n: "nlmsg_body n = b0"
    and put: "mnlxt_rt_addr_put ext M h (Some n) (Some r) e0 = Some (rc, Some n', e')"
  shows "parsed h d ps (nlmsg_type n) (parse_failure h addr_types (nlmsg_type n)) False
    (\<lambda>h' x. \<exists>r'. x = PAddr r' \<and> addr_inv r' \<and> addr_label_ok h' r' \<and>
       (addr_has r' MNLXT_RT_ADDR_FAMILY \<longrightarrow> addr_family r' = addr_family r) \<and>
       (\<forall>i \<in> {MNLXT_RT_ADDR_PREFIXLEN, MNLXT_RT_ADDR_FLAGS, MNLXT_RT_ADDR_SCOPE, MNLXT_RT_ADDR_IFINDEX}.
          addr_has r' i) \<and> addr_echo ext h r MNLXT_RT_ADDR_MAX h' r')
    (mnlxt_rt_addr_data ext M (Some n') (Some d) h e)"
    (is "parsed h d ps _ ?F False ?P _")
proof -
  note view = addr_put_view [OF L inv(3) n put]
  let ?t = "hdr_read M (nlmsg_body n')"
  from inv have fam: "addr_family r = AF_INET \<or> addr_family r = AF_INET6" by (simp add: addr_inv_def)
  have tf: "ifa_family ?t = addr_family r" unfolding view(2) by (rule addr_hdr_fields(1) [OF inv(2)])
  have "parsed h d ps (nlmsg_type n') ?F False ?P (mnlxt_rt_addr_data ext M (Some n') (Some d) h e)"
  proof (rule addr_parse_frame [OF ok], goal_cases)
    case (4 h1 h2 x)
    then show ?case by (auto simp: addr_echo_def addr_label_ok_def addr_label_str_def)
  next
    case (5 q h1)
    have pad: "\<forall>s. addr_label_str h r = Some s \<longrightarrow> padded_str s" using s by blast
    from addr_loop_echo [OF L inv pad 5(2), of ext e "snd (addr_from_hdr ?t e)", folded view(2)]
    show ?case
      unfolding view(3) tf
    proof (rule parse_to_mono, goal_cases)
      case (1 s1)
      then show ?case by (cases s1) (simp add: addr_work_def addr_from_hdr_eq)
    next
      case (2 s1 e2)
      then show ?case by (cases s1) (auto simp: addr_work_def work_inv_lost intro: parse_failureI)
    qed
  qed (use fam tf view(1) in \<open>auto intro: parse_failureI\<close>)
  then show ?thesis by (simp only: view(1))
qed

text \<open>
  What survives the trip: the label is such that the receiver can read it back, the flags fit into the
  struct if the attribute for all of them is not there, the family comes with an IP address, and the
  local address of an IPv4 interface is its only address.
\<close>

definition addr_sendable :: "bool \<Rightarrow> pheap \<Rightarrow> mnlxt_rt_addr_t \<Rightarrow> bool" where
  "addr_sendable ext h r \<longleftrightarrow>
     (\<forall>s. addr_label_str h r = Some s \<longrightarrow> padded_str s) \<and>
     (ext \<or> unat (addr_flags r) < 256) \<and>
     (addr_has r MNLXT_RT_ADDR_ADDR \<or> addr_has r MNLXT_RT_ADDR_LOCAL) \<and>
     (addr_family r = AF_INET \<and> addr_has r MNLXT_RT_ADDR_LOCAL \<longrightarrow>
        addr_has r MNLXT_RT_ADDR_ADDR \<and> inet_memcmp 4 (addr_addr r) (addr_local r))"

lemma ucast_flags_small:
  assumes "unat (x :: u32) < 256"
  shows "ucast (ucast x :: u8) = x"
proof -
  from assms have "unat (ucast (ucast x :: u8) :: u32) = unat x" by (simp add: unsigned_ucast_eq take_bit_eq_mod unat_mod)
  then show ?thesis by (simp add: word_unat_eq_iff)
qed

lemma addr_echo_ips_match:
  assumes inv: "addr_inv r'" and s: "addr_sendable ext h r" and ips: "addr_echo_ips r MNLXT_RT_ADDR_MAX r'"
    and fam: "addr_has r' MNLXT_RT_ADDR_FAMILY \<longrightarrow> addr_family r' = addr_family r"
  shows "addr_has r' MNLXT_RT_ADDR_FAMILY \<and> addr_family r' = addr_family r"
    and "i \<in> {MNLXT_RT_ADDR_ADDR, MNLXT_RT_ADDR_LOCAL} \<Longrightarrow> addr_has r i \<Longrightarrow>
      addr_has r' i \<and> mnlxt_rt_addr_cmp h1 r' r i = Some 0"
proof -
  from s have "addr_has r MNLXT_RT_ADDR_ADDR \<or> addr_has r MNLXT_RT_ADDR_LOCAL" by (simp add: addr_sendable_def)
  with ips have "addr_has r' MNLXT_RT_ADDR_ADDR \<or> addr_has r' MNLXT_RT_ADDR_LOCAL"
    unfolding addr_echo_ips_def Let_def by simp blast
  with inv fam show f: "addr_has r' MNLXT_RT_ADDR_FAMILY \<and> addr_family r' = addr_family r" by (auto simp: addr_inv_def)
  from s have v4: "addr_family r = AF_INET \<and> addr_has r MNLXT_RT_ADDR_LOCAL \<longrightarrow>
      addr_has r MNLXT_RT_ADDR_ADDR \<and> inet_memcmp 4 (addr_addr r) (addr_local r)"
    by (simp add: addr_sendable_def)
  assume i: "i \<in> {MNLXT_RT_ADDR_ADDR, MNLXT_RT_ADDR_LOCAL}" "addr_has r i"
  show "addr_has r' i \<and> mnlxt_rt_addr_cmp h1 r' r i = Some 0"
  proof (cases "i = MNLXT_RT_ADDR_ADDR")
    case True
    with i(2) f ips [unfolded addr_echo_ips_def Let_def] v4 show ?thesis
      by (cases "addr_family r = AF_INET")
        (simp_all add: mnlxt_rt_addr_cmp_def inet_size_def, auto simp: inet_memcmp_def)
  next
    case False
    with i(1) have "i = MNLXT_RT_ADDR_LOCAL" by simp
    with i(2) f ips [unfolded addr_echo_ips_def Let_def] v4 show ?thesis
      by (cases "addr_family r = AF_INET")
        (simp_all add: mnlxt_rt_addr_cmp_def inet_size_def, auto simp: inet_memcmp_def)
  qed
qed

lemma addr_echo_match:
  assumes inv: "addr_inv r'" "addr_label_ok h1 r'" "addr_label_ok h1 r" and s: "addr_sendable ext h r"
    and str: "addr_label_str h1 r = addr_label_str h r"
    and fam: "addr_has r' MNLXT_RT_ADDR_FAMILY \<longrightarrow> addr_family r' = addr_family r"
    and hdr: "\<forall>i \<in> {MNLXT_RT_ADDR_PREFIXLEN, MNLXT_RT_ADDR_FLAGS, MNLXT_RT_ADDR_SCOPE, MNLXT_RT_ADDR_IFINDEX}.
          addr_has r' i"
    and c: "addr_echo ext h r MNLXT_RT_ADDR_MAX h1 r'"
  shows "mnlxt_rt_addr_match h1 (Some r') (Some r) e = Some (0, e)"
proof (rule addr_match_zero [OF inv(2,3)])
  fix i assume i: "i < MNLXT_RT_ADDR_MAX" "addr_has r i"
  from c have "addr_echo_ips r MNLXT_RT_ADDR_MAX r'" by (simp add: addr_echo_def)
  note ips = addr_echo_ips_match [OF inv(1) s this fam]
  from i(1) consider "i \<in> {MNLXT_RT_ADDR_FAMILY, MNLXT_RT_ADDR_PREFIXLEN, MNLXT_RT_ADDR_SCOPE, MNLXT_RT_ADDR_IFINDEX,
      MNLXT_RT_ADDR_CACHEINFO}" | "i = MNLXT_RT_ADDR_FLAGS" | "i \<in> {MNLXT_RT_ADDR_ADDR, MNLXT_RT_ADDR_LOCAL}"
    | "i = MNLXT_RT_ADDR_LABEL" by fastforce
  then show "addr_has r' i \<and> mnlxt_rt_addr_cmp h1 r' r i = Some 0"
  proof cases
    case 1
    from c have "addr_has r MNLXT_RT_ADDR_PREFIXLEN \<longrightarrow> addr_prefixlen r' = addr_prefixlen r"
      "addr_has r MNLXT_RT_ADDR_SCOPE \<longrightarrow> addr_scope r' = addr_scope r"
      "addr_has r MNLXT_RT_ADDR_IFINDEX \<longrightarrow> addr_if_index r' = addr_if_index r"
      "addr_has r MNLXT_RT_ADDR_CACHEINFO \<longrightarrow> addr_has r' MNLXT_RT_ADDR_CACHEINFO"
      unfolding addr_echo_def by simp_all
    with 1 i(2) ips(1) hdr show ?thesis by (elim insertE emptyE; simp add: mnlxt_rt_addr_cmp_def)
  next
    case 2
    from c have "addr_has r MNLXT_RT_ADDR_FLAGS \<longrightarrow>
        addr_flags r' = (if ext then addr_flags r else ucast (ucast (addr_flags r) :: u8))"
      unfolding addr_echo_def by simp
    moreover from s have "ext \<or> unat (addr_flags r) < 256" by (simp add: addr_sendable_def)
    ultimately show ?thesis using 2 i(2) hdr by (auto simp: mnlxt_rt_addr_cmp_def ucast_flags_small)
  next
    case 3
    then show ?thesis using i(2) by (rule ips(2))
  next
    case 4
    with i(2) inv(3) obtain x where "addr_label_str h1 r = Some x"
      by (auto simp: addr_label_ok_def addr_label_str_def)
    with 4 i(2) c str have "addr_has r' i" "addr_label_str h1 r' = Some x" "addr_label_str h1 r = Some x"
      by (auto simp: addr_echo_def)
    with 4 show ?thesis
      by (auto simp: mnlxt_rt_addr_cmp_def str_differs_def addr_label_str_def split: Option.bind_splits)
  qed
qed

lemma addr_label_later:
  assumes "addr_label_ok h r" "\<And>p s. strs h p = Some s \<Longrightarrow> strs h' p = Some s"
  shows "addr_label_ok h' r \<and> addr_label_str h' r = addr_label_str h r"
  using assms by (cases "addr_label r") (fastforce simp: addr_label_ok_def addr_label_str_def)+

lemma addr_roundtrip_parsed:
  assumes L: "libmnl_laws M mk b0 ifaddrmsg_zero"
    and inv: "addr_inv r" "addr_has r MNLXT_RT_ADDR_FAMILY" "addr_label_ok h r" and s: "addr_sendable ext h r"
    and ok: "heap_ok h" "data_inv h d ps" and n: "nlmsg_body n = b0"
    and put: "mnlxt_rt_addr_put ext M h (Some n) (Some r) e0 = Some (rc, Some n', e')"
  shows "parsed h d ps (nlmsg_type n) (parse_failure h addr_types (nlmsg_type n)) False
    (\<lambda>h' x. \<exists>r'. x = PAddr r' \<and> mnlxt_rt_addr_match h' (Some r') (Some r) e = Some (0, e))
    (mnlxt_rt_addr_data ext M (Some n') (Some d) h e)"
proof (rule parsed_mono [OF addr_echo_parsed [OF L inv _ ok n put]], goal_cases)
  case (1 x)
  with s show ?case by (simp add: addr_sendable_def)
next
  case (2 h' x)
  then obtain r' where r': "x = PAddr r'" "addr_inv r'" "addr_label_ok h' r'"
      "addr_has r' MNLXT_RT_ADDR_FAMILY \<longrightarrow> addr_family r' = addr_family r"
      "\<forall>i \<in> {MNLXT_RT_ADDR_PREFIXLEN, MNLXT_RT_ADDR_FLAGS, MNLXT_RT_ADDR_SCOPE, MNLXT_RT_ADDR_IFINDEX}.
         addr_has r' i" "addr_echo ext h r MNLXT_RT_ADDR_MAX h' r'" by blast
  from addr_label_later [OF inv(3) 2(2)] have "addr_label_ok h' r" "addr_label_str h' r = addr_label_str h r"
    by simp_all
  from addr_echo_match [OF r'(2,3) this(1) s this(2) r'(4-6)] r'(1) show ?case by blast
qed

text \<open>
  An IPv4 address with a peer comes back with the two addresses exchanged, because the setter of the
  local address writes the other member.
\<close>

lemma addr_peer_swapped_parsed:
  assumes L: "libmnl_laws M mk b0 ifaddrmsg_zero"
    and inv: "addr_inv r" "addr_has r MNLXT_RT_ADDR_FAMILY" "addr_label_ok h r"
    and s: "\<And>s. addr_label_str h r = Some s \<Longrightarrow> padded_str s"
    and v4: "addr_family r = AF_INET" "addr_has r MNLXT_RT_ADDR_ADDR" "addr_has r MNLXT_RT_ADDR_LOCAL"
    and ok: "heap_ok h" "data_inv h d ps" and n: "nlmsg_body n = b0"
    and put: "mnlxt_rt_addr_put ext M h (Some n) (Some r) e = Some (rc, Some n', e')"
  shows "parsed h d ps (nlmsg_type n) (parse_failure h addr_types (nlmsg_type n)) False
    (\<lambda>h' x. \<exists>r'. x = PAddr r' \<and> addr_has r' MNLXT_RT_ADDR_ADDR \<and> addr_has r' MNLXT_RT_ADDR_LOCAL \<and>
       inet_memcmp 4 (addr_addr r') (addr_local r) \<and> inet_memcmp 4 (addr_local r') (addr_addr r))
    (mnlxt_rt_addr_data ext M (Some n') (Some d) h e)"
  by (rule parsed_mono [OF addr_echo_parsed [OF L inv s ok n put]])
    (use v4 in \<open>auto simp: addr_echo_def addr_echo_ips_def\<close>)

end
