(* ===== verification/TunTools.thy ===== *)
theory TunTools
  imports Link
begin

text \<open>
  src/rtnl/link_tun_tools.c: creating and deleting TUN and TAP devices through /dev/net/tun. The system
  calls are the fields of a record over a state \<open>'w\<close> of the world. A local variable that the
  code may read before it is written is a parameter, so that every theorem holds for whatever it holds.
\<close>

section \<open>The system calls\<close>

datatype tun_ioctl = TUNSETIFF string u16 | TUNSETOWNER u32 | TUNSETGROUP u32 | TUNSETPERSIST u32

record 'w tunsys =
  ts_open :: "'w \<Rightarrow> errno \<Rightarrow> int \<times> 'w \<times> errno"
  ts_ioctl :: "int \<Rightarrow> tun_ioctl \<Rightarrow> 'w \<Rightarrow> errno \<Rightarrow> int \<times> 'w \<times> errno"
  ts_close :: "int \<Rightarrow> 'w \<Rightarrow> 'w"
  ts_nametoindex :: "string \<Rightarrow> 'w \<Rightarrow> errno \<Rightarrow> u32 \<times> 'w \<times> errno"
  ts_indextoname :: "u32 \<Rightarrow> 'w \<Rightarrow> errno \<Rightarrow> string option \<times> 'w \<times> errno"

abbreviation IFF_MULTI_QUEUE :: u32 where "IFF_MULTI_QUEUE \<equiv> 0x100"
abbreviation IFF_PERSIST :: u32 where "IFF_PERSIST \<equiv> 0x800"
abbreviation IFF_NO_PI :: u32 where "IFF_NO_PI \<equiv> 0x1000"
abbreviation IFF_VNET_HDR :: u32 where "IFF_VNET_HDR \<equiv> 0x4000"

abbreviation MNLXT_RT_LINK_TUN_FLAG_PI :: u16 where "MNLXT_RT_LINK_TUN_FLAG_PI \<equiv> 0x1"
abbreviation MNLXT_RT_LINK_TUN_FLAG_VNET_HDR :: u16 where "MNLXT_RT_LINK_TUN_FLAG_VNET_HDR \<equiv> 0x2"
abbreviation MNLXT_RT_LINK_TUN_FLAG_PERSIST :: u16 where "MNLXT_RT_LINK_TUN_FLAG_PERSIST \<equiv> 0x4"
abbreviation MNLXT_RT_LINK_TUN_FLAG_MULTI_QUEUE :: u16 where "MNLXT_RT_LINK_TUN_FLAG_MULTI_QUEUE \<equiv> 0x8"

section \<open>The device file\<close>

text \<open>After a failed \<open>TUNSETIFF\<close> the code jumps over the \<open>close\<close>: the descriptor is returned.\<close>

definition mnlxt_tun_open ::
  "'w tunsys \<Rightarrow> string option \<Rightarrow> u32 \<Rightarrow> 'w \<Rightarrow> errno \<Rightarrow> int \<times> 'w \<times> errno" where
  "mnlxt_tun_open sys name flags w e =
     (case name of
        None \<Rightarrow> (- 1, w, EINVAL)
      | Some s \<Rightarrow>
          if s = [] then (- 1, w, EINVAL)
          else
            (case ts_open sys w e of (fd, w1, e1) \<Rightarrow>
               if 0 > fd then (fd, w1, e1)
               else
                 (case ts_ioctl sys fd (TUNSETIFF (take (IF_NAMESIZE - 1) s) (ucast flags)) w1 e1 of
                    (rc, w2, e2) \<Rightarrow> (fd, w2, e2))))"

text \<open>\<open>err:\<close> in \<open>mnlxt_tun_create\<close>.\<close>

definition tun_create_failed :: "'w tunsys \<Rightarrow> int \<Rightarrow> 'w \<Rightarrow> errno \<Rightarrow> int \<times> 'w \<times> errno" where
  "tun_create_failed sys fd w e = (- 1, if 0 \<le> fd then ts_close sys fd w else w, e)"

definition mnlxt_tun_create ::
  "'w tunsys \<Rightarrow> string option \<Rightarrow> u32 \<Rightarrow> u32 \<Rightarrow> u32 \<Rightarrow> 'w \<Rightarrow> errno \<Rightarrow> int \<times> 'w \<times> errno" where
  "mnlxt_tun_create sys name uid gid flags w e =
     (case mnlxt_tun_open sys name flags w e of (fd, w1, e1) \<Rightarrow>
        if 0 > fd then tun_create_failed sys fd w1 e1
        else
          (case (if uid \<noteq> - 1 then ts_ioctl sys fd (TUNSETOWNER uid) w1 e1 else (0, w1, e1)) of (r2, w2, e2) \<Rightarrow>
             if 0 > r2 then tun_create_failed sys fd w2 e2
             else
               (case (if gid \<noteq> - 1 then ts_ioctl sys fd (TUNSETGROUP gid) w2 e2 else (0, w2, e2)) of (r3, w3, e3) \<Rightarrow>
                  if 0 > r3 then tun_create_failed sys fd w3 e3
                  else
                    (case (if flags AND IFF_PERSIST \<noteq> 0 then ts_ioctl sys fd (TUNSETPERSIST 1) w3 e3
                           else (0, w3, e3)) of (r4, w4, e4) \<Rightarrow>
                       if 0 > r4 then tun_create_failed sys fd w4 e4 else (fd, w4, e4)))))"

definition mnlxt_tun_delete ::
  "'w tunsys \<Rightarrow> string option \<Rightarrow> u8 \<Rightarrow> 'w \<Rightarrow> errno \<Rightarrow> int \<times> 'w \<times> errno" where
  "mnlxt_tun_delete sys name type w e =
     (case mnlxt_tun_open sys name (ucast type) w e of (fd, w1, e1) \<Rightarrow>
        if 0 \<le> fd then
          (case ts_ioctl sys fd (TUNSETPERSIST 0) w1 e1 of (r, w2, e2) \<Rightarrow>
             (if 0 \<le> r then 0 else - 1, ts_close sys fd w2, e2))
        else (- 1, w1, e1))"

section \<open>Devices for link objects\<close>

text \<open>The flags of the request; \<open>tun_flags\<close> is the local variable after its getter ran.\<close>

definition tun_request_flags :: "u16 \<Rightarrow> u8 \<Rightarrow> u32" where
  "tun_request_flags tflags type =
     (let flags = IFF_PERSIST;
          flags1 = (if tflags AND MNLXT_RT_LINK_TUN_FLAG_PI = 0 then flags OR IFF_NO_PI else flags);
          flags2 = (if tflags AND MNLXT_RT_LINK_TUN_FLAG_VNET_HDR \<noteq> 0 then flags1 OR IFF_VNET_HDR else flags1);
          flags3 = (if tflags AND MNLXT_RT_LINK_TUN_FLAG_MULTI_QUEUE \<noteq> 0 then flags2 OR IFF_MULTI_QUEUE else flags2)
      in flags3 OR ucast type)"

text \<open>\<open>junk\<close> is what the variable \<open>tun_flags\<close> holds before the getter, which may not write it.\<close>

definition mnlxt_rt_link_tun_create ::
  "'w tunsys \<Rightarrow> u16 \<Rightarrow> mnlxt_rt_link_t option \<Rightarrow> 'w \<Rightarrow> errno \<Rightarrow>
     int \<times> mnlxt_rt_link_t option \<times> 'w \<times> errno" where
  "mnlxt_rt_link_tun_create sys junk rt_link w e =
     (case mnlxt_rt_link_get_tun_type rt_link 0 e of (r1, type, e1) \<Rightarrow>
        if r1 \<noteq> 0 then (- 1, rt_link, w, EINVAL)
        else
          (case mnlxt_rt_link_get_name rt_link (Some []) e1 of (r2, name, e2) \<Rightarrow>
             if r2 \<noteq> 0 then (- 1, rt_link, w, EINVAL)
             else
               (case mnlxt_rt_link_get_tun_gid rt_link (- 1) e2 of (_, gid, e3) \<Rightarrow>
                case mnlxt_rt_link_get_tun_uid rt_link (- 1) e3 of (_, uid, e4) \<Rightarrow>
                case mnlxt_rt_link_get_tun_flags rt_link junk e4 of (_, tflags, e5) \<Rightarrow>
                case mnlxt_tun_create sys name uid gid (tun_request_flags tflags type) w e5 of (fd, w1, e6) \<Rightarrow>
                  if 0 > fd then (- 1, rt_link, w1, e6)
                  else
                    (case ts_nametoindex sys (the name) (ts_close sys fd w1) e6 of (if_index, w2, e7) \<Rightarrow>
                       if 0 = if_index then (- 1, rt_link, w2, e7)
                       else
                         (case mnlxt_rt_link_set_index rt_link if_index e7 of (_, ob, e8) \<Rightarrow> (0, ob, w2, e8))))))"

definition mnlxt_rt_link_tun_delete ::
  "'w tunsys \<Rightarrow> mnlxt_rt_link_t option \<Rightarrow> 'w \<Rightarrow> errno \<Rightarrow> int \<times> 'w \<times> errno" where
  "mnlxt_rt_link_tun_delete sys rt_link w e =
     (case mnlxt_rt_link_get_tun_type rt_link 0 e of (r1, type, e1) \<Rightarrow>
        if r1 \<noteq> 0 then (- 1, w, EINVAL)
        else
          (case mnlxt_rt_link_get_name rt_link (Some []) e1 of (r2, name, e2) \<Rightarrow>
             if r2 \<noteq> 0 then
               (case mnlxt_rt_link_get_index rt_link 0 e2 of (r3, if_index, e3) \<Rightarrow>
                  if r3 \<noteq> 0 then (- 1, w, EINVAL)
                  else
                    (case ts_indextoname sys if_index w e3 of
                       (None, w1, e4) \<Rightarrow> (- 1, w1, e4)
                     | (Some s, w1, e4) \<Rightarrow> mnlxt_tun_delete sys (Some s) type w1 e4))
             else mnlxt_tun_delete sys name type w e2))"

section \<open>Descriptors\<close>

text \<open>
  What the system calls do to the table \<open>fds w\<close> of open descriptors: \<open>open\<close> adds one that was not
  there, \<open>close\<close> takes it out, the other calls leave the table alone.
\<close>

definition fds_laws :: "'w tunsys \<Rightarrow> ('w \<Rightarrow> int set) \<Rightarrow> bool" where
  "fds_laws sys fds \<longleftrightarrow>
     (\<forall>w e. let (fd, w', _) = ts_open sys w e in
        if 0 \<le> fd then fd \<notin> fds w \<and> fds w' = insert fd (fds w) else fds w' = fds w) \<and>
     (\<forall>fd c w e. fds (fst (snd (ts_ioctl sys fd c w e))) = fds w) \<and>
     (\<forall>fd w. fds (ts_close sys fd w) = fds w - {fd}) \<and>
     (\<forall>s w e. fds (fst (snd (ts_nametoindex sys s w e))) = fds w) \<and>
     (\<forall>i w e. fds (fst (snd (ts_indextoname sys i w e))) = fds w)"

lemma fds_open:
  assumes "fds_laws sys fds" "ts_open sys w e = (fd, w', e')"
  shows "if 0 \<le> fd then fd \<notin> fds w \<and> fds w' = insert fd (fds w) else fds w' = fds w"
proof -
  from assms(1) have "let (fd, w', _) = ts_open sys w e in
      if 0 \<le> fd then fd \<notin> fds w \<and> fds w' = insert fd (fds w) else fds w' = fds w"
    unfolding fds_laws_def by (elim conjE) (erule spec2)
  then show ?thesis by (simp add: assms(2) Let_def)
qed

lemma fds_kept:
  assumes "fds_laws sys fds"
  shows "ts_ioctl sys fd c w e = (rc, w', e') \<Longrightarrow> fds w' = fds w"
    and "ts_nametoindex sys s w e = (i, w', e') \<Longrightarrow> fds w' = fds w"
    and "ts_indextoname sys i w e = (s', w', e') \<Longrightarrow> fds w' = fds w"
    and "fds (ts_close sys fd w) = fds w - {fd}"
proof -
  from assms have l: "\<forall>fd c w e. fds (fst (snd (ts_ioctl sys fd c w e))) = fds w"
    "\<forall>s w e. fds (fst (snd (ts_nametoindex sys s w e))) = fds w"
    "\<forall>i w e. fds (fst (snd (ts_indextoname sys i w e))) = fds w"
    "\<forall>fd w. fds (ts_close sys fd w) = fds w - {fd}"
    unfolding fds_laws_def by simp_all
  from l(1) [rule_format, of fd c w e] show "ts_ioctl sys fd c w e = (rc, w', e') \<Longrightarrow> fds w' = fds w" by simp
  from l(2) [rule_format, of s w e] show "ts_nametoindex sys s w e = (i, w', e') \<Longrightarrow> fds w' = fds w" by simp
  from l(3) [rule_format, of i w e] show "ts_indextoname sys i w e = (s', w', e') \<Longrightarrow> fds w' = fds w" by simp
  from l(4) show "fds (ts_close sys fd w) = fds w - {fd}" by simp
qed

lemma tun_open_fds:
  assumes L: "fds_laws sys fds" and r: "mnlxt_tun_open sys name flags w e = (fd, w', e')"
  shows "if 0 \<le> fd then fd \<notin> fds w \<and> fds w' = insert fd (fds w) else fds w' = fds w"
  using r fds_open [OF L, of w e] fds_kept(1) [OF L]
  by (auto simp: mnlxt_tun_open_def split: option.splits if_splits prod.splits)

lemma tun_create_failed_fds:
  assumes "fds_laws sys fds" "fds w = insert fd S" "fd \<notin> S" "tun_create_failed sys fd w e = (rc, w', e')" "0 \<le> fd"
  shows "rc = - 1 \<and> fds w' = S"
  using assms fds_kept(4) [OF assms(1)] by (auto simp: tun_create_failed_def)

lemma tun_create_fds:
  assumes L: "fds_laws sys fds" and r: "mnlxt_tun_create sys name uid gid flags w e = (fd, w', e')"
  shows "if 0 \<le> fd then fd \<notin> fds w \<and> fds w' = insert fd (fds w) else fd = - 1 \<and> fds w' = fds w"
proof -
  obtain fd1 w1 e1 where o1: "mnlxt_tun_open sys name flags w e = (fd1, w1, e1)"
    by (cases "mnlxt_tun_open sys name flags w e") auto
  note o = tun_open_fds [OF L o1]
  show ?thesis
  proof (cases "0 > fd1")
    case True
    with o o1 r show ?thesis by (auto simp: mnlxt_tun_create_def tun_create_failed_def split: if_splits)
  next
    case False
    then have f: "fd1 \<notin> fds w" "fds w1 = insert fd1 (fds w)" using o by auto
    define opt where "opt c k w e = (if c then ts_ioctl sys fd1 k w e else (0, w, e))" for c k w e
    have opt: "fds w' = fds w" if "opt c k w e = (rc, w', e')" for c k w e rc w' e'
      using that fds_kept(1) [OF L] by (auto simp: opt_def split: if_splits)
    obtain r2 w2 e2 where s2: "opt (uid \<noteq> - 1) (TUNSETOWNER uid) w1 e1 = (r2, w2, e2)"
      by (cases "opt (uid \<noteq> - 1) (TUNSETOWNER uid) w1 e1") auto
    obtain r3 w3 e3 where s3: "opt (gid \<noteq> - 1) (TUNSETGROUP gid) w2 e2 = (r3, w3, e3)"
      by (cases "opt (gid \<noteq> - 1) (TUNSETGROUP gid) w2 e2") auto
    obtain r4 w4 e4 where s4: "opt (flags AND IFF_PERSIST \<noteq> 0) (TUNSETPERSIST 1) w3 e3 = (r4, w4, e4)"
      by (cases "opt (flags AND IFF_PERSIST \<noteq> 0) (TUNSETPERSIST 1) w3 e3") auto
    note fs = opt [OF s2] opt [OF s3] opt [OF s4]
    have "mnlxt_tun_create sys name uid gid flags w e =
        (if 0 > r2 then tun_create_failed sys fd1 w2 e2 else if 0 > r3 then tun_create_failed sys fd1 w3 e3
         else if 0 > r4 then tun_create_failed sys fd1 w4 e4 else (fd1, w4, e4))"
      using False unfolding mnlxt_tun_create_def o1 prod.case opt_def [symmetric] s2 s3 s4 by simp
    then consider "tun_create_failed sys fd1 w2 e2 = (fd, w', e')" | "tun_create_failed sys fd1 w3 e3 = (fd, w', e')"
      | "tun_create_failed sys fd1 w4 e4 = (fd, w', e')" | "(fd1, w4, e4) = (fd, w', e')"
      unfolding r by presburger
    then show ?thesis
    proof cases
      case 1
      from tun_create_failed_fds [OF L _ f(1) 1] fs f(2) False show ?thesis by simp
    next
      case 2
      from tun_create_failed_fds [OF L _ f(1) 2] fs f(2) False show ?thesis by simp
    next
      case 3
      from tun_create_failed_fds [OF L _ f(1) 3] fs f(2) False show ?thesis by simp
    next
      case 4
      with f fs False show ?thesis by simp
    qed
  qed
qed

text \<open>Whatever happens, creating or deleting the device of a link leaves no descriptor open.\<close>

lemma link_tun_create_fds:
  assumes L: "fds_laws sys fds" and r: "mnlxt_rt_link_tun_create sys junk rt_link w e = (rc, ob, w', e')"
  shows "fds w' = fds w"
proof -
  obtain r1 type e1 where s1: "mnlxt_rt_link_get_tun_type rt_link 0 e = (r1, type, e1)"
    by (cases "mnlxt_rt_link_get_tun_type rt_link 0 e") auto
  obtain r2 name e2 where s2: "mnlxt_rt_link_get_name rt_link (Some []) e1 = (r2, name, e2)"
    by (cases "mnlxt_rt_link_get_name rt_link (Some []) e1") auto
  obtain r3 gid e3 where s3: "mnlxt_rt_link_get_tun_gid rt_link (- 1) e2 = (r3, gid, e3)"
    by (cases "mnlxt_rt_link_get_tun_gid rt_link (- 1) e2") auto
  obtain r4 uid e4 where s4: "mnlxt_rt_link_get_tun_uid rt_link (- 1) e3 = (r4, uid, e4)"
    by (cases "mnlxt_rt_link_get_tun_uid rt_link (- 1) e3") auto
  obtain r5 tfl e5 where s5: "mnlxt_rt_link_get_tun_flags rt_link junk e4 = (r5, tfl, e5)"
    by (cases "mnlxt_rt_link_get_tun_flags rt_link junk e4") auto
  obtain fd w1 e6 where s6: "mnlxt_tun_create sys name uid gid (tun_request_flags tfl type) w e5 = (fd, w1, e6)"
    by (cases "mnlxt_tun_create sys name uid gid (tun_request_flags tfl type) w e5") auto
  obtain i w2 e7 where s7: "ts_nametoindex sys (the name) (ts_close sys fd w1) e6 = (i, w2, e7)"
    by (cases "ts_nametoindex sys (the name) (ts_close sys fd w1) e6") auto
  note c = tun_create_fds [OF L s6]
  have "fds w2 = fds w" if "0 \<le> fd"
    using that c fds_kept(2) [OF L s7] fds_kept(4) [OF L] by auto
  moreover have "w' = w \<or> (0 > fd \<and> w' = w1) \<or> (0 \<le> fd \<and> w' = w2)"
    using r unfolding mnlxt_rt_link_tun_create_def s1 s2 s3 s4 s5 s6 s7 prod.case
    by (auto split: if_splits prod.splits)
  ultimately show ?thesis using c by auto
qed

lemma link_tun_delete_fds:
  assumes L: "fds_laws sys fds" and r: "mnlxt_rt_link_tun_delete sys rt_link w e = (rc, w', e')"
  shows "fds w' = fds w"
proof -
  have del: "fds w' = fds w" if "mnlxt_tun_delete sys name type w e = (rc, w', e')" for name type w e rc w' e'
  proof -
    obtain fd w1 e1 where o1: "mnlxt_tun_open sys name (ucast type) w e = (fd, w1, e1)"
      by (cases "mnlxt_tun_open sys name (ucast type) w e") auto
    from that o1 tun_open_fds [OF L o1] fds_kept(1,4) [OF L] show ?thesis
      by (auto simp: mnlxt_tun_delete_def split: if_splits prod.splits)
  qed
  from r show ?thesis
    unfolding mnlxt_rt_link_tun_delete_def
    by (auto split: prod.splits if_splits option.splits dest!: del fds_kept(3) [OF L])
qed

text \<open>
  A failed \<open>TUNSETIFF\<close> is not reported: without owner, group and persistence the caller gets a descriptor
  that is attached to no device.
\<close>

lemma tun_create_unattached:
  assumes "ts_open sys w e = (fd, w1, e1)" "0 \<le> fd" "s \<noteq> []" "flags AND IFF_PERSIST = 0"
    and "ts_ioctl sys fd (TUNSETIFF (take 15 s) (ucast flags)) w1 e1 = (- 1, w2, e2)"
  shows "mnlxt_tun_create sys (Some s) (- 1) (- 1) flags w e = (fd, w2, e2)"
  using assms by (simp add: mnlxt_tun_create_def mnlxt_tun_open_def)

text \<open>When the link has no TUN flags the request depends on what the local variable happened to hold.\<close>

lemma tun_request_flags_junk:
  assumes "mnlxt_rt_link_get_tun_type (Some l) 0 e = (0, type, e1)"
    and "\<not> bit (info_prop_flags (link_info l)) MNLXT_RT_LINK_TUN_FLAGS"
  shows "mnlxt_rt_link_get_tun_flags (Some l) junk e = (1, junk, e)"
    and "bit (tun_request_flags 0 type) 12" and "\<not> bit (tun_request_flags MNLXT_RT_LINK_TUN_FLAG_PI type) 12"
proof -
  show "mnlxt_rt_link_get_tun_flags (Some l) junk e = (1, junk, e)"
    using assms by (auto simp: mnlxt_rt_link_get_tun_flags_def mnlxt_rt_link_get_tun_type_def
        mnlxt_rt_link_check_tun_kind_def mnlxt_rt_link_get_info_kind_def split: if_splits)
  have "\<not> bit type 12" by (auto dest: bit_imp_le_length)
  then show "bit (tun_request_flags 0 type) 12" "\<not> bit (tun_request_flags MNLXT_RT_LINK_TUN_FLAG_PI type) 12"
    by (simp_all add: tun_request_flags_def Let_def bit_or_iff bit_ucast_iff)
qed

end
