(* ===== verification/LinkData.thy ===== *)
theory LinkData
  imports Codec TunTools
begin

text \<open>
  src/rtnl/link_data.c with link_data_vlan.c, link_data_xfrm.c and link_data_tun.c: comparing links,
  writing a link into a netlink message with the nested attributes of its kind, parsing one out of a
  message, and the operations on messages that carry links. What the kernel headers of the build offer is the
  record \<open>link_build\<close>.
\<close>

section \<open>Comparison\<close>

text \<open>The kinds. For the group of a TUN device the code compares the users again.\<close>

definition vlan_differs :: "mnlxt_rt_link_info_t \<Rightarrow> mnlxt_rt_link_info_t \<Rightarrow> nat \<Rightarrow> bool" where
  "vlan_differs a b i =
     (if i = MNLXT_RT_LINK_VLAN_ID then vlan_id a \<noteq> vlan_id b
      else False)"

definition mnlxt_rt_link_vlan_cmp ::
  "mnlxt_rt_link_info_t option \<Rightarrow> u16 \<Rightarrow> mnlxt_rt_link_info_t option \<Rightarrow> u16 \<Rightarrow> u16 \<Rightarrow> errno \<Rightarrow> int \<times> errno" where
  "mnlxt_rt_link_vlan_cmp vlan1 vlan_flags1 vlan2 vlan_flags2 flt e =
     (case (vlan1, vlan2) of
        (Some a, Some b) \<Rightarrow>
          (cmp_loop (MNLXT_RT_LINK_VLAN_MAX) flt vlan_flags1 vlan_flags2 (\<lambda>i. if vlan_differs a b i then 1 else 0) 0 1, e)
      | _ \<Rightarrow> (- 1, EINVAL))"

definition xfrm_differs :: "mnlxt_rt_link_info_t \<Rightarrow> mnlxt_rt_link_info_t \<Rightarrow> nat \<Rightarrow> bool" where
  "xfrm_differs a b i =
     (if i = MNLXT_RT_LINK_XFRM_IFINDEX then xfrm_if_index a \<noteq> xfrm_if_index b
      else if i = MNLXT_RT_LINK_XFRM_ID then xfrm_id a \<noteq> xfrm_id b
      else False)"

definition mnlxt_rt_link_xfrm_cmp ::
  "mnlxt_rt_link_info_t option \<Rightarrow> u16 \<Rightarrow> mnlxt_rt_link_info_t option \<Rightarrow> u16 \<Rightarrow> u16 \<Rightarrow> errno \<Rightarrow> int \<times> errno" where
  "mnlxt_rt_link_xfrm_cmp xfrm1 xfrm_flags1 xfrm2 xfrm_flags2 flt e =
     (case (xfrm1, xfrm2) of
        (Some a, Some b) \<Rightarrow>
          (cmp_loop (MNLXT_RT_LINK_XFRM_MAX) flt xfrm_flags1 xfrm_flags2 (\<lambda>i. if xfrm_differs a b i then 1 else 0) 0 1, e)
      | _ \<Rightarrow> (- 1, EINVAL))"

definition tun_differs :: "mnlxt_rt_link_info_t \<Rightarrow> mnlxt_rt_link_info_t \<Rightarrow> nat \<Rightarrow> bool" where
  "tun_differs a b i =
     (if i = MNLXT_RT_LINK_TUN_TYPE then tun_type a \<noteq> tun_type b
      else if i = MNLXT_RT_LINK_TUN_FLAGS then tun_flags a \<noteq> tun_flags b
      else if i = MNLXT_RT_LINK_TUN_UID then tun_uid a \<noteq> tun_uid b
      else if i = MNLXT_RT_LINK_TUN_GID then tun_uid a \<noteq> tun_uid b
      else False)"

definition mnlxt_rt_link_tun_cmp ::
  "mnlxt_rt_link_info_t option \<Rightarrow> u16 \<Rightarrow> mnlxt_rt_link_info_t option \<Rightarrow> u16 \<Rightarrow> u16 \<Rightarrow> errno \<Rightarrow> int \<times> errno" where
  "mnlxt_rt_link_tun_cmp tun1 tun_flags1 tun2 tun_flags2 flt e =
     (case (tun1, tun2) of
        (Some a, Some b) \<Rightarrow>
          (cmp_loop (MNLXT_RT_LINK_TUN_MAX) flt tun_flags1 tun_flags2 (\<lambda>i. if tun_differs a b i then 1 else 0) 0 1, e)
      | _ \<Rightarrow> (- 1, EINVAL))"

definition mnlxt_rt_link_info_cmp ::
  "mnlxt_rt_link_info_t option \<Rightarrow> mnlxt_rt_link_info_t option \<Rightarrow> u16 \<Rightarrow> errno \<Rightarrow> int \<times> errno" where
  "mnlxt_rt_link_info_cmp link_info1 link_info2 flt e =
     (case (link_info1, link_info2) of
        (Some a, Some b) \<Rightarrow>
          if MNLXT_RT_LINK_INFO_KIND_MAX \<le> unat (info_kind a) then (- 1, EINVAL)
          else if info_kind a \<noteq> info_kind b then (1, e)
          else if info_kind a = MNLXT_RT_LINK_INFO_KIND_VLAN then
            mnlxt_rt_link_vlan_cmp (Some a) (info_prop_flags a) (Some b) (info_prop_flags b) flt e
          else if info_kind a = MNLXT_RT_LINK_INFO_KIND_TUN then
            mnlxt_rt_link_tun_cmp (Some a) (info_prop_flags a) (Some b) (info_prop_flags b) flt e
          else if info_kind a = MNLXT_RT_LINK_INFO_KIND_XFRM then
            mnlxt_rt_link_xfrm_cmp (Some a) (info_prop_flags a) (Some b) (info_prop_flags b) flt e
          else (0, e)
      | _ \<Rightarrow> (- 1, EINVAL))"

definition mnlxt_rt_link_cmp :: "mnlxt_rt_link_t \<Rightarrow> mnlxt_rt_link_t \<Rightarrow> nat \<Rightarrow> int" where
  "mnlxt_rt_link_cmp a b data =
     (let failed =
        (if data = MNLXT_RT_LINK_TYPE then link_type a \<noteq> link_type b
         else if data = MNLXT_RT_LINK_FAMILY then link_family a \<noteq> link_family b
         else if data = MNLXT_RT_LINK_NAME then link_name a \<noteq> link_name b
         else if data = MNLXT_RT_LINK_INDEX then link_index a \<noteq> link_index b
         else if data = MNLXT_RT_LINK_FLAGS then 
          (let flag_mask = link_flag_mask a AND link_flag_mask b
           in link_flags a AND flag_mask \<noteq> link_flags b AND flag_mask)
         else if data = MNLXT_RT_LINK_HWADDR then link_mac a \<noteq> link_mac b
         else if data = MNLXT_RT_LINK_MTU then link_mtu a \<noteq> link_mtu b
         else if data = MNLXT_RT_LINK_MTU_MIN then link_mtu_min a \<noteq> link_mtu_min b
         else if data = MNLXT_RT_LINK_MTU_MAX then link_mtu_max a \<noteq> link_mtu_max b
         else if data = MNLXT_RT_LINK_MASTER then link_master a \<noteq> link_master b
         else if data = MNLXT_RT_LINK_STATE then link_state a \<noteq> link_state b
         else if data = MNLXT_RT_LINK_PARENT then link_parent a \<noteq> link_parent b
         else if data = MNLXT_RT_LINK_INFO then info_kind (link_info a) \<noteq> info_kind (link_info b)
         else False)
      in if failed then int data + 1 else 0)"

definition mnlxt_rt_link_compare ::
  "mnlxt_rt_link_t option \<Rightarrow> mnlxt_rt_link_t option \<Rightarrow> u64 \<Rightarrow> errno \<Rightarrow> int \<times> errno" where
  "mnlxt_rt_link_compare a b flt e =
     (case (a, b) of
        (Some x, Some y) \<Rightarrow>
          (cmp_loop (MNLXT_RT_LINK_MAX) flt (ucast (link_prop_flags x)) (ucast (link_prop_flags y)) (mnlxt_rt_link_cmp x y) 0 1, e)
      | _ \<Rightarrow> (- 1, EINVAL))"

text \<open>A match looks into the information of the kind, too.\<close>

definition mnlxt_rt_link_match ::
  "mnlxt_rt_link_t option \<Rightarrow> mnlxt_rt_link_t option \<Rightarrow> errno \<Rightarrow> int \<times> errno" where
  "mnlxt_rt_link_match rt_link m e =
     (case m of None \<Rightarrow> (- 1, EINVAL)
      | Some y \<Rightarrow>
          (case mnlxt_rt_link_compare rt_link m (ucast (link_prop_flags y)) e of (rc, e1) \<Rightarrow>
             if rc = 0 \<and> get_prop_flag (link_prop_flags y) MNLXT_RT_LINK_INFO then
               (case mnlxt_rt_link_info_cmp (map_option link_info rt_link) (Some (link_info y))
                       (info_prop_flags (link_info y)) e1 of (rc2, e2) \<Rightarrow>
                  (if 0 < rc2 then int MNLXT_RT_LINK_INFO + 1 else rc2, e2))
             else (rc, e1)))"

definition mnlxt_rt_link_info_compare ::
  "mnlxt_rt_link_t option \<Rightarrow> mnlxt_rt_link_t option \<Rightarrow> u16 \<Rightarrow> errno \<Rightarrow> int \<times> errno" where
  "mnlxt_rt_link_info_compare rt_link1 rt_link2 flt e =
     (case (rt_link1, rt_link2) of
        (Some a, Some b) \<Rightarrow> mnlxt_rt_link_info_cmp (Some (link_info a)) (Some (link_info b)) flt e
      | _ \<Rightarrow> (- 1, EINVAL))"

section \<open>The names of the kinds\<close>

definition info_kinds :: "string list" where
  "info_kinds = [''bridge'', ''vlan'', ''bond'', ''tun'', ''xfrm'']"

definition mnlxt_rt_link_info_kind_get_enum :: "string option \<Rightarrow> u32" where
  "mnlxt_rt_link_info_kind_get_enum kind =
     (case kind of None \<Rightarrow> - 1
      | Some s \<Rightarrow>
          (let index = length (takeWhile (\<lambda>k. k \<noteq> s) info_kinds)
           in if index < MNLXT_RT_LINK_INFO_KIND_MAX then of_nat index else - 1))"

definition mnlxt_rt_link_info_kind_get_string :: "u32 \<Rightarrow> string option" where
  "mnlxt_rt_link_info_kind_get_string kind =
     (if unat kind < MNLXT_RT_LINK_INFO_KIND_MAX then Some (info_kinds ! unat kind) else None)"

section \<open>Messages that carry a link\<close>

definition mnlxt_rt_link_get :: "mnlxt_message_t option \<Rightarrow> ptr option" where
  "mnlxt_rt_link_get message =
     (case message of None \<Rightarrow> None
      | Some m \<Rightarrow> if msg_type m \<in> {RTM_NEWLINK, RTM_GETLINK, RTM_DELLINK, RTM_SETLINK} then msg_payload m else None)"

definition mnlxt_rt_link_remove :: "ptr option \<Rightarrow> pheap \<Rightarrow> (ptr option \<times> pheap) option" where
  "mnlxt_rt_link_remove message h = take_payload mnlxt_rt_link_get message h"

section \<open>Writing a message\<close>

text \<open>\<open>struct ifinfomsg\<close> and the attributes of linux/if_link.h.\<close>

record ifinfomsg =
  ifi_family :: u8
  ifi_type :: u16
  ifi_index :: u32
  ifi_flags :: u32
  ifi_change :: u32

definition ifinfomsg_zero :: ifinfomsg where
  "ifinfomsg_zero = \<lparr>ifi_family = 0, ifi_type = 0, ifi_index = 0, ifi_flags = 0, ifi_change = 0\<rparr>"

text \<open>
  \<open>HAVE_IFLA_MTU_LIMITS\<close>, and whether \<open>IFLA_XFRM_MAX\<close> and \<open>IFLA_TUN_MAX\<close> are defined; the largest attribute
  type that the headers know.
\<close>

record link_build =
  have_mtu_limits :: bool
  have_xfrm :: bool
  have_tun :: bool
  ifla_max :: nat

abbreviation IFLA_ADDRESS :: nat where "IFLA_ADDRESS \<equiv> 1"
abbreviation IFLA_IFNAME :: nat where "IFLA_IFNAME \<equiv> 3"
abbreviation IFLA_MTU :: nat where "IFLA_MTU \<equiv> 4"
abbreviation IFLA_LINK :: nat where "IFLA_LINK \<equiv> 5"
abbreviation IFLA_QDISC :: nat where "IFLA_QDISC \<equiv> 6"
abbreviation IFLA_STATS :: nat where "IFLA_STATS \<equiv> 7"
abbreviation IFLA_MASTER :: nat where "IFLA_MASTER \<equiv> 10"
abbreviation IFLA_OPERSTATE :: nat where "IFLA_OPERSTATE \<equiv> 16"
abbreviation IFLA_LINKINFO :: nat where "IFLA_LINKINFO \<equiv> 18"
abbreviation IFLA_MIN_MTU :: nat where "IFLA_MIN_MTU \<equiv> 50"
abbreviation IFLA_MAX_MTU :: nat where "IFLA_MAX_MTU \<equiv> 51"
abbreviation IFLA_INFO_KIND :: nat where "IFLA_INFO_KIND \<equiv> 1"
abbreviation IFLA_INFO_DATA :: nat where "IFLA_INFO_DATA \<equiv> 2"
abbreviation IFLA_VLAN_ID :: nat where "IFLA_VLAN_ID \<equiv> 1"
abbreviation IFLA_XFRM_LINK :: nat where "IFLA_XFRM_LINK \<equiv> 1"
abbreviation IFLA_XFRM_IF_ID :: nat where "IFLA_XFRM_IF_ID \<equiv> 2"
abbreviation IFLA_TUN_OWNER :: nat where "IFLA_TUN_OWNER \<equiv> 1"
abbreviation IFLA_TUN_GROUP :: nat where "IFLA_TUN_GROUP \<equiv> 2"
abbreviation IFLA_TUN_TYPE :: nat where "IFLA_TUN_TYPE \<equiv> 3"
abbreviation IFLA_TUN_PI :: nat where "IFLA_TUN_PI \<equiv> 4"
abbreviation IFLA_TUN_VNET_HDR :: nat where "IFLA_TUN_VNET_HDR \<equiv> 5"
abbreviation IFLA_TUN_PERSIST :: nat where "IFLA_TUN_PERSIST \<equiv> 6"
abbreviation IFLA_TUN_MULTI_QUEUE :: nat where "IFLA_TUN_MULTI_QUEUE \<equiv> 7"

type_synonym ('b, 'a) ifi_mnl = "(ifinfomsg, 'b, 'a) libmnl"

definition mac_bytes :: "mnlxt_eth_addr_t \<Rightarrow> u8 list" where
  "mac_bytes m = (case m of (a, b, c, d, e, f) \<Rightarrow> [a, b, c, d, e, f])"

definition payload_mac :: "('b, 'a) ifi_mnl \<Rightarrow> 'a \<Rightarrow> mnlxt_eth_addr_t" where
  "payload_mac M a = (attr_get_payload M a 0, attr_get_payload M a 1, attr_get_payload M a 2,
     attr_get_payload M a 3, attr_get_payload M a 4, attr_get_payload M a 5)"

definition mnlxt_rt_link_vlan_info_put :: "('b, 'a) ifi_mnl \<Rightarrow> mnlxt_rt_link_t \<Rightarrow> errno \<Rightarrow> 'b \<Rightarrow> 'b" where
  "mnlxt_rt_link_vlan_info_put M rt_link e b =
     (case mnlxt_rt_link_get_vlan_id (Some rt_link) (Some 0) e of (rc, vid, _) \<Rightarrow>
        if rc = 0 then attr_put_u16 M IFLA_VLAN_ID (the vid) b else b)"

definition mnlxt_rt_link_xfrm_info_put ::
  "link_build \<Rightarrow> ('b, 'a) ifi_mnl \<Rightarrow> mnlxt_rt_link_t \<Rightarrow> errno \<Rightarrow> 'b \<Rightarrow> 'b" where
  "mnlxt_rt_link_xfrm_info_put B M rt_link e b =
     (if \<not> have_xfrm B then b
      else
        (let b1 = (case mnlxt_rt_link_get_xfrm_id (Some rt_link) (Some 0) e of (rc, x, _) \<Rightarrow>
               if rc = 0 then attr_put_u32 M IFLA_XFRM_IF_ID (the x) b else b)
         in (case mnlxt_rt_link_get_xfrm_ifindex (Some rt_link) (Some 0) e of (rc, x, _) \<Rightarrow>
               if rc = 0 then attr_put_u32 M IFLA_XFRM_LINK (the x) b1 else b1)))"

text \<open>The body of \<open>mnlxt_rt_link_tun_info_put\<close> is disabled in the source.\<close>

definition mnlxt_rt_link_tun_info_put :: "mnlxt_rt_link_t \<Rightarrow> 'b \<Rightarrow> 'b" where
  "mnlxt_rt_link_tun_info_put rt_link b = b"

definition mnlxt_rt_link_info_put ::
  "link_build \<Rightarrow> ('b, 'a) ifi_mnl \<Rightarrow> mnlxt_rt_link_t \<Rightarrow> errno \<Rightarrow> 'b \<Rightarrow> int \<times> 'b" where
  "mnlxt_rt_link_info_put B M link e b =
     (case mnlxt_rt_link_get_info_kind (Some link) (Some (- 1)) e of (rc, kind_p, _) \<Rightarrow>
        if rc = 0 then
          (let kind = the kind_p in
           case mnlxt_rt_link_info_kind_get_string kind of
             None \<Rightarrow> (- 1, b)
           | Some s \<Rightarrow>
               (case nest_start M IFLA_LINKINFO b of (nest_info, b1) \<Rightarrow>
                case nest_start M IFLA_INFO_DATA (attr_put_str M IFLA_INFO_KIND s b1) of (nest_data, b2) \<Rightarrow>
                  (let b3 = (if kind = MNLXT_RT_LINK_INFO_KIND_VLAN then mnlxt_rt_link_vlan_info_put M link e b2
                       else if kind = MNLXT_RT_LINK_INFO_KIND_TUN then mnlxt_rt_link_tun_info_put link b2
                       else if kind = MNLXT_RT_LINK_INFO_KIND_XFRM then mnlxt_rt_link_xfrm_info_put B M link e b2
                       else b2)
                   in (0, nest_end M nest_info (nest_end M nest_data b3)))))
        else (- 1, b))"

definition link_put_prop ::
  "link_build \<Rightarrow> ('b, 'a) ifi_mnl \<Rightarrow> mnlxt_rt_link_t \<Rightarrow> errno \<Rightarrow> nat \<Rightarrow> 'b \<Rightarrow> 'b" where
  "link_put_prop B M link e i b =
     (if i = MNLXT_RT_LINK_TYPE then hdr_upd M (\<lambda>r. r\<lparr>ifi_type := link_type link\<rparr>) b
      else if i = MNLXT_RT_LINK_FAMILY then hdr_upd M (\<lambda>r. r\<lparr>ifi_family := link_family link\<rparr>) b
      else if i = MNLXT_RT_LINK_NAME then attr_put_str M IFLA_IFNAME (link_name link) b
      else if i = MNLXT_RT_LINK_INDEX then hdr_upd M (\<lambda>r. r\<lparr>ifi_index := link_index link\<rparr>) b
      else if i = MNLXT_RT_LINK_FLAGS then
        hdr_upd M (\<lambda>r. r\<lparr>ifi_flags := link_flags link, ifi_change := link_flag_mask link\<rparr>) b
      else if i = MNLXT_RT_LINK_HWADDR then attr_put M IFLA_ADDRESS (mac_bytes (link_mac link)) b
      else if i = MNLXT_RT_LINK_MTU then attr_put_u32 M IFLA_MTU (link_mtu link) b
      else if i = MNLXT_RT_LINK_MASTER then attr_put_u32 M IFLA_MASTER (link_master link) b
      else if i = MNLXT_RT_LINK_STATE then attr_put_u32 M IFLA_OPERSTATE (ucast (link_state link)) b
      else if i = MNLXT_RT_LINK_PARENT then attr_put_u32 M IFLA_LINK (link_parent link) b
      else if i = MNLXT_RT_LINK_INFO then snd (mnlxt_rt_link_info_put B M link e b)
      else b)"

definition mnlxt_rt_link_put ::
  "link_build \<Rightarrow> ('b, 'a) ifi_mnl \<Rightarrow> 'b nlmsghdr option \<Rightarrow> mnlxt_rt_link_t option \<Rightarrow> errno \<Rightarrow>
     int \<times> 'b nlmsghdr option \<times> errno" where
  "mnlxt_rt_link_put B M nlh link e =
     (case (link, nlh) of
        (Some l, Some n) \<Rightarrow>
          (0, Some (n\<lparr>nlmsg_body := put_loop (MNLXT_RT_LINK_MAX) (link_prop_flags l) (link_put_prop B M l e) 0 1
             (put_extra_header M (nlmsg_body n))\<rparr>), e)
      | _ \<Rightarrow> (- 1, nlh, EINVAL))"

section \<open>Parsing the information of the kind\<close>

type_synonym link_state = "(mnlxt_rt_link_t, mnlxt_xfrm_tmpl_t, payload) pstate"

definition vlan_attr :: "('b, 'a) ifi_mnl \<Rightarrow> 'a \<Rightarrow> link_state \<Rightarrow> errno \<Rightarrow> link_state parse option" where
  "vlan_attr M a s e =
     (if attr_type M a = IFLA_VLAN_ID then
        on_valid (attr_validate M a MNL_TYPE_U16 e) ''IFLA_VLAN_ID validation failed'' s
          (\<lambda>e1. store_set (mnlxt_rt_link_set_vlan_id (Some (fst s)) (ucast (attr_get_u32 M a)) e1)
             ''mnlxt_rt_link_set_vlan_id failed'' s)
      else Some (Next s e))"

definition mnlxt_rt_link_vlan_info_data ::
  "('b, 'a) ifi_mnl \<Rightarrow> 'a \<Rightarrow> link_state \<Rightarrow> errno \<Rightarrow> link_state parse option" where
  "mnlxt_rt_link_vlan_info_data M link_vlan_attr s e = attr_loop (vlan_attr M) (nested M link_vlan_attr) s e"

definition xfrm_attr :: "('b, 'a) ifi_mnl \<Rightarrow> 'a \<Rightarrow> link_state \<Rightarrow> errno \<Rightarrow> link_state parse option" where
  "xfrm_attr M a s e =
     (if attr_type M a = IFLA_XFRM_LINK then
        on_valid (attr_validate M a MNL_TYPE_U32 e) ''IFLA_XFRM_LINK validation failed'' s
          (\<lambda>e1. store_set (mnlxt_rt_link_set_xfrm_ifindex (Some (fst s)) (attr_get_u32 M a) e1)
             ''mnlxt_rt_link_set_xfrm_ifindex failed'' s)
      else if attr_type M a = IFLA_XFRM_IF_ID then
        on_valid (attr_validate M a MNL_TYPE_U32 e) ''IFLA_XFRM_IF_ID validation failed'' s
          (\<lambda>e1. store_set (mnlxt_rt_link_set_xfrm_id (Some (fst s)) (attr_get_u32 M a) e1)
             ''mnlxt_rt_link_set_xfrm_id failed'' s)
      else Some (Next s e))"

definition mnlxt_rt_link_xfrm_info_data ::
  "link_build \<Rightarrow> ('b, 'a) ifi_mnl \<Rightarrow> 'a \<Rightarrow> link_state \<Rightarrow> errno \<Rightarrow> link_state parse option" where
  "mnlxt_rt_link_xfrm_info_data B M link_xfrm_attr s e =
     (if have_xfrm B then attr_loop (xfrm_attr M) (nested M link_xfrm_attr) s e else Some (Fail s e))"

text \<open>The loop over the attributes of a TUN device collects its flags next to the link.\<close>

definition tun_flag_attr ::
  "('b, 'a) ifi_mnl \<Rightarrow> string \<Rightarrow> u16 \<Rightarrow> 'a \<Rightarrow> u32 \<Rightarrow> link_state \<Rightarrow> errno \<Rightarrow> (u32 \<times> link_state) parse option" where
  "tun_flag_attr M msg fl a flags s e =
     (case attr_validate M a MNL_TYPE_U8 e of (rc, e1) \<Rightarrow>
        if 0 > rc then map_option (map_parse (Pair flags)) (fail_with msg s e1)
        else Some (Next (if attr_get_u8 M a \<noteq> 0 then flags OR ucast fl else flags, s) e1))"

definition tun_attr ::
  "('b, 'a) ifi_mnl \<Rightarrow> 'a \<Rightarrow> u32 \<times> link_state \<Rightarrow> errno \<Rightarrow> (u32 \<times> link_state) parse option" where
  "tun_attr M a fs e =
     (case fs of (flags, s) \<Rightarrow>
        (let keep = map_option (map_parse (Pair flags)); type = attr_type M a in
         if type = IFLA_TUN_OWNER then
           keep (on_valid (attr_validate M a MNL_TYPE_U32 e) ''IFLA_TUN_OWNER validation failed'' s
             (\<lambda>e1. store_set (mnlxt_rt_link_set_tun_uid (Some (fst s)) (attr_get_u32 M a) e1)
                ''mnlxt_rt_link_set_tun_uid failed'' s))
         else if type = IFLA_TUN_GROUP then
           keep (on_valid (attr_validate M a MNL_TYPE_U32 e) ''IFLA_TUN_GROUP validation failed'' s
             (\<lambda>e1. store_set (mnlxt_rt_link_set_tun_gid (Some (fst s)) (attr_get_u32 M a) e1)
                ''mnlxt_rt_link_set_tun_gid failed'' s))
         else if type = IFLA_TUN_TYPE then
           keep (on_valid (attr_validate M a MNL_TYPE_U8 e) ''IFLA_TUN_TYPE validation failed'' s
             (\<lambda>e1. store_set (mnlxt_rt_link_set_tun_type (Some (fst s)) (attr_get_u8 M a) e1)
                ''mnlxt_rt_link_set_tun_type failed'' s))
         else if type = IFLA_TUN_PI then
           tun_flag_attr M ''IFLA_TUN_PI validation failed'' MNLXT_RT_LINK_TUN_FLAG_PI a flags s e
         else if type = IFLA_TUN_VNET_HDR then
           tun_flag_attr M ''IFLA_TUN_VNET_HDR validation failed'' MNLXT_RT_LINK_TUN_FLAG_VNET_HDR a flags s e
         else if type = IFLA_TUN_PERSIST then
           tun_flag_attr M ''IFLA_TUN_PERSIST validation failed'' MNLXT_RT_LINK_TUN_FLAG_PERSIST a flags s e
         else if type = IFLA_TUN_MULTI_QUEUE then
           tun_flag_attr M ''IFLA_TUN_MULTI_QUEUE validation failed'' MNLXT_RT_LINK_TUN_FLAG_MULTI_QUEUE a flags s e
         else Some (Next (flags, s) e)))"

definition mnlxt_rt_link_tun_info_data ::
  "link_build \<Rightarrow> ('b, 'a) ifi_mnl \<Rightarrow> 'a \<Rightarrow> link_state \<Rightarrow> errno \<Rightarrow> link_state parse option" where
  "mnlxt_rt_link_tun_info_data B M link_tun_attr s e =
     (if \<not> have_tun B then Some (Fail s e)
      else
        Option.bind (attr_loop (tun_attr M) (nested M link_tun_attr) (0, s) e)
          (\<lambda>r. case r of
             Fail (_, s1) e1 \<Rightarrow> Some (Fail s1 e1)
           | Next (flags, s1) e1 \<Rightarrow>
               store_set (mnlxt_rt_link_set_tun_flags (Some (fst s1)) (ucast flags) e1)
                 ''mnlxt_rt_link_set_tun_flags failed'' s1))"

text \<open>
  The text for an unknown kind: \<open>strncat\<close> gets the size of the whole buffer as its limit, so a
  long name of a kind is written past the end of the buffer (\<open>None\<close>).
\<close>

definition unknown_kind_text :: "string \<Rightarrow> string option" where
  "unknown_kind_text s =
     (let buf = ''not supported IFLA_INFO_KIND: '' @ take 511 s in if length buf < 512 then Some buf else None)"

text \<open>
  The loop over the attributes of \<open>IFLA_LINKINFO\<close>: \<open>Inl\<close> when the function is left from inside it, \<open>Inr\<close> with
  the kind and the attribute with its data after the loop.
\<close>

fun link_info_loop ::
  "('b, 'a) ifi_mnl \<Rightarrow> 'a list \<Rightarrow> u32 \<Rightarrow> 'a option \<Rightarrow> link_state \<Rightarrow> errno \<Rightarrow>
     (link_state parse + u32 \<times> 'a option \<times> link_state \<times> errno) option" where
  "link_info_loop M [] kind data_attr s e = Some (Inr (kind, data_attr, s, e))"
| "link_info_loop M (a # as) kind data_attr s e =
     (if attr_type M a = IFLA_INFO_KIND then
        (case attr_validate M a MNL_TYPE_STRING e of (rc, e1) \<Rightarrow>
           if 0 > rc then map_option Inl (fail_with ''IFLA_INFO_KIND validation failed'' s e1)
           else
             (let str = attr_get_str M a; kind1 = mnlxt_rt_link_info_kind_get_enum (Some str) in
              if kind1 = - 1 then
                (case s of (l, d, h) \<Rightarrow>
                   map_option (\<lambda>buf. Inl (Next (l, d\<lparr>data_error_buf := buf, data_error_str := Some buf\<rparr>, h) e1))
                     (unknown_kind_text str))
              else
                Option.bind
                  (store_set (mnlxt_rt_link_set_info_kind (Some (fst s)) kind1 e1)
                     ''mnlxt_rt_link_set_info_kind failed'' s)
                  (\<lambda>r. case r of Fail s1 e2 \<Rightarrow> Some (Inl (Fail s1 e2))
                     | Next s1 e2 \<Rightarrow> link_info_loop M as kind1 data_attr s1 e2)))
      else if attr_type M a = IFLA_INFO_DATA then link_info_loop M as kind (Some a) s e
      else link_info_loop M as kind data_attr s e)"

definition mnlxt_rt_link_info_attr ::
  "link_build \<Rightarrow> ('b, 'a) ifi_mnl \<Rightarrow> 'a \<Rightarrow> link_state \<Rightarrow> errno \<Rightarrow> link_state parse option" where
  "mnlxt_rt_link_info_attr B M link_info_attr s e =
     Option.bind (link_info_loop M (nested M link_info_attr) (- 1) None s e)
       (\<lambda>r. case r of
          Inl p \<Rightarrow> Some p
        | Inr (kind, None, s1, e1) \<Rightarrow> Some (Next s1 e1)
        | Inr (kind, Some a, s1, e1) \<Rightarrow>
            if kind = MNLXT_RT_LINK_INFO_KIND_BR then Some (Next s1 e1)
            else if kind = MNLXT_RT_LINK_INFO_KIND_VLAN then mnlxt_rt_link_vlan_info_data M a s1 e1
            else if kind = MNLXT_RT_LINK_INFO_KIND_BOND then Some (Next s1 e1)
            else if kind = MNLXT_RT_LINK_INFO_KIND_TUN then mnlxt_rt_link_tun_info_data B M a s1 e1
            else if kind = MNLXT_RT_LINK_INFO_KIND_XFRM then mnlxt_rt_link_xfrm_info_data B M a s1 e1
            else Some (Fail s1 e1))"

section \<open>Parsing a message\<close>

definition link_attr ::
  "link_build \<Rightarrow> ('b, 'a) ifi_mnl \<Rightarrow> 'a \<Rightarrow> link_state \<Rightarrow> errno \<Rightarrow> link_state parse option" where
  "link_attr B M a s e =
     (let type = attr_type M a; link = Some (fst s) in
      case attr_type_valid M a (ifla_max B) e of (v, e0) \<Rightarrow>
        if v < 0 then Some (Next s e0)
        else if type = IFLA_MTU then
          on_valid (attr_validate M a MNL_TYPE_U32 e0) ''IFLA_MTU validation failed'' s
            (\<lambda>e1. store_set (mnlxt_rt_link_set_mtu link (attr_get_u32 M a) e1) ''mnlxt_rt_link_set_mtu failed'' s)
        else if have_mtu_limits B \<and> type = IFLA_MIN_MTU then
          on_valid (attr_validate M a MNL_TYPE_U32 e0) ''IFLA_MIN_MTU validation failed'' s
            (\<lambda>e1. store_set (mnlxt_rt_link_set_mtu_min link (attr_get_u32 M a) e1) ''mnlxt_rt_link_set_mtu_min failed'' s)
        else if have_mtu_limits B \<and> type = IFLA_MAX_MTU then
          on_valid (attr_validate M a MNL_TYPE_U32 e0) ''IFLA_MAX_MTU validation failed'' s
            (\<lambda>e1. store_set (mnlxt_rt_link_set_mtu_max link (attr_get_u32 M a) e1) ''mnlxt_rt_link_set_mtu_max failed'' s)
        else if type = IFLA_IFNAME then
          on_valid (attr_validate M a MNL_TYPE_STRING e0) ''IFLA_IFNAME validation failed'' s
            (\<lambda>e1. store_set (mnlxt_rt_link_set_name link (Some (attr_get_str M a)) e1)
               ''mnlxt_rt_link_set_name failed'' s)
        else if type = IFLA_ADDRESS then
          on_valid (attr_validate2 M a MNL_TYPE_BINARY 6 e0) ''IFLA_ADDRESS validation failed'' s
            (\<lambda>e1. store_set (mnlxt_rt_link_set_hwaddr link (payload_mac M a) e1)
               ''mnlxt_rt_link_set_hwaddr failed'' s)
        else if type = IFLA_LINK then
          on_valid (attr_validate M a MNL_TYPE_U32 e0) ''IFLA_LINK validation failed'' s
            (\<lambda>e1. store_set (mnlxt_rt_link_set_parent link (attr_get_u32 M a) e1) ''mnlxt_rt_link_set_parent failed'' s)
        else if type = IFLA_OPERSTATE then
          on_valid (attr_validate M a MNL_TYPE_U8 e0) ''IFLA_OPERSTATE validation failed'' s
            (\<lambda>e1. store_set (mnlxt_rt_link_set_state link (attr_get_u8 M a) e1) ''mnlxt_rt_link_set_state failed'' s)
        else if type = IFLA_MASTER then
          on_valid (attr_validate M a MNL_TYPE_U32 e0) ''IFLA_MASTER validation failed'' s
            (\<lambda>e1. store_set (mnlxt_rt_link_set_master link (attr_get_u32 M a) e1) ''mnlxt_rt_link_set_master failed'' s)
        else if type = IFLA_LINKINFO then mnlxt_rt_link_info_attr B M a s e0
        else Some (Next s e0))"

text \<open>The setters that run before the attributes, their results ignored.\<close>

definition link_from_hdr :: "ifinfomsg \<Rightarrow> errno \<Rightarrow> mnlxt_rt_link_t \<times> errno" where
  "link_from_hdr ifm e =
     run_setters
       [\<lambda>p. mnlxt_rt_link_set_flags p (ifi_flags ifm),
        \<lambda>p. mnlxt_rt_link_set_index p (ifi_index ifm),
        \<lambda>p. mnlxt_rt_link_set_type p (ifi_type ifm),
        \<lambda>p. mnlxt_rt_link_set_family p (ifi_family ifm)] link_zero e"

definition mnlxt_rt_link_data ::
  "link_build \<Rightarrow> ('b, 'a) ifi_mnl \<Rightarrow> 'b nlmsghdr option \<Rightarrow> mnlxt_data_t option \<Rightarrow> pheap \<Rightarrow> errno \<Rightarrow>
     (int \<times> mnlxt_data_t option \<times> pheap \<times> errno) option" where
  "mnlxt_rt_link_data B M nlh data h e =
     parse_start [RTM_GETLINK, RTM_NEWLINK, RTM_DELLINK, RTM_SETLINK] nlh data h
       (\<lambda>n d.
          parse_new (PLink link_zero) ''nl_link_new failed'' d h
            (\<lambda>q h1. case link_from_hdr (hdr_read M (nlmsg_body n)) e of (r, e1) \<Rightarrow>
               Option.bind
                 (attr_loop (link_attr B M) (attrs M (nlmsg_body n)) (r, d, h1) e1)
                 (parse_end mnlxt_rt_message_new mnlxt_rt_link_free PLink
                    ''mnlxt_rt_message_new failed'' (nlmsg_type n) q)))"

section \<open>Iterating, dumping and requesting\<close>

definition mnlxt_rt_link_iterate ::
  "mnlxt_data_t option \<Rightarrow> ptr option option \<Rightarrow> pheap \<Rightarrow> errno \<Rightarrow>
     (ptr option \<times> ptr option option \<times> errno) option" where
  "mnlxt_rt_link_iterate data iterator h e =
     (case iterator of None \<Rightarrow> Some (None, None, e)
      | Some it \<Rightarrow>
          map_option (\<lambda>(pl, it', e'). (pl, Some it', e'))
            (iterate_loop (\<lambda>m. mnlxt_rt_link_get (Some m)) data it h e))"

text \<open>The caller's pointer is cleared when the message has taken the object over.\<close>

definition mnlxt_rt_link_message ::
  "ptr option option \<Rightarrow> u16 \<Rightarrow> u16 \<Rightarrow> pheap \<Rightarrow> errno \<Rightarrow>
     (ptr option \<times> ptr option option \<times> pheap \<times> errno) option" where
  "mnlxt_rt_link_message ob type flags h e =
     (case ob of
        Some (Some q) \<Rightarrow>
          if type \<notin> {RTM_NEWLINK, RTM_DELLINK, RTM_SETLINK} then Some (None, ob, h, EINVAL)
          else
            map_option (\<lambda>(msg, h', e'). (msg, if msg = None then ob else Some None, h', e'))
              (mnlxt_rt_message_new type flags (Some q) h e)
      | _ \<Rightarrow> Some (None, ob, h, EINVAL))"

definition mnlxt_rt_link_dump ::
  "('w, 'f, 'b) netio \<Rightarrow> 'b callbacks \<Rightarrow> mnlxt_data_t option \<Rightarrow> pheap \<Rightarrow> 'w \<Rightarrow> errno \<Rightarrow>
     (int \<times> mnlxt_data_t option \<times> pheap \<times> 'w \<times> errno) option" where
  "mnlxt_rt_link_dump io cbs data h w e = mnlxt_rt_data_dump io cbs data RTM_GETLINK AF_PACKET h w e"

text \<open>
  The request with the message built. After a successful \<open>RTM_NEWLINK\<close> the code asks for the name of the
  link through the pointer that the message has cleared: the getter fails, the condition is true,
  and the index is looked up for whatever the buffer \<open>name\<close> holds (\<open>junk\<close>).
\<close>

definition link_send ::
  "'w tunsys \<Rightarrow> string \<Rightarrow> ('w, 'f, 'b) netio \<Rightarrow> 'b callbacks \<Rightarrow> ptr option \<Rightarrow> u16 \<Rightarrow> u16 \<Rightarrow> pheap \<Rightarrow> 'w \<Rightarrow>
     errno \<Rightarrow> (int \<times> pheap \<times> 'w \<times> errno) option" where
  "link_send sys junk io cbs rt_link type flags h w e =
     do {
       (message, rt_link1, h1, e1) \<leftarrow> mnlxt_rt_link_message (Some rt_link) type flags h e;
       (case message of
          None \<Rightarrow> Some (- 1, h1, w, e1)
        | Some m \<Rightarrow>
            do {
              (rc, h2, w2, e2) \<leftarrow> mnlxt_rt_message_request io cbs (Some m) h1 w e1;
              l \<leftarrow> (case the rt_link1 of None \<Rightarrow> Some None | Some q \<Rightarrow> map_option Some (obj_at un_PLink h2 q));
              (w3, e3) \<leftarrow>
                (if 0 = rc \<and> RTM_NEWLINK = type then
                   (case mnlxt_rt_link_get_name l (Some junk) e2 of (r, name, e3) \<Rightarrow>
                      if 0 \<noteq> r then
                        (case ts_nametoindex sys (the name) w2 e3 of (if_index, w3, e4) \<Rightarrow>
                           Some (w3, if 0 \<noteq> if_index then snd (snd (mnlxt_rt_link_set_index l if_index e4)) else e4))
                      else Some (w2, e3))
                 else Some (w2, e2));
              (_, h3) \<leftarrow> mnlxt_rt_link_remove (Some m) h2;
              h4 \<leftarrow> mnlxt_message_free call_free (Some m) h3;
              Some (rc, h4, w3, e3)
            })
     }"

text \<open>TUN and TAP devices are created and deleted through their device file.\<close>

definition mnlxt_rt_link_request ::
  "'w tunsys \<Rightarrow> u16 \<Rightarrow> string \<Rightarrow> ('w, 'f, 'b) netio \<Rightarrow> 'b callbacks \<Rightarrow> ptr option \<Rightarrow> u16 \<Rightarrow> u16 \<Rightarrow> pheap \<Rightarrow>
     'w \<Rightarrow> errno \<Rightarrow> (int \<times> pheap \<times> 'w \<times> errno) option" where
  "mnlxt_rt_link_request sys junk_flags junk_name io cbs rt_link type flags h w e =
     do {
       l \<leftarrow> (case rt_link of None \<Rightarrow> Some None | Some q \<Rightarrow> map_option Some (obj_at un_PLink h q));
       (case mnlxt_rt_link_get_info_kind l (Some (- 1)) e of (r, kind, e1) \<Rightarrow>
          if 0 = r \<and> kind = Some MNLXT_RT_LINK_INFO_KIND_TUN \<and> RTM_NEWLINK = type then
            (case mnlxt_rt_link_tun_create sys junk_flags l w e1 of (rc, l1, w1, e2) \<Rightarrow>
               (let h1 = put_obj (the rt_link) (PLink (the l1)) h
                in if 0 \<noteq> rc then Some (- 1, h1, w1, e2)
                   else link_send sys junk_name io cbs rt_link RTM_SETLINK flags h1 w1 e2))
          else if 0 = r \<and> kind = Some MNLXT_RT_LINK_INFO_KIND_TUN \<and> RTM_DELLINK = type then
            (case mnlxt_rt_link_tun_delete sys l w e1 of (rc, w1, e2) \<Rightarrow> Some (rc, h, w1, e2))
          else link_send sys junk_name io cbs rt_link type flags h w e1)
     }"

section \<open>What comparison decides\<close>

interpretation link_compare: prop_compare "\<lambda>_. True" mnlxt_rt_link_compare mnlxt_rt_link_cmp link_prop_flags
  MNLXT_RT_LINK_MAX
  by unfold_locales (auto simp: mnlxt_rt_link_compare_def split: option.splits)

lemma link_cmp_refl: "mnlxt_rt_link_cmp l l i = 0"
  by (simp add: mnlxt_rt_link_cmp_def Let_def)

lemma link_cmp_sym: "mnlxt_rt_link_cmp a b i = 0 \<Longrightarrow> mnlxt_rt_link_cmp b a i = 0"
  unfolding mnlxt_rt_link_cmp_def Let_def by (simp add: and.commute split: if_splits)

text \<open>A link matches itself, whatever it is, as long as its kind is one of the known ones.\<close>

lemma info_cmp_refl:
  assumes "unat (info_kind i) < MNLXT_RT_LINK_INFO_KIND_MAX"
  shows "mnlxt_rt_link_info_cmp (Some i) (Some i) flt e = (0, e)"
proof -
  have "\<not> vlan_differs i i j" "\<not> xfrm_differs i i j" "\<not> tun_differs i i j" for j
    by (simp_all add: vlan_differs_def xfrm_differs_def tun_differs_def)
  then show ?thesis
    using assms by (simp add: mnlxt_rt_link_info_cmp_def mnlxt_rt_link_vlan_cmp_def mnlxt_rt_link_xfrm_cmp_def
        mnlxt_rt_link_tun_cmp_def cmp_loop_eq_0 prop_differs_def)
qed

lemma link_match_refl:
  assumes "link_has l MNLXT_RT_LINK_INFO \<Longrightarrow> unat (info_kind (link_info l)) < MNLXT_RT_LINK_INFO_KIND_MAX"
  shows "mnlxt_rt_link_match (Some l) (Some l) e = (0, e)"
  using assms link_compare.compare_refl [of l, OF TrueI link_cmp_refl]
  by (simp add: mnlxt_rt_link_match_def info_cmp_refl)

text \<open>Two TUN devices that differ in nothing but their group are the same to the library.\<close>

lemma tun_gid_ignored:
  "info_kind i = MNLXT_RT_LINK_INFO_KIND_TUN \<Longrightarrow>
     mnlxt_rt_link_info_cmp (Some i) (Some (i\<lparr>info_w2 := gid\<rparr>)) flt e = (0, e)"
  by (simp add: mnlxt_rt_link_info_cmp_def mnlxt_rt_link_tun_cmp_def cmp_loop_eq_0 prop_differs_def tun_differs_def)

section \<open>The names of the kinds\<close>

lemma info_kind_roundtrip:
  assumes "unat k < MNLXT_RT_LINK_INFO_KIND_MAX"
  shows "mnlxt_rt_link_info_kind_get_enum (mnlxt_rt_link_info_kind_get_string k) = k"
proof -
  from assms have "unat k \<in> {0, 1, 2, 3, 4}" by auto
  then have "k \<in> {0, 1, 2, 3, 4}"
    by (elim insertE emptyE) (auto simp: word_unat_eq_iff)
  then show ?thesis
    by (elim insertE emptyE)
      (simp_all add: mnlxt_rt_link_info_kind_get_enum_def mnlxt_rt_link_info_kind_get_string_def info_kinds_def)
qed

lemma info_kind_unknown:
  "mnlxt_rt_link_info_kind_get_enum (Some s) = - 1 \<longleftrightarrow> s \<notin> set info_kinds"
  by (auto simp: mnlxt_rt_link_info_kind_get_enum_def info_kinds_def)

section \<open>Parsing appends a well formed link or changes nothing\<close>

text \<open>What the setters that the parser calls in its loops keep of a link.\<close>

definition link_hdr :: "mnlxt_rt_link_t \<Rightarrow> u16 \<times> u8 \<times> u32 \<times> u32 \<times> u32" where
  "link_hdr l = (link_type l, link_family l, link_index l, link_flags l, link_flag_mask l)"

definition link_keeps :: "mnlxt_rt_link_t \<Rightarrow> mnlxt_rt_link_t \<Rightarrow> bool" where
  "link_keeps l l' \<longleftrightarrow> (link_inv l \<longrightarrow> link_inv l') \<and> link_ext l l' \<and> link_hdr l' = link_hdr l"

lemma link_keeps_refl [simp]: "link_keeps l l"
  by (simp add: link_keeps_def)

lemma link_keeps_trans: "link_keeps a b \<Longrightarrow> link_keeps b c \<Longrightarrow> link_keeps a c"
  by (simp add: link_keeps_def) (blast intro: link_ext_trans)

text \<open>
  A setter whose result keeps the link. All of them are calls of the public interface, which keep the invariant;
  what is left is that the setters in the loops do not write what came from the header.
\<close>

definition link_setter_ok :: "mnlxt_rt_link_t \<Rightarrow> int \<times> mnlxt_rt_link_t option \<times> errno \<Rightarrow> bool" where
  "link_setter_ok l r \<longleftrightarrow> (\<exists>rc l' e'. r = (rc, Some l', e') \<and> link_keeps l l')"

definition hdr_kept :: "mnlxt_rt_link_t \<Rightarrow> int \<times> mnlxt_rt_link_t option \<times> errno \<Rightarrow> bool" where
  "hdr_kept l r \<longleftrightarrow> (\<exists>rc l' e'. r = (rc, Some l', e') \<and> link_hdr l' = link_hdr l)"

lemma link_setter_okI:
  assumes "\<And>rc l' e'. r = (rc, Some l', e') \<Longrightarrow> link_api l l'" "hdr_kept l r"
  shows "link_setter_ok l r"
proof -
  from assms(2) obtain rc l' e' where r: "r = (rc, Some l', e')" "link_hdr l' = link_hdr l"
    by (auto simp: hdr_kept_def)
  with link_api_keeps [OF assms(1) [OF r(1)]] show ?thesis by (simp add: link_setter_ok_def link_keeps_def)
qed

lemma hdr_kept_ptr:
  "i \<notin> {MNLXT_RT_LINK_TYPE, MNLXT_RT_LINK_FAMILY, MNLXT_RT_LINK_INDEX, MNLXT_RT_LINK_FLAGS} \<Longrightarrow>
     hdr_kept l (mnlxt_rt_link_set_ptr (Some l) i v e)"
  by (simp add: hdr_kept_def mnlxt_rt_link_set_ptr_def link_store_def link_hdr_def)

lemma hdr_kept_kind: "hdr_kept l (mnlxt_rt_link_set_info_kind (Some l) k e)"
  by (simp add: hdr_kept_def link_hdr_def set_info_kind_eq with_kind_def)

text \<open>The setters of a kind: the kind is claimed, then the union is written.\<close>

lemma hdr_kept_info:
  "hdr_kept l (case mnlxt_rt_link_set_info_kind (Some l) k e of (rc, ob, e') \<Rightarrow>
     if rc = 0 then (0, map_info f ob, e') else (- 1, ob, e'))"
  by (simp add: hdr_kept_def link_hdr_def set_info_kind_eq with_kind_def map_info_def)

lemma hdr_kept_xfrm_ifindex: "hdr_kept l (mnlxt_rt_link_set_xfrm_ifindex (Some l) i e)"
  by (simp add: hdr_kept_def link_hdr_def mnlxt_rt_link_set_xfrm_ifindex_def set_info_kind_eq with_kind_def map_info_def
      setter_defs mnlxt_rt_link_set_ptr_def link_data_def link_store_def)

lemma hdr_kept_name: "hdr_kept l (mnlxt_rt_link_set_name (Some l) s e)"
  by (cases s) (simp_all add: hdr_kept_def link_hdr_def mnlxt_rt_link_set_name_def)

lemma hdr_kept_tun_type: "hdr_kept l (mnlxt_rt_link_set_tun_type (Some l) t e)"
  unfolding mnlxt_rt_link_set_tun_type_def by (simp add: hdr_kept_info) (simp add: hdr_kept_def)

lemmas link_hdr_kept =
  hdr_kept_ptr hdr_kept_kind hdr_kept_name hdr_kept_xfrm_ifindex hdr_kept_tun_type
  hdr_kept_info [where k = MNLXT_RT_LINK_INFO_KIND_VLAN] hdr_kept_info [where k = MNLXT_RT_LINK_INFO_KIND_XFRM]
  hdr_kept_info [where k = MNLXT_RT_LINK_INFO_KIND_TUN]

lemmas kind_setter_defs = mnlxt_rt_link_set_vlan_id_def mnlxt_rt_link_set_xfrm_id_def mnlxt_rt_link_set_tun_flags_def
  mnlxt_rt_link_set_tun_uid_def mnlxt_rt_link_set_tun_gid_def

lemma link_setters_ok:
  shows "link_setter_ok l (mnlxt_rt_link_set_parent (Some l) v_parent e)"
    and "link_setter_ok l (mnlxt_rt_link_set_mtu (Some l) v_mtu e)"
    and "link_setter_ok l (mnlxt_rt_link_set_mtu_min (Some l) v_mtu_min e)"
    and "link_setter_ok l (mnlxt_rt_link_set_mtu_max (Some l) v_mtu_max e)"
    and "link_setter_ok l (mnlxt_rt_link_set_master (Some l) v_master e)"
    and "link_setter_ok l (mnlxt_rt_link_set_state (Some l) v_state e)"
    and "link_setter_ok l (mnlxt_rt_link_set_hwaddr (Some l) v_hwaddr e)"
    and "link_setter_ok l (mnlxt_rt_link_set_name (Some l) v_name e)"
    and "link_setter_ok l (mnlxt_rt_link_set_info_kind (Some l) v_info_kind e)"
    and "link_setter_ok l (mnlxt_rt_link_set_vlan_id (Some l) v_vlan_id e)"
    and "link_setter_ok l (mnlxt_rt_link_set_xfrm_ifindex (Some l) v_xfrm_ifindex e)"
    and "link_setter_ok l (mnlxt_rt_link_set_xfrm_id (Some l) v_xfrm_id e)"
    and "link_setter_ok l (mnlxt_rt_link_set_tun_type (Some l) v_tun_type e)"
    and "link_setter_ok l (mnlxt_rt_link_set_tun_flags (Some l) v_tun_flags e)"
    and "link_setter_ok l (mnlxt_rt_link_set_tun_uid (Some l) v_tun_uid e)"
    and "link_setter_ok l (mnlxt_rt_link_set_tun_gid (Some l) v_tun_gid e)"
  by (rule link_setter_okI, erule link_api.intros,
      simp add: setter_defs kind_setter_defs link_hdr_kept)+

definition link_work :: "pheap \<Rightarrow> mnlxt_data_t \<Rightarrow> ptr \<Rightarrow> mnlxt_rt_link_t \<Rightarrow> link_state \<Rightarrow> bool" where
  "link_work h0 d0 q l0 s \<longleftrightarrow>
     (case s of (l, d, h) \<Rightarrow> work_inv h0 d0 q (PLink l) d h \<and> link_inv l \<and> link_keeps l0 l)"

lemma link_work_error [simp]:
  "link_work h0 d0 q l0 (l, d\<lparr>data_error_str := m\<rparr>, h) = link_work h0 d0 q l0 (l, d, h)"
  "link_work h0 d0 q l0 (l, d\<lparr>data_error_buf := b\<rparr>, h) = link_work h0 d0 q l0 (l, d, h)"
  by (simp_all add: link_work_def work_inv_def)

lemma link_work_keeps:
  assumes w: "link_work h0 d0 q l0 (l, d, h)" and k: "link_keeps l l'"
  shows "link_work h0 d0 q l0 (l', d, h)"
proof -
  from w have wi: "work_inv h0 d0 q (PLink l) d h" by (simp add: link_work_def)
  have "work_inv h0 d0 q (PLink l') d h"
    by (intro work_inv_same_parts [OF wi]) (use wi in \<open>simp_all add: work_inv_def\<close>)
  moreover have "link_inv l'" using w k by (simp add: link_work_def link_keeps_def)
  moreover have "link_keeps l0 l'" using w k link_keeps_trans by (auto simp: link_work_def)
  ultimately show ?thesis by (simp add: link_work_def)
qed

lemma link_step:
  assumes w: "link_work h0 d0 q l0 (l, d, h)" and "link_setter_ok l r"
  shows "parse_all (link_work h0 d0 q l0) (store_set r msg (l, d, h))"
proof -
  from assms(2) obtain rc l' e' where r: "r = (rc, Some l', e')" "link_keeps l l'"
    by (auto simp: link_setter_ok_def)
  from link_work_keeps [OF w r(2)] show ?thesis by (intro store_set_keeps) (auto simp: r(1))
qed

lemma vlan_info_work:
  assumes "link_work h0 d0 q l0 s"
  shows "parse_all (link_work h0 d0 q l0) (mnlxt_rt_link_vlan_info_data M a s e)"
proof -
  have "parse_all (link_work h0 d0 q l0) (vlan_attr M a s e)" if "link_work h0 d0 q l0 s" for a s e
    using that by (cases s) (auto simp: vlan_attr_def intro!: on_valid_all link_step link_setters_ok)
  then show ?thesis
    unfolding mnlxt_rt_link_vlan_info_data_def using assms by (intro attr_loop_all)
qed

lemma xfrm_info_work:
  assumes "link_work h0 d0 q l0 s"
  shows "parse_all (link_work h0 d0 q l0) (mnlxt_rt_link_xfrm_info_data B M a s e)"
proof -
  have "parse_all (link_work h0 d0 q l0) (xfrm_attr M a s e)" if "link_work h0 d0 q l0 s" for a s e
    using that by (cases s) (auto simp: xfrm_attr_def intro!: on_valid_all link_step link_setters_ok)
  then have "parse_all (link_work h0 d0 q l0) (attr_loop (xfrm_attr M) (nested M a) s e)"
    using assms by (intro attr_loop_all)
  then show ?thesis using assms by (simp add: mnlxt_rt_link_xfrm_info_data_def)
qed

lemma parse_all_map: "parse_all P (map_option (map_parse f) r) = parse_all (\<lambda>s. P (f s)) r"
  by (auto simp: parse_all_def split: option.splits parse.splits)

lemma tun_attr_work:
  assumes "link_work h0 d0 q l0 s"
  shows "parse_all (\<lambda>(f, s). link_work h0 d0 q l0 s) (tun_attr M a (flags, s) e)"
proof -
  obtain l d h where s: "s = (l, d, h)" by (cases s)
  note w = assms [unfolded s]
  have fl: "parse_all (\<lambda>(f, s). link_work h0 d0 q l0 s) (tun_flag_attr M msg b a flags (l, d, h) e)" for msg b
    using w by (cases "attr_validate M a MNL_TYPE_U8 e") (simp add: tun_flag_attr_def fail_with_def)
  show ?thesis
    unfolding tun_attr_def s Let_def prod.case fst_conv
    using w by (auto simp: parse_all_map intro!: on_valid_all link_step link_setters_ok fl)
qed

lemma tun_info_work:
  assumes "link_work h0 d0 q l0 s"
  shows "parse_all (link_work h0 d0 q l0) (mnlxt_rt_link_tun_info_data B M a s e)"
proof (cases "have_tun B")
  case True
  have "parse_all (\<lambda>(f, s). link_work h0 d0 q l0 s) (attr_loop (tun_attr M) (nested M a) (0, s) e)"
    using assms by (intro attr_loop_all) (auto intro: tun_attr_work)
  then obtain t where t: "attr_loop (tun_attr M) (nested M a) (0, s) e = Some t"
      "case t of Fail (f, s) _ \<Rightarrow> link_work h0 d0 q l0 s | Next (f, s) _ \<Rightarrow> link_work h0 d0 q l0 s"
    by (auto simp: parse_all_def split: option.splits parse.splits)
  show ?thesis
  proof (cases t)
    case (Fail x e1)
    with t show ?thesis using True by (cases x) (simp add: mnlxt_rt_link_tun_info_data_def)
  next
    case (Next x e1)
    obtain f l d h where x: "x = (f, l, d, h)" by (cases x)
    with Next t(2) have "link_work h0 d0 q l0 (l, d, h)" by simp
    from link_step [OF this link_setters_ok(14)] show ?thesis
      using True by (simp add: mnlxt_rt_link_tun_info_data_def t(1) Next x)
  qed
qed (use assms in \<open>simp add: mnlxt_rt_link_tun_info_data_def\<close>)

text \<open>The names of the kinds in a message must fit into the buffer for the error text.\<close>

definition kinds_fit :: "('b, 'a) ifi_mnl \<Rightarrow> 'b nlmsghdr \<Rightarrow> bool" where
  "kinds_fit M n \<longleftrightarrow> (\<forall>a \<in> set (attrs M (nlmsg_body n)). \<forall>k \<in> set (nested M a). length (attr_get_str M k) < 482)"

lemma unknown_kind_fits: "length s < 482 \<Longrightarrow> \<exists>buf. unknown_kind_text s = Some buf"
  by (simp add: unknown_kind_text_def Let_def)

lemma unknown_kind_overflow: "482 \<le> length s \<Longrightarrow> unknown_kind_text s = None"
  by (simp add: unknown_kind_text_def Let_def)

lemma link_info_loop_work:
  assumes "\<forall>k \<in> set as. length (attr_get_str M k) < 482" "link_work h0 d0 q l0 s"
  shows "\<exists>r. link_info_loop M as kind da s e = Some r \<and>
    (case r of Inl p \<Rightarrow> parse_all (link_work h0 d0 q l0) (Some p)
     | Inr (kind', da', s', e') \<Rightarrow> link_work h0 d0 q l0 s')"
  using assms
proof (induction as arbitrary: kind da s e)
  case Nil
  then show ?case by simp
next
  case (Cons a as)
  obtain l d h where s: "s = (l, d, h)" by (cases s)
  obtain rc e1 where v: "attr_validate M a MNL_TYPE_STRING e = (rc, e1)"
    by (cases "attr_validate M a MNL_TYPE_STRING e") auto
  let ?k = "mnlxt_rt_link_info_kind_get_enum (Some (attr_get_str M a))"
  from Cons.prems(1) unknown_kind_fits [of "attr_get_str M a"] obtain buf where
    buf: "unknown_kind_text (attr_get_str M a) = Some buf" by auto
  from Cons.prems link_step [of h0 d0 q l0 l d h "mnlxt_rt_link_set_info_kind (Some l) ?k e1"] link_setters_ok(9)
  have "parse_all (link_work h0 d0 q l0)
      (store_set (mnlxt_rt_link_set_info_kind (Some l) ?k e1) ''mnlxt_rt_link_set_info_kind failed'' (l, d, h))"
    by (simp add: s)
  then obtain t where t: "store_set (mnlxt_rt_link_set_info_kind (Some l) ?k e1)
        ''mnlxt_rt_link_set_info_kind failed'' (l, d, h) = Some t"
      "case t of Fail s _ \<Rightarrow> link_work h0 d0 q l0 s | Next s _ \<Rightarrow> link_work h0 d0 q l0 s"
    by (auto simp: parse_all_def split: option.splits parse.splits)
  show ?case
  proof (cases "attr_type M a = IFLA_INFO_KIND")
    case False
    with Cons show ?thesis by simp
  next
    case True
    show ?thesis
    proof (cases "0 > rc \<or> ?k = - 1")
      case bad: True
      with True v buf Cons.prems show ?thesis by (auto simp: s fail_with_def Let_def)
    next
      case False
      show ?thesis
      proof (cases t)
        case (Fail s1 e2)
        with True v False t show ?thesis by (simp add: s Let_def)
      next
        case (Next s1 e2)
        with t(2) have "link_work h0 d0 q l0 s1" by simp
        from Cons.IH [OF _ this] Cons.prems(1) True v False t(1) Next show ?thesis by (simp add: s Let_def)
      qed
    qed
  qed
qed

lemma link_info_work:
  assumes "\<forall>k \<in> set (nested M a). length (attr_get_str M k) < 482" "link_work h0 d0 q l0 s"
  shows "parse_all (link_work h0 d0 q l0) (mnlxt_rt_link_info_attr B M a s e)"
proof -
  obtain r where r: "link_info_loop M (nested M a) (- 1) None s e = Some r"
    "case r of Inl p \<Rightarrow> parse_all (link_work h0 d0 q l0) (Some p)
     | Inr (kind', da', s', e') \<Rightarrow> link_work h0 d0 q l0 s'"
    using link_info_loop_work [OF assms, of "- 1" None e] by blast
  show ?thesis
  proof (cases r)
    case (Inl p)
    with r show ?thesis by (simp add: mnlxt_rt_link_info_attr_def)
  next
    case (Inr x)
    obtain kind da s1 e1 where x: "x = (kind, da, s1, e1)" by (cases x)
    with Inr r(2) have w: "link_work h0 d0 q l0 s1" by simp
    show ?thesis
      using w vlan_info_work [OF w] xfrm_info_work [OF w] tun_info_work [OF w]
      by (cases da) (auto simp: mnlxt_rt_link_info_attr_def r(1) Inr x)
  qed
qed

lemma link_attr_keeps:
  assumes fit: "attr_type M a = IFLA_LINKINFO \<longrightarrow> (\<forall>k \<in> set (nested M a). length (attr_get_str M k) < 482)"
    and "link_work h0 d0 q l0 s"
  shows "parse_all (link_work h0 d0 q l0) (link_attr B M a s e)"
proof -
  obtain l d h where s: "s = (l, d, h)" by (cases s)
  note w = assms(2) [unfolded s]
  then have we: "link_work h0 d0 q l0 (l, d\<lparr>data_error_str := Some m\<rparr>, h)" for m by simp
  note step = link_step [OF w]
  show ?thesis
    using w unfolding s link_attr_def Let_def fst_conv
    by (cases "attr_type_valid M a (ifla_max B) e")
      (auto intro!: on_valid_all we step link_setters_ok link_info_work fit [rule_format] simp: prod.case)
qed

lemma link_from_hdr_eq:
  "link_from_hdr ifm e =
    (link_zero\<lparr>link_flags := ifi_flags ifm, link_flag_mask := - 1, link_index := ifi_index ifm,
       link_type := ifi_type ifm, link_family := ifi_family ifm,
       link_prop_flags := fold (\<lambda>i w. set_prop_flag w i)
         [MNLXT_RT_LINK_FLAGS, MNLXT_RT_LINK_INDEX, MNLXT_RT_LINK_TYPE, MNLXT_RT_LINK_FAMILY] 0\<rparr>, e)"
  by (simp add: link_from_hdr_def mnlxt_rt_link_set_flags_def setter_defs mnlxt_rt_link_set_ptr_def
      link_data_def link_store_def link_zero_def)

lemma link_from_hdr_inv: "link_inv (fst (link_from_hdr ifm e))"
  by (simp add: link_from_hdr_eq link_inv_def info_inv_def link_zero_def)

abbreviation link_loop ::
  "link_build \<Rightarrow> ('b, 'a) ifi_mnl \<Rightarrow> 'b nlmsghdr \<Rightarrow> mnlxt_data_t \<Rightarrow> errno \<Rightarrow> ptr \<Rightarrow> pheap \<Rightarrow> link_state parse option" where
  "link_loop B M n d e q h1 \<equiv>
     attr_loop (link_attr B M) (attrs M (nlmsg_body n)) (fst (link_from_hdr (hdr_read M (nlmsg_body n)) e), d, h1)
       (snd (link_from_hdr (hdr_read M (nlmsg_body n)) e))"

text \<open>The messages that the parser accepts.\<close>

abbreviation link_types :: "u16 list" where
  "link_types \<equiv> [RTM_GETLINK, RTM_NEWLINK, RTM_DELLINK, RTM_SETLINK]"

lemma link_parse_frame:
  assumes ok: "heap_ok h" "data_inv h d ps"
    and F: "memory_lost h ENOMEM \<longrightarrow> F ENOMEM" "nlmsg_type n \<notin> set link_types \<longrightarrow> F EBADMSG"
    and frame: "\<And>h h' x. P h x \<Longrightarrow> strs h' = strs h \<Longrightarrow> arrs h' = arrs h \<Longrightarrow> P h' x"
    and loop: "\<And>q h1. work_inv h d q (PLink link_zero) d h1 \<Longrightarrow>
      parse_to (\<lambda>(r, d1, h2). work_inv h d q (PLink r) d1 h2 \<and> P h2 (PLink r))
        (\<lambda>(r, d1, h2) e2. work_inv h d q (PLink r) d1 h2 \<and> F e2) (link_loop B M n d e q h1)"
  shows "parsed h d ps (nlmsg_type n) F False P (mnlxt_rt_link_data B M (Some n) (Some d) h e)"
  unfolding mnlxt_rt_link_data_def
proof (rule parser_parsed [OF ok F, where cb = "rt_data_handlers ! unat (nlmsg_type n)" and m = RtLink
      and wrap = PLink and z = link_zero and message_new = mnlxt_rt_message_new and free_ob = mnlxt_rt_link_free
      and c = False and err = "''nl_link_new failed''" and err' = "''mnlxt_rt_message_new failed''" and e = e
      and loop = "link_loop B M n d e"], goal_cases)
  case 1
  then have "unat (nlmsg_type n) < 35" "cb_name (rt_data_handlers ! unat (nlmsg_type n)) \<noteq> None"
    by (auto simp: rt_handlers_nth handler_def)
  with 1 show ?case by (auto simp: rt_message_new_found) (auto simp: rt_handlers_nth handler_def)
next
  case (7 h h' x)
  then show ?case by (rule frame)
qed (use loop in \<open>simp_all add: Let_def case_prod_beta payload_parts_def\<close>)

lemma link_work_start:
  assumes "work_inv h d q (PLink link_zero) d h1"
  shows "link_work h d q (fst (link_from_hdr ifm e)) (fst (link_from_hdr ifm e), d, h1)"
proof -
  have "work_inv h d q (PLink (fst (link_from_hdr ifm e))) d h1"
    by (intro work_inv_same_parts [OF assms]) (use assms in \<open>simp_all add: work_inv_def\<close>)
  then show ?thesis by (simp add: link_work_def link_from_hdr_inv)
qed

lemma link_data_parsed:
  assumes fit: "kinds_fit M n" and ok: "heap_ok h" "data_inv h d ps"
  shows "parsed h d ps (nlmsg_type n) (\<lambda>_. True) False
    (\<lambda>h' x. \<exists>l. x = PLink l \<and> link_inv l \<and>
       (\<forall>i \<in> {MNLXT_RT_LINK_TYPE, MNLXT_RT_LINK_FAMILY, MNLXT_RT_LINK_INDEX, MNLXT_RT_LINK_FLAGS}. link_has l i) \<and>
       link_type l = ifi_type (hdr_read M (nlmsg_body n)) \<and> link_family l = ifi_family (hdr_read M (nlmsg_body n)) \<and>
       link_index l = ifi_index (hdr_read M (nlmsg_body n)) \<and> link_flags l = ifi_flags (hdr_read M (nlmsg_body n)))
    (mnlxt_rt_link_data B M (Some n) (Some d) h e)"
proof (rule link_parse_frame [OF ok], goal_cases)
  case (4 q h1)
  let ?ifm = "hdr_read M (nlmsg_body n)"
  show ?case
  proof (rule attr_loop_work [where W = "link_work h d q (fst (link_from_hdr ?ifm e))"])
    show "link_work h d q (fst (link_from_hdr ?ifm e)) (fst (link_from_hdr ?ifm e), d, h1)"
      by (rule link_work_start [OF 4])
  next
    show "parse_all (link_work h d q (fst (link_from_hdr ?ifm e))) (link_attr B M a s e')"
      if "a \<in> set (attrs M (nlmsg_body n))" "link_work h d q (fst (link_from_hdr ?ifm e)) s" for a s e'
      using fit that by (intro link_attr_keeps) (simp_all add: kinds_fit_def)
  qed (auto simp: link_work_def link_keeps_def link_ext_def link_hdr_def link_from_hdr_eq)
qed auto

end
