(* ===== verification/PolicyData.thy ===== *)
theory PolicyData
  imports Codec
begin

text \<open>
  src/xfrm/policy_data.c: comparing IPsec policies, writing a policy into a netlink message, parsing one
  out of a message, and the operations on messages that carry policies. The struct behind the netlink header is
  \<open>struct xfrm_userpolicy_info\<close> or, for the deletion, \<open>struct xfrm_userpolicy_id\<close>: the functions take the
  functions of libmnl once for each of the two.
\<close>

section \<open>Comparison\<close>

text \<open>The \<open>memcmp\<close> of the marks compares two structs without padding; templates are never compared.\<close>

definition mnlxt_xfrm_policy_cmp :: "mnlxt_xfrm_policy_t \<Rightarrow> mnlxt_xfrm_policy_t \<Rightarrow> nat \<Rightarrow> int" where
  "mnlxt_xfrm_policy_cmp a b data =
     (let failed =
        (if data = MNLXT_XFRM_POLICY_FAMILY then policy_family a \<noteq> policy_family b
         else if data = MNLXT_XFRM_POLICY_PROTO then policy_proto a \<noteq> policy_proto b
         else if data = MNLXT_XFRM_POLICY_SRC_PREFIXLEN then site_prefixlen (policy_src a) \<noteq> site_prefixlen (policy_src b)
         else if data = MNLXT_XFRM_POLICY_DST_PREFIXLEN then site_prefixlen (policy_dst a) \<noteq> site_prefixlen (policy_dst b)
         else if data = MNLXT_XFRM_POLICY_SRC_ADDR then 
           \<not> inet_memcmp (inet_size (policy_family a)) (site_addr (policy_src a)) (site_addr (policy_src b))
         else if data = MNLXT_XFRM_POLICY_DST_ADDR then 
           \<not> inet_memcmp (inet_size (policy_family a)) (site_addr (policy_dst a)) (site_addr (policy_dst b))
         else if data = MNLXT_XFRM_POLICY_SRC_PORT then site_port (policy_src a) \<noteq> site_port (policy_src b)
         else if data = MNLXT_XFRM_POLICY_DST_PORT then site_port (policy_dst a) \<noteq> site_port (policy_dst b)
         else if data = MNLXT_XFRM_POLICY_INDEX then policy_index a \<noteq> policy_index b
         else if data = MNLXT_XFRM_POLICY_IFINDEX then policy_if_index a \<noteq> policy_if_index b
         else if data = MNLXT_XFRM_POLICY_PRIO then policy_priority a \<noteq> policy_priority b
         else if data = MNLXT_XFRM_POLICY_ACTION then policy_action a \<noteq> policy_action b
         else if data = MNLXT_XFRM_POLICY_DIR then policy_dir a \<noteq> policy_dir b
         else if data = MNLXT_XFRM_POLICY_MARK then policy_mark a \<noteq> policy_mark b
         else if data = MNLXT_XFRM_POLICY_TMPLS then False
         else False)
      in if failed then int data + 1 else 0)"

definition mnlxt_xfrm_policy_compare ::
  "mnlxt_xfrm_policy_t option \<Rightarrow> mnlxt_xfrm_policy_t option \<Rightarrow> u64 \<Rightarrow> errno \<Rightarrow> int \<times> errno" where
  "mnlxt_xfrm_policy_compare a b flt e =
     (case (a, b) of
        (Some x, Some y) \<Rightarrow>
          (cmp_loop (MNLXT_XFRM_POLICY_MAX) flt (ucast (policy_prop_flags x)) (ucast (policy_prop_flags y)) (mnlxt_xfrm_policy_cmp x y) 0 1, e)
      | _ \<Rightarrow> (- 1, EINVAL))"

definition mnlxt_xfrm_policy_match ::
  "mnlxt_xfrm_policy_t option \<Rightarrow> mnlxt_xfrm_policy_t option \<Rightarrow> errno \<Rightarrow> int \<times> errno" where
  "mnlxt_xfrm_policy_match a m e =
     (case m of None \<Rightarrow> (- 1, EINVAL)
      | Some y \<Rightarrow> mnlxt_xfrm_policy_compare a m (ucast (policy_prop_flags y)) e)"

section \<open>Messages that carry a policy\<close>

definition mnlxt_xfrm_policy_get :: "mnlxt_message_t option \<Rightarrow> ptr option" where
  "mnlxt_xfrm_policy_get message =
     (case message of None \<Rightarrow> None
      | Some m \<Rightarrow> if msg_type m \<in> {XFRM_MSG_NEWPOLICY, XFRM_MSG_UPDPOLICY, XFRM_MSG_GETPOLICY, XFRM_MSG_DELPOLICY} then msg_payload m else None)"

definition mnlxt_xfrm_policy_remove :: "ptr option \<Rightarrow> pheap \<Rightarrow> (ptr option \<times> pheap) option" where
  "mnlxt_xfrm_policy_remove message h = take_payload mnlxt_xfrm_policy_get message h"

section \<open>The structs of linux/xfrm.h\<close>

record xfrm_selector =
  sel_daddr :: mnlxt_inet_addr_t
  sel_saddr :: mnlxt_inet_addr_t
  sel_dport :: u16
  sel_dport_mask :: u16
  sel_sport :: u16
  sel_sport_mask :: u16
  sel_family :: u16
  sel_prefixlen_d :: u8
  sel_prefixlen_s :: u8
  sel_proto :: u8
  sel_ifindex :: u32

text \<open>The members of the two structs that the code uses.\<close>

record xfrm_userpolicy_info =
  xp_sel :: xfrm_selector
  xp_priority :: u32
  xp_index :: u32
  xp_dir :: u8
  xp_action :: u8

record xfrm_userpolicy_id =
  xpid_sel :: xfrm_selector
  xpid_index :: u32
  xpid_dir :: u8

record xfrm_user_tmpl =
  ut_daddr :: mnlxt_inet_addr_t
  ut_spi :: u32
  ut_proto :: u8
  ut_family :: u16
  ut_saddr :: mnlxt_inet_addr_t
  ut_reqid :: u32
  ut_mode :: u8
  ut_share :: u8

definition selector_zero :: xfrm_selector where
  "selector_zero = \<lparr>sel_daddr = inet_zero, sel_saddr = inet_zero, sel_dport = 0, sel_dport_mask = 0,
     sel_sport = 0, sel_sport_mask = 0, sel_family = 0, sel_prefixlen_d = 0, sel_prefixlen_s = 0,
     sel_proto = 0, sel_ifindex = 0\<rparr>"

definition userpolicy_info_zero :: xfrm_userpolicy_info where
  "userpolicy_info_zero = \<lparr>xp_sel = selector_zero, xp_priority = 0, xp_index = 0, xp_dir = 0, xp_action = 0\<rparr>"

definition userpolicy_id_zero :: xfrm_userpolicy_id where
  "userpolicy_id_zero = \<lparr>xpid_sel = selector_zero, xpid_index = 0, xpid_dir = 0\<rparr>"

abbreviation XFRMA_TMPL :: nat where "XFRMA_TMPL \<equiv> 5"
abbreviation XFRMA_POLICY_TYPE :: nat where "XFRMA_POLICY_TYPE \<equiv> 16"
abbreviation XFRMA_MARK :: nat where "XFRMA_MARK \<equiv> 21"

text \<open>The largest attribute type that the kernel headers of the build know.\<close>

abbreviation XFRMA_MAX :: nat where "XFRMA_MAX \<equiv> 31"

abbreviation XFRM_POLICY_TYPE_MAIN :: u8 where "XFRM_POLICY_TYPE_MAIN \<equiv> 0"

text \<open>\<open>sizeof(struct xfrm_user_tmpl)\<close>.\<close>

abbreviation tmpl_size :: nat where "tmpl_size \<equiv> 64"

type_synonym ('b, 'a) xpinfo_mnl = "(xfrm_userpolicy_info, 'b, 'a) libmnl"
type_synonym ('b, 'a) xpid_mnl = "(xfrm_userpolicy_id, 'b, 'a) libmnl"

text \<open>\<open>htons\<close> and \<open>ntohs\<close> on the little endian machine of the model.\<close>

definition htons :: "u16 \<Rightarrow> u16" where
  "htons x = push_bit 8 x OR drop_bit 8 x"

definition ntohs :: "u16 \<Rightarrow> u16" where
  "ntohs x = push_bit 8 x OR drop_bit 8 x"

text \<open>\<open>memcpy(&dst, &src, n)\<close> of addresses.\<close>

definition copy_addr :: "nat \<Rightarrow> mnlxt_inet_addr_t \<Rightarrow> mnlxt_inet_addr_t \<Rightarrow> mnlxt_inet_addr_t" where
  "copy_addr n src dst = take n src @ drop n dst"

section \<open>Writing a message\<close>

text \<open>
  The pointers into the struct behind the header are its member updates \<open>sel\<close>, \<open>index\<close> and
  \<open>dir\<close>; \<open>xpinfo\<close> is NULL for a deletion.
\<close>

definition policy_put_prop ::
  "('h, 'b, 'a) libmnl \<Rightarrow> ((xfrm_selector \<Rightarrow> xfrm_selector) \<Rightarrow> 'h \<Rightarrow> 'h) \<Rightarrow> ((u32 \<Rightarrow> u32) \<Rightarrow> 'h \<Rightarrow> 'h) \<Rightarrow>
     ((u8 \<Rightarrow> u8) \<Rightarrow> 'h \<Rightarrow> 'h) \<Rightarrow> ((xfrm_userpolicy_info \<Rightarrow> xfrm_userpolicy_info) \<Rightarrow> 'h \<Rightarrow> 'h) option \<Rightarrow>
     mnlxt_xfrm_policy_t \<Rightarrow> nat \<Rightarrow> nat \<Rightarrow> 'b \<Rightarrow> 'b" where
  "policy_put_prop M sel index dir xpinfo policy addr_size i b =
     (if i = MNLXT_XFRM_POLICY_FAMILY then hdr_upd M (sel (\<lambda>r. r\<lparr>sel_family := ucast (policy_family policy)\<rparr>)) b
      else if i = MNLXT_XFRM_POLICY_PROTO then hdr_upd M (sel (\<lambda>r. r\<lparr>sel_proto := policy_proto policy\<rparr>)) b
      else if i = MNLXT_XFRM_POLICY_SRC_PREFIXLEN then hdr_upd M (sel (\<lambda>r. r\<lparr>sel_prefixlen_s := site_prefixlen (policy_src policy)\<rparr>)) b
      else if i = MNLXT_XFRM_POLICY_DST_PREFIXLEN then hdr_upd M (sel (\<lambda>r. r\<lparr>sel_prefixlen_d := site_prefixlen (policy_dst policy)\<rparr>)) b
      else if i = MNLXT_XFRM_POLICY_SRC_ADDR then
        hdr_upd M (sel (\<lambda>r. r\<lparr>sel_saddr := copy_addr addr_size (site_addr (policy_src policy)) (sel_saddr r)\<rparr>)) b
      else if i = MNLXT_XFRM_POLICY_DST_ADDR then
        hdr_upd M (sel (\<lambda>r. r\<lparr>sel_daddr := copy_addr addr_size (site_addr (policy_dst policy)) (sel_daddr r)\<rparr>)) b
      else if i = MNLXT_XFRM_POLICY_SRC_PORT then
        hdr_upd M (sel (\<lambda>r. r\<lparr>sel_sport := htons (site_port (policy_src policy)), sel_sport_mask := - 1\<rparr>)) b
      else if i = MNLXT_XFRM_POLICY_DST_PORT then
        hdr_upd M (sel (\<lambda>r. r\<lparr>sel_dport := htons (site_port (policy_dst policy)), sel_dport_mask := - 1\<rparr>)) b
      else if i = MNLXT_XFRM_POLICY_INDEX then hdr_upd M (index (\<lambda>_. policy_index policy)) b
      else if i = MNLXT_XFRM_POLICY_IFINDEX then hdr_upd M (sel (\<lambda>r. r\<lparr>sel_ifindex := policy_if_index policy\<rparr>)) b
      else if i = MNLXT_XFRM_POLICY_PRIO then
        (case xpinfo of None \<Rightarrow> b | Some xp \<Rightarrow> hdr_upd M (xp (\<lambda>r. r\<lparr>xp_priority := policy_priority policy\<rparr>)) b)
      else if i = MNLXT_XFRM_POLICY_ACTION then
        (case xpinfo of None \<Rightarrow> b | Some xp \<Rightarrow> hdr_upd M (xp (\<lambda>r. r\<lparr>xp_action := policy_action policy\<rparr>)) b)
      else if i = MNLXT_XFRM_POLICY_DIR then hdr_upd M (dir (\<lambda>_. policy_dir policy)) b
      else if i = MNLXT_XFRM_POLICY_MARK then
        attr_put M XFRMA_MARK (le32 (mark_value (policy_mark policy)) @ le32 (mark_mask (policy_mark policy))) b
      else b)"

definition mnlxt_xfrm_policy_put ::
  "('b, 'a) xpinfo_mnl \<Rightarrow> ('b, 'a) xpid_mnl \<Rightarrow> 'b nlmsghdr option \<Rightarrow> mnlxt_xfrm_policy_t option \<Rightarrow> u16 \<Rightarrow> errno \<Rightarrow>
     int \<times> 'b nlmsghdr option \<times> errno" where
  "mnlxt_xfrm_policy_put MI MD nlh policy nlmsg_ty e =
     (case (policy, nlh) of
        (Some p, Some n) \<Rightarrow>
          (let loop = (\<lambda>f b. put_loop (MNLXT_XFRM_POLICY_MAX) (policy_prop_flags p) f 0 1 b);
               addr_size = inet_size (policy_family p)
           in if nlmsg_type n \<in> {XFRM_MSG_GETPOLICY, XFRM_MSG_NEWPOLICY, XFRM_MSG_UPDPOLICY} then
                (0, Some (n\<lparr>nlmsg_body :=
                   loop (policy_put_prop MI xp_sel_update xp_index_update xp_dir_update (Some (\<lambda>f. f)) p addr_size)
                     (put_extra_header MI (nlmsg_body n))\<rparr>), e)
              else if nlmsg_type n = XFRM_MSG_DELPOLICY then
                (0, Some (n\<lparr>nlmsg_body :=
                   loop (policy_put_prop MD xpid_sel_update xpid_index_update xpid_dir_update None p addr_size)
                     (put_extra_header MD (nlmsg_body n))\<rparr>), e)
              else (- 1, nlh, EINVAL))
      | _ \<Rightarrow> (- 1, nlh, EINVAL))"

section \<open>Parsing a message\<close>

type_synonym policy_state = "(mnlxt_xfrm_policy_t, mnlxt_xfrm_tmpl_t, payload) pstate"

text \<open>The setters that \<open>mnlxt_xfrm_policy_selector_set\<close> calls, their results ignored.\<close>

definition selector_setters ::
  "xfrm_selector \<Rightarrow> (mnlxt_xfrm_policy_t option \<Rightarrow> errno \<Rightarrow> int \<times> mnlxt_xfrm_policy_t option \<times> errno) list" where
  "selector_setters s =
     (let fam8 = ucast (sel_family s);
          family = (if AF_UNSPEC = fam8 then AF_INET else fam8)
      in (if sel_proto s \<noteq> 0 then [\<lambda>p. mnlxt_xfrm_policy_set_proto p (sel_proto s)] else []) @
         (if sel_dport_mask s \<noteq> 0 then [\<lambda>p. mnlxt_xfrm_policy_set_dst_port p (ntohs (sel_dport s))] else []) @
         (if sel_sport_mask s \<noteq> 0 then [\<lambda>p. mnlxt_xfrm_policy_set_src_port p (ntohs (sel_sport s))] else []) @
         [\<lambda>p. mnlxt_xfrm_policy_set_src_addr p family (Some (sel_saddr s)),
          \<lambda>p. mnlxt_xfrm_policy_set_src_prefixlen p (sel_prefixlen_s s),
          \<lambda>p. mnlxt_xfrm_policy_set_dst_addr p family (Some (sel_daddr s)),
          \<lambda>p. mnlxt_xfrm_policy_set_dst_prefixlen p (sel_prefixlen_d s)] @
         (if sel_ifindex s \<noteq> 0 then [\<lambda>p. mnlxt_xfrm_policy_set_ifindex p (sel_ifindex s)] else []))"

definition mnlxt_xfrm_policy_selector_set ::
  "mnlxt_xfrm_policy_t option \<Rightarrow> xfrm_selector option \<Rightarrow> errno \<Rightarrow> mnlxt_xfrm_policy_t option \<times> errno" where
  "mnlxt_xfrm_policy_selector_set policy sel e =
     (case (policy, sel) of
        (Some p, Some s) \<Rightarrow> (case run_setters (selector_setters s) p e of (p', e') \<Rightarrow> (Some p', e'))
      | _ \<Rightarrow> (policy, e))"

text \<open>One element of the array that the attribute's payload holds.\<close>

definition payload_tmpl :: "('h, 'b, 'a) libmnl \<Rightarrow> 'a \<Rightarrow> nat \<Rightarrow> xfrm_user_tmpl" where
  "payload_tmpl M a k =
     (let at = (\<lambda>i. attr_get_payload M a (k * tmpl_size + i)); u32 = (\<lambda>i. payload_u32 M a (k * tmpl_size + i))
      in \<lparr>ut_daddr = map at [0..<16], ut_spi = u32 16, ut_proto = at 20,
          ut_family = ucast (at 24) OR push_bit 8 (ucast (at 25)), ut_saddr = map at [28..<44],
          ut_reqid = u32 44, ut_mode = at 48, ut_share = at 49\<rparr>)"

text \<open>The assignments to a zeroed element of the new array.\<close>

definition tmpl_conn :: "xfrm_user_tmpl \<Rightarrow> mnlxt_xfrm_tmpl_t" where
  "tmpl_conn t =
     (let known = ucast AF_INET = ut_family t \<or> ucast AF_INET6 = ut_family t
      in \<lparr>tmpl_family = ucast (ut_family t), tmpl_proto = ut_proto t, tmpl_mode = ut_mode t, tmpl_share = ut_share t,
          tmpl_reqid = ut_reqid t, tmpl_spi = ut_spi t,
          tmpl_src = (if known then ut_saddr t else inet_zero),
          tmpl_dst = (if known then ut_daddr t else inet_zero)\<rparr>)"

text \<open>The pointer to the old array is overwritten, the array is not freed.\<close>

definition mnlxt_xfrm_policy_tmpl ::
  "mnlxt_xfrm_policy_t option \<Rightarrow> u16 \<Rightarrow> (nat \<Rightarrow> xfrm_user_tmpl) option \<Rightarrow> pheap \<Rightarrow> errno \<Rightarrow>
     int \<times> mnlxt_xfrm_policy_t option \<times> pheap \<times> errno" where
  "mnlxt_xfrm_policy_tmpl policy num tmpls h e =
     (case (policy, tmpls) of
        (Some p, Some ts) \<Rightarrow>
          if 0 < num then
            (case new_arr (map (\<lambda>k. tmpl_conn (ts k)) [0..<unat num]) h of
               (None, h') \<Rightarrow> (- 1, policy, h', ENOMEM)
             | (Some conns, h') \<Rightarrow>
                 (0, Some (p\<lparr>policy_tmpls := Some conns, policy_tmpl_num := num,
                    policy_prop_flags := set_prop_flag (policy_prop_flags p) MNLXT_XFRM_POLICY_TMPLS\<rparr>), h', e))
          else (- 1, policy, h, e)
      | _ \<Rightarrow> (- 1, policy, h, e))"

definition policy_attr ::
  "('h, 'b, 'a) libmnl \<Rightarrow> 'a \<Rightarrow> policy_state \<Rightarrow> errno \<Rightarrow> policy_state parse option" where
  "policy_attr M a s e =
     (let type = attr_type M a; policy = Some (fst s); h = snd (snd s) in
      case attr_type_valid M a XFRMA_MAX e of (v, e0) \<Rightarrow>
        if v < 0 then Some (Next s e0)
        else if type = XFRMA_TMPL then
          (let attr_len = attr_get_len M a
           in if attr_len mod of_nat tmpl_size \<noteq> 0 then fail_with ''XFRMA_TMPL validation failed'' s e0
              else store_set_h (Some (mnlxt_xfrm_policy_tmpl policy (attr_len div of_nat tmpl_size)
                     (Some (payload_tmpl M a)) h e0)) ''mnlxt_xfrm_policy_tmpl failed'' s)
        else if type = XFRMA_POLICY_TYPE then
          on_valid (attr_validate2 M a MNL_TYPE_BINARY 6 e0) ''XFRMA_POLICY_TYPE validation failed'' s
            (\<lambda>e1. if XFRM_POLICY_TYPE_MAIN \<noteq> attr_get_payload M a 0 then Some (Fail s e1) else Some (Next s e1))
        else if type = XFRMA_MARK then
          on_valid (attr_validate2 M a MNL_TYPE_BINARY 8 e0) ''XFRMA_MARK validation failed'' s
            (\<lambda>e1. store_set (mnlxt_xfrm_policy_set_mark policy (payload_u32 M a 0) (payload_u32 M a 4) e1)
               ''mnlxt_xfrm_policy_set_mark failed'' s)
        else Some (Next s e0))"

text \<open>The setters that run before the attributes, their results ignored.\<close>

definition policy_from_info :: "xfrm_userpolicy_info \<Rightarrow> errno \<Rightarrow> mnlxt_xfrm_policy_t \<times> errno" where
  "policy_from_info xp e =
     (case mnlxt_xfrm_policy_selector_set (Some policy_zero) (Some (xp_sel xp)) e of (p, e1) \<Rightarrow>
        run_setters
          [\<lambda>p. mnlxt_xfrm_policy_set_index p (xp_index xp),
           \<lambda>p. mnlxt_xfrm_policy_set_dir p (xp_dir xp),
           \<lambda>p. mnlxt_xfrm_policy_set_action p (xp_action xp),
           \<lambda>p. mnlxt_xfrm_policy_set_priority p (xp_priority xp)] (the p) e1)"

definition policy_from_id :: "xfrm_userpolicy_id \<Rightarrow> errno \<Rightarrow> mnlxt_xfrm_policy_t \<times> errno" where
  "policy_from_id xpid e =
     (case mnlxt_xfrm_policy_selector_set (Some policy_zero) (Some (xpid_sel xpid)) e of (p, e1) \<Rightarrow>
        run_setters
          [\<lambda>p. mnlxt_xfrm_policy_set_index p (xpid_index xpid),
           \<lambda>p. mnlxt_xfrm_policy_set_dir p (xpid_dir xpid)] (the p) e1)"

definition mnlxt_xfrm_policy_data ::
  "('b, 'a) xpinfo_mnl \<Rightarrow> ('b, 'a) xpid_mnl \<Rightarrow> 'b nlmsghdr option \<Rightarrow> mnlxt_data_t option \<Rightarrow> pheap \<Rightarrow> errno \<Rightarrow>
     (int \<times> mnlxt_data_t option \<times> pheap \<times> errno) option" where
  "mnlxt_xfrm_policy_data MI MD nlh data h e =
     parse_start [XFRM_MSG_GETPOLICY, XFRM_MSG_NEWPOLICY, XFRM_MSG_UPDPOLICY, XFRM_MSG_DELPOLICY] nlh data h
       (\<lambda>n d.
          parse_new (PPolicy policy_zero) ''mnlxt_xfrm_policy_new failed'' d h
            (\<lambda>q h1.
               Option.bind
                 (if nlmsg_type n = XFRM_MSG_DELPOLICY then
                    (case policy_from_id (hdr_read MD (nlmsg_body n)) e of (p, e1) \<Rightarrow>
                       attr_loop (policy_attr MD) (attrs MD (nlmsg_body n)) (p, d, h1) e1)
                  else
                    (case policy_from_info (hdr_read MI (nlmsg_body n)) e of (p, e1) \<Rightarrow>
                       attr_loop (policy_attr MI) (attrs MI (nlmsg_body n)) (p, d, h1) e1))
                 (parse_end mnlxt_xfrm_message_new mnlxt_xfrm_policy_free PPolicy
                    ''mnlxt_xfrm_message_new failed'' (nlmsg_type n) q)))"

section \<open>Iterating, dumping and requesting\<close>

definition mnlxt_xfrm_policy_dump ::
  "('w, 'f, 'b) netio \<Rightarrow> 'b callbacks \<Rightarrow> mnlxt_data_t option \<Rightarrow> pheap \<Rightarrow> 'w \<Rightarrow> errno \<Rightarrow>
     (int \<times> mnlxt_data_t option \<times> pheap \<times> 'w \<times> errno) option" where
  "mnlxt_xfrm_policy_dump io cbs data h w e = mnlxt_xfrm_data_dump io cbs data XFRM_MSG_GETPOLICY h w e"

definition mnlxt_xfrm_policy_iterate ::
  "mnlxt_data_t option \<Rightarrow> ptr option option \<Rightarrow> pheap \<Rightarrow> errno \<Rightarrow>
     (ptr option \<times> ptr option option \<times> errno) option" where
  "mnlxt_xfrm_policy_iterate data iterator h e =
     (case iterator of None \<Rightarrow> Some (None, None, e)
      | Some it \<Rightarrow>
          map_option (\<lambda>(pl, it', e'). (pl, Some it', e'))
            (iterate_loop (\<lambda>m. mnlxt_xfrm_policy_get (Some m)) data it h e))"

text \<open>The caller's pointer is cleared when the message has taken the object over.\<close>

definition mnlxt_xfrm_policy_message ::
  "ptr option option \<Rightarrow> u16 \<Rightarrow> u16 \<Rightarrow> pheap \<Rightarrow> errno \<Rightarrow>
     (ptr option \<times> ptr option option \<times> pheap \<times> errno) option" where
  "mnlxt_xfrm_policy_message ob type flags h e =
     (case ob of
        Some (Some q) \<Rightarrow>
          if type \<notin> {XFRM_MSG_NEWPOLICY, XFRM_MSG_UPDPOLICY, XFRM_MSG_DELPOLICY} then Some (None, ob, h, EINVAL)
          else
            map_option (\<lambda>(msg, h', e'). (msg, if msg = None then ob else Some None, h', e'))
              (mnlxt_xfrm_message_new type flags (Some q) h e)
      | _ \<Rightarrow> Some (None, ob, h, EINVAL))"

definition mnlxt_xfrm_policy_request ::
  "('w, 'f, 'b) netio \<Rightarrow> 'b callbacks \<Rightarrow> ptr option \<Rightarrow> u16 \<Rightarrow> u16 \<Rightarrow> pheap \<Rightarrow> 'w \<Rightarrow> errno \<Rightarrow>
     (int \<times> pheap \<times> 'w \<times> errno) option" where
  "mnlxt_xfrm_policy_request io cbs ob type flags h w e =
     object_request
       (\<lambda>p h e. map_option (\<lambda>(msg, _, h', e'). (msg, h', e')) (mnlxt_xfrm_policy_message (Some p) type flags h e))
       mnlxt_xfrm_policy_remove (mnlxt_xfrm_message_request io cbs) ob h w e"

section \<open>What comparison decides\<close>

interpretation policy_compare: prop_match "\<lambda>_. True" mnlxt_xfrm_policy_compare mnlxt_xfrm_policy_cmp policy_prop_flags
  MNLXT_XFRM_POLICY_MAX mnlxt_xfrm_policy_match
  by unfold_locales (auto simp: mnlxt_xfrm_policy_compare_def mnlxt_xfrm_policy_match_def split: option.splits)

lemma policy_cmp_refl: "mnlxt_xfrm_policy_cmp r r i = 0"
  by (simp add: mnlxt_xfrm_policy_cmp_def)

lemma policy_cmp_sym:
  "policy_family a = policy_family b \<Longrightarrow> mnlxt_xfrm_policy_cmp a b i = 0 \<Longrightarrow> mnlxt_xfrm_policy_cmp b a i = 0"
  unfolding mnlxt_xfrm_policy_cmp_def Let_def
  by (auto split: if_splits dest: inet_memcmp_sym)

section \<open>The policy that the struct behind the header describes\<close>

lemma ntohs_htons [simp]: "ntohs (htons x) = x"
proof (rule bit_word_eqI)
  fix n assume n: "n < LENGTH(16)"
  have b: "bit (htons y) k \<longleftrightarrow> k < 16 \<and> (if k < 8 then bit y (k + 8) else bit y (k - 8))" for y k
    using bit_imp_le_length [of y k] bit_imp_le_length [of y "k + 8"] bit_imp_le_length [of y "k - 8"]
    by (auto simp: htons_def bit_or_iff bit_push_bit_iff bit_drop_bit_eq add.commute)
  have "ntohs (htons x) = htons (htons x)" by (simp add: ntohs_def htons_def)
  with n show "bit (ntohs (htons x)) n = bit x n"
    by (cases "n < 8") (simp_all add: b not_less less_diff_conv2)
qed

lemma run_setters_reach:
  assumes "policy_reach p" "\<And>f p e rc p' e'. f \<in> set fs \<Longrightarrow> f (Some p) e = (rc, Some p', e') \<Longrightarrow> policy_api p p'"
  shows "policy_reach (fst (run_setters fs p e))"
  using assms
proof (induction fs arbitrary: p e)
  case (Cons f fs)
  obtain rc r e1 where f: "f (Some p) e = (rc, r, e1)" by (cases "f (Some p) e")
  have "policy_reach (case r of None \<Rightarrow> p | Some x \<Rightarrow> x)"
  proof (cases r)
    case None
    with Cons.prems(1) show ?thesis by simp
  next
    case (Some p')
    from Cons.prems(2) [of f p e rc p' e1] f Some have "policy_api p p'" by simp
    with Cons.prems(1) Some show ?thesis by (auto intro: policy_reach.call)
  qed
  then have "policy_reach (fst (run_setters fs (case r of None \<Rightarrow> p | Some x \<Rightarrow> x) e1))"
    by (rule Cons.IH) (use Cons.prems(2) in \<open>metis list.set_intros(2)\<close>)
  then show ?case by (simp add: f)
qed simp

abbreviation sel_ok :: "xfrm_selector \<Rightarrow> bool" where
  "sel_ok s \<equiv> inet_ok (sel_saddr s) \<and> inet_ok (sel_daddr s)"

lemma selector_set_reach:
  assumes "sel_ok s" "policy_reach p"
  shows "policy_reach (the (fst (mnlxt_xfrm_policy_selector_set (Some p) (Some s) e)))"
proof -
  have "policy_reach (fst (run_setters (selector_setters s) p e))"
    using assms
    by (intro run_setters_reach) (auto simp: selector_setters_def Let_def split: if_splits intro: policy_api.intros)
  then show ?thesis
    by (simp add: mnlxt_xfrm_policy_selector_set_def case_prod_beta)
qed

lemma policy_from_info_reach: "sel_ok (xp_sel xp) \<Longrightarrow> policy_reach (fst (policy_from_info xp e))"
  unfolding policy_from_info_def case_prod_beta
  by (rule run_setters_reach [OF selector_set_reach [OF _ policy_reach.new]])
    (auto intro: policy_api.intros)

lemma policy_from_id_reach: "sel_ok (xpid_sel xpid) \<Longrightarrow> policy_reach (fst (policy_from_id xpid e))"
  unfolding policy_from_id_def case_prod_beta
  by (rule run_setters_reach [OF selector_set_reach [OF _ policy_reach.new]])
    (auto intro: policy_api.intros)

lemma policy_api_tmpls:
  "policy_api p p' \<Longrightarrow> policy_tmpls p' = policy_tmpls p \<and> policy_tmpl_num p' = policy_tmpl_num p"
proof (induction rule: policy_api.induct)
  case (family p f e rc p' e')
  then show ?case by (auto simp: mnlxt_xfrm_policy_set_family_def split: if_splits)
next
  case (src_addr a p f e rc p' e')
  then show ?case
    by (auto simp: mnlxt_xfrm_policy_set_src_addr_def mnlxt_xfrm_policy_set_family_def split: if_splits)
next
  case (dst_addr a p f e rc p' e')
  then show ?case
    by (auto simp: mnlxt_xfrm_policy_set_dst_addr_def mnlxt_xfrm_policy_set_family_def split: if_splits)
next
  case (mark p u k e rc p' e')
  then show ?case by (simp add: policy_set_mark_fails)
qed (auto simp: mnlxt_xfrm_policy_set_proto_def mnlxt_xfrm_policy_set_src_port_def mnlxt_xfrm_policy_set_dst_port_def
    mnlxt_xfrm_policy_set_src_prefixlen_def mnlxt_xfrm_policy_set_dst_prefixlen_def
    mnlxt_xfrm_policy_set_ifindex_def mnlxt_xfrm_policy_set_index_def mnlxt_xfrm_policy_set_u8_def
    mnlxt_xfrm_policy_set_u32_def mnlxt_xfrm_policy_set_ptr_def mnlxt_xfrm_policy_set_action_def
    mnlxt_xfrm_policy_set_dir_def mnlxt_xfrm_policy_set_priority_def policy_store_def split: if_splits)

lemma policy_reach_tmpls: "policy_reach p \<Longrightarrow> policy_tmpls p = None \<and> policy_tmpl_num p = 0"
  by (induction rule: policy_reach.induct) (auto simp: policy_zero_def dest: policy_api_tmpls)

section \<open>Parsing appends a well formed policy or changes nothing\<close>

text \<open>The policy without its templates.\<close>

definition policy_plain :: "mnlxt_xfrm_policy_t \<Rightarrow> mnlxt_xfrm_policy_t" where
  "policy_plain p = p\<lparr>policy_tmpls := None, policy_tmpl_num := 0,
     policy_prop_flags := unset_prop_flag (policy_prop_flags p) MNLXT_XFRM_POLICY_TMPLS\<rparr>"

lemma unset_prop_flag_idem: "\<not> bit w i \<Longrightarrow> unset_prop_flag w i = (w :: 'w::len word)"
  by (rule bit_word_eqI) auto

lemma policy_plain_tmpls [simp]:
  "policy_plain (p\<lparr>policy_tmpls := q, policy_tmpl_num := n,
     policy_prop_flags := set_prop_flag (policy_prop_flags p) MNLXT_XFRM_POLICY_TMPLS\<rparr>) = policy_plain p"
proof -
  have "unset_prop_flag (set_prop_flag (policy_prop_flags p) MNLXT_XFRM_POLICY_TMPLS) MNLXT_XFRM_POLICY_TMPLS =
      unset_prop_flag (policy_prop_flags p) MNLXT_XFRM_POLICY_TMPLS"
    by (rule bit_word_eqI) auto
  then show ?thesis by (simp add: policy_plain_def)
qed

lemma policy_reach_plain: "policy_reach p \<Longrightarrow> policy_plain p = p"
  using policy_reach_tmpls [of p] policy_reach_inv_holds [of p]
  by (simp add: policy_plain_def policy_inv_def unset_prop_flag_idem)

definition policy_work ::
  "pheap \<Rightarrow> mnlxt_data_t \<Rightarrow> ptr \<Rightarrow> mnlxt_xfrm_policy_t \<Rightarrow> policy_state \<Rightarrow> bool" where
  "policy_work h0 d0 q p0 s \<longleftrightarrow>
     (case s of (p, d, h) \<Rightarrow> work_inv h0 d0 q (PPolicy p) d h \<and> policy_tmpls_ok h p \<and> policy_plain p = p0)"

definition policy_bare :: "policy_state \<Rightarrow> bool" where
  "policy_bare s \<longleftrightarrow> policy_tmpls (fst s) = None"

lemma policy_work_error [simp]:
  "policy_work h0 d0 q p0 (p, d\<lparr>data_error_str := m\<rparr>, h) = policy_work h0 d0 q p0 (p, d, h)"
  "policy_bare (p, d\<lparr>data_error_str := m\<rparr>, h) = policy_bare (p, d, h)"
  by (simp_all add: policy_work_def policy_bare_def)

text \<open>The array of the first templates becomes a part of the policy.\<close>

lemma policy_work_new_arr:
  assumes w: "policy_work h0 d0 a p0 (p, d, h)" and bare: "policy_tmpls p = None"
    and n: "new_arr xs h = (Some q, h')" and len: "length xs = unat num"
  shows "policy_work h0 d0 a p0 (p\<lparr>policy_tmpls := Some q, policy_tmpl_num := num,
    policy_prop_flags := set_prop_flag (policy_prop_flags p) MNLXT_XFRM_POLICY_TMPLS\<rparr>, d, h')"
proof -
  from w have wi: "work_inv h0 d0 a (PPolicy p) d h" by (simp add: policy_work_def)
  then have ok: "heap_ok h" and eq: "arrs h = arrs h0" "strs h = strs h0"
    using bare by (simp_all add: work_inv_def payload_parts_def restrict_map_def)
  from n have h': "h' = h\<lparr>brk := Suc (brk h), arrs := (arrs h)(q \<mapsto> xs)\<rparr>" "q = brk h"
    by (auto simp: heap_news split: if_splits)
  have fresh: "arrs h q = None" "strs h q = None" using heap_ok_fresh [OF ok] h'(2) by simp_all
  have okh: "heap_ok h'" using new_arr_ok [OF ok, of xs] n by simp
  have none: "(strs h) |` (- {q}) = strs h" "(arrs h) |` (- {q}) = arrs h"
    using fresh by (auto intro!: restrict_none)
  show ?thesis
    using w wi okh eq fresh none len
    by (simp add: policy_work_def work_inv_def h'(1) payload_parts_def parts_live_def policy_tmpls_ok_def)
qed

lemma policy_work_no_mem:
  assumes "policy_work h0 d0 a p0 (p, d, h)" "new_arr xs h = (None, h')"
  shows "policy_work h0 d0 a p0 (p, d, h')"
proof -
  from assms(2) have h': "h' = h\<lparr>brk := Suc (brk h)\<rparr>" by (auto simp: heap_news split: if_splits)
  from assms(1) have wi: "work_inv h0 d0 a (PPolicy p) d h" by (simp add: policy_work_def)
  then have "heap_ok h'" by (auto simp: work_inv_def h' heap_ok_def less_Suc_eq)
  then have "work_inv h0 d0 a (PPolicy p) d h'" by (intro work_inv_same_parts [OF wi]) (simp_all add: h')
  with assms(1) show ?thesis by (simp add: policy_work_def policy_tmpls_ok_def h')
qed

lemma policy_tmpl_step:
  assumes "policy_work h0 d0 a p0 (p, d, h)" "policy_tmpls p = None"
  shows "parse_all (policy_work h0 d0 a p0)
    (store_set_h (Some (mnlxt_xfrm_policy_tmpl (Some p) num (Some ts) h e)) msg (p, d, h))"
proof (cases "0 < num")
  case True
  let ?xs = "map (\<lambda>k. tmpl_conn (ts k)) [0..<unat num]"
  obtain r h' where n: "new_arr ?xs h = (r, h')" by (cases "new_arr ?xs h")
  show ?thesis
  proof (cases r)
    case None
    with policy_work_no_mem [OF assms(1)] n have "policy_work h0 d0 a p0 (p, d, h')" by blast
    then show ?thesis using n None True by (intro store_set_h_keeps) (simp add: mnlxt_xfrm_policy_tmpl_def)
  next
    case (Some q)
    with policy_work_new_arr [OF assms, of ?xs q h' num] n show ?thesis
      using True by (intro store_set_h_keeps) (simp add: mnlxt_xfrm_policy_tmpl_def)
  qed
next
  case False
  with assms(1) show ?thesis by (intro store_set_h_keeps) (simp add: mnlxt_xfrm_policy_tmpl_def)
qed

abbreviation is_tmpl :: "('h, 'b, 'a) libmnl \<Rightarrow> 'a \<Rightarrow> bool" where
  "is_tmpl M a \<equiv> attr_type M a = XFRMA_TMPL"

lemma policy_attr_plain:
  assumes "\<not> is_tmpl M a" "P s" "\<And>p d h m. s = (p, d, h) \<Longrightarrow> P (p, d\<lparr>data_error_str := m\<rparr>, h)"
  shows "parse_all P (policy_attr M a s e)"
proof -
  obtain p d h where s: "s = (p, d, h)" by (cases s)
  have we: "P (p, d\<lparr>data_error_str := Some m\<rparr>, h)" for m using assms(3) [OF s] .
  have "parse_all P (store_set (mnlxt_xfrm_policy_set_mark (Some p) v m e1) msg (p, d, h))" for v m e1 msg
    by (simp add: policy_set_mark_fails store_set_def fail_with_def we)
  then show ?thesis
    using assms(1,2) unfolding s policy_attr_def Let_def fst_conv
    by (cases "attr_type_valid M a XFRMA_MAX e") (auto intro!: on_valid_all we)
qed

lemma policy_attr_tmpl:
  assumes "policy_work h0 d0 q p0 s" "policy_bare s"
  shows "parse_all (policy_work h0 d0 q p0) (policy_attr M a s e)"
proof -
  obtain p d h where s: "s = (p, d, h)" by (cases s)
  note w = assms [unfolded s policy_bare_def fst_conv]
  then have we: "policy_work h0 d0 q p0 (p, d\<lparr>data_error_str := Some m\<rparr>, h)" for m by simp
  have mark: "parse_all (policy_work h0 d0 q p0)
      (store_set (mnlxt_xfrm_policy_set_mark (Some p) v m e1) msg (p, d, h))" for v m e1 msg
    using w by (simp add: policy_set_mark_fails store_set_def fail_with_def)
  show ?thesis
    using w unfolding s policy_attr_def Let_def fst_conv snd_conv
    by (cases "attr_type_valid M a XFRMA_MAX e")
      (auto intro!: on_valid_all fail_with_all we mark policy_tmpl_step)
qed

lemma policy_attr_loop:
  assumes "length (filter (is_tmpl M) as) \<le> 1" "policy_work h0 d0 q p0 s" "policy_bare s"
  shows "parse_all (policy_work h0 d0 q p0) (attr_loop (policy_attr M) as s e)"
proof (rule attr_loop_once [where once = "is_tmpl M" and A = "\<lambda>s. policy_work h0 d0 q p0 s \<and> policy_bare s"])
  show "parse_all (\<lambda>s. policy_work h0 d0 q p0 s \<and> policy_bare s) (policy_attr M a s e)"
    if "\<not> is_tmpl M a" "policy_work h0 d0 q p0 s \<and> policy_bare s" for a s e
    using that by (intro policy_attr_plain) auto
  show "parse_all (policy_work h0 d0 q p0) (policy_attr M a s e)"
    if "\<not> is_tmpl M a" "policy_work h0 d0 q p0 s" for a s e
    using that by (intro policy_attr_plain) auto
qed (use assms policy_attr_tmpl in auto)

text \<open>The policy that the setters make of the struct, and the attributes behind it, for both structs.\<close>

definition policy_of_msg ::
  "('b, 'a) xpinfo_mnl \<Rightarrow> ('b, 'a) xpid_mnl \<Rightarrow> 'b nlmsghdr \<Rightarrow> errno \<Rightarrow> mnlxt_xfrm_policy_t \<times> errno" where
  "policy_of_msg MI MD n e =
     (if nlmsg_type n = XFRM_MSG_DELPOLICY then policy_from_id (hdr_read MD (nlmsg_body n)) e
      else policy_from_info (hdr_read MI (nlmsg_body n)) e)"

definition policy_attr_loop_of ::
  "('b, 'a) xpinfo_mnl \<Rightarrow> ('b, 'a) xpid_mnl \<Rightarrow> 'b nlmsghdr \<Rightarrow> policy_state \<Rightarrow> errno \<Rightarrow> policy_state parse option" where
  "policy_attr_loop_of MI MD n s e =
     (if nlmsg_type n = XFRM_MSG_DELPOLICY then attr_loop (policy_attr MD) (attrs MD (nlmsg_body n)) s e
      else attr_loop (policy_attr MI) (attrs MI (nlmsg_body n)) s e)"

text \<open>The messages that the parser accepts.\<close>

abbreviation policy_types :: "u16 list" where
  "policy_types \<equiv> [XFRM_MSG_GETPOLICY, XFRM_MSG_NEWPOLICY, XFRM_MSG_UPDPOLICY, XFRM_MSG_DELPOLICY]"

lemma policy_parse_frame:
  assumes ok: "heap_ok h" "data_inv h d ps"
    and F: "memory_lost h ENOMEM \<longrightarrow> F ENOMEM" "nlmsg_type n \<notin> set policy_types \<longrightarrow> F EBADMSG"
    and frame: "\<And>h h' x. P h x \<Longrightarrow> strs h' = strs h \<Longrightarrow> arrs h' = arrs h \<Longrightarrow> P h' x"
    and loop: "\<And>q h1. work_inv h d q (PPolicy policy_zero) d h1 \<Longrightarrow>
      parse_to (\<lambda>(r, d1, h2). work_inv h d q (PPolicy r) d1 h2 \<and> P h2 (PPolicy r))
        (\<lambda>(r, d1, h2) e2. work_inv h d q (PPolicy r) d1 h2 \<and> F e2)
        (policy_attr_loop_of MI MD n (fst (policy_of_msg MI MD n e), d, h1) (snd (policy_of_msg MI MD n e)))"
  shows "parsed h d ps (nlmsg_type n) F False P (mnlxt_xfrm_policy_data MI MD (Some n) (Some d) h e)"
  unfolding mnlxt_xfrm_policy_data_def
proof (rule parser_parsed [OF ok F, where cb = "xfrm_data_handlers ! unat (nlmsg_type n)" and m = XfrmPolicy
      and wrap = PPolicy and z = policy_zero and message_new = mnlxt_xfrm_message_new
      and free_ob = mnlxt_xfrm_policy_free and c = False and err = "''mnlxt_xfrm_policy_new failed''"
      and err' = "''mnlxt_xfrm_message_new failed''" and e = e
      and loop = "\<lambda>q h1. policy_attr_loop_of MI MD n (fst (policy_of_msg MI MD n e), d, h1)
        (snd (policy_of_msg MI MD n e))"], goal_cases)
  case 1
  then have "unat (nlmsg_type n) < 26" "cb_name (xfrm_data_handlers ! unat (nlmsg_type n)) \<noteq> None"
    by (auto simp: xfrm_handlers_nth handler_def)
  with 1 show ?case by (auto simp: xfrm_message_new_found) (auto simp: xfrm_handlers_nth handler_def)
next
  case (7 h h' x)
  then show ?case by (rule frame)
qed (use loop in \<open>simp_all add: payload_parts_def policy_zero_def policy_attr_loop_of_def policy_of_msg_def
    case_prod_beta cong: if_cong\<close>)

definition policy_hdr_ok :: "('b, 'a) xpinfo_mnl \<Rightarrow> ('b, 'a) xpid_mnl \<Rightarrow> 'b nlmsghdr \<Rightarrow> bool" where
  "policy_hdr_ok MI MD n \<longleftrightarrow>
     (if nlmsg_type n = XFRM_MSG_DELPOLICY then sel_ok (xpid_sel (hdr_read MD (nlmsg_body n)))
      else sel_ok (xp_sel (hdr_read MI (nlmsg_body n))))"

definition one_tmpl :: "('b, 'a) xpinfo_mnl \<Rightarrow> ('b, 'a) xpid_mnl \<Rightarrow> 'b nlmsghdr \<Rightarrow> bool" where
  "one_tmpl MI MD n \<longleftrightarrow>
     (if nlmsg_type n = XFRM_MSG_DELPOLICY then length (filter (is_tmpl MD) (attrs MD (nlmsg_body n))) \<le> 1
      else length (filter (is_tmpl MI) (attrs MI (nlmsg_body n))) \<le> 1)"

lemma policy_of_msg_reach: "policy_hdr_ok MI MD n \<Longrightarrow> policy_reach (fst (policy_of_msg MI MD n e))"
  by (simp add: policy_hdr_ok_def policy_of_msg_def policy_from_info_reach policy_from_id_reach split: if_splits)

lemma policy_work_start:
  assumes "work_inv h d q (PPolicy policy_zero) d h1" "policy_reach p"
  shows "policy_work h d q p (p, d, h1)" "policy_bare (p, d, h1)"
proof -
  from assms(2) have t: "policy_tmpls p = None" "\<not> policy_has p MNLXT_XFRM_POLICY_TMPLS"
    using policy_reach_tmpls policy_reach_inv_holds by (auto simp: policy_inv_def)
  have "work_inv h d q (PPolicy p) d h1"
    using assms(1) t(1) by (intro work_inv_same_parts [OF assms(1)]) (simp_all add: work_inv_def policy_zero_def)
  then show "policy_work h d q p (p, d, h1)"
    using t assms(2) by (simp add: policy_work_def policy_tmpls_ok_def policy_reach_plain)
  show "policy_bare (p, d, h1)" by (simp add: policy_bare_def t)
qed

lemma policy_data_parsed:
  assumes ok: "heap_ok h" "data_inv h d ps" and hdr: "policy_hdr_ok MI MD n" and one: "one_tmpl MI MD n"
  shows "parsed h d ps (nlmsg_type n) (\<lambda>_. True) False
    (\<lambda>h' x. \<exists>p. x = PPolicy p \<and> policy_tmpls_ok h' p \<and> policy_plain p = fst (policy_of_msg MI MD n e) \<and>
       policy_inv (policy_plain p))
    (mnlxt_xfrm_policy_data MI MD (Some n) (Some d) h e)"
proof (rule policy_parse_frame [OF ok], goal_cases)
  case (4 q h1)
  let ?p = "fst (policy_of_msg MI MD n e)"
  have r: "policy_reach ?p" using hdr by (rule policy_of_msg_reach)
  have "parse_all (policy_work h d q ?p) (policy_attr_loop_of MI MD n (?p, d, h1) e1)" for e1
    using one policy_work_start [OF 4 r]
    by (cases "nlmsg_type n = XFRM_MSG_DELPOLICY") (simp_all add: one_tmpl_def policy_attr_loop_of_def policy_attr_loop)
  then show ?case
    by (rule parse_to_all) (auto simp: policy_work_def policy_reach_inv_holds [OF r])
qed (auto simp: policy_tmpls_ok_def)

section \<open>Attributes that are never accepted\<close>

lemma policy_data_refused:
  assumes ok: "heap_ok h" "data_inv h d ps" and hdr: "policy_hdr_ok MI MD n" and one: "one_tmpl MI MD n"
    and r: "\<And>s e s' e'. policy_attr_loop_of MI MD n s e \<noteq> Some (Next s' e')"
  shows "parsed h d ps (nlmsg_type n) (\<lambda>_. True) False (\<lambda>_ _. False)
    (mnlxt_xfrm_policy_data MI MD (Some n) (Some d) h e)"
proof (rule parsed_failed [OF policy_data_parsed [OF ok hdr one, where e = e]])
  show "rc = MNL_CB_ERROR"
    if "mnlxt_xfrm_policy_data MI MD (Some n) (Some d) h e = Some (rc, d', h', e')" for rc d' h' e'
    using that parse_end_failed [OF r]
    by (auto simp: mnlxt_xfrm_policy_data_def parse_start_def parse_new_def policy_attr_loop_of_def case_prod_beta
        split: if_splits option.splits prod.splits)
qed

text \<open>
  The attributes of a message of either format: one of type \<open>t\<close> whose type libmnl accepts and whose length, with
  its header, satisfies \<open>len\<close>. One that is always refused is enough.
\<close>

definition carries_attr :: "('h, 'b, 'a) libmnl \<Rightarrow> 'b \<Rightarrow> nat \<Rightarrow> (u16 \<Rightarrow> bool) \<Rightarrow> bool" where
  "carries_attr M b t len \<longleftrightarrow>
     (\<exists>a \<in> set (attrs M b). attr_type M a = t \<and> (\<forall>e. 0 \<le> fst (attr_type_valid M a XFRMA_MAX e)) \<and> len (attr_get_len M a))"

definition policy_msg_carries ::
  "('b, 'a) xpinfo_mnl \<Rightarrow> ('b, 'a) xpid_mnl \<Rightarrow> 'b nlmsghdr \<Rightarrow> nat \<Rightarrow> (u16 \<Rightarrow> bool) \<Rightarrow> bool" where
  "policy_msg_carries MI MD n t len \<longleftrightarrow>
     (if nlmsg_type n = XFRM_MSG_DELPOLICY then carries_attr MD (nlmsg_body n) t len
      else carries_attr MI (nlmsg_body n) t len)"

lemma policy_loop_refused:
  assumes "carries_attr M b t len"
    and refused: "\<And>a s e. attr_type M a = t \<Longrightarrow> (\<And>e. 0 \<le> fst (attr_type_valid M a XFRMA_MAX e)) \<Longrightarrow> len (attr_get_len M a) \<Longrightarrow>
      \<exists>s' e'. policy_attr M a s e = Some (Fail s' e')"
  shows "attr_loop (policy_attr M) (attrs M b) s e \<noteq> Some (Next s' e')"
proof -
  from assms(1) obtain a where a: "a \<in> set (attrs M b)" "attr_type M a = t"
      "\<And>e. 0 \<le> fst (attr_type_valid M a XFRMA_MAX e)" "len (attr_get_len M a)"
    by (auto simp: carries_attr_def)
  have "case policy_attr M a s e of Some (Next _ _) \<Rightarrow> False | _ \<Rightarrow> True" for s e
    using refused [OF a(2-4), of s e] by auto
  with a(1) show ?thesis by (rule attr_loop_refuses)
qed

lemma policy_attr_refused:
  assumes "heap_ok h" "data_inv h d ps" "policy_hdr_ok MI MD n" "one_tmpl MI MD n" "policy_msg_carries MI MD n t len"
    and "\<And>a s e. attr_type MI a = t \<Longrightarrow> (\<And>e. 0 \<le> fst (attr_type_valid MI a XFRMA_MAX e)) \<Longrightarrow> len (attr_get_len MI a) \<Longrightarrow>
      \<exists>s' e'. policy_attr MI a s e = Some (Fail s' e')"
    and "\<And>a s e. attr_type MD a = t \<Longrightarrow> (\<And>e. 0 \<le> fst (attr_type_valid MD a XFRMA_MAX e)) \<Longrightarrow> len (attr_get_len MD a) \<Longrightarrow>
      \<exists>s' e'. policy_attr MD a s e = Some (Fail s' e')"
  shows "parsed h d ps (nlmsg_type n) (\<lambda>_. True) False (\<lambda>_ _. False)
    (mnlxt_xfrm_policy_data MI MD (Some n) (Some d) h e)"
proof (rule policy_data_refused [OF assms(1-4)])
  show "policy_attr_loop_of MI MD n s e \<noteq> Some (Next s' e')" for s e s' e'
  proof (cases "nlmsg_type n = XFRM_MSG_DELPOLICY")
    case True
    with assms(5) have "carries_attr MD (nlmsg_body n) t len" by (simp add: policy_msg_carries_def)
    from policy_loop_refused [OF this assms(7)] True show ?thesis by (simp add: policy_attr_loop_of_def)
  next
    case False
    with assms(5) have "carries_attr MI (nlmsg_body n) t len" by (simp add: policy_msg_carries_def)
    from policy_loop_refused [OF this assms(6)] False show ?thesis by (simp add: policy_attr_loop_of_def)
  qed
qed

lemma policy_mark_refused:
  assumes "attr_type M a = XFRMA_MARK" "\<And>e. 0 \<le> fst (attr_type_valid M a XFRMA_MAX e)"
  shows "\<exists>s' e'. policy_attr M a s e = Some (Fail s' e')"
  using assms(1) assms(2) [of e]
  by (cases "attr_type_valid M a XFRMA_MAX e"; cases s)
    (auto simp: policy_attr_def policy_set_mark_fails on_valid_def store_set_def fail_with_def split: prod.split)

text \<open>
  The check is made on the length of the attribute with its header of four bytes: it is never a multiple of
  the size of a template when the payload is.
\<close>

lemma tmpl_len_refused:
  assumes "l mod tmpl_size = 0"
  shows "(of_nat (l + 4) :: u16) mod of_nat tmpl_size \<noteq> 0"
proof -
  have "unat ((of_nat (l + 4) :: u16) mod of_nat tmpl_size) = ((l + 4) mod 2 ^ 16) mod tmpl_size"
    by (simp add: unat_mod unat_of_nat take_bit_eq_mod del: of_nat_add)
  also have "\<dots> = (l + 4) mod tmpl_size" by (simp add: mod_mod_cancel)
  also have "\<dots> = 4" using assms by (simp add: mod_add_left_eq [symmetric])
  finally show ?thesis by (metis unsigned_0 zero_neq_numeral)
qed

lemma policy_tmpl_refused:
  assumes "attr_type M a = XFRMA_TMPL" "\<And>e. 0 \<le> fst (attr_type_valid M a XFRMA_MAX e)"
    and "attr_get_len M a = of_nat (l + 4)" "l mod tmpl_size = 0"
  shows "\<exists>s' e'. policy_attr M a s e = Some (Fail s' e')"
  using assms(1,3) assms(2) [of e] tmpl_len_refused [OF assms(4)]
  by (cases "attr_type_valid M a XFRMA_MAX e"; cases s) (auto simp: policy_attr_def fail_with_def Let_def)

text \<open>Both as properties of the parser. A length is that of whole templates if the payload is a number of them.\<close>

definition whole_tmpls :: "u16 \<Rightarrow> bool" where
  "whole_tmpls len \<longleftrightarrow> 4 \<le> unat len \<and> (unat len - 4) mod tmpl_size = 0"

lemma policy_mark_refused_parsed:
  assumes "heap_ok h" "data_inv h d ps" "policy_hdr_ok MI MD n" "one_tmpl MI MD n"
    and "policy_msg_carries MI MD n XFRMA_MARK (\<lambda>_. True)"
  shows "parsed h d ps (nlmsg_type n) (\<lambda>_. True) False (\<lambda>_ _. False)
    (mnlxt_xfrm_policy_data MI MD (Some n) (Some d) h e)"
  by (rule policy_attr_refused [OF assms]; rule policy_mark_refused)

lemma policy_tmpls_refused_parsed:
  assumes "heap_ok h" "data_inv h d ps" "policy_hdr_ok MI MD n" "one_tmpl MI MD n"
    and "policy_msg_carries MI MD n XFRMA_TMPL whole_tmpls"
  shows "parsed h d ps (nlmsg_type n) (\<lambda>_. True) False (\<lambda>_ _. False)
    (mnlxt_xfrm_policy_data MI MD (Some n) (Some d) h e)"
proof -
  have l: "len = of_nat (unat len - 4 + 4)" "(unat len - 4) mod tmpl_size = 0" if "whole_tmpls len" for len
    using that by (simp_all add: whole_tmpls_def del: of_nat_add)
  show ?thesis
    by (rule policy_attr_refused [OF assms]; rule policy_tmpl_refused [OF _ _ l]; assumption)
qed

text \<open>A second attribute with templates leaves the array of the first one allocated, and nothing points to it.\<close>

lemma second_tmpl_leaks:
  assumes "heap_ok h" "policy_tmpls p = Some q" "arrs h q = Some xs"
    and "mnlxt_xfrm_policy_tmpl (Some p) num (Some ts) h e = (0, Some p', h', e')"
  shows "arrs h' q = Some xs \<and> policy_tmpls p' \<noteq> Some q"
  using assms heap_ok_fresh(2) [OF assms(1)]
  by (auto simp: mnlxt_xfrm_policy_tmpl_def heap_news split: if_splits)

section \<open>Writing and parsing back\<close>

definition policy_hdr_prop ::
  "((xfrm_selector \<Rightarrow> xfrm_selector) \<Rightarrow> 'h \<Rightarrow> 'h) \<Rightarrow> ((u32 \<Rightarrow> u32) \<Rightarrow> 'h \<Rightarrow> 'h) \<Rightarrow> ((u8 \<Rightarrow> u8) \<Rightarrow> 'h \<Rightarrow> 'h) \<Rightarrow>
     ((xfrm_userpolicy_info \<Rightarrow> xfrm_userpolicy_info) \<Rightarrow> 'h \<Rightarrow> 'h) option \<Rightarrow> mnlxt_xfrm_policy_t \<Rightarrow> nat \<Rightarrow> 'h \<Rightarrow> 'h" where
  "policy_hdr_prop sel index dir xpinfo p i t =
     (let n = inet_size (policy_family p) in
      if i = MNLXT_XFRM_POLICY_FAMILY then sel (\<lambda>r. r\<lparr>sel_family := ucast (policy_family p)\<rparr>) t
      else if i = MNLXT_XFRM_POLICY_PROTO then sel (\<lambda>r. r\<lparr>sel_proto := policy_proto p\<rparr>) t
      else if i = MNLXT_XFRM_POLICY_SRC_PREFIXLEN then sel (\<lambda>r. r\<lparr>sel_prefixlen_s := site_prefixlen (policy_src p)\<rparr>) t
      else if i = MNLXT_XFRM_POLICY_DST_PREFIXLEN then sel (\<lambda>r. r\<lparr>sel_prefixlen_d := site_prefixlen (policy_dst p)\<rparr>) t
      else if i = MNLXT_XFRM_POLICY_SRC_ADDR then
        sel (\<lambda>r. r\<lparr>sel_saddr := copy_addr n (site_addr (policy_src p)) (sel_saddr r)\<rparr>) t
      else if i = MNLXT_XFRM_POLICY_DST_ADDR then
        sel (\<lambda>r. r\<lparr>sel_daddr := copy_addr n (site_addr (policy_dst p)) (sel_daddr r)\<rparr>) t
      else if i = MNLXT_XFRM_POLICY_SRC_PORT then
        sel (\<lambda>r. r\<lparr>sel_sport := htons (site_port (policy_src p)), sel_sport_mask := - 1\<rparr>) t
      else if i = MNLXT_XFRM_POLICY_DST_PORT then
        sel (\<lambda>r. r\<lparr>sel_dport := htons (site_port (policy_dst p)), sel_dport_mask := - 1\<rparr>) t
      else if i = MNLXT_XFRM_POLICY_INDEX then index (\<lambda>_. policy_index p) t
      else if i = MNLXT_XFRM_POLICY_IFINDEX then sel (\<lambda>r. r\<lparr>sel_ifindex := policy_if_index p\<rparr>) t
      else if i = MNLXT_XFRM_POLICY_PRIO then
        (case xpinfo of None \<Rightarrow> t | Some xp \<Rightarrow> xp (\<lambda>r. r\<lparr>xp_priority := policy_priority p\<rparr>) t)
      else if i = MNLXT_XFRM_POLICY_ACTION then
        (case xpinfo of None \<Rightarrow> t | Some xp \<Rightarrow> xp (\<lambda>r. r\<lparr>xp_action := policy_action p\<rparr>) t)
      else if i = MNLXT_XFRM_POLICY_DIR then dir (\<lambda>_. policy_dir p) t
      else t)"

abbreviation policy_hdr ::
  "((xfrm_selector \<Rightarrow> xfrm_selector) \<Rightarrow> 'h \<Rightarrow> 'h) \<Rightarrow> ((u32 \<Rightarrow> u32) \<Rightarrow> 'h \<Rightarrow> 'h) \<Rightarrow> ((u8 \<Rightarrow> u8) \<Rightarrow> 'h \<Rightarrow> 'h) \<Rightarrow>
     ((xfrm_userpolicy_info \<Rightarrow> xfrm_userpolicy_info) \<Rightarrow> 'h \<Rightarrow> 'h) option \<Rightarrow> mnlxt_xfrm_policy_t \<Rightarrow> 'h \<Rightarrow> 'h" where
  "policy_hdr sel index dir xpinfo p z \<equiv>
     fold (\<lambda>i t. if policy_has p i then policy_hdr_prop sel index dir xpinfo p i t else t) [0..<MNLXT_XFRM_POLICY_MAX] z"

lemma policy_put_view:
  fixes M :: "('h, 'b, 'a) libmnl"
  assumes L: "libmnl_laws M mk b0 z" and mark: "\<not> policy_has p MNLXT_XFRM_POLICY_MARK"
    and b: "b = put_loop (MNLXT_XFRM_POLICY_MAX) (policy_prop_flags p)
      (policy_put_prop M sel index dir xpinfo p (inet_size (policy_family p))) 0 1 (put_extra_header M b0)"
  shows "hdr_read M b = policy_hdr sel index dir xpinfo p z" and "attrs M b = []"
proof -
  have h: "hdr_read M (policy_put_prop M sel index dir xpinfo p (inet_size (policy_family p)) i b) =
      policy_hdr_prop sel index dir xpinfo p i (hdr_read M b)"
    and a: "attrs M (policy_put_prop M sel index dir xpinfo p (inet_size (policy_family p)) i b) = attrs M b @ []"
    if "policy_has p i" for i b
    using that mark
    by (cases "i = MNLXT_XFRM_POLICY_MARK";
        simp add: policy_put_prop_def policy_hdr_prop_def hdr_upd_def libmnl_lawsD [OF L] Let_def split: option.split)+
  show "hdr_read M b = policy_hdr sel index dir xpinfo p z" "attrs M b = []"
    unfolding b
    using put_loop_view [of MNLXT_XFRM_POLICY_MAX "policy_prop_flags p" "hdr_read M"
        "policy_put_prop M sel index dir xpinfo p (inet_size (policy_family p))"
        "policy_hdr_prop sel index dir xpinfo p" "attrs M" "\<lambda>_. []" "put_extra_header M b0", OF h a]
    by (simp_all add: libmnl_lawsD(1,2) [OF L] concat_eq_Nil_conv)
qed

text \<open>What the selector of the written struct holds.\<close>

definition selector_of :: "mnlxt_xfrm_policy_t \<Rightarrow> xfrm_selector \<Rightarrow> bool" where
  "selector_of p s \<longleftrightarrow>
     sel_family s = (if policy_has p MNLXT_XFRM_POLICY_FAMILY then ucast (policy_family p) else 0) \<and>
     sel_proto s = (if policy_has p MNLXT_XFRM_POLICY_PROTO then policy_proto p else 0) \<and>
     sel_prefixlen_s s = (if policy_has p MNLXT_XFRM_POLICY_SRC_PREFIXLEN then site_prefixlen (policy_src p) else 0) \<and>
     sel_prefixlen_d s = (if policy_has p MNLXT_XFRM_POLICY_DST_PREFIXLEN then site_prefixlen (policy_dst p) else 0) \<and>
     sel_sport_mask s = (if policy_has p MNLXT_XFRM_POLICY_SRC_PORT then - 1 else 0) \<and>
     sel_dport_mask s = (if policy_has p MNLXT_XFRM_POLICY_DST_PORT then - 1 else 0) \<and>
     sel_sport s = (if policy_has p MNLXT_XFRM_POLICY_SRC_PORT then htons (site_port (policy_src p)) else 0) \<and>
     sel_dport s = (if policy_has p MNLXT_XFRM_POLICY_DST_PORT then htons (site_port (policy_dst p)) else 0) \<and>
     sel_ifindex s = (if policy_has p MNLXT_XFRM_POLICY_IFINDEX then policy_if_index p else 0) \<and>
     sel_saddr s = (if policy_has p MNLXT_XFRM_POLICY_SRC_ADDR
       then copy_addr (inet_size (policy_family p)) (site_addr (policy_src p)) inet_zero else inet_zero) \<and>
     sel_daddr s = (if policy_has p MNLXT_XFRM_POLICY_DST_ADDR
       then copy_addr (inet_size (policy_family p)) (site_addr (policy_dst p)) inet_zero else inet_zero)"

lemma policy_hdr_field:
  assumes "\<And>i t. i < MNLXT_XFRM_POLICY_MAX \<Longrightarrow>
      F (g (policy_hdr_prop sel index dir xpinfo p i t)) = (if i = k then v (F (g t)) else F (g t))"
    and "k < MNLXT_XFRM_POLICY_MAX" "g z = z'"
  shows "F (g (policy_hdr sel index dir xpinfo p z)) = (if policy_has p k then v (F z') else F z')"
  using fold_field [of MNLXT_XFRM_POLICY_MAX "\<lambda>t. F (g t)" "policy_hdr_prop sel index dir xpinfo p" k v
      "policy_prop_flags p" z, OF assms(1)] assms(2,3) by simp

lemma selector_written:
  assumes g: "\<And>f t. g (sel f t) = f (g t)" "\<And>f t. g (index f t) = g t" "\<And>f t. g (dir f t) = g t"
      "\<And>xp v t. xpinfo = Some xp \<Longrightarrow> g (xp (\<lambda>r. r\<lparr>xp_priority := v\<rparr>) t) = g t"
      "\<And>xp v t. xpinfo = Some xp \<Longrightarrow> g (xp (\<lambda>r. r\<lparr>xp_action := v\<rparr>) t) = g t"
    and z: "g z = selector_zero"
  shows "selector_of p (g (policy_hdr sel index dir xpinfo p z))"
proof -
  let ?n = "inet_size (policy_family p)"
  note d = policy_hdr_prop_def Let_def g selector_zero_def
  note f = policy_hdr_field [where g = g, OF _ _ z]
  note ls = f [where F = sel_family and k = MNLXT_XFRM_POLICY_FAMILY and v = "\<lambda>_. ucast (policy_family p)"]
    f [where F = sel_proto and k = MNLXT_XFRM_POLICY_PROTO and v = "\<lambda>_. policy_proto p"]
    f [where F = sel_prefixlen_s and k = MNLXT_XFRM_POLICY_SRC_PREFIXLEN and v = "\<lambda>_. site_prefixlen (policy_src p)"]
    f [where F = sel_prefixlen_d and k = MNLXT_XFRM_POLICY_DST_PREFIXLEN and v = "\<lambda>_. site_prefixlen (policy_dst p)"]
    f [where F = sel_sport_mask and k = MNLXT_XFRM_POLICY_SRC_PORT and v = "\<lambda>_. - 1"]
    f [where F = sel_dport_mask and k = MNLXT_XFRM_POLICY_DST_PORT and v = "\<lambda>_. - 1"]
    f [where F = sel_sport and k = MNLXT_XFRM_POLICY_SRC_PORT and v = "\<lambda>_. htons (site_port (policy_src p))"]
    f [where F = sel_dport and k = MNLXT_XFRM_POLICY_DST_PORT and v = "\<lambda>_. htons (site_port (policy_dst p))"]
    f [where F = sel_ifindex and k = MNLXT_XFRM_POLICY_IFINDEX and v = "\<lambda>_. policy_if_index p"]
    f [where F = sel_saddr and k = MNLXT_XFRM_POLICY_SRC_ADDR and v = "copy_addr ?n (site_addr (policy_src p))"]
    f [where F = sel_daddr and k = MNLXT_XFRM_POLICY_DST_ADDR and v = "copy_addr ?n (site_addr (policy_dst p))"]
  show ?thesis
    unfolding selector_of_def
    by (intro conjI; subst ls; simp add: d split: option.split)
qed

abbreviation selector_family :: "xfrm_selector \<Rightarrow> u8" where
  "selector_family s \<equiv> (if AF_UNSPEC = ucast (sel_family s) then AF_INET else ucast (sel_family s))"

definition policy_of_selector :: "xfrm_selector \<Rightarrow> mnlxt_xfrm_policy_t" where
  "policy_of_selector s =
     policy_zero\<lparr>policy_family := selector_family s, policy_proto := sel_proto s,
       policy_src := \<lparr>site_prefixlen = sel_prefixlen_s s, site_padding = 0,
         site_port = (if sel_sport_mask s \<noteq> 0 then ntohs (sel_sport s) else 0), site_addr = sel_saddr s\<rparr>,
       policy_dst := \<lparr>site_prefixlen = sel_prefixlen_d s, site_padding = 0,
         site_port = (if sel_dport_mask s \<noteq> 0 then ntohs (sel_dport s) else 0), site_addr = sel_daddr s\<rparr>,
       policy_if_index := sel_ifindex s,
       policy_prop_flags := fold (\<lambda>i w. set_prop_flag w i)
         ((if sel_proto s \<noteq> 0 then [MNLXT_XFRM_POLICY_PROTO] else []) @
          (if sel_dport_mask s \<noteq> 0 then [MNLXT_XFRM_POLICY_DST_PORT] else []) @
          (if sel_sport_mask s \<noteq> 0 then [MNLXT_XFRM_POLICY_SRC_PORT] else []) @
          [MNLXT_XFRM_POLICY_FAMILY, MNLXT_XFRM_POLICY_SRC_ADDR, MNLXT_XFRM_POLICY_SRC_PREFIXLEN,
           MNLXT_XFRM_POLICY_DST_ADDR, MNLXT_XFRM_POLICY_DST_PREFIXLEN] @
          (if sel_ifindex s \<noteq> 0 then [MNLXT_XFRM_POLICY_IFINDEX] else [])) 0\<rparr>"

lemma selector_set_eq:
  assumes "ucast (sel_family s) \<in> {AF_UNSPEC, AF_INET, AF_INET6}"
    and "sel_dport_mask s \<noteq> 0 \<or> sel_sport_mask s \<noteq> 0 \<Longrightarrow> sel_proto s = 0 \<or> mnlxt_port_proto (sel_proto s)"
  shows "run_setters (selector_setters s) policy_zero e = (policy_of_selector s, e)"
  using assms
  by (cases "sel_proto s = 0"; cases "sel_dport_mask s = 0"; cases "sel_sport_mask s = 0"; cases "sel_ifindex s = 0")
    (auto simp: selector_setters_def policy_of_selector_def Let_def mnlxt_xfrm_policy_set_proto_def
      mnlxt_xfrm_policy_set_src_port_def mnlxt_xfrm_policy_set_dst_port_def mnlxt_xfrm_policy_set_src_addr_def
      mnlxt_xfrm_policy_set_dst_addr_def mnlxt_xfrm_policy_set_family_def mnlxt_xfrm_policy_set_src_prefixlen_def
      mnlxt_xfrm_policy_set_dst_prefixlen_def mnlxt_xfrm_policy_set_ifindex_def mnlxt_xfrm_policy_set_u8_def
      mnlxt_xfrm_policy_set_u32_def mnlxt_xfrm_policy_set_ptr_def policy_data_def policy_store_def policy_zero_def
      site_zero_def)

lemma policy_from_info_eq:
  assumes "run_setters (selector_setters (xp_sel xp)) policy_zero e = (p, e)"
    and "xp_dir xp < XFRM_POLICY_MAX" "xp_action xp = XFRM_POLICY_ALLOW \<or> xp_action xp = XFRM_POLICY_BLOCK"
  shows "policy_from_info xp e = (p\<lparr>policy_index := xp_index xp, policy_dir := xp_dir xp, policy_action := xp_action xp,
    policy_priority := xp_priority xp, policy_prop_flags := fold (\<lambda>i w. set_prop_flag w i)
      [MNLXT_XFRM_POLICY_INDEX, MNLXT_XFRM_POLICY_DIR, MNLXT_XFRM_POLICY_ACTION, MNLXT_XFRM_POLICY_PRIO]
      (policy_prop_flags p)\<rparr>, e)"
  using assms
  by (auto simp: policy_from_info_def mnlxt_xfrm_policy_selector_set_def mnlxt_xfrm_policy_set_index_def
      mnlxt_xfrm_policy_set_dir_def mnlxt_xfrm_policy_set_action_def mnlxt_xfrm_policy_set_priority_def
      mnlxt_xfrm_policy_set_u32_def mnlxt_xfrm_policy_set_u8_def mnlxt_xfrm_policy_set_ptr_def policy_data_def
      policy_store_def not_le [symmetric])

lemma policy_from_id_eq:
  assumes "run_setters (selector_setters (xpid_sel xp)) policy_zero e = (p, e)" "xpid_dir xp < XFRM_POLICY_MAX"
  shows "policy_from_id xp e = (p\<lparr>policy_index := xpid_index xp, policy_dir := xpid_dir xp,
    policy_prop_flags := fold (\<lambda>i w. set_prop_flag w i)
      [MNLXT_XFRM_POLICY_INDEX, MNLXT_XFRM_POLICY_DIR] (policy_prop_flags p)\<rparr>, e)"
  using assms
  by (auto simp: policy_from_id_def mnlxt_xfrm_policy_selector_set_def mnlxt_xfrm_policy_set_index_def
      mnlxt_xfrm_policy_set_dir_def mnlxt_xfrm_policy_set_u32_def mnlxt_xfrm_policy_set_u8_def
      mnlxt_xfrm_policy_set_ptr_def policy_data_def policy_store_def not_le [symmetric])

text \<open>
  What a message can say of a policy: the protocol 0 and the interface 0 are not told from an absent one, and
  the struct of a deletion has neither priority nor action.
\<close>

definition policy_sendable :: "u16 \<Rightarrow> mnlxt_xfrm_policy_t \<Rightarrow> bool" where
  "policy_sendable type p \<longleftrightarrow>
     (policy_has p MNLXT_XFRM_POLICY_PROTO \<longrightarrow> policy_proto p \<noteq> 0) \<and>
     (policy_has p MNLXT_XFRM_POLICY_IFINDEX \<longrightarrow> policy_if_index p \<noteq> 0) \<and>
     (type = XFRM_MSG_DELPOLICY \<longrightarrow>
        \<not> policy_has p MNLXT_XFRM_POLICY_PRIO \<and> \<not> policy_has p MNLXT_XFRM_POLICY_ACTION)"

lemma selector_of_parsed:
  assumes "selector_of p s" "policy_inv p"
  shows "run_setters (selector_setters s) policy_zero e = (policy_of_selector s, e)"
proof (rule selector_set_eq)
  have u: "ucast (ucast x :: u16) = x" for x :: u8 by (rule bit_word_eqI) (auto simp: bit_ucast_iff)
  show "ucast (sel_family s) \<in> {AF_UNSPEC, AF_INET, AF_INET6}"
    using assms by (auto simp: selector_of_def policy_inv_def u)
  show "sel_proto s = 0 \<or> mnlxt_port_proto (sel_proto s)" if "sel_dport_mask s \<noteq> 0 \<or> sel_sport_mask s \<noteq> 0"
    using assms that by (auto simp: selector_of_def policy_inv_def split: if_splits)
qed

lemma selector_of_ok: "selector_of p s \<Longrightarrow> policy_inv p \<Longrightarrow> sel_ok s"
  by (simp add: selector_of_def policy_inv_def inet_ok_def copy_addr_def inet_zero_def inet_size_def)

text \<open>The properties that the selector carries.\<close>

abbreviation selector_props :: "nat set" where
  "selector_props \<equiv> {MNLXT_XFRM_POLICY_FAMILY, MNLXT_XFRM_POLICY_PROTO, MNLXT_XFRM_POLICY_SRC_PREFIXLEN,
     MNLXT_XFRM_POLICY_DST_PREFIXLEN, MNLXT_XFRM_POLICY_SRC_ADDR, MNLXT_XFRM_POLICY_DST_ADDR,
     MNLXT_XFRM_POLICY_SRC_PORT, MNLXT_XFRM_POLICY_DST_PORT, MNLXT_XFRM_POLICY_IFINDEX}"

lemma inet_memcmp_copy [simp]: "n \<le> length a \<Longrightarrow> inet_memcmp n (copy_addr n a b) a"
  by (simp add: inet_memcmp_def copy_addr_def)

lemma selector_agrees:
  assumes s: "selector_of p s" "policy_inv p" "policy_sendable type p" and i: "i \<in> selector_props" "policy_has p i"
    and q: "policy_family q = policy_family (policy_of_selector s)" "policy_proto q = policy_proto (policy_of_selector s)"
      "policy_src q = policy_src (policy_of_selector s)" "policy_dst q = policy_dst (policy_of_selector s)"
      "policy_if_index q = policy_if_index (policy_of_selector s)"
    and has: "\<And>j. policy_has (policy_of_selector s) j \<Longrightarrow> policy_has q j"
  shows "policy_has q i \<and> mnlxt_xfrm_policy_cmp q p i = 0"
proof
  have u: "ucast (ucast x :: u16) = x" for x :: u8 by (rule bit_word_eqI) (auto simp: bit_ucast_iff)
  have "policy_has (policy_of_selector s) i"
    using s i by (auto simp: policy_of_selector_def selector_of_def policy_sendable_def)
  then show "policy_has q i" by (rule has)
  have fam: "policy_family q = policy_family p" if "policy_has p MNLXT_XFRM_POLICY_FAMILY"
    using that s(1,2) by (auto simp: q policy_of_selector_def selector_of_def policy_inv_def u)
  have "inet_size f \<le> length (site_addr (policy_src p))" "inet_size f \<le> length (site_addr (policy_dst p))" for f
    using s(2) by (auto simp: policy_inv_def inet_ok_def)
  then show "mnlxt_xfrm_policy_cmp q p i = 0"
    using s i fam
    by (elim insertE emptyE; simp add: mnlxt_xfrm_policy_cmp_def q(2-5) policy_of_selector_def selector_of_def
        policy_sendable_def policy_inv_def)
qed

lemma policy_match_zero:
  assumes "\<And>i. i < MNLXT_XFRM_POLICY_MAX \<Longrightarrow> policy_has p i \<Longrightarrow> policy_has q i \<and> mnlxt_xfrm_policy_cmp q p i = 0"
  shows "mnlxt_xfrm_policy_match (Some q) (Some p) e = (0, e)"
  unfolding policy_compare.match_zero_iff [OF TrueI TrueI] using assms by blast

lemma policy_props_cover:
  assumes "i < MNLXT_XFRM_POLICY_MAX" "policy_has p i" "policy_inv p"
  shows "i \<in> selector_props \<or> i \<in> {MNLXT_XFRM_POLICY_INDEX, MNLXT_XFRM_POLICY_PRIO, MNLXT_XFRM_POLICY_ACTION,
    MNLXT_XFRM_POLICY_DIR}"
proof -
  have "i \<noteq> MNLXT_XFRM_POLICY_MARK" "i \<noteq> MNLXT_XFRM_POLICY_TMPLS" using assms(2,3) by (auto simp: policy_inv_def)
  with assms(1) show ?thesis by (auto simp: less_Suc_eq numeral_eq_Suc)
qed

text \<open>The policy parsed from what was written for \<open>p\<close>, for each of the two structs.\<close>

lemma policy_info_back:
  fixes p :: mnlxt_xfrm_policy_t
  defines "t \<equiv> policy_hdr xp_sel_update xp_index_update xp_dir_update (Some (\<lambda>f. f)) p userpolicy_info_zero"
  assumes inv: "policy_inv p" "policy_sendable type p"
  shows "mnlxt_xfrm_policy_match (Some (fst (policy_from_info t e))) (Some p) e' = (0, e')"
proof -
  have sel: "selector_of p (xp_sel t)"
    unfolding t_def by (rule selector_written) (auto simp: userpolicy_info_zero_def)
  note f = policy_hdr_field [where F = "\<lambda>t. t" and z = userpolicy_info_zero and sel = xp_sel_update and
      index = xp_index_update and dir = xp_dir_update and xpinfo = "Some (\<lambda>f. f)" and p = p, folded t_def]
  note d = policy_hdr_prop_def Let_def userpolicy_info_zero_def
  have fields: "xp_index t = (if policy_has p MNLXT_XFRM_POLICY_INDEX then policy_index p else 0)"
    "xp_dir t = (if policy_has p MNLXT_XFRM_POLICY_DIR then policy_dir p else 0)"
    "xp_action t = (if policy_has p MNLXT_XFRM_POLICY_ACTION then policy_action p else 0)"
    "xp_priority t = (if policy_has p MNLXT_XFRM_POLICY_PRIO then policy_priority p else 0)"
    using f [where g = xp_index and k = MNLXT_XFRM_POLICY_INDEX and v = "\<lambda>_. policy_index p"]
      f [where g = xp_dir and k = MNLXT_XFRM_POLICY_DIR and v = "\<lambda>_. policy_dir p"]
      f [where g = xp_action and k = MNLXT_XFRM_POLICY_ACTION and v = "\<lambda>_. policy_action p"]
      f [where g = xp_priority and k = MNLXT_XFRM_POLICY_PRIO and v = "\<lambda>_. policy_priority p"]
    by (simp_all add: d)
  have r: "policy_from_info t e = ((policy_of_selector (xp_sel t))\<lparr>policy_index := xp_index t, policy_dir := xp_dir t,
      policy_action := xp_action t, policy_priority := xp_priority t, policy_prop_flags := fold (\<lambda>i w. set_prop_flag w i)
      [MNLXT_XFRM_POLICY_INDEX, MNLXT_XFRM_POLICY_DIR, MNLXT_XFRM_POLICY_ACTION, MNLXT_XFRM_POLICY_PRIO]
      (policy_prop_flags (policy_of_selector (xp_sel t)))\<rparr>, e)" (is "_ = (?q, e)")
    by (rule policy_from_info_eq [OF selector_of_parsed [OF sel inv(1)]])
      (use inv(1) in \<open>auto simp: fields policy_inv_def\<close>)
  show ?thesis
    unfolding r fst_conv
  proof (rule policy_match_zero)
    fix i assume i: "i < MNLXT_XFRM_POLICY_MAX" "policy_has p i"
    from policy_props_cover [OF this inv(1)] show "policy_has ?q i \<and> mnlxt_xfrm_policy_cmp ?q p i = 0"
    proof
      assume "i \<in> selector_props"
      then show ?thesis by (rule selector_agrees [OF sel inv _ i(2)]) simp_all
    next
      assume "i \<in> {MNLXT_XFRM_POLICY_INDEX, MNLXT_XFRM_POLICY_PRIO, MNLXT_XFRM_POLICY_ACTION, MNLXT_XFRM_POLICY_DIR}"
      with i(2) show ?thesis by (elim insertE emptyE; simp add: mnlxt_xfrm_policy_cmp_def fields)
    qed
  qed
qed

lemma policy_id_back:
  fixes p :: mnlxt_xfrm_policy_t
  defines "t \<equiv> policy_hdr xpid_sel_update xpid_index_update xpid_dir_update None p userpolicy_id_zero"
  assumes inv: "policy_inv p" "policy_sendable XFRM_MSG_DELPOLICY p"
  shows "mnlxt_xfrm_policy_match (Some (fst (policy_from_id t e))) (Some p) e' = (0, e')"
proof -
  have sel: "selector_of p (xpid_sel t)"
    unfolding t_def by (rule selector_written) (auto simp: userpolicy_id_zero_def)
  note f = policy_hdr_field [where F = "\<lambda>t. t" and z = userpolicy_id_zero and sel = xpid_sel_update and
      index = xpid_index_update and dir = xpid_dir_update and xpinfo = None and p = p, folded t_def]
  note d = policy_hdr_prop_def Let_def userpolicy_id_zero_def
  have fields: "xpid_index t = (if policy_has p MNLXT_XFRM_POLICY_INDEX then policy_index p else 0)"
    "xpid_dir t = (if policy_has p MNLXT_XFRM_POLICY_DIR then policy_dir p else 0)"
    using f [where g = xpid_index and k = MNLXT_XFRM_POLICY_INDEX and v = "\<lambda>_. policy_index p"]
      f [where g = xpid_dir and k = MNLXT_XFRM_POLICY_DIR and v = "\<lambda>_. policy_dir p"]
    by (simp_all add: d)
  have r: "policy_from_id t e = ((policy_of_selector (xpid_sel t))\<lparr>policy_index := xpid_index t,
      policy_dir := xpid_dir t, policy_prop_flags := fold (\<lambda>i w. set_prop_flag w i)
      [MNLXT_XFRM_POLICY_INDEX, MNLXT_XFRM_POLICY_DIR]
      (policy_prop_flags (policy_of_selector (xpid_sel t)))\<rparr>, e)" (is "_ = (?q, e)")
    by (rule policy_from_id_eq [OF selector_of_parsed [OF sel inv(1)]])
      (use inv(1) in \<open>auto simp: fields policy_inv_def\<close>)
  show ?thesis
    unfolding r fst_conv
  proof (rule policy_match_zero)
    fix i assume i: "i < MNLXT_XFRM_POLICY_MAX" "policy_has p i"
    from policy_props_cover [OF this inv(1)] show "policy_has ?q i \<and> mnlxt_xfrm_policy_cmp ?q p i = 0"
    proof
      assume "i \<in> selector_props"
      then show ?thesis by (rule selector_agrees [OF sel inv _ i(2)]) simp_all
    next
      assume "i \<in> {MNLXT_XFRM_POLICY_INDEX, MNLXT_XFRM_POLICY_PRIO, MNLXT_XFRM_POLICY_ACTION, MNLXT_XFRM_POLICY_DIR}"
      with i(2) inv(2) show ?thesis
        by (elim insertE emptyE; simp add: mnlxt_xfrm_policy_cmp_def fields policy_sendable_def)
    qed
  qed
qed

lemma policy_roundtrip_parsed:
  assumes LI: "libmnl_laws MI mki b0 userpolicy_info_zero" and LD: "libmnl_laws MD mkd b0 userpolicy_id_zero"
    and inv: "policy_inv p" "policy_sendable (nlmsg_type n) p"
    and ok: "heap_ok h" "data_inv h d ps" and n: "nlmsg_body n = b0"
    and put: "mnlxt_xfrm_policy_put MI MD (Some n) (Some p) ty e0 = (0, Some n', e')"
  shows "parsed h d ps (nlmsg_type n) (parse_failure h policy_types (nlmsg_type n)) False
    (\<lambda>_ x. \<exists>q. x = PPolicy q \<and> mnlxt_xfrm_policy_match (Some q) (Some p) e = (0, e))
    (mnlxt_xfrm_policy_data MI MD (Some n') (Some d) h e)"
proof -
  let ?q = "fst (policy_of_msg MI MD n' e)"
  have mark: "\<not> policy_has p MNLXT_XFRM_POLICY_MARK" using inv(1) by (simp add: policy_inv_def)
  from put have type: "nlmsg_type n' = nlmsg_type n" by (auto simp: mnlxt_xfrm_policy_put_def Let_def split: if_splits)
  have q: "mnlxt_xfrm_policy_match (Some ?q) (Some p) e = (0, e) \<and> policy_reach ?q \<and>
      policy_attr_loop_of MI MD n' s e1 = Some (Next s e1)" for s e1
  proof (cases "nlmsg_type n = XFRM_MSG_DELPOLICY")
    case True
    with put have "nlmsg_body n' = put_loop MNLXT_XFRM_POLICY_MAX (policy_prop_flags p)
        (policy_put_prop MD xpid_sel_update xpid_index_update xpid_dir_update None p (inet_size (policy_family p)))
        0 1 (put_extra_header MD b0)"
      by (auto simp: mnlxt_xfrm_policy_put_def Let_def n)
    note v = policy_put_view [OF LD mark this]
    have "selector_of p (xpid_sel (hdr_read MD (nlmsg_body n')))"
      unfolding v(1) by (rule selector_written) (auto simp: userpolicy_id_zero_def)
    from selector_of_ok [OF this inv(1)] have "sel_ok (xpid_sel (hdr_read MD (nlmsg_body n')))" .
    then have "policy_reach ?q" by (simp add: policy_of_msg_def type True policy_from_id_reach)
    with True policy_id_back [OF inv(1), of e e] inv(2) show ?thesis
      by (simp add: policy_of_msg_def policy_attr_loop_of_def type v)
  next
    case False
    with put have "nlmsg_body n' = put_loop MNLXT_XFRM_POLICY_MAX (policy_prop_flags p)
        (policy_put_prop MI xp_sel_update xp_index_update xp_dir_update (Some (\<lambda>f. f)) p (inet_size (policy_family p)))
        0 1 (put_extra_header MI b0)"
      by (auto simp: mnlxt_xfrm_policy_put_def Let_def n split: if_splits)
    note v = policy_put_view [OF LI mark this]
    have "selector_of p (xp_sel (hdr_read MI (nlmsg_body n')))"
      unfolding v(1) by (rule selector_written) (auto simp: userpolicy_info_zero_def)
    from selector_of_ok [OF this inv(1)] have "sel_ok (xp_sel (hdr_read MI (nlmsg_body n')))" .
    then have "policy_reach ?q" by (simp add: policy_of_msg_def type False policy_from_info_reach)
    with False policy_info_back [OF inv, of e e] show ?thesis
      by (simp add: policy_of_msg_def policy_attr_loop_of_def type v)
  qed
  have "parsed h d ps (nlmsg_type n') (parse_failure h policy_types (nlmsg_type n)) False
    (\<lambda>_ x. \<exists>q. x = PPolicy q \<and> mnlxt_xfrm_policy_match (Some q) (Some p) e = (0, e))
    (mnlxt_xfrm_policy_data MI MD (Some n') (Some d) h e)"
  proof (rule policy_parse_frame [OF ok], goal_cases)
    case (4 q h1)
    with q policy_work_start(1) [OF 4, of ?q] show ?case by (simp add: policy_work_def)
  qed (use type in \<open>simp_all add: parse_failure_def\<close>)
  then show ?thesis by (simp only: type)
qed

end
