(* ===== verification/Session.thy ===== *)
theory Session
  imports RouteData RuleData AddrData LinkData PolicyData
begin

text \<open>
  What the library as a whole keeps while it talks to the kernel. \<open>holding h0 d h ps\<close>: the heap \<open>h\<close> is the
  heap \<open>h0\<close> and, disjoint from it, the messages \<open>ps\<close> of the data object \<open>d\<close> with their payloads and all
  that these own; so \<open>mnlxt_data_clean\<close> gives \<open>h0\<close> back. The locale \<open>message_parser\<close> is the contract between the
  core and the parsers of the modules; its lemmas carry the invariant through the dispatch of a message, a
  received buffer, the loop of a request and a whole request. What is assumed of libmnl and of the sockets is
  stated in \<open>cb_run_laws\<close>, \<open>finite_supply\<close> and \<open>socket_laws\<close>.
\<close>

section \<open>The heap that a message list holds\<close>

definition list_payloads :: "pheap \<Rightarrow> ptr list \<Rightarrow> ptr set" where
  "list_payloads h ps = snd ` set (payloads (msgs h) ps)"

abbreviation list_parts :: "pheap \<Rightarrow> ptr list \<Rightarrow> ptr set" where
  "list_parts h ps \<equiv> all_parts payload_parts (objs h) (list_payloads h ps)"

definition same_contents :: "pheap \<Rightarrow> pheap \<Rightarrow> bool" where
  "same_contents h h' \<longleftrightarrow> msgs h' = msgs h \<and> objs h' = objs h \<and> strs h' = strs h \<and> arrs h' = arrs h"

definition holding :: "pheap \<Rightarrow> mnlxt_data_t \<Rightarrow> pheap \<Rightarrow> ptr list \<Rightarrow> bool" where
  "holding h0 d h ps \<longleftrightarrow>
     heap_ok h \<and> data_inv h d ps \<and> payload_owned h (payloads (msgs h) ps) \<and>
     (msgs h) |` (- set ps) = msgs h0 \<and> (objs h) |` (- list_payloads h ps) = objs h0 \<and>
     (strs h) |` (- list_parts h ps) = strs h0 \<and> (arrs h) |` (- list_parts h ps) = arrs h0"

lemma holding_start: "heap_ok h \<Longrightarrow> data_first d = None \<Longrightarrow> data_last d = None \<Longrightarrow> holding h d h []"
  by (simp add: holding_def data_inv_def payload_owned_def list_payloads_def all_parts_def restrict_map_def)

lemma holding_links:
  "holding h0 d h ps \<Longrightarrow> data_first d' = data_first d \<Longrightarrow> data_last d' = data_last d \<Longrightarrow> holding h0 d' h ps"
  by (simp add: holding_def data_inv_def)

lemma holding_error [simp]:
  "holding h0 (d\<lparr>data_error_str := s\<rparr>) h ps = holding h0 d h ps"
  "holding h0 (d\<lparr>data_error_buf := b, data_error_str := s\<rparr>) h ps = holding h0 d h ps"
  "holding h0 (d\<lparr>data_handlers := x, data_nhandlers := k\<rparr>) h ps = holding h0 d h ps"
  by (simp_all add: holding_def data_inv_def)

lemma holding_same:
  "holding h0 d h ps \<Longrightarrow> same_contents h h' \<Longrightarrow> heap_ok h' \<Longrightarrow> holding h0 d h' ps"
  by (auto simp: holding_def same_contents_def data_inv_def list_payloads_def payload_owned_def parts_live_def)

text \<open>Freeing the list gives the heap back as it was.\<close>

lemma holding_clean:
  assumes "holding h0 d h ps"
  shows "\<exists>h'. mnlxt_data_clean call_free (Some d) h e = Some (Some data_zero, h', e) \<and> same_contents h0 h'"
proof -
  from assms have "data_inv h d ps" "payload_owned h (payloads (msgs h) ps)" by (simp_all add: holding_def)
  from payload_mem.clean_frees [OF this, of e] assms show ?thesis
    by (auto simp: holding_def same_contents_def list_payloads_def)
qed

lemma same_next_eq:
  "m\<lparr>msg_next := None\<rparr> = m'\<lparr>msg_next := None\<rparr> \<Longrightarrow> msg_payload m = msg_payload m' \<and> msg_handler m = msg_handler m'"
  by (cases m; cases m') simp

lemma payloads_same:
  "(\<And>p. p \<in> set ps \<Longrightarrow> map_option (\<lambda>m. m\<lparr>msg_next := None\<rparr>) (ms' p) =
     map_option (\<lambda>m. m\<lparr>msg_next := None\<rparr>) (ms p)) \<Longrightarrow> payloads ms' ps = payloads ms ps"
proof (induction ps)
  case (Cons p ps)
  have IH: "payloads ms' ps = payloads ms ps" using Cons by simp
  have "map_option (\<lambda>m. m\<lparr>msg_next := None\<rparr>) (ms' p) = map_option (\<lambda>m. m\<lparr>msg_next := None\<rparr>) (ms p)"
    using Cons.prems by simp
  then consider "ms p = None" "ms' p = None"
    | m m' where "ms p = Some m" "ms' p = Some m'" "msg_payload m' = msg_payload m" "msg_handler m' = msg_handler m"
    by (cases "ms p"; cases "ms' p") (auto dest: same_next_eq)
  then show ?case using IH by cases (simp_all split: option.split)
qed simp

lemma payloads_append: "payloads ms (ps @ qs) = payloads ms ps @ payloads ms qs"
  by (induction ps) (simp_all split: option.split)

text \<open>What was live before the new message is live after it, and is not part of the new payload.\<close>

lemma parts_live_later:
  assumes "parts_live h y" "(strs h') |` (- payload_parts x) = strs h" "(arrs h') |` (- payload_parts x) = arrs h"
  shows "payload_parts y \<inter> payload_parts x = {}" "parts_live h' y"
proof -
  have s: "strs h p = (if p \<in> payload_parts x then None else strs h' p)" for p
    by (simp add: assms(2) [symmetric] restrict_map_def)
  have a: "arrs h p = (if p \<in> payload_parts x then None else arrs h' p)" for p
    by (simp add: assms(3) [symmetric] restrict_map_def)
  show dis: "payload_parts y \<inter> payload_parts x = {}"
    using assms(1) s a by (force simp: parts_live_def payload_parts_def [of y])
  then have "p \<notin> payload_parts x" if "p \<in> set (str_parts y) \<union> set (arr_parts y)" for p
    using that by (auto simp: payload_parts_def [of y])
  then show "parts_live h' y"
    using assms(1) s a by (fastforce simp: parts_live_def)
qed

lemma owned_append:
  assumes own: "payload_owned h xs" and fresh: "objs h q = None" and cb: "cb_free cb = Some (payload_cb x)"
    and h': "objs h' = (objs h)(q \<mapsto> x)" "parts_live h' x" "(strs h') |` (- payload_parts x) = strs h"
      "(arrs h') |` (- payload_parts x) = arrs h"
  shows "payload_owned h' (xs @ [(Some cb, q)])"
proof -
  have old: "\<exists>y. objs h pl = Some y \<and> Option.bind c cb_free = Some (payload_cb y) \<and> parts_live h y \<and> pl \<noteq> q"
    if "(c, pl) \<in> set xs" for c pl
    using own that fresh unfolding payload_owned_def by fastforce
  have dis: "payload_parts y \<inter> payload_parts x = {}" "parts_live h' y" if "(c, pl) \<in> set xs" "objs h pl = Some y" for c pl y
    using old [OF that(1)] that(2) parts_live_later [OF _ h'(3,4)] by auto
  have notin: "q \<notin> snd ` set xs" using old by force
  show ?thesis
    unfolding payload_owned_def
  proof (intro conjI ballI, goal_cases)
    case 1
    then show ?case using own notin by (simp add: payload_owned_def)
  next
    case (2 z)
    obtain c pl where z: "z = (c, pl)" by (cases z)
    show ?case
    proof (cases "(c, pl) \<in> set xs")
      case True
      with old [OF True] dis(2) [OF True] h'(1) show ?thesis by (auto simp: z)
    next
      case False
      with 2 h'(1,2) cb show ?thesis by (auto simp: z)
    qed
  next
    case (3 p p')
    show ?case
    proof (intro allI impI)
      fix y y' assume a: "p \<noteq> p' \<and> objs h' p = Some y \<and> objs h' p' = Some y'"
      show "payload_parts y \<inter> payload_parts y' = {}"
      proof (cases "p = q \<or> p' = q")
        case True
        with a 3 h'(1) dis(1) show ?thesis by fastforce
      next
        case False
        with 3 have "p \<in> snd ` set xs" "p' \<in> snd ` set xs" by auto
        moreover from a False h'(1) have "p \<noteq> p'" "objs h p = Some y" "objs h p' = Some y'" by simp_all
        ultimately show ?thesis using own unfolding payload_owned_def by blast
      qed
    qed
  qed
qed

lemma holding_append:
  assumes hold: "holding h0 d h ps" and app: "appended h ps type P d' h'" and ok: "heap_ok h'"
  shows "\<exists>m. holding h0 d' h' (ps @ [m])"
proof -
  from app obtain m q x cb where
    m: "msgs h m = None" "objs h q = None" "data_inv h' d' (ps @ [m])"
      "msgs h' m = Some \<lparr>msg_next = None, msg_type = type, msg_flags = 0, msg_payload = Some q,
         msg_handler = Some cb\<rparr>" "cb_free cb = Some (payload_cb x)" "objs h' = (objs h)(q \<mapsto> x)" "parts_live h' x"
      "(strs h') |` (- payload_parts x) = strs h" "(arrs h') |` (- payload_parts x) = arrs h"
    and nx: "\<forall>p. msgs h p \<noteq> None \<longrightarrow> map_option (\<lambda>m. m\<lparr>msg_next := None\<rparr>) (msgs h' p) =
         map_option (\<lambda>m. m\<lparr>msg_next := None\<rparr>) (msgs h p)"
    and frame: "\<forall>p. p \<notin> set ps \<and> p \<noteq> m \<longrightarrow> msgs h' p = msgs h p"
    unfolding appended_def by blast
  from hold have inv: "data_inv h d ps" and own: "payload_owned h (payloads (msgs h) ps)" by (simp_all add: holding_def)
  from inv have dom: "set ps \<subseteq> dom (msgs h)" by (rule data_inv_dom)
  have pls: "payloads (msgs h') (ps @ [m]) = payloads (msgs h) ps @ [(Some cb, q)]"
    using dom nx by (simp add: payloads_append m(4)) (intro payloads_same, blast)
  have "pl \<noteq> q" if "(c, pl) \<in> set (payloads (msgs h) ps)" for c pl
    using own that m(2) unfolding payload_owned_def by fastforce
  then have q: "q \<notin> list_payloads h ps" by (force simp: list_payloads_def)
  have Q: "list_payloads h' (ps @ [m]) = insert q (list_payloads h ps)"
    by (auto simp: list_payloads_def pls)
  have A: "list_parts h' (ps @ [m]) = payload_parts x \<union> list_parts h ps"
    unfolding Q m(6) all_parts_insert using q by simp
  have "(strs h') |` (- list_parts h' (ps @ [m])) = strs h0" "(arrs h') |` (- list_parts h' (ps @ [m])) = arrs h0"
    using hold m(8,9) unfolding A holding_def by (metis Compl_Un restrict_restrict)+
  moreover have "(objs h') |` (- list_payloads h' (ps @ [m])) = objs h0"
  proof -
    have "(objs h') |` (- insert q (list_payloads h ps)) = (objs h) |` (- list_payloads h ps)"
      using m(2,6) by (auto simp: restrict_map_def fun_eq_iff)
    then show ?thesis using hold by (simp add: Q holding_def)
  qed
  moreover have "(msgs h') |` (- set (ps @ [m])) = msgs h0"
  proof -
    have "(msgs h') |` (- set (ps @ [m])) = (msgs h) |` (- set ps)"
      using frame m(1) by (auto simp: restrict_map_def fun_eq_iff)
    then show ?thesis using hold by (simp add: holding_def)
  qed
  moreover have "payload_owned h' (payloads (msgs h') (ps @ [m]))"
    unfolding pls by (rule owned_append [OF own m(2,5,6,7,8,9)])
  ultimately show ?thesis using ok m(3) unfolding holding_def by blast
qed

lemma holding_parsed:
  assumes "holding h0 d h ps" "parsed h d ps type F skip P r"
  shows "\<exists>rc d' h' e' ps'. r = Some (rc, Some d', h', e') \<and> holding h0 d' h' ps' \<and> same_handlers d d'"
proof -
  from assms(2) obtain rc d' h' e' where r: "r = Some (rc, Some d', h', e')" "heap_ok h'"
    "data_inv h' d' ps \<and> same_contents h h' \<or> d' = d \<and> h' = h \<or> appended h ps type P d' h'"
    and s: "same_handlers d d'"
    unfolding parsed_def same_contents_def by blast
  from r(3) consider "data_inv h' d' ps" "same_contents h h'" | "d' = d" "h' = h" | "appended h ps type P d' h'"
    by blast
  then have "\<exists>ps'. holding h0 d' h' ps'"
  proof cases
    case 1
    from holding_same [OF assms(1) 1(2) r(2)] 1(1) have "holding h0 d' h' ps" by (simp add: holding_def)
    then show ?thesis by blast
  next
    case 2
    with assms(1) show ?thesis by blast
  next
    case 3
    from holding_append [OF assms(1) this r(2)] show ?thesis by blast
  qed
  with r(1) s show ?thesis by blast
qed

section \<open>What is assumed of libmnl and of the sockets\<close>

text \<open>
  \<open>mnl_cb_run\<close> calls the callback on messages of the buffer only (\<open>msg_in\<close>), so what every such call keeps
  it keeps; without a callback it leaves the state alone.
\<close>

definition cb_run_laws :: "('w, 'f, 'b) netio \<Rightarrow> ('f \<Rightarrow> 'b nlmsghdr \<Rightarrow> bool) \<Rightarrow> bool" where
  "cb_run_laws io msg_in \<longleftrightarrow>
     (\<forall>I cb f sq pid s e. (\<forall>n s e. msg_in f n \<and> I s \<longrightarrow> (\<exists>rc s' e'. cb n s e = Some (rc, s', e') \<and> I s')) \<and> I s \<longrightarrow>
        (\<exists>rc s' e'. cb_run io f sq pid (Some cb) s e = Some (rc, s', e') \<and> I s')) \<and>
     (\<forall>f sq pid s e. \<exists>rc e'. cb_run io f sq pid None s e = Some (rc, s, e'))"

text \<open>
  \<open>left w\<close> bounds how often \<open>recvfrom\<close> will still deliver a datagram or be interrupted: the kernel's answer
  to a request is finite.
\<close>

definition finite_supply :: "('w, 'f, 'b) netio \<Rightarrow> ('w \<Rightarrow> nat) \<Rightarrow> bool" where
  "finite_supply io left \<longleftrightarrow>
     (\<forall>nl w e. case socket_recvfrom io nl w e of (len, f, w', e') \<Rightarrow>
        0 < len \<or> 0 > len \<and> (e' = EINTR \<or> e' = EAGAIN) \<longrightarrow> left w' < left w)"

text \<open>\<open>socks w\<close> are the open sockets: opening adds a new one, closing takes it away, nothing else changes them.\<close>

definition socket_laws :: "('w, 'f, 'b) netio \<Rightarrow> ('w \<Rightarrow> nat set) \<Rightarrow> bool" where
  "socket_laws io socks \<longleftrightarrow>
     (\<forall>bus w e. case socket_open io bus w e of (r, w', e') \<Rightarrow>
        (case r of None \<Rightarrow> socks w' = socks w | Some nl \<Rightarrow> nl \<notin> socks w \<and> socks w' = insert nl (socks w))) \<and>
     (\<forall>nl g w e. case socket_bind io nl g w e of (_, w', _) \<Rightarrow> socks w' = socks w) \<and>
     (\<forall>nl w. socks (socket_close io nl w) = socks w - {nl}) \<and>
     (\<forall>nl n w e. case socket_sendto io nl n w e of (_, w', _) \<Rightarrow> socks w' = socks w) \<and>
     (\<forall>nl w e. case socket_recvfrom io nl w e of (_, _, w', _) \<Rightarrow> socks w' = socks w)"

lemma finite_supplyD:
  assumes "finite_supply io left" "socket_recvfrom io nl w e = (len, f, w', e')"
  shows "0 < len \<or> 0 > len \<and> (e' = EINTR \<or> e' = EAGAIN) \<Longrightarrow> left w' < left w"
  using assms(1) [unfolded finite_supply_def, THEN spec [of _ nl], THEN spec [of _ w], THEN spec [of _ e]] assms(2)
  by auto

lemma socket_lawsD:
  assumes "socket_laws io socks"
  shows "socket_open io bus w e = (None, w', e') \<Longrightarrow> socks w' = socks w"
    "socket_open io bus w e = (Some nl, w', e') \<Longrightarrow> nl \<notin> socks w \<and> socks w' = insert nl (socks w)"
    "socket_bind io nl g w e = (rc, w', e') \<Longrightarrow> socks w' = socks w"
    "socks (socket_close io nl w) = socks w - {nl}"
    "socket_sendto io nl n w e = (rc, w', e') \<Longrightarrow> socks w' = socks w"
    "socket_recvfrom io nl w e = (rc, f, w', e') \<Longrightarrow> socks w' = socks w"
proof -
  note l = assms [unfolded socket_laws_def]
  show "socket_open io bus w e = (None, w', e') \<Longrightarrow> socks w' = socks w"
    using l [THEN conjunct1, THEN spec [of _ bus], THEN spec [of _ w], THEN spec [of _ e]] by simp
  show "socket_open io bus w e = (Some nl, w', e') \<Longrightarrow> nl \<notin> socks w \<and> socks w' = insert nl (socks w)"
    using l [THEN conjunct1, THEN spec [of _ bus], THEN spec [of _ w], THEN spec [of _ e]] by simp
  show "socket_bind io nl g w e = (rc, w', e') \<Longrightarrow> socks w' = socks w"
    using l [THEN conjunct2, THEN conjunct1, THEN spec [of _ nl], THEN spec [of _ g], THEN spec [of _ w],
      THEN spec [of _ e]] by simp
  show "socks (socket_close io nl w) = socks w - {nl}"
    using l by blast
  show "socket_sendto io nl n w e = (rc, w', e') \<Longrightarrow> socks w' = socks w"
    using l [THEN conjunct2, THEN conjunct2, THEN conjunct2, THEN conjunct1, THEN spec [of _ nl], THEN spec [of _ n],
      THEN spec [of _ w], THEN spec [of _ e]] by simp
  show "socket_recvfrom io nl w e = (rc, f, w', e') \<Longrightarrow> socks w' = socks w"
    using l [THEN conjunct2, THEN conjunct2, THEN conjunct2, THEN conjunct2, THEN spec [of _ nl],
      THEN spec [of _ w], THEN spec [of _ e]] by simp
qed

lemma recv_loop_returns:
  assumes fin: "finite_supply io left" and soc: "socket_laws io socks"
  shows "\<exists>r w' e'. recv_loop io nl w e = Some (r, w', e') \<and> socks w' = socks w \<and>
    (\<forall>len f. r = RecvGot len f \<and> 0 < len \<longrightarrow> left w' < left w)"
proof (induction "left w" arbitrary: w e rule: less_induct)
  case less
  obtain len f w1 e1 where r: "socket_recvfrom io nl w e = (len, f, w1, e1)"
    by (cases "socket_recvfrom io nl w e") auto
  note l = finite_supplyD [OF fin r] and k = socket_lawsD(6) [OF soc r]
  show ?case
  proof (cases "0 > len \<and> EWOULDBLOCK \<noteq> e1 \<and> (EINTR = e1 \<or> EAGAIN = e1)")
    case True
    with l have "left w1 < left w" by auto
    from less [OF this, of e1] obtain r' w' e' where
      "recv_loop io nl w1 e1 = Some (r', w', e')" "socks w' = socks w1"
      "\<forall>len f. r' = RecvGot len f \<and> 0 < len \<longrightarrow> left w' < left w1" by blast
    moreover from this(3) \<open>left w1 < left w\<close> have "\<forall>len f. r' = RecvGot len f \<and> 0 < len \<longrightarrow> left w' < left w"
      using less_trans by blast
    ultimately show ?thesis using True k by (subst recv_loop.simps) (auto simp: r)
  next
    case False
    then show ?thesis using l k by (subst recv_loop.simps) (auto simp: r)
  qed
qed

lemma receive_returns:
  assumes "finite_supply io left" "socket_laws io socks"
  shows "\<exists>ret hnd' b' w' e'. mnlxt_receive io (Some hnd) (Some b) w e = Some (ret, Some hnd', Some b', w', e') \<and>
    h_nl hnd' = h_nl hnd \<and> socks w' = socks w \<and> (0 < ret \<longrightarrow> left w' < left w)"
proof (cases "h_nl hnd")
  case None
  then show ?thesis by (simp add: mnlxt_receive_def)
next
  case (Some nl)
  from recv_loop_returns [OF assms, of nl w e] obtain r w' e' where
    r: "recv_loop io nl w e = Some (r, w', e')" "socks w' = socks w"
      "\<forall>len f. r = RecvGot len f \<and> 0 < len \<longrightarrow> left w' < left w" by blast
  then show ?thesis using Some by (cases r) (auto simp: mnlxt_receive_def Let_def)
qed

text \<open>Without a parser the dispatch changes at most the error texts.\<close>

lemma data_cb_unhandled:
  assumes "\<not> NLM_F_DUMP_INTR AND nlmsg_flags n \<noteq> 0" "data_parse_cb d (nlmsg_type n) = None"
  shows "\<exists>rc d' e'. mnlxt_data_cb io cbs (Some n) (Some d) h e = Some (rc, Some d', h, e') \<and>
    data_first d' = data_first d \<and> data_last d' = data_last d \<and> same_handlers d d'"
proof -
  let ?short = "nlmsgerr_short io (nlmsg_body n)" and ?err = "nlmsgerr_error io (nlmsg_body n)"
  from assms(1) have i: "(NLM_F_DUMP_INTR AND nlmsg_flags n \<noteq> 0) = False" by simp
  show ?thesis
    unfolding mnlxt_data_cb_def option.case prod.case i if_False assms(2) Let_def
    apply (cases "NLMSG_ERROR = nlmsg_type n"; cases ?short; cases "0 \<noteq> ?err";
        cases "NLMSG_NOOP = nlmsg_type n \<or> NLMSG_OVERRUN = nlmsg_type n"; cases "NLMSG_DONE = nlmsg_type n")
    by (simp_all only: if_True if_False simp_thms option.inject prod.inject ex_simps)
      (auto)
qed

lemma cb_run_lawsD:
  assumes "cb_run_laws io msg_in"
  shows "(\<And>n s e. msg_in f n \<Longrightarrow> I s \<Longrightarrow> \<exists>rc s' e'. cb n s e = Some (rc, s', e') \<and> I s') \<Longrightarrow> I s \<Longrightarrow>
      \<exists>rc s' e'. cb_run io f sq pid (Some cb) s e = Some (rc, s', e') \<and> I s'"
    "\<exists>rc e'. cb_run io f sq pid None s e = Some (rc, s, e')"
  using assms [unfolded cb_run_laws_def, THEN conjunct1, THEN spec [of _ I], THEN spec [of _ cb], THEN spec [of _ f],
      THEN spec [of _ sq], THEN spec [of _ pid], THEN spec [of _ s], THEN spec [of _ e], THEN mp]
    assms [unfolded cb_run_laws_def, THEN conjunct2, THEN spec [of _ f], THEN spec [of _ sq], THEN spec [of _ pid],
      THEN spec [of _ s], THEN spec [of _ e]]
  by blast+

text \<open>What \<open>mnlxt_data_parse\<close> makes of the result of \<open>mnl_cb_run\<close>.\<close>

lemma data_parse_run:
  assumes b: "Option.bind buffer (\<lambda>b. if b_len b = 0 then None else map_option (Pair b) (b_buf b)) = Some (b, f)"
  shows "cb_run io f (b_seq b) (b_portid b) None (data_zero, h) e = Some (ret, s', e') \<Longrightarrow>
      \<exists>rc. mnlxt_data_parse io cbs None buffer h e = Some (rc, None, snd s', e')"
    "cb_run io f (b_seq b) (b_portid b) (Some (data_cb_fn io cbs))
        (if data_handlers d = None
         then d\<lparr>data_handlers := b_data_handlers b, data_nhandlers := b_data_nhandlers b\<rparr> else d, h) e = Some (ret, s', e') \<Longrightarrow>
      \<exists>rc d'. mnlxt_data_parse io cbs (Some d) buffer h e = Some (rc, Some d', snd s', e') \<and>
        data_first d' = data_first (fst s') \<and> data_last d' = data_last (fst s') \<and> same_handlers (fst s') d'"
  unfolding mnlxt_data_parse_def b option.case prod.case Let_def option.map
  by (cases s'; cases "MNL_CB_ERROR = ret"; cases "MNL_CB_STOP = ret"; auto)+

section \<open>The contract between the core and the parsers\<close>

text \<open>\<open>good\<close> are the messages for which the parser's contract holds.\<close>

locale message_parser =
  fixes parse :: "'b nlmsghdr \<Rightarrow> mnlxt_data_t \<Rightarrow> pheap \<Rightarrow> errno \<Rightarrow>
      (int \<times> mnlxt_data_t option \<times> pheap \<times> errno) option"
    and good :: "'b nlmsghdr \<Rightarrow> bool"
  assumes contract: "good n \<Longrightarrow> heap_ok h \<Longrightarrow> data_inv h d ps \<Longrightarrow>
      parsed h d ps (nlmsg_type n) (\<lambda>_. True) True (\<lambda>_ _. True) (parse n d h e)"
begin

lemma parse_keeps:
  assumes "good n" "holding h0 d h ps"
  shows "\<exists>rc d' h' e' ps'. parse n d h e = Some (rc, Some d', h', e') \<and> holding h0 d' h' ps' \<and> same_handlers d d'"
proof (rule holding_parsed [OF assms(2)])
  from assms(2) have "heap_ok h" "data_inv h d ps" by (simp_all add: holding_def)
  from contract [OF assms(1) this]
  show "parsed h d ps (nlmsg_type n) (\<lambda>_. True) True (\<lambda>_ _. True) (parse n d h e)" .
qed

end

text \<open>A data object that may be NULL: without one the heap does not change at all.\<close>

definition data_ok :: "pheap \<Rightarrow> mnlxt_data_t option \<Rightarrow> pheap \<Rightarrow> bool" where
  "data_ok h0 data h \<longleftrightarrow> (case data of None \<Rightarrow> h = h0 | Some d \<Rightarrow> \<exists>ps. holding h0 d h ps)"

lemma data_ok_simps [simp]:
  "data_ok h0 None h = (h = h0)" "data_ok h0 (Some d) h = (\<exists>ps. holding h0 d h ps)"
  by (simp_all add: data_ok_def)

lemma data_ok_error [simp]: "data_ok h0 (data_set_error s data) h = data_ok h0 data h"
  by (cases data) (simp_all add: data_set_error_def)

lemma data_set_error_None [simp]: "(data_set_error s data = None) = (data = None)"
  by (simp add: data_set_error_def)

text \<open>
  \<open>fit_for good msg_in d\<close>: \<open>d\<close> has a table of handlers, and each message that may come is good for the parser
  that the table gives it to.
\<close>

definition fit_for ::
  "(mnlxt_cb \<Rightarrow> 'b nlmsghdr \<Rightarrow> bool) \<Rightarrow> ('f \<Rightarrow> 'b nlmsghdr \<Rightarrow> bool) \<Rightarrow> mnlxt_data_t \<Rightarrow> bool" where
  "fit_for good msg_in d \<longleftrightarrow>
     data_handlers d \<noteq> None \<and> (\<forall>f n c. msg_in f n \<and> data_parse_cb d (nlmsg_type n) = Some c \<longrightarrow> good c n)"

lemma fit_for_same: "same_handlers d d' \<Longrightarrow> fit_for good msg_in d' = fit_for good msg_in d"
  by (simp add: fit_for_def same_handlers_def data_parse_cb_def)

lemma fit_for_option:
  "rel_option same_handlers data data' \<Longrightarrow> pred_option (fit_for good msg_in) data \<Longrightarrow>
     pred_option (fit_for good msg_in) data'"
  by (cases data; cases data') (simp_all add: fit_for_same)

lemma rel_handlers_trans:
  "rel_option same_handlers x y \<Longrightarrow> rel_option same_handlers y z \<Longrightarrow> rel_option same_handlers x z"
  by (cases x; cases y; cases z) (auto intro: same_handlers_trans)

lemma rel_handlers_simps [simp]:
  "rel_option same_handlers x x" "rel_option same_handlers x (data_set_error s y) = rel_option same_handlers x y"
  by (cases x; cases y; simp add: data_set_error_def)+

text \<open>The parsers behind a table of callbacks.\<close>

locale parsers =
  fixes cbs :: "'b callbacks" and good :: "mnlxt_cb \<Rightarrow> 'b nlmsghdr \<Rightarrow> bool"
  assumes each: "message_parser (call_parse cbs c) (good c)"
begin

lemma data_cb_keeps:
  assumes "fit_for good msg_in d" "msg_in f n" "holding h0 d h ps"
  shows "\<exists>rc d' h' e' ps'. mnlxt_data_cb io cbs (Some n) (Some d) h e = Some (rc, Some d', h', e') \<and>
    holding h0 d' h' ps' \<and> same_handlers d d'"
proof (cases "NLM_F_DUMP_INTR AND nlmsg_flags n \<noteq> 0")
  case True
  then show ?thesis using assms(3) by (auto simp: mnlxt_data_cb_def)
next
  case no_intr: False
  show ?thesis
  proof (cases "data_parse_cb d (nlmsg_type n)")
    case (Some c)
    with assms(1,2) have "good c n" by (auto simp: fit_for_def)
    moreover from no_intr Some have "mnlxt_data_cb io cbs (Some n) (Some d) h e = call_parse cbs c n d h e"
      by (simp add: mnlxt_data_cb_def)
    ultimately show ?thesis using message_parser.parse_keeps [OF each _ assms(3)] by simp
  next
    case None
    from data_cb_unhandled [OF no_intr None] obtain rc d' e'
      where r: "mnlxt_data_cb io cbs (Some n) (Some d) h e = Some (rc, Some d', h, e')"
      "data_first d' = data_first d" "data_last d' = data_last d" "same_handlers d d'" by blast
    from holding_links [OF assms(3) r(2,3)] r(1,4) show ?thesis by blast
  qed
qed

lemma data_parse_keeps:
  assumes run: "cb_run_laws io msg_in" and fit: "pred_option (fit_for good msg_in) data" and ok: "data_ok h0 data h"
  shows "\<exists>rc data' h' e'. mnlxt_data_parse io cbs data buffer h e = Some (rc, data', h', e') \<and> data_ok h0 data' h' \<and>
    rel_option same_handlers data data'"
proof (cases "Option.bind buffer (\<lambda>b. if b_len b = 0 then None else map_option (Pair b) (b_buf b))")
  case None
  have "mnlxt_data_parse io cbs data buffer h e = Some (- 1, data, h, EINVAL)"
    unfolding mnlxt_data_parse_def None by simp
  with ok show ?thesis by (metis rel_handlers_simps(1))
next
  case (Some p)
  obtain b f where p: "p = (b, f)" by (cases p)
  note parse = data_parse_run [OF Some [unfolded p]]
  show ?thesis
  proof (cases data)
    case None
    from cb_run_lawsD(2) [OF run] obtain rc e' where
      "cb_run io f (b_seq b) (b_portid b) None (data_zero, h) e = Some (rc, (data_zero, h), e')" by blast
    from parse(1) [OF this, of cbs] None ok show ?thesis by auto
  next
    case d: (Some d)
    let ?I = "\<lambda>s. same_handlers d (fst s) \<and> (\<exists>ps. holding h0 (fst s) (snd s) ps)"
    have step: "\<exists>rc s' e'. data_cb_fn io cbs n s e = Some (rc, s', e') \<and> ?I s'" if m: "msg_in f n" and I: "?I s" for n s e
    proof -
      from I obtain ps where ps: "holding h0 (fst s) (snd s) ps" by blast
      from I fit d have "fit_for good msg_in (fst s)" using fit_for_same [of d "fst s" good msg_in] by simp
      from data_cb_keeps [OF this m ps, of io e] obtain rc d' h' e' ps' where
        "mnlxt_data_cb io cbs (Some n) (Some (fst s)) (snd s) e = Some (rc, Some d', h', e')" "holding h0 d' h' ps'"
        "same_handlers (fst s) d'" by blast
      with I show ?thesis unfolding data_cb_fn_def by (auto intro: same_handlers_trans)
    qed
    have "?I (d, h)" using ok d by auto
    with step have "\<exists>rc s' e'. cb_run io f (b_seq b) (b_portid b) (Some (data_cb_fn io cbs)) (d, h) e =
        Some (rc, s', e') \<and> ?I s'"
      by (rule cb_run_lawsD(1) [OF run])
    then obtain rc s' e' ps where
      s': "cb_run io f (b_seq b) (b_portid b) (Some (data_cb_fn io cbs)) (d, h) e = Some (rc, s', e')"
        "same_handlers d (fst s')" "holding h0 (fst s') (snd s') ps" by blast
    moreover from fit d have "data_handlers d \<noteq> None" by (simp add: fit_for_def)
    ultimately obtain rc d' where
      "mnlxt_data_parse io cbs (Some d) buffer h e = Some (rc, Some d', snd s', e')"
      "data_first d' = data_first (fst s')" "data_last d' = data_last (fst s')" "same_handlers (fst s') d'"
      using parse(2) [of io cbs d h e rc s' e'] by auto
    with holding_links [OF s'(3)] same_handlers_trans [OF s'(2)] d show ?thesis by fastforce
  qed
qed

text \<open>A request whose answers are finite ends, and keeps what the data object and the sockets were.\<close>

lemma request_loop_keeps:
  assumes laws: "cb_run_laws io msg_in" "finite_supply io left" "socket_laws io socks"
    and fit: "pred_option (fit_for good msg_in) data" and ok: "data_ok h0 data h"
  shows "\<exists>rc hnd' data' h' w' e'. request_loop io cbs (Some hnd) (Some b) data h w e = Some (rc, Some hnd', data', h', w', e') \<and>
    data_ok h0 data' h' \<and> rel_option same_handlers data data' \<and> h_nl hnd' = h_nl hnd \<and> socks w' = socks w"
  using fit ok
proof (induction "left w" arbitrary: hnd b data h w e rule: less_induct)
  case less
  from receive_returns [OF laws(2,3), of hnd b w e] obtain ret hnd1 b1 w1 e1 where
    r: "mnlxt_receive io (Some hnd) (Some b) w e = Some (ret, Some hnd1, Some b1, w1, e1)"
      "h_nl hnd1 = h_nl hnd" "socks w1 = socks w" "0 < ret \<Longrightarrow> left w1 < left w" by blast
  from data_parse_keeps [OF laws(1) less.prems, where buffer = "Some b1" and e = e1] obtain ret2 data2 h2 e2 where
    p: "mnlxt_data_parse io cbs data (Some b1) h e1 = Some (ret2, data2, h2, e2)" "data_ok h0 data2 h2"
      "rel_option same_handlers data data2" by blast
  note step = request_loop.simps [of io cbs "Some hnd" "Some b" data h w e, unfolded r(1) Option.bind.simps prod.case]
  show ?case
  proof (cases "0 < ret")
    case True
    show ?thesis
    proof (cases "ret2 = 0")
      case loop: True
      from less.hyps [OF r(4) [OF True] fit_for_option [OF p(3) less.prems(1)] p(2), of hnd1 buffer_zero e2]
      obtain rc hnd' data' h' w' e' where
        "request_loop io cbs (Some hnd1) (Some buffer_zero) data2 h2 w1 e2 = Some (rc, Some hnd', data', h', w', e')"
        "data_ok h0 data' h'" "rel_option same_handlers data2 data'" "h_nl hnd' = h_nl hnd1" "socks w' = socks w1" by blast
      with True loop r(2,3) p(1) rel_handlers_trans [OF p(3)] show ?thesis by (simp add: step mnlxt_buffer_clean_def)
    next
      case False
      with True r(2,3) p show ?thesis by (simp add: step)
    qed
  next
    case False
    with less.prems r(2,3) show ?thesis by (simp add: step)
  qed
qed

lemma request_keeps:
  assumes laws: "cb_run_laws io msg_in" "finite_supply io left" "socket_laws io socks"
    and fit: "pred_option (fit_for good msg_in) data" and ok: "data_ok h0 data h"
  shows "\<exists>rc data' h' w' e'. mnlxt_request io cbs nlh bus data h w e = Some (rc, data', h', w', e') \<and>
    data_ok h0 data' h' \<and> rel_option same_handlers data data' \<and> socks w' = socks w"
proof (cases nlh)
  case None
  with ok show ?thesis by (simp add: mnlxt_request_def)
next
  case n: (Some n)
  note k = socket_lawsD [OF laws(3)]
  obtain r w1 e1 where o: "socket_open io bus w e = (r, w1, e1)" by (cases "socket_open io bus w e") auto
  show ?thesis
  proof (cases r)
    case None
    with n o ok k(1) show ?thesis by (simp add: mnlxt_request_def mnlxt_connect_def)
  next
    case (Some nl)
    obtain rc w2 e2 where b: "socket_bind io nl 0 w1 e1 = (rc, w2, e2)" by (cases "socket_bind io nl 0 w1 e1") auto
    from k(2) [OF o [unfolded Some]] k(3) [OF b] have s2: "nl \<notin> socks w" "socks w2 = insert nl (socks w)" by simp_all
    show ?thesis
    proof (cases "rc < 0")
      case True
      with n o Some b ok s2 show ?thesis by (simp add: mnlxt_request_def mnlxt_connect_def k(4))
    next
      case False
      let ?h = "handle_zero\<lparr>h_nl := Some nl, h_seq := clock io w2\<rparr>"
      from False have c: "mnlxt_connect io (Some handle_zero) bus 0 w e = (0, Some ?h, w2, e2)"
        by (simp add: mnlxt_connect_def o Some b)
      let ?h1 = "?h\<lparr>h_seq := h_seq ?h + 1\<rparr>" and ?n = "n\<lparr>nlmsg_seq := h_seq ?h + 1\<rparr>"
      obtain sent w3 e3 where t: "socket_sendto io nl ?n w2 e2 = (sent, w3, e3)" by (cases "socket_sendto io nl ?n w2 e2") auto
      define h2 where "h2 = (if 0 > sent then ?h1\<lparr>h_error_str := Some ''send failed''\<rparr> else ?h1)"
      have snd: "mnlxt_send io ?h n w2 e2 = Some (sent, h2, ?n, w3, e3)"
        using t by (simp add: mnlxt_send_def h2_def)
      have nl: "h_nl h2 = Some nl" by (simp add: h2_def)
      from request_loop_keeps [OF laws fit ok, where hnd = h2 and b = buffer_zero and w = w3 and e = e3] obtain rc4 h4 d4 hp4 w4 e4 where
        loop: "request_loop io cbs (Some h2) (Some buffer_zero) data h w3 e3 = Some (rc4, Some h4, d4, hp4, w4, e4)"
          "data_ok h0 d4 hp4" "rel_option same_handlers data d4" "h_nl h4 = h_nl h2" "socks w4 = socks w3" by blast
      have s3: "socks w3 - {nl} = socks w" using k(5) [OF t] s2 by simp
      note req = mnlxt_request_def [of io cbs "Some n" bus data h w e, unfolded option.case c prod.case if_True simp_thms snd
          bind_simps]
      show ?thesis
      proof (cases "0 < sent")
        case True
        then show ?thesis using loop nl s3 by (simp add: n req mnlxt_disconnect_def k(4))
      next
        case False
        then show ?thesis using ok nl s3
          by (cases "h_error_str h2") (simp_all add: n req mnlxt_disconnect_def k(4))
      qed
    qed
  qed
qed

lemma data_dump_keeps:
  assumes laws: "cb_run_laws io msg_in" "finite_supply io left" "socket_laws io socks"
    and fit: "fit_for good msg_in d" and hold: "holding h0 d h ps"
  shows "\<exists>rc d' h' w' e' ps'. mnlxt_data_dump io cbs (Some d) bus (Some n) h w e = Some (rc, Some d', h', w', e') \<and>
    holding h0 d' h' ps' \<and> same_handlers d d' \<and> socks w' = socks w"
proof -
  from hold fit have "data_ok h0 (Some d) h" "pred_option (fit_for good msg_in) (Some d)" by auto
  from request_keeps [OF laws this(2,1), where nlh = "Some (n\<lparr>nlmsg_flags := NLM_F_REQUEST OR NLM_F_DUMP\<rparr>)" and bus = bus
      and w = w and e = e]
  show ?thesis by (auto simp: mnlxt_data_dump_def option_rel_Some1)
qed

lemma rt_data_dump_keeps:
  assumes laws: "cb_run_laws io msg_in" "finite_supply io left" "socket_laws io socks"
    and fit: "fit_for good msg_in (d\<lparr>data_handlers := Some rt_data_handlers, data_nhandlers := rt_data_nhandlers\<rparr>)"
    and hold: "holding h0 d h ps"
  shows "\<exists>rc d' h' w' e' ps'. mnlxt_rt_data_dump io cbs (Some d) type family h w e = Some (rc, Some d', h', w', e') \<and>
    holding h0 d' h' ps' \<and> socks w' = socks w"
  unfolding mnlxt_rt_data_dump_def option.case
  using data_dump_keeps [OF laws fit, where h = h and ps = ps] hold by (simp only: holding_error) blast

lemma xfrm_data_dump_keeps:
  assumes laws: "cb_run_laws io msg_in" "finite_supply io left" "socket_laws io socks"
    and fit: "fit_for good msg_in (d\<lparr>data_handlers := Some xfrm_data_handlers, data_nhandlers := xfrm_data_nhandlers\<rparr>)"
    and hold: "holding h0 d h ps"
  shows "\<exists>rc d' h' w' e' ps'. mnlxt_xfrm_data_dump io cbs (Some d) type h w e = Some (rc, Some d', h', w', e') \<and>
    holding h0 d' h' ps' \<and> socks w' = socks w"
  unfolding mnlxt_xfrm_data_dump_def option.case
  using data_dump_keeps [OF laws fit, where h = h and ps = ps] hold by (simp only: holding_error) blast

text \<open>A message is sent without touching the heap, whatever the kernel answers.\<close>

lemma message_request_keeps:
  assumes laws: "cb_run_laws io msg_in" "finite_supply io left" "socket_laws io socks"
    and put: "\<And>c nlh. Option.bind (msg_handler m) cb_put = Some c \<Longrightarrow> call_put cbs c nlh (msg_payload m) (msg_type m) h e \<noteq> None"
  shows "\<exists>rc w' e'. mnlxt_message_request io cbs (Some m) bus h w e = Some (rc, h, w', e') \<and> socks w' = socks w"
proof -
  have "mnlxt_msghdr_create io cbs m h w e \<noteq> None"
    using put by (simp add: mnlxt_msghdr_create_def Let_def split: option.split del: not_None_eq)
  then obtain nlh e1 where c: "mnlxt_msghdr_create io cbs m h w e = Some (nlh, e1)" by auto
  show ?thesis
  proof (cases nlh)
    case None
    with c show ?thesis by (simp add: mnlxt_message_request_def)
  next
    case (Some n)
    have "data_ok h None h" "pred_option (fit_for good msg_in) None" by simp_all
    from request_keeps [OF laws this(2,1), where bus = bus and w = w and e = e1] have
      "\<exists>rc w' e'. mnlxt_request io cbs nlh bus None h w e1 = Some (rc, None, h, w', e') \<and> socks w' = socks w" for nlh
      by force
    then have "\<exists>rc w' e'. map_option (\<lambda>(rc, _, h', w', e'). (rc, h', w', e')) (mnlxt_request io cbs nlh bus None h w e1) =
        Some (rc, h, w', e') \<and> socks w' = socks w" for nlh
      by (metis (mono_tags, lifting) case_prod_conv option.simps(9))
    then show ?thesis unfolding mnlxt_message_request_def option.case c Some Option.bind.simps prod.case Let_def by blast
  qed
qed

lemma send_message_keeps:
  assumes laws: "cb_run_laws io msg_in" "finite_supply io left" "socket_laws io socks"
    and m: "msgs h q = Some m" and th: "type_handler (msg_type m) e = Some (Some c, e1)"
    and put: "\<And>p nlh. cb_put c = Some p \<Longrightarrow> call_put cbs p nlh (msg_payload m) (msg_type m)
      (h\<lparr>msgs := (msgs h)(q \<mapsto> m\<lparr>msg_handler := Some c\<rparr>)\<rparr>) e1 \<noteq> None"
  shows "\<exists>rc w' e'. send_message io cbs type_handler bus (Some q) h w e =
      Some (rc, h\<lparr>msgs := (msgs h)(q \<mapsto> m\<lparr>msg_handler := Some c\<rparr>)\<rparr>, w', e') \<and> socks w' = socks w"
proof -
  have "\<exists>rc w' e'. mnlxt_message_request io cbs (Some (m\<lparr>msg_handler := Some c\<rparr>)) bus
      (h\<lparr>msgs := (msgs h)(q \<mapsto> m\<lparr>msg_handler := Some c\<rparr>)\<rparr>) w e1 =
      Some (rc, h\<lparr>msgs := (msgs h)(q \<mapsto> m\<lparr>msg_handler := Some c\<rparr>)\<rparr>, w', e') \<and> socks w' = socks w"
    by (rule message_request_keeps [OF laws]) (simp add: put del: not_None_eq)
  then show ?thesis by (simp add: send_message_def m th Let_def)
qed

text \<open>
  A request around an object: the message is built, sent and freed again, and the object stays the caller's.
\<close>

lemma message_round:
  assumes laws: "cb_run_laws io msg_in" "finite_supply io left" "socket_laws io socks"
    and get: "\<And>m. get (Some m) = (if msg_type m \<in> T then msg_payload m else None)" "type \<in> T"
    and th: "\<And>e. type_handler type e = Some (Some c, e)"
    and put: "\<And>p nlh h' e. objs h' = objs h \<Longrightarrow> strs h' = strs h \<Longrightarrow> arrs h' = arrs h \<Longrightarrow> cb_put c = Some p \<Longrightarrow>
      call_put cbs p nlh (Some q) type h' e \<noteq> None"
    and ok: "heap_ok h"
  obtains (null) h' where "message_with type flags (Some q) c h e = (None, h', ENOMEM)" "same_contents h h'" "heap_ok h'"
  | (sent) m h1 rc w' e' h2 h' where "message_with type flags (Some q) c h e = (Some m, h1, e)"
      "send_message io cbs type_handler bus (Some m) h1 w e = Some (rc, h1, w', e')" "objs h1 = objs h"
      "take_payload get (Some m) h1 = Some (Some q, h2)" "mnlxt_message_free call_free (Some m) h2 = Some h'"
      "same_contents h h'" "heap_ok h'" "socks w' = socks w"
  using ok
proof (cases rule: message_with_cases [of h type flags "Some q" c e])
  case (null h')
  then show thesis by (intro that(1)) (simp_all add: same_contents_def)
next
  case (new m)
  let ?m = "\<lparr>msg_next = None, msg_type = type, msg_flags = flags, msg_payload = Some q, msg_handler = Some c\<rparr>"
  let ?h = "h\<lparr>brk := Suc (brk h), msgs := (msgs h)(m \<mapsto> ?m)\<rparr>"
  have "\<exists>rc w' e'. send_message io cbs type_handler bus (Some m) ?h w e =
      Some (rc, ?h\<lparr>msgs := (msgs ?h)(m \<mapsto> ?m\<lparr>msg_handler := Some c\<rparr>)\<rparr>, w', e') \<and> socks w' = socks w"
    by (rule send_message_keeps [OF laws, where ?e1.0 = e]) (simp_all add: th put del: not_None_eq)
  then obtain rc w' e' where s: "send_message io cbs type_handler bus (Some m) ?h w e = Some (rc, ?h, w', e')"
    "socks w' = socks w" by auto
  let ?h' = "?h\<lparr>msgs := msgs h\<rparr>"
  have "heap_ok ?h'" using ok by (auto simp: heap_ok_def less_Suc_eq)
  moreover have "take_payload get (Some m) ?h = Some (Some q, ?h\<lparr>msgs := (msgs h)(m \<mapsto> ?m\<lparr>msg_payload := None\<rparr>)\<rparr>)"
    by (simp add: take_payload_def get)
  moreover have "mnlxt_message_free call_free (Some m) (?h\<lparr>msgs := (msgs h)(m \<mapsto> ?m\<lparr>msg_payload := None\<rparr>)\<rparr>) = Some ?h'"
    using new(3) by (simp add: mnlxt_message_free_def free_msg_def fun_upd_idem)
  ultimately show thesis
    using s new(1) by (intro that(2) [of m ?h rc w' e']) (simp_all add: same_contents_def)
qed

lemma object_request_keeps:
  assumes laws: "cb_run_laws io msg_in" "finite_supply io left" "socket_laws io socks"
    and get: "\<And>m. get (Some m) = (if msg_type m \<in> T then msg_payload m else None)" "type \<in> T"
    and th: "\<And>e. type_handler type e = Some (Some c, e)"
    and msg: "message (Some q) h e = Some (message_with type flags (Some q) c h e)"
    and put: "\<And>p nlh h' e. objs h' = objs h \<Longrightarrow> strs h' = strs h \<Longrightarrow> arrs h' = arrs h \<Longrightarrow> cb_put c = Some p \<Longrightarrow>
      call_put cbs p nlh (Some q) type h' e \<noteq> None"
    and ok: "heap_ok h"
  shows "\<exists>rc h' w' e'. object_request message (take_payload get) (send_message io cbs type_handler bus) (Some q) h w e =
      Some (rc, h', w', e') \<and> same_contents h h' \<and> heap_ok h' \<and> socks w' = socks w"
  by (rule message_round [where get = get and T = T and type = type and type_handler = type_handler and c = c and h = h
      and q = q and flags = flags and bus = bus and w = w and e = e, OF laws get th put ok])
    (simp_all add: object_request_def msg)

end

end
