(* ===== verification/Library.thy ===== *)
theory Library
  imports Session
begin

text \<open>
  The library put together: the callback wrappers of include/libmnlxt/*.h, the table of all callbacks, and
  the proof that its parsers keep the contract of the core. On it rest the properties of whole requests: a dump
  or a request returns, keeps the heap and closes its socket.
\<close>

section \<open>The callback wrappers (include/libmnlxt/*.h)\<close>

text \<open>The functions of libmnl, for the header struct of each family, and the two build options.\<close>

record ('b, 'a) mnl_funs =
  mnl_rt :: "('b, 'a) rt_mnl"
  mnl_fr :: "('b, 'a) fr_mnl"
  mnl_ifa :: "('b, 'a) ifa_mnl"
  mnl_ifi :: "('b, 'a) ifi_mnl"
  mnl_xpinfo :: "('b, 'a) xpinfo_mnl"
  mnl_xpid :: "('b, 'a) xpid_mnl"
  ifa_flags_ext :: bool
  link_options :: link_build

text \<open>The object behind a \<open>const void *\<close>, undefined for a dangling one.\<close>

definition deref :: "(payload \<Rightarrow> 'o option) \<Rightarrow> pheap \<Rightarrow> ptr option \<Rightarrow> 'o option option" where
  "deref sel h p = (case p of None \<Rightarrow> Some None | Some q \<Rightarrow> map_option Some (obj_at sel h q))"

text \<open>The header that a \<open>put\<close> function was given is still there afterwards.\<close>

definition put_result :: "'b nlmsghdr \<Rightarrow> int \<times> 'b nlmsghdr option \<times> errno \<Rightarrow> int \<times> 'b nlmsghdr \<times> errno" where
  "put_result n r = (case r of (rc, n', e) \<Rightarrow> (rc, case n' of None \<Rightarrow> n | Some m \<Rightarrow> m, e))"

definition mnlxt_rt_route_PUT ::
  "('b, 'a) mnl_funs \<Rightarrow> 'b nlmsghdr \<Rightarrow> ptr option \<Rightarrow> u16 \<Rightarrow> pheap \<Rightarrow> errno \<Rightarrow> (int \<times> 'b nlmsghdr \<times> errno) option" where
  "mnlxt_rt_route_PUT L nlh route nlmsg_ty h e =
     map_option (\<lambda>r. put_result nlh (mnlxt_rt_route_put (mnl_rt L) (Some nlh) r e)) (deref un_PRoute h route)"

definition mnlxt_rt_rule_PUT ::
  "('b, 'a) mnl_funs \<Rightarrow> 'b nlmsghdr \<Rightarrow> ptr option \<Rightarrow> u16 \<Rightarrow> pheap \<Rightarrow> errno \<Rightarrow> (int \<times> 'b nlmsghdr \<times> errno) option" where
  "mnlxt_rt_rule_PUT L nlh rule nlmsg_ty h e =
     Option.bind (deref un_PRule h rule)
       (\<lambda>r. map_option (put_result nlh) (mnlxt_rt_rule_put (mnl_fr L) h (Some nlh) r e))"

definition mnlxt_rt_addr_PUT ::
  "('b, 'a) mnl_funs \<Rightarrow> 'b nlmsghdr \<Rightarrow> ptr option \<Rightarrow> u16 \<Rightarrow> pheap \<Rightarrow> errno \<Rightarrow> (int \<times> 'b nlmsghdr \<times> errno) option" where
  "mnlxt_rt_addr_PUT L nlh addr nlmsg_ty h e =
     Option.bind (deref un_PAddr h addr)
       (\<lambda>a. map_option (put_result nlh) (mnlxt_rt_addr_put (ifa_flags_ext L) (mnl_ifa L) h (Some nlh) a e))"

definition mnlxt_rt_link_PUT ::
  "('b, 'a) mnl_funs \<Rightarrow> 'b nlmsghdr \<Rightarrow> ptr option \<Rightarrow> u16 \<Rightarrow> pheap \<Rightarrow> errno \<Rightarrow> (int \<times> 'b nlmsghdr \<times> errno) option" where
  "mnlxt_rt_link_PUT L nlh link nlmsg_ty h e =
     map_option (\<lambda>l. put_result nlh (mnlxt_rt_link_put (link_options L) (mnl_ifi L) (Some nlh) l e)) (deref un_PLink h link)"

definition mnlxt_xfrm_policy_PUT ::
  "('b, 'a) mnl_funs \<Rightarrow> 'b nlmsghdr \<Rightarrow> ptr option \<Rightarrow> u16 \<Rightarrow> pheap \<Rightarrow> errno \<Rightarrow> (int \<times> 'b nlmsghdr \<times> errno) option" where
  "mnlxt_xfrm_policy_PUT L nlh policy nlmsg_ty h e =
     map_option (\<lambda>p. put_result nlh (mnlxt_xfrm_policy_put (mnl_xpinfo L) (mnl_xpid L) (Some nlh) p nlmsg_ty e))
       (deref un_PPolicy h policy)"

definition mnlxt_rt_route_DATA ::
  "('b, 'a) mnl_funs \<Rightarrow> 'b nlmsghdr \<Rightarrow> mnlxt_data_t \<Rightarrow> pheap \<Rightarrow> errno \<Rightarrow>
     (int \<times> mnlxt_data_t option \<times> pheap \<times> errno) option" where
  "mnlxt_rt_route_DATA L nlh data h e = mnlxt_rt_route_data (mnl_rt L) (Some nlh) (Some data) h e"

definition mnlxt_rt_rule_DATA ::
  "('b, 'a) mnl_funs \<Rightarrow> 'b nlmsghdr \<Rightarrow> mnlxt_data_t \<Rightarrow> pheap \<Rightarrow> errno \<Rightarrow>
     (int \<times> mnlxt_data_t option \<times> pheap \<times> errno) option" where
  "mnlxt_rt_rule_DATA L nlh data h e = mnlxt_rt_rule_data (mnl_fr L) (Some nlh) (Some data) h e"

definition mnlxt_rt_addr_DATA ::
  "('b, 'a) mnl_funs \<Rightarrow> 'b nlmsghdr \<Rightarrow> mnlxt_data_t \<Rightarrow> pheap \<Rightarrow> errno \<Rightarrow>
     (int \<times> mnlxt_data_t option \<times> pheap \<times> errno) option" where
  "mnlxt_rt_addr_DATA L nlh data h e = mnlxt_rt_addr_data (ifa_flags_ext L) (mnl_ifa L) (Some nlh) (Some data) h e"

definition mnlxt_rt_link_DATA ::
  "('b, 'a) mnl_funs \<Rightarrow> 'b nlmsghdr \<Rightarrow> mnlxt_data_t \<Rightarrow> pheap \<Rightarrow> errno \<Rightarrow>
     (int \<times> mnlxt_data_t option \<times> pheap \<times> errno) option" where
  "mnlxt_rt_link_DATA L nlh data h e = mnlxt_rt_link_data (link_options L) (mnl_ifi L) (Some nlh) (Some data) h e"

definition mnlxt_xfrm_policy_DATA ::
  "('b, 'a) mnl_funs \<Rightarrow> 'b nlmsghdr \<Rightarrow> mnlxt_data_t \<Rightarrow> pheap \<Rightarrow> errno \<Rightarrow>
     (int \<times> mnlxt_data_t option \<times> pheap \<times> errno) option" where
  "mnlxt_xfrm_policy_DATA L nlh data h e =
     mnlxt_xfrm_policy_data (mnl_xpinfo L) (mnl_xpid L) (Some nlh) (Some data) h e"

text \<open>The functions behind the \<open>parse\<close> and \<open>put\<close> pointers of the handler tables.\<close>

fun lib_parse :: "('b, 'a) mnl_funs \<Rightarrow> mnlxt_cb \<Rightarrow> 'b nlmsghdr \<Rightarrow> mnlxt_data_t \<Rightarrow> pheap \<Rightarrow> errno \<Rightarrow>
    (int \<times> mnlxt_data_t option \<times> pheap \<times> errno) option" where
  "lib_parse L RtLink = mnlxt_rt_link_DATA L"
| "lib_parse L RtAddr = mnlxt_rt_addr_DATA L"
| "lib_parse L RtRoute = mnlxt_rt_route_DATA L"
| "lib_parse L RtRule = mnlxt_rt_rule_DATA L"
| "lib_parse L XfrmPolicy = mnlxt_xfrm_policy_DATA L"

fun lib_put :: "('b, 'a) mnl_funs \<Rightarrow> mnlxt_cb \<Rightarrow> 'b nlmsghdr \<Rightarrow> ptr option \<Rightarrow> u16 \<Rightarrow> pheap \<Rightarrow> errno \<Rightarrow>
    (int \<times> 'b nlmsghdr \<times> errno) option" where
  "lib_put L RtLink = mnlxt_rt_link_PUT L"
| "lib_put L RtAddr = mnlxt_rt_addr_PUT L"
| "lib_put L RtRoute = mnlxt_rt_route_PUT L"
| "lib_put L RtRule = mnlxt_rt_rule_PUT L"
| "lib_put L XfrmPolicy = mnlxt_xfrm_policy_PUT L"

definition lib_callbacks :: "('b, 'a) mnl_funs \<Rightarrow> 'b callbacks" where
  "lib_callbacks L = \<lparr>call_parse = lib_parse L, call_put = lib_put L\<rparr>"

section \<open>The parsers keep the contract\<close>

text \<open>
  The messages for which a parser is safe: the names of link kinds fit into the error buffer; the
  addresses in a policy's header are unions of sixteen bytes, and at most one attribute holds templates.
\<close>

fun lib_good :: "('b, 'a) mnl_funs \<Rightarrow> mnlxt_cb \<Rightarrow> 'b nlmsghdr \<Rightarrow> bool" where
  "lib_good L RtLink n = kinds_fit (mnl_ifi L) n"
| "lib_good L XfrmPolicy n = (policy_hdr_ok (mnl_xpinfo L) (mnl_xpid L) n \<and> one_tmpl (mnl_xpinfo L) (mnl_xpid L) n)"
| "lib_good L RtAddr n = True"
| "lib_good L RtRoute n = True"
| "lib_good L RtRule n = True"

interpretation route_msgs: message_parser "mnlxt_rt_route_DATA L" "\<lambda>_. True" for L
  unfolding mnlxt_rt_route_DATA_def by unfold_locales (rule parsed_any [OF route_data_parsed])

interpretation rule_msgs: message_parser "mnlxt_rt_rule_DATA L" "\<lambda>_. True" for L
  unfolding mnlxt_rt_rule_DATA_def by unfold_locales (rule parsed_any [OF rule_data_parsed])

interpretation addr_msgs: message_parser "mnlxt_rt_addr_DATA L" "\<lambda>_. True" for L
  unfolding mnlxt_rt_addr_DATA_def by unfold_locales (rule parsed_any [OF addr_data_parsed])

interpretation link_msgs: message_parser "mnlxt_rt_link_DATA L" "kinds_fit (mnl_ifi L)" for L
  unfolding mnlxt_rt_link_DATA_def by unfold_locales (rule parsed_any [OF link_data_parsed])

interpretation policy_msgs: message_parser "mnlxt_xfrm_policy_DATA L" "lib_good L XfrmPolicy" for L
  unfolding mnlxt_xfrm_policy_DATA_def
  by unfold_locales (rule parsed_any [OF policy_data_parsed], simp_all)

interpretation lib: parsers "lib_callbacks L" "lib_good L" for L
proof (rule parsers.intro)
  fix c
  show "message_parser (call_parse (lib_callbacks L) c) (lib_good L c)"
    by (cases c) (simp_all add: lib_callbacks_def route_msgs.message_parser_axioms rule_msgs.message_parser_axioms
      addr_msgs.message_parser_axioms link_msgs.message_parser_axioms
      policy_msgs.message_parser_axioms [unfolded lib_good.simps [abs_def]] lib_good.simps [abs_def])
qed

section \<open>Dumps\<close>

text \<open>What a bus may deliver: the two defects of the parsers are not met.\<close>

definition rt_traffic :: "('b, 'a) mnl_funs \<Rightarrow> ('f \<Rightarrow> 'b nlmsghdr \<Rightarrow> bool) \<Rightarrow> bool" where
  "rt_traffic L msg_in \<longleftrightarrow>
     (\<forall>f n. msg_in f n \<and> nlmsg_type n \<in> {RTM_NEWLINK, RTM_DELLINK, RTM_GETLINK, RTM_SETLINK} \<longrightarrow> kinds_fit (mnl_ifi L) n)"

definition xfrm_traffic :: "('b, 'a) mnl_funs \<Rightarrow> ('f \<Rightarrow> 'b nlmsghdr \<Rightarrow> bool) \<Rightarrow> bool" where
  "xfrm_traffic L msg_in \<longleftrightarrow> (\<forall>f n. msg_in f n \<longrightarrow> lib_good L XfrmPolicy n)"

lemma rt_parse_cb:
  assumes "data_handlers d = Some rt_data_handlers" "data_nhandlers d = rt_data_nhandlers"
    "data_parse_cb d type = Some c"
  shows "c \<noteq> XfrmPolicy" "c = RtLink \<Longrightarrow> type \<in> {RTM_NEWLINK, RTM_DELLINK, RTM_GETLINK, RTM_SETLINK}"
proof -
  from assms have i: "unat type < 35" by (auto simp: data_parse_cb_def split: if_splits)
  with assms have c: "cb_parse (rt_data_handlers ! unat type) = Some c"
    by (simp add: data_parse_cb_def handler_at_def)
  then have "cb_name (rt_data_handlers ! unat type) \<noteq> None"
    unfolding rt_handlers_nth [OF i] by (auto simp: handler_def cb_zero_def split: if_splits)
  with i have "mnlxt_rt_type_handler type 0 = Some (Some (rt_data_handlers ! unat type), 0)"
    by (auto simp: mnlxt_rt_type_handler_def handler_at_def)
  from rt_type_handler_module [OF this] c
  show "c \<noteq> XfrmPolicy" "c = RtLink \<Longrightarrow> type \<in> {RTM_NEWLINK, RTM_DELLINK, RTM_GETLINK, RTM_SETLINK}" by auto
qed

lemma xfrm_parse_cb:
  assumes "data_handlers d = Some xfrm_data_handlers" "data_nhandlers d = xfrm_data_nhandlers"
    "data_parse_cb d type = Some c"
  shows "c = XfrmPolicy"
proof -
  from assms have i: "unat type < 26" by (auto simp: data_parse_cb_def split: if_splits)
  with assms have c: "cb_parse (xfrm_data_handlers ! unat type) = Some c"
    by (simp add: data_parse_cb_def handler_at_def)
  then show ?thesis
    unfolding xfrm_handlers_nth [OF i] by (auto simp: handler_def cb_zero_def split: if_splits)
qed

lemma rt_fit:
  assumes "rt_traffic L msg_in"
  shows "fit_for (lib_good L) msg_in (d\<lparr>data_handlers := Some rt_data_handlers, data_nhandlers := rt_data_nhandlers\<rparr>)"
proof -
  let ?d = "d\<lparr>data_handlers := Some rt_data_handlers, data_nhandlers := rt_data_nhandlers\<rparr>"
  have "lib_good L c n" if "msg_in f n" "data_parse_cb ?d (nlmsg_type n) = Some c" for f n c
    using rt_parse_cb [OF _ _ that(2)] assms that(1) by (cases c) (auto simp: rt_traffic_def)
  then show ?thesis by (auto simp: fit_for_def)
qed

lemma xfrm_fit:
  assumes "xfrm_traffic L msg_in"
  shows "fit_for (lib_good L) msg_in (d\<lparr>data_handlers := Some xfrm_data_handlers, data_nhandlers := xfrm_data_nhandlers\<rparr>)"
proof -
  let ?d = "d\<lparr>data_handlers := Some xfrm_data_handlers, data_nhandlers := xfrm_data_nhandlers\<rparr>"
  have "lib_good L c n" if "msg_in f n" "data_parse_cb ?d (nlmsg_type n) = Some c" for f n c
    using xfrm_parse_cb [OF _ _ that(2)] assms that(1) by (simp add: xfrm_traffic_def)
  then show ?thesis by (auto simp: fit_for_def)
qed

text \<open>A dump returns, whatever the kernel answers, and \<open>mnlxt_data_clean\<close> afterwards undoes it.\<close>

lemma rt_dump_then_clean:
  assumes "cb_run_laws io msg_in" "finite_supply io left" "socket_laws io socks" "rt_traffic L msg_in" "heap_ok h"
  shows "\<exists>rc d h' w' e' h''.
    mnlxt_rt_data_dump io (lib_callbacks L) (Some data_zero) type family h w e = Some (rc, Some d, h', w', e') \<and>
    socks w' = socks w \<and>
    mnlxt_data_clean call_free (Some d) h' e' = Some (Some data_zero, h'', e') \<and> same_contents h h''"
proof -
  have "holding h data_zero h []" using assms(5) by (simp add: holding_start data_zero_def)
  from lib.rt_data_dump_keeps [OF assms(1-3) rt_fit [OF assms(4)] this] obtain rc d h' w' e' ps' where
    "mnlxt_rt_data_dump io (lib_callbacks L) (Some data_zero) type family h w e = Some (rc, Some d, h', w', e')"
    "holding h d h' ps'" "socks w' = socks w" by blast
  with holding_clean [of h d h' ps' e'] show ?thesis by blast
qed

lemma xfrm_dump_then_clean:
  assumes "cb_run_laws io msg_in" "finite_supply io left" "socket_laws io socks" "xfrm_traffic L msg_in" "heap_ok h"
  shows "\<exists>rc d h' w' e' h''.
    mnlxt_xfrm_data_dump io (lib_callbacks L) (Some data_zero) type h w e = Some (rc, Some d, h', w', e') \<and>
    socks w' = socks w \<and>
    mnlxt_data_clean call_free (Some d) h' e' = Some (Some data_zero, h'', e') \<and> same_contents h h''"
proof -
  have "holding h data_zero h []" using assms(5) by (simp add: holding_start data_zero_def)
  from lib.xfrm_data_dump_keeps [OF assms(1-3) xfrm_fit [OF assms(4)] this] obtain rc d h' w' e' ps' where
    "mnlxt_xfrm_data_dump io (lib_callbacks L) (Some data_zero) type h w e = Some (rc, Some d, h', w', e')"
    "holding h d h' ps'" "socks w' = socks w" by blast
  with holding_clean [of h d h' ps' e'] show ?thesis by blast
qed

section \<open>Requests\<close>

lemma deref_Some [simp]: "objs h q = Some x \<Longrightarrow> deref sel h (Some q) = map_option Some (sel x)"
  by (simp add: deref_def obj_at_def)

lemma rt_handler_of:
  "type \<in> {RTM_NEWROUTE, RTM_DELROUTE} \<Longrightarrow>
     \<exists>c. cb_put c = Some RtRoute \<and> (\<forall>e. mnlxt_rt_type_handler type e = Some (Some c, e))"
  "type \<in> {RTM_NEWRULE, RTM_DELRULE} \<Longrightarrow>
     \<exists>c. cb_put c = Some RtRule \<and> (\<forall>e. mnlxt_rt_type_handler type e = Some (Some c, e))"
  "type \<in> {RTM_NEWADDR, RTM_DELADDR} \<Longrightarrow>
     \<exists>c. cb_put c = Some RtAddr \<and> (\<forall>e. mnlxt_rt_type_handler type e = Some (Some c, e))"
  "type \<in> {RTM_NEWLINK, RTM_DELLINK, RTM_SETLINK} \<Longrightarrow>
     \<exists>c. cb_put c = Some RtLink \<and> (\<forall>e. mnlxt_rt_type_handler type e = Some (Some c, e))"
  by (auto simp: mnlxt_rt_type_handler_def handler_at_def rt_handlers_nth handler_def)

lemma xfrm_handler_of:
  "type \<in> {XFRM_MSG_NEWPOLICY, XFRM_MSG_UPDPOLICY, XFRM_MSG_DELPOLICY} \<Longrightarrow>
     \<exists>c. cb_put c = Some XfrmPolicy \<and> (\<forall>e. mnlxt_xfrm_type_handler type e = Some (Some c, e))"
  by (auto simp: mnlxt_xfrm_type_handler_def handler_at_def xfrm_handlers_nth handler_def)

text \<open>
  Whatever happens to a request, the object and the rest of the heap are as before and the socket is closed.
\<close>

definition request_returns ::
  "('w \<Rightarrow> nat set) \<Rightarrow> pheap \<Rightarrow> 'w \<Rightarrow> (int \<times> pheap \<times> 'w \<times> errno) option \<Rightarrow> bool" where
  "request_returns socks h w r \<longleftrightarrow>
     (\<exists>rc h' w' e'. r = Some (rc, h', w', e') \<and> same_contents h h' \<and> heap_ok h' \<and> socks w' = socks w)"

lemma route_request_returns:
  assumes laws: "cb_run_laws io msg_in" "finite_supply io left" "socket_laws io socks"
    and ok: "heap_ok h" "objs h q = Some (PRoute r)"
  shows "request_returns socks h w (mnlxt_rt_route_request io (lib_callbacks L) (Some q) type flags h w e)"
proof (cases "type \<in> {RTM_NEWROUTE, RTM_DELROUTE}")
  case True
  with rt_handler_of(1) obtain c where c: "cb_put c = Some RtRoute" "\<And>e. mnlxt_rt_type_handler type e = Some (Some c, e)"
    by blast
  show ?thesis
    unfolding request_returns_def mnlxt_rt_route_request_def
      mnlxt_rt_route_remove_def [abs_def] mnlxt_rt_message_request_def [abs_def]
  proof (rule lib.object_request_keeps [OF laws, where T = "{RTM_NEWROUTE, RTM_GETROUTE, RTM_DELROUTE}" and c = c])
    show "call_put (lib_callbacks L) p nlh (Some q) type h' e \<noteq> None"
      if "objs h' = objs h" "cb_put c = Some p" for p nlh h' e
      using that ok c(1) by (simp add: lib_callbacks_def mnlxt_rt_route_PUT_def)
  qed (use True c ok in \<open>auto simp: mnlxt_rt_route_get_def mnlxt_rt_route_message_def mnlxt_rt_message_new_def
    option.map_comp comp_def case_prod_beta\<close>)
next
  case False
  then show ?thesis using ok
    by (simp add: request_returns_def mnlxt_rt_route_request_def object_request_def mnlxt_rt_route_message_def
      same_contents_def)
qed

lemma rule_request_returns:
  assumes laws: "cb_run_laws io msg_in" "finite_supply io left" "socket_laws io socks"
    and ok: "heap_ok h" "objs h q = Some (PRule r)" "rule_names_ok h r"
  shows "request_returns socks h w (mnlxt_rt_rule_request io (lib_callbacks L) (Some q) type flags h w e)"
proof (cases "type \<in> {RTM_NEWRULE, RTM_DELRULE}")
  case True
  with rt_handler_of(2) obtain c where c: "cb_put c = Some RtRule" "\<And>e. mnlxt_rt_type_handler type e = Some (Some c, e)"
    by blast
  show ?thesis
    unfolding request_returns_def mnlxt_rt_rule_request_def
      mnlxt_rt_rule_remove_def [abs_def] mnlxt_rt_message_request_def [abs_def]
  proof (rule lib.object_request_keeps [OF laws, where T = "{RTM_NEWRULE, RTM_GETRULE, RTM_DELRULE}" and c = c])
    show "call_put (lib_callbacks L) p nlh (Some q) type h' e \<noteq> None"
      if "objs h' = objs h" "strs h' = strs h" "cb_put c = Some p" for p nlh h' e
      using that ok c(1) rule_put_defined [of h' r "mnl_fr L" nlh e]
      by (auto simp: lib_callbacks_def mnlxt_rt_rule_PUT_def rule_names_ok_def simp del: not_None_eq)
  qed (use True c ok in \<open>auto simp: mnlxt_rt_rule_get_def mnlxt_rt_rule_message_def mnlxt_rt_message_new_def
    option.map_comp comp_def case_prod_beta\<close>)
next
  case False
  then show ?thesis using ok
    by (simp add: request_returns_def mnlxt_rt_rule_request_def object_request_def mnlxt_rt_rule_message_def
      same_contents_def)
qed

lemma addr_request_returns:
  assumes laws: "cb_run_laws io msg_in" "finite_supply io left" "socket_laws io socks"
    and ok: "heap_ok h" "objs h q = Some (PAddr r)" "addr_label_ok h r"
  shows "request_returns socks h w (mnlxt_rt_addr_request io (lib_callbacks L) (Some q) type flags h w e)"
proof (cases "type \<in> {RTM_NEWADDR, RTM_DELADDR}")
  case True
  with rt_handler_of(3) obtain c where c: "cb_put c = Some RtAddr" "\<And>e. mnlxt_rt_type_handler type e = Some (Some c, e)"
    by blast
  show ?thesis
    unfolding request_returns_def mnlxt_rt_addr_request_def
      mnlxt_rt_addr_remove_def [abs_def] mnlxt_rt_message_request_def [abs_def]
  proof (rule lib.object_request_keeps [OF laws, where T = "{RTM_NEWADDR, RTM_GETADDR, RTM_DELADDR}" and c = c])
    show "call_put (lib_callbacks L) p nlh (Some q) type h' e \<noteq> None"
      if "objs h' = objs h" "strs h' = strs h" "cb_put c = Some p" for p nlh h' e
      using that ok c(1) addr_put_defined [of h' r "ifa_flags_ext L" "mnl_ifa L" nlh e]
      by (auto simp: lib_callbacks_def mnlxt_rt_addr_PUT_def addr_label_ok_def simp del: not_None_eq)
  qed (use True c ok in \<open>auto simp: mnlxt_rt_addr_get_def mnlxt_rt_addr_message_def mnlxt_rt_message_new_def
    option.map_comp comp_def case_prod_beta\<close>)
next
  case False
  then show ?thesis using ok
    by (simp add: request_returns_def mnlxt_rt_addr_request_def object_request_def mnlxt_rt_addr_message_def
      same_contents_def)
qed

lemma policy_request_returns:
  assumes laws: "cb_run_laws io msg_in" "finite_supply io left" "socket_laws io socks"
    and ok: "heap_ok h" "objs h q = Some (PPolicy r)"
  shows "request_returns socks h w (mnlxt_xfrm_policy_request io (lib_callbacks L) (Some q) type flags h w e)"
proof (cases "type \<in> {XFRM_MSG_NEWPOLICY, XFRM_MSG_UPDPOLICY, XFRM_MSG_DELPOLICY}")
  case True
  with xfrm_handler_of obtain c where c: "cb_put c = Some XfrmPolicy" "\<And>e. mnlxt_xfrm_type_handler type e = Some (Some c, e)"
    by blast
  show ?thesis
    unfolding request_returns_def mnlxt_xfrm_policy_request_def
      mnlxt_xfrm_policy_remove_def [abs_def] mnlxt_xfrm_message_request_def [abs_def]
  proof (rule lib.object_request_keeps [OF laws, where T = "{XFRM_MSG_NEWPOLICY, XFRM_MSG_UPDPOLICY, XFRM_MSG_GETPOLICY, XFRM_MSG_DELPOLICY}" and c = c])
    show "call_put (lib_callbacks L) p nlh (Some q) type h' e \<noteq> None"
      if "objs h' = objs h" "strs h' = strs h" "cb_put c = Some p" for p nlh h' e
      using that ok c(1) by (simp add: lib_callbacks_def mnlxt_xfrm_policy_PUT_def)
  qed (use True c ok in \<open>auto simp: mnlxt_xfrm_policy_get_def mnlxt_xfrm_policy_message_def mnlxt_xfrm_message_new_def
    option.map_comp comp_def case_prod_beta\<close>)
next
  case False
  then show ?thesis using ok
    by (simp add: request_returns_def mnlxt_xfrm_policy_request_def object_request_def mnlxt_xfrm_policy_message_def
      same_contents_def)
qed

section \<open>Requests for links\<close>

text \<open>
  The system calls of the TUN tools work on the same table of descriptors as the sockets: \<open>fds_laws\<close> holds for it,
  and which sockets are open depends on nothing else.
\<close>

definition sockets_in_table :: "('w \<Rightarrow> int set) \<Rightarrow> ('w \<Rightarrow> nat set) \<Rightarrow> bool" where
  "sockets_in_table fds socks \<longleftrightarrow> (\<forall>w w'. fds w = fds w' \<longrightarrow> socks w = socks w')"

lemma link_send_returns:
  assumes laws: "cb_run_laws io msg_in" "finite_supply io left" "socket_laws io socks"
    and sys: "fds_laws sys fds" "sockets_in_table fds socks"
    and ok: "heap_ok h" "objs h q = Some (PLink l)"
  shows "request_returns socks h w (link_send sys junk io (lib_callbacks L) (Some q) type flags h w e)"
proof (cases "type \<in> {RTM_NEWLINK, RTM_DELLINK, RTM_SETLINK}")
  case False
  then show ?thesis using ok
    by (auto simp: request_returns_def link_send_def mnlxt_rt_link_message_def same_contents_def)
next
  case True
  with rt_handler_of(4) obtain c where c: "cb_put c = Some RtLink" "\<And>e. mnlxt_rt_type_handler type e = Some (Some c, e)"
    by blast
  let ?T = "{RTM_NEWLINK, RTM_GETLINK, RTM_DELLINK, RTM_SETLINK}"
  have get: "mnlxt_rt_link_get (Some m) = (if msg_type m \<in> ?T then msg_payload m else None)" for m
    by (simp add: mnlxt_rt_link_get_def)
  have put: "call_put (lib_callbacks L) p nlh (Some q) type h' e \<noteq> None"
    if "objs h' = objs h" "cb_put c = Some p" for p nlh h' e
    using that ok c(1) by (simp add: lib_callbacks_def mnlxt_rt_link_PUT_def)
  have msg: "mnlxt_rt_link_message (Some (Some q)) type flags h e =
      (case message_with type flags (Some q) c h e of (msg, h', e') \<Rightarrow>
         Some (msg, if msg = None then Some (Some q) else Some None, h', e'))"
    using True c(2) by (simp add: mnlxt_rt_link_message_def mnlxt_rt_message_new_def case_prod_beta)
  have type: "type \<in> ?T" using True by auto
  show ?thesis
  proof (rule lib.message_round [where get = mnlxt_rt_link_get and T = ?T and type = type and type_handler = mnlxt_rt_type_handler
        and c = c and h = h and q = q and flags = flags and bus = NETLINK_ROUTE and w = w and e = e and L = L,
        OF laws get type c(2) put ok(1)], goal_cases)
    case 3
    then show ?case by (simp add: request_returns_def link_send_def msg)
  next
    case (4 m h1 rc w1 e1 h2 h3)
    obtain i w2 e2 where i: "ts_nametoindex sys junk w1 EINVAL = (i, w2, e2)"
      by (cases "ts_nametoindex sys junk w1 EINVAL") auto
    from fds_kept(2) [OF sys(1) this] sys(2) have "socks w2 = socks w1" unfolding sockets_in_table_def by blast
    with 4 i show ?case
      by (auto simp: request_returns_def link_send_def msg mnlxt_rt_message_request_def mnlxt_rt_link_remove_def
        mnlxt_rt_link_get_name_def)
  qed assumption+
qed

text \<open>Creating a TUN or TAP device may record the index of the new device in the link, nothing else.\<close>

definition link_indexed :: "mnlxt_rt_link_t \<Rightarrow> mnlxt_rt_link_t \<Rightarrow> bool" where
  "link_indexed l l' \<longleftrightarrow> l' = l \<or>
     (\<exists>i. l' = l\<lparr>link_prop_flags := set_prop_flag (link_prop_flags l) MNLXT_RT_LINK_INDEX, link_index := i\<rparr>)"

lemma tun_create_indexed:
  assumes "mnlxt_rt_link_tun_create sys junk (Some l) w e = (rc, ob, w', e')"
  shows "\<exists>l'. ob = Some l' \<and> link_indexed l l'"
  using assms
  by (auto simp: mnlxt_rt_link_tun_create_def link_indexed_def mnlxt_rt_link_set_index_def mnlxt_rt_link_set_u32_def
      mnlxt_rt_link_set_ptr_def link_data_def link_store_def split: prod.splits if_splits)

text \<open>
  A request for a link returns with the caller's heap but for the index of the link, and with the same sockets and
  descriptors open.
\<close>

definition link_request_returns ::
  "('w \<Rightarrow> nat set) \<Rightarrow> ptr \<Rightarrow> mnlxt_rt_link_t \<Rightarrow> pheap \<Rightarrow> 'w \<Rightarrow> (int \<times> pheap \<times> 'w \<times> errno) option \<Rightarrow> bool" where
  "link_request_returns socks q l h w r \<longleftrightarrow>
     (\<exists>rc h' w' e' l'. r = Some (rc, h', w', e') \<and> link_indexed l l' \<and> same_contents (put_obj q (PLink l') h) h' \<and>
        heap_ok h' \<and> socks w' = socks w)"

lemma link_requests_return:
  assumes laws: "cb_run_laws io msg_in" "finite_supply io left" "socket_laws io socks"
    and sys: "fds_laws sys fds" "sockets_in_table fds socks"
    and ok: "heap_ok h" "objs h q = Some (PLink l)"
  shows "link_request_returns socks q l h w
    (mnlxt_rt_link_request sys junk_flags junk_name io (lib_callbacks L) (Some q) type flags h w e)"
proof -
  have put_ok: "heap_ok (put_obj q (PLink l') h)" "objs (put_obj q (PLink l') h) q = Some (PLink l')" for l'
    using ok by (auto simp: heap_ok_def put_obj_def)
  have same: "put_obj q (PLink l) h = h" using ok(2) by (simp add: put_obj_def fun_upd_idem)
  have send: "link_request_returns socks q l h w (link_send sys junk_name io (lib_callbacks L) (Some q) ty flags
      (put_obj q (PLink l') h) w1 e1)" if "socks w1 = socks w" "link_indexed l l'" for ty l' w1 e1
    using link_send_returns [OF laws sys put_ok, of l' w1 junk_name L ty flags e1] that
    unfolding request_returns_def link_request_returns_def by metis
  obtain r kind e1 where k: "mnlxt_rt_link_get_info_kind (Some l) (Some (- 1)) e = (r, kind, e1)"
    by (cases "mnlxt_rt_link_get_info_kind (Some l) (Some (- 1)) e") auto
  let ?tun = "r = 0 \<and> kind = Some MNLXT_RT_LINK_INFO_KIND_TUN"
  obtain rc1 ob1 w1 e2 where cr: "mnlxt_rt_link_tun_create sys junk_flags (Some l) w e1 = (rc1, ob1, w1, e2)"
    by (cases "mnlxt_rt_link_tun_create sys junk_flags (Some l) w e1") auto
  obtain rc2 w2 e3 where de: "mnlxt_rt_link_tun_delete sys (Some l) w e1 = (rc2, w2, e3)"
    by (cases "mnlxt_rt_link_tun_delete sys (Some l) w e1") auto
  from link_tun_create_fds [OF sys(1) cr] link_tun_delete_fds [OF sys(1) de]
  have sk: "socks w1 = socks w" "socks w2 = socks w" using sys(2) unfolding sockets_in_table_def by blast+
  from tun_create_indexed [OF cr] obtain l1 where l1: "ob1 = Some l1" "link_indexed l l1" by blast
  have req: "mnlxt_rt_link_request sys junk_flags junk_name io (lib_callbacks L) (Some q) type flags h w e =
      (if ?tun \<and> type = RTM_NEWLINK then
         (if rc1 \<noteq> 0 then Some (- 1, put_obj q (PLink l1) h, w1, e2)
          else link_send sys junk_name io (lib_callbacks L) (Some q) RTM_SETLINK flags (put_obj q (PLink l1) h) w1 e2)
       else if ?tun \<and> type = RTM_DELLINK then Some (rc2, h, w2, e3)
       else link_send sys junk_name io (lib_callbacks L) (Some q) type flags h w e1)"
    using ok(2) by (auto simp: mnlxt_rt_link_request_def obj_at_def k cr de l1(1))
  have "link_indexed l l" by (simp add: link_indexed_def)
  with send [of w l] same have plain: "link_request_returns socks q l h w
      (link_send sys junk_name io (lib_callbacks L) (Some q) type flags h w e1)" by simp
  have create: "link_request_returns socks q l h w (Some (- 1, put_obj q (PLink l1) h, w1, e2))"
    unfolding link_request_returns_def using l1(2) sk(1) put_ok(1) by (auto simp: same_contents_def)
  have delete: "link_request_returns socks q l h w (Some (rc2, h, w2, e3))"
    unfolding link_request_returns_def using \<open>link_indexed l l\<close> sk(2) ok(1) same by (force simp: same_contents_def)
  show ?thesis unfolding req using send [OF sk(1) l1(2)] create delete plain by simp
qed

end
