(* ===== verification/LinkCodec.thy ===== *)
theory LinkCodec
  imports LinkData
begin

text \<open>
  The round trip of links: what \<open>mnlxt_rt_link_put\<close> writes comes back from \<open>mnlxt_rt_link_data\<close>. The
  information of a link is written into nested attributes, so the documented behaviour of libmnl is extended by
  \<open>nest_laws\<close>, and \<open>tree_mnl\<close> is an instance with a tree of attributes that satisfies both.
\<close>

section \<open>Nested attributes\<close>

text \<open>
  What a piece of code appends to a message: attributes one after the other, and attributes whose payload is
  what the code between \<open>mnl_attr_nest_start\<close> and \<open>mnl_attr_nest_end\<close> appends.
\<close>

inductive writes ::
  "('h, 'b, 'a) libmnl \<Rightarrow> (nat \<Rightarrow> u8 list \<Rightarrow> 'a) \<Rightarrow> (nat \<Rightarrow> 'a list \<Rightarrow> 'a) \<Rightarrow> ('b \<Rightarrow> 'b) \<Rightarrow> 'a list \<Rightarrow> bool"
  for M :: "('h, 'b, 'a) libmnl" and mk :: "nat \<Rightarrow> u8 list \<Rightarrow> 'a" and nest :: "nat \<Rightarrow> 'a list \<Rightarrow> 'a" where
  nothing: "writes M mk nest (\<lambda>b. b) []"
| one: "writes M mk nest f as \<Longrightarrow> writes M mk nest (\<lambda>b. attr_put M t bs (f b)) (as @ [mk t bs])"
| nest: "writes M mk nest f as \<Longrightarrow> writes M mk nest g cs \<Longrightarrow>
    writes M mk nest (\<lambda>b. case nest_start M t (f b) of (p, b1) \<Rightarrow> nest_end M p (g b1)) (as @ [nest t cs])"

text \<open>
  The attributes written are those that the iteration finds, the struct before them stays as it is, and a nested
  attribute has its type and the attributes that were written into it.
\<close>

definition nest_laws ::
  "('h, 'b, 'a) libmnl \<Rightarrow> (nat \<Rightarrow> u8 list \<Rightarrow> 'a) \<Rightarrow> (nat \<Rightarrow> 'a list \<Rightarrow> 'a) \<Rightarrow> bool" where
  "nest_laws M mk nest \<longleftrightarrow>
     (\<forall>f as b. writes M mk nest f as \<longrightarrow> attrs M (f b) = attrs M b @ as \<and> hdr_read M (f b) = hdr_read M b) \<and>
     (\<forall>t as. nested M (nest t as) = as \<and> attr_type M (nest t as) = t) \<and>
     (\<forall>t as mx e. t \<le> mx \<longrightarrow> attr_type_valid M (nest t as) mx e = (1, e))"

lemma nest_lawsD:
  assumes "nest_laws M mk nest"
  shows "writes M mk nest f as \<Longrightarrow> attrs M (f b) = attrs M b @ as"
    "writes M mk nest f as \<Longrightarrow> hdr_read M (f b) = hdr_read M b"
    "nested M (nest t as) = as" "attr_type M (nest t as) = t"
    "t \<le> mx \<Longrightarrow> attr_type_valid M (nest t as) mx e = (1, e)"
  using assms unfolding nest_laws_def by blast+

text \<open>
  The instance: a message is the struct and a stack of attribute lists, one for each attribute that is open and
  the message itself at the bottom. The handle of an open attribute is its type.
\<close>

datatype tlv = Tlv (tlv_type: nat) (tlv_bytes: "u8 list") (tlv_nested: "tlv list")

definition tlv_push :: "tlv \<Rightarrow> tlv list list \<Rightarrow> tlv list list" where
  "tlv_push a st = (case st of [] \<Rightarrow> [[a]] | as # r \<Rightarrow> (as @ [a]) # r)"

definition tlv_top :: "tlv list list \<Rightarrow> tlv list" where
  "tlv_top st = (case st of [] \<Rightarrow> [] | as # r \<Rightarrow> as)"

definition tree_mnl :: "'h \<Rightarrow> ('h, 'h \<times> tlv list list, tlv) libmnl" where
  "tree_mnl z = \<lparr>
     put_extra_header = (\<lambda>b. (z, snd b)),
     hdr_read = fst,
     hdr_write = (\<lambda>h b. (h, snd b)),
     attr_put = (\<lambda>t bs b. (fst b, tlv_push (Tlv t bs []) (snd b))),
     attr_put_u16 = (\<lambda>t x b. (fst b, tlv_push (Tlv t [ucast x, ucast (drop_bit 8 x)] []) (snd b))),
     attr_put_u32 = (\<lambda>t x b. (fst b, tlv_push (Tlv t (le32 x) []) (snd b))),
     attr_put_str = (\<lambda>t s b. (fst b, tlv_push (Tlv t (str_bytes s) []) (snd b))),
     nest_start = (\<lambda>t b. (t, (fst b, [] # snd b))),
     nest_end = (\<lambda>t b. (fst b, case snd b of [] \<Rightarrow> [] | as # r \<Rightarrow> tlv_push (Tlv t [] as) r)),
     attrs = (\<lambda>b. tlv_top (snd b)),
     nested = tlv_nested,
     attr_type = tlv_type,
     attr_type_valid = (\<lambda>a mx e. (if tlv_type a \<le> mx then 1 else - 1, e)),
     attr_validate = (\<lambda>a t e.
       (if length (tlv_bytes a) = (case t of MNL_TYPE_U8 \<Rightarrow> 1 | MNL_TYPE_U16 \<Rightarrow> 2 | MNL_TYPE_U32 \<Rightarrow> 4
          | _ \<Rightarrow> length (tlv_bytes a)) then (0, e) else (- 1, 34))),
     attr_validate2 = (\<lambda>a t n e. (if length (tlv_bytes a) = n then (0, e) else (- 1, 34))),
     attr_get_u8 = (\<lambda>a. hd (tlv_bytes a)),
     attr_get_u16 = (\<lambda>a. ucast (hd (tlv_bytes a)) OR push_bit 8 (ucast (tlv_bytes a ! 1))),
     attr_get_u32 = (\<lambda>a. un_le32 (tlv_bytes a ! 0) (tlv_bytes a ! 1) (tlv_bytes a ! 2) (tlv_bytes a ! 3)),
     attr_get_str = (\<lambda>a. map (\<lambda>x. char_of (unat x)) (tlv_bytes a)),
     attr_get_len = (\<lambda>a. of_nat (length (tlv_bytes a) + 4)),
     attr_get_payload = (\<lambda>a i. if i < length (tlv_bytes a) then tlv_bytes a ! i else 0)\<rparr>"

lemma tlv_top_push [simp]: "tlv_top (tlv_push a st) = tlv_top st @ [a]"
  by (cases st) (simp_all add: tlv_top_def tlv_push_def)

lemma tlv_push_cons [simp]: "tlv_push a (as # r) = (as @ [a]) # r"
  by (simp add: tlv_push_def)

lemma tlv_push_open: "fold tlv_push cs (as # st) = (as @ cs) # st"
  by (induction cs arbitrary: as) simp_all

lemma tlv_top_fold: "tlv_top (fold tlv_push as st) = tlv_top st @ as"
  by (induction as arbitrary: st) simp_all

lemma tree_writes:
  "writes (tree_mnl z) (\<lambda>t bs. Tlv t bs []) (\<lambda>t. Tlv t []) f as \<Longrightarrow> f b = (fst b, fold tlv_push as (snd b))"
  by (induction arbitrary: b rule: writes.induct) (simp_all add: tree_mnl_def tlv_push_open)

lemma tree_nest_laws: "nest_laws (tree_mnl z) (\<lambda>t bs. Tlv t bs []) (\<lambda>t. Tlv t [])"
proof -
  let ?M = "tree_mnl z" and ?mk = "\<lambda>t bs. Tlv t bs []" and ?nest = "\<lambda>t. Tlv t []"
  have "attrs ?M (f b) = attrs ?M b @ as \<and> hdr_read ?M (f b) = hdr_read ?M b" if "writes ?M ?mk ?nest f as" for f as b
    unfolding tree_writes [OF that, of b] by (simp add: tree_mnl_def tlv_top_fold)
  then show ?thesis by (simp add: nest_laws_def) (simp add: tree_mnl_def)
qed

lemma tree_libmnl_laws: "libmnl_laws (tree_mnl z) (\<lambda>t bs. Tlv t bs []) (z, []) z"
proof -
  have "map (\<lambda>x. char_of (unat x)) (str_bytes s) = s" for s
    by (induction s) (simp_all add: str_bytes_def unat_of_nat take_bit_eq_mod)
  then show ?thesis
    by (simp add: libmnl_laws_def tree_mnl_def le32_def un_le32_inverse) (simp add: tlv_top_def)
qed

section \<open>What is written\<close>

abbreviation ifi_laws :: "('b, 'a) ifi_mnl \<Rightarrow> (nat \<Rightarrow> u8 list \<Rightarrow> 'a) \<Rightarrow> 'b \<Rightarrow> bool" where
  "ifi_laws M mk b0 \<equiv> libmnl_laws M mk b0 ifinfomsg_zero"

text \<open>The member of the struct and the attributes of each property.\<close>

definition link_hdr_prop :: "mnlxt_rt_link_t \<Rightarrow> nat \<Rightarrow> ifinfomsg \<Rightarrow> ifinfomsg" where
  "link_hdr_prop l i t =
     (if i = MNLXT_RT_LINK_TYPE then t\<lparr>ifi_type := link_type l\<rparr>
      else if i = MNLXT_RT_LINK_FAMILY then t\<lparr>ifi_family := link_family l\<rparr>
      else if i = MNLXT_RT_LINK_INDEX then t\<lparr>ifi_index := link_index l\<rparr>
      else if i = MNLXT_RT_LINK_FLAGS then t\<lparr>ifi_flags := link_flags l, ifi_change := link_flag_mask l\<rparr>
      else t)"

definition link_attr_of ::
  "(nat \<Rightarrow> u8 list \<Rightarrow> 'a) \<Rightarrow> (nat \<Rightarrow> 'a list \<Rightarrow> 'a) \<Rightarrow> mnlxt_rt_link_t \<Rightarrow> nat \<Rightarrow> 'a list" where
  "link_attr_of mk nest l i =
     (if i = MNLXT_RT_LINK_NAME then [mk IFLA_IFNAME (str_bytes (link_name l))]
      else if i = MNLXT_RT_LINK_HWADDR then [mk IFLA_ADDRESS (mac_bytes (link_mac l))]
      else if i = MNLXT_RT_LINK_MTU then [mk IFLA_MTU (le32 (link_mtu l))]
      else if i = MNLXT_RT_LINK_MASTER then [mk IFLA_MASTER (le32 (link_master l))]
      else if i = MNLXT_RT_LINK_STATE then [mk IFLA_OPERSTATE (le32 (ucast (link_state l)))]
      else if i = MNLXT_RT_LINK_PARENT then [mk IFLA_LINK (le32 (link_parent l))]
      else if i = MNLXT_RT_LINK_INFO then
        [nest IFLA_LINKINFO
          [mk IFLA_INFO_KIND (str_bytes (the (mnlxt_rt_link_info_kind_get_string (info_kind (link_info l))))),
           nest IFLA_INFO_DATA []]]
      else [])"

text \<open>
  Kinds without data of their own in a message, whose names can be read back: bridges, and TUN devices without
  properties. The names of the other kinds have four characters and are written without their NUL.
\<close>

definition plain_info :: "link_build \<Rightarrow> mnlxt_rt_link_info_t \<Rightarrow> bool" where
  "plain_info B i \<longleftrightarrow> info_prop_flags i = 0 \<and>
     (info_kind i = MNLXT_RT_LINK_INFO_KIND_BR \<or> info_kind i = MNLXT_RT_LINK_INFO_KIND_TUN \<and> have_tun B)"

lemma plain_kind_string:
  assumes "plain_info B i"
  obtains s where "mnlxt_rt_link_info_kind_get_string (info_kind i) = Some s" "padded_str s" "s \<noteq> []"
    "mnlxt_rt_link_info_kind_get_enum (Some s) = info_kind i"
proof
  show "mnlxt_rt_link_info_kind_get_string (info_kind i) =
      Some (if info_kind i = MNLXT_RT_LINK_INFO_KIND_BR then ''bridge'' else ''tun'')"
    using assms by (auto simp: plain_info_def mnlxt_rt_link_info_kind_get_string_def info_kinds_def)
  show "mnlxt_rt_link_info_kind_get_enum (Some (if info_kind i = MNLXT_RT_LINK_INFO_KIND_BR then ''bridge'' else ''tun'')) =
      info_kind i"
    using assms by (auto simp: plain_info_def mnlxt_rt_link_info_kind_get_enum_def info_kinds_def)
qed (simp_all add: padded_str_def)

lemma link_info_put_view:
  assumes N: "nest_laws M mk nest" and L: "ifi_laws M mk b0"
    and i: "plain_info B (link_info l)" "link_has l MNLXT_RT_LINK_INFO"
  shows "attrs M (snd (mnlxt_rt_link_info_put B M l e b)) = attrs M b @ link_attr_of mk nest l MNLXT_RT_LINK_INFO"
    and "hdr_read M (snd (mnlxt_rt_link_info_put B M l e b)) = hdr_read M b"
proof -
  obtain s where s: "mnlxt_rt_link_info_kind_get_string (info_kind (link_info l)) = Some s"
    using plain_kind_string [OF i(1)] .
  let ?f = "\<lambda>b. case nest_start M IFLA_LINKINFO b of (p, b1) \<Rightarrow>
    nest_end M p (case nest_start M IFLA_INFO_DATA (attr_put M IFLA_INFO_KIND (str_bytes s) b1) of (p', b2) \<Rightarrow> nest_end M p' b2)"
  have "writes M mk nest (\<lambda>b1. attr_put M IFLA_INFO_KIND (str_bytes s) b1) ([] @ [mk IFLA_INFO_KIND (str_bytes s)])"
    by (intro writes.one writes.nothing)
  from writes.nest [OF writes.nothing writes.nest [OF this writes.nothing]]
  have w: "writes M mk nest ?f [nest IFLA_LINKINFO [mk IFLA_INFO_KIND (str_bytes s), nest IFLA_INFO_DATA []]]" by simp
  have "snd (mnlxt_rt_link_info_put B M l e b) = ?f b"
    using i s by (auto simp: mnlxt_rt_link_info_put_def mnlxt_rt_link_get_info_kind_def Let_def plain_info_def
        mnlxt_rt_link_tun_info_put_def libmnl_lawsD(14) [OF L] split: prod.split)
  with nest_lawsD(1,2) [OF N w] s
  show "attrs M (snd (mnlxt_rt_link_info_put B M l e b)) = attrs M b @ link_attr_of mk nest l MNLXT_RT_LINK_INFO"
    "hdr_read M (snd (mnlxt_rt_link_info_put B M l e b)) = hdr_read M b"
    by (simp_all add: link_attr_of_def)
qed

lemma link_put_prop_view:
  assumes N: "nest_laws M mk nest" and L: "ifi_laws M mk b0" and "link_has l i"
    and info: "link_has l MNLXT_RT_LINK_INFO \<longrightarrow> plain_info B (link_info l)"
  shows "hdr_read M (link_put_prop B M l e i b) = link_hdr_prop l i (hdr_read M b)"
    "attrs M (link_put_prop B M l e i b) = attrs M b @ link_attr_of mk nest l i"
proof -
  have "hdr_read M (link_put_prop B M l e i b) = link_hdr_prop l i (hdr_read M b) \<and>
    attrs M (link_put_prop B M l e i b) = attrs M b @ link_attr_of mk nest l i"
  proof (cases "i = MNLXT_RT_LINK_INFO")
    case True
    with assms link_info_put_view [OF N L] show ?thesis by (simp add: link_put_prop_def link_hdr_prop_def)
  next
    case False
    then show ?thesis
      by (simp add: link_put_prop_def link_hdr_prop_def link_attr_of_def hdr_upd_def libmnl_lawsD [OF L])
  qed
  then show "hdr_read M (link_put_prop B M l e i b) = link_hdr_prop l i (hdr_read M b)"
    "attrs M (link_put_prop B M l e i b) = attrs M b @ link_attr_of mk nest l i" by simp_all
qed

lemma link_put_view:
  assumes N: "nest_laws M mk nest" and L: "ifi_laws M mk b0" and n: "nlmsg_body n = b0"
    and info: "link_has l MNLXT_RT_LINK_INFO \<longrightarrow> plain_info B (link_info l)"
    and put: "mnlxt_rt_link_put B M (Some n) (Some l) e = (rc, Some n', e')"
  shows "nlmsg_type n' = nlmsg_type n"
    and "hdr_read M (nlmsg_body n') =
      fold (\<lambda>i t. if link_has l i then link_hdr_prop l i t else t) [0..<MNLXT_RT_LINK_MAX] ifinfomsg_zero"
    and "attrs M (nlmsg_body n') =
      concat (map (\<lambda>i. if link_has l i then link_attr_of mk nest l i else []) [0..<MNLXT_RT_LINK_MAX])"
proof -
  from put have n': "n' = n\<lparr>nlmsg_body := put_loop MNLXT_RT_LINK_MAX (link_prop_flags l) (link_put_prop B M l e) 0 1
      (put_extra_header M b0)\<rparr>" by (auto simp: mnlxt_rt_link_put_def n)
  then show "nlmsg_type n' = nlmsg_type n" by simp
  note view = put_loop_view [where hdr = "hdr_read M" and at = "attrs M" and hp = "link_hdr_prop l"
      and ap = "link_attr_of mk nest l" and put = "link_put_prop B M l e" and b = "put_extra_header M b0"
      and flags = "link_prop_flags l" and mx = MNLXT_RT_LINK_MAX, OF link_put_prop_view [OF N L _ info]]
  show "hdr_read M (nlmsg_body n') =
      fold (\<lambda>i t. if link_has l i then link_hdr_prop l i t else t) [0..<MNLXT_RT_LINK_MAX] ifinfomsg_zero"
    using view(1) by (simp add: n' libmnl_lawsD(1) [OF L])
  show "attrs M (nlmsg_body n') =
      concat (map (\<lambda>i. if link_has l i then link_attr_of mk nest l i else []) [0..<MNLXT_RT_LINK_MAX])"
    using view(2) by (simp add: n' libmnl_lawsD(2) [OF L])
qed

text \<open>The struct that the receiver finds.\<close>

lemma link_hdr_field:
  assumes "\<And>i t. g (link_hdr_prop l i t) = (if i = k then x else g t)" "k < MNLXT_RT_LINK_MAX" "link_has l k"
  shows "g (fold (\<lambda>i t. if link_has l i then link_hdr_prop l i t else t) [0..<MNLXT_RT_LINK_MAX] ifinfomsg_zero) = x"
  using assms by (subst fold_field [where k = k and v = "\<lambda>_. x"]) simp_all

lemma link_hdr_fields:
  defines "t l \<equiv> fold (\<lambda>i t. if link_has l i then link_hdr_prop l i t else t) [0..<MNLXT_RT_LINK_MAX] ifinfomsg_zero"
  shows "link_has l MNLXT_RT_LINK_TYPE \<Longrightarrow> ifi_type (t l) = link_type l"
    "link_has l MNLXT_RT_LINK_FAMILY \<Longrightarrow> ifi_family (t l) = link_family l"
    "link_has l MNLXT_RT_LINK_INDEX \<Longrightarrow> ifi_index (t l) = link_index l"
    "link_has l MNLXT_RT_LINK_FLAGS \<Longrightarrow> ifi_flags (t l) = link_flags l"
proof -
  note field = link_hdr_field [of _ l, folded t_def]
  show "link_has l MNLXT_RT_LINK_TYPE \<Longrightarrow> ifi_type (t l) = link_type l"
    by (rule field [where g = ifi_type]) (simp_all add: link_hdr_prop_def)
  show "link_has l MNLXT_RT_LINK_FAMILY \<Longrightarrow> ifi_family (t l) = link_family l"
    by (rule field [where g = ifi_family]) (simp_all add: link_hdr_prop_def)
  show "link_has l MNLXT_RT_LINK_INDEX \<Longrightarrow> ifi_index (t l) = link_index l"
    by (rule field [where g = ifi_index]) (simp_all add: link_hdr_prop_def)
  show "link_has l MNLXT_RT_LINK_FLAGS \<Longrightarrow> ifi_flags (t l) = link_flags l"
    by (rule field [where g = ifi_flags]) (simp_all add: link_hdr_prop_def)
qed

section \<open>What is read back\<close>

text \<open>
  The receiver has a property of the sender's link, with the same value: those of the struct from the start, the
  others once the attributes below \<open>k\<close> are done.
\<close>

abbreviation link_struct_props :: "nat set" where
  "link_struct_props \<equiv> {MNLXT_RT_LINK_TYPE, MNLXT_RT_LINK_FAMILY, MNLXT_RT_LINK_INDEX, MNLXT_RT_LINK_FLAGS}"

abbreviation link_same_prop :: "mnlxt_rt_link_t \<Rightarrow> mnlxt_rt_link_t \<Rightarrow> nat \<Rightarrow> bool" where
  "link_same_prop l l' i \<equiv> link_has l' i \<and> mnlxt_rt_link_cmp l' l i = 0"

definition link_echo :: "mnlxt_rt_link_t \<Rightarrow> nat \<Rightarrow> mnlxt_rt_link_t \<Rightarrow> bool" where
  "link_echo l k l' \<longleftrightarrow>
     (\<forall>i < MNLXT_RT_LINK_MAX. link_has l i \<and> (i \<in> link_struct_props \<or> i < k) \<longrightarrow> link_same_prop l l' i) \<and>
     (k \<le> MNLXT_RT_LINK_INFO \<longrightarrow> \<not> link_has l' MNLXT_RT_LINK_INFO)"

lemma link_echo_skip:
  assumes "link_echo l k l'" "\<not> link_has l k \<or> k \<in> link_struct_props"
  shows "link_echo l (Suc k) l'"
  using assms by (auto simp: link_echo_def less_Suc_eq)

lemma link_echo_set:
  assumes c: "link_echo l k l'" and "link_same_prop l l1 k"
    and other: "\<And>i. i \<noteq> k \<Longrightarrow> link_same_prop l l' i \<Longrightarrow> link_same_prop l l1 i"
    and info: "k < MNLXT_RT_LINK_INFO \<Longrightarrow> link_has l1 MNLXT_RT_LINK_INFO \<Longrightarrow> link_has l' MNLXT_RT_LINK_INFO"
  shows "link_echo l (Suc k) l1"
  unfolding link_echo_def
proof (intro conjI allI impI)
  fix i assume i: "i < MNLXT_RT_LINK_MAX" "link_has l i \<and> (i \<in> link_struct_props \<or> i < Suc k)"
  have "link_same_prop l l1 i"
  proof (cases "i = k")
    case False
    then have "i \<in> link_struct_props \<or> i < k" using i(2) by auto
    with c i have "link_same_prop l l' i" by (simp add: link_echo_def)
    with False other show ?thesis by blast
  qed (use assms(2) in simp)
  then show "link_has l1 i" "mnlxt_rt_link_cmp l1 l i = 0" by simp_all
next
  assume "Suc k \<le> MNLXT_RT_LINK_INFO"
  with c info show "\<not> link_has l1 MNLXT_RT_LINK_INFO" by (auto simp: link_echo_def)
qed

text \<open>Comparing after one more member has been written.\<close>

lemma link_cmp_store_other:
  assumes "i \<noteq> k" "link_data k = csize v" "k \<noteq> MNLXT_RT_LINK_FLAGS"
  shows "mnlxt_rt_link_cmp (link_store k v l) m i = mnlxt_rt_link_cmp l m i"
  using assms by (simp add: link_store_def mnlxt_rt_link_cmp_def Let_def)

lemma link_cmp_flags [simp]: "mnlxt_rt_link_cmp (l\<lparr>link_prop_flags := w\<rparr>) m i = mnlxt_rt_link_cmp l m i"
  by (simp add: mnlxt_rt_link_cmp_def Let_def)

lemma link_cmp_name:
  "i \<noteq> MNLXT_RT_LINK_NAME \<Longrightarrow> mnlxt_rt_link_cmp (l\<lparr>link_name := s\<rparr>) m i = mnlxt_rt_link_cmp l m i"
  "mnlxt_rt_link_cmp (l\<lparr>link_name := link_name m\<rparr>) m MNLXT_RT_LINK_NAME = 0"
  by (simp_all add: mnlxt_rt_link_cmp_def Let_def)

lemma link_cmp_info:
  "i \<noteq> MNLXT_RT_LINK_INFO \<Longrightarrow> mnlxt_rt_link_cmp (l\<lparr>link_info := x\<rparr>) m i = mnlxt_rt_link_cmp l m i"
  "info_kind x = info_kind (link_info m) \<Longrightarrow> mnlxt_rt_link_cmp (l\<lparr>link_info := x\<rparr>) m MNLXT_RT_LINK_INFO = 0"
  by (simp_all add: mnlxt_rt_link_cmp_def Let_def)

lemma link_echo_ptr:
  assumes c: "link_echo l k l'" and v: "link_data k = csize v" "k \<noteq> MNLXT_RT_LINK_FLAGS"
    and same: "mnlxt_rt_link_cmp (link_store k v l') l k = 0"
  shows "\<exists>l1. mnlxt_rt_link_set_ptr (Some l') k v e = (0, Some l1, e) \<and> link_echo l (Suc k) l1"
proof -
  have nz: "link_data k \<noteq> 0" using v by simp
  note k = link_data_bound [OF nz]
  let ?l1 = "link_store k v (l'\<lparr>link_prop_flags := set_prop_flag (link_prop_flags l') k\<rparr>)"
  have st: "?l1 = (link_store k v l')\<lparr>link_prop_flags := set_prop_flag (link_prop_flags l') k\<rparr>"
    by (simp add: link_store_def)
  have "link_echo l (Suc k) ?l1"
    by (rule link_echo_set [OF c]) (use v k same in \<open>auto simp: st link_cmp_store_other\<close>)
  then show ?thesis using v k nz by (simp add: mnlxt_rt_link_set_ptr_def)
qed

lemma length_mac_bytes [simp]: "length (mac_bytes m) = 6"
  by (simp add: mac_bytes_def split: prod.split)

lemma link_mac_back: "ifi_laws M mk b0 \<Longrightarrow> payload_mac M (mk t (mac_bytes m)) = m"
  by (cases m) (simp add: payload_mac_def mac_bytes_def libmnl_lawsD(13))

text \<open>
  What can be sent: the operational state is refused by the receiver, the limits of the MTU are not written, the
  name must be such that it can be read back.
\<close>

definition link_sendable :: "link_build \<Rightarrow> mnlxt_rt_link_t \<Rightarrow> bool" where
  "link_sendable B l \<longleftrightarrow>
     (\<forall>i \<in> {MNLXT_RT_LINK_MTU_MIN, MNLXT_RT_LINK_MTU_MAX, MNLXT_RT_LINK_STATE}. \<not> link_has l i) \<and>
     (link_has l MNLXT_RT_LINK_NAME \<longrightarrow> padded_str (link_name l)) \<and>
     (link_has l MNLXT_RT_LINK_INFO \<longrightarrow> plain_info B (link_info l)) \<and> IFLA_LINKINFO \<le> ifla_max B"

text \<open>The attributes that go through the table of members.\<close>

lemma link_ptr_attr:
  assumes L: "ifi_laws M mk b0" and mx: "IFLA_LINKINFO \<le> ifla_max B"
    and k: "k \<in> {MNLXT_RT_LINK_HWADDR, MNLXT_RT_LINK_MTU, MNLXT_RT_LINK_MASTER, MNLXT_RT_LINK_PARENT}"
    and c: "link_echo l k l'"
  shows "\<exists>l1. attr_loop (link_attr B M) (link_attr_of mk nest l k) (l', d, h) e = Some (Next (l1, d, h) e) \<and>
    link_echo l (Suc k) l1"
proof -
  let ?v = "link_load k l"
  have v: "link_data k = csize ?v" "k \<noteq> MNLXT_RT_LINK_FLAGS" using k by (auto simp: link_data_def link_load_def)
  have "mnlxt_rt_link_cmp (link_store k ?v l') l k = 0"
    using k by (auto simp: mnlxt_rt_link_cmp_def link_store_def link_load_def)
  from link_echo_ptr [OF c v this] obtain l1 where
    l1: "mnlxt_rt_link_set_ptr (Some l') k ?v e = (0, Some l1, e)" "link_echo l (Suc k) l1" by blast
  have "attr_loop (link_attr B M) (link_attr_of mk nest l k) (l', d, h) e = Some (Next (l1, d, h) e)"
    using k l1(1) mx
    by (elim insertE emptyE) (simp_all add: attr_loop_single link_attr_of_def link_attr_def libmnl_lawsD [OF L] on_valid_def
      store_set_def setter_defs link_load_def link_mac_back [OF L] del: attr_loop.simps)
  with l1(2) show ?thesis by blast
qed

lemma link_name_attr:
  assumes L: "ifi_laws M mk b0" and mx: "IFLA_LINKINFO \<le> ifla_max B"
    and s: "padded_str (link_name l)" "length (link_name l) < IF_NAMESIZE" and c: "link_echo l MNLXT_RT_LINK_NAME l'"
  shows "\<exists>l1. attr_loop (link_attr B M) (link_attr_of mk nest l MNLXT_RT_LINK_NAME) (l', d, h) e =
      Some (Next (l1, d, h) e) \<and> link_echo l (Suc MNLXT_RT_LINK_NAME) l1"
proof -
  let ?l1 = "l'\<lparr>link_name := link_name l, link_prop_flags := set_prop_flag (link_prop_flags l') MNLXT_RT_LINK_NAME\<rparr>"
  have "str_bytes (link_name l) \<noteq> []" using s(1) by (auto simp: str_bytes_def padded_str_def)
  then have "attr_loop (link_attr B M) (link_attr_of mk nest l MNLXT_RT_LINK_NAME) (l', d, h) e = Some (Next (?l1, d, h) e)"
    using s mx by (simp add: attr_loop_single link_attr_of_def link_attr_def libmnl_lawsD [OF L] on_valid_def
      store_set_def mnlxt_rt_link_set_name_def del: attr_loop.simps)
  moreover have "link_echo l (Suc MNLXT_RT_LINK_NAME) ?l1"
    by (rule link_echo_set [OF c]) (auto simp: link_cmp_name)
  ultimately show ?thesis by blast
qed

lemma link_info_attr_back:
  assumes N: "nest_laws M mk nest" and L: "ifi_laws M mk b0" and mx: "IFLA_LINKINFO \<le> ifla_max B"
    and i: "plain_info B (link_info l)" and c: "link_echo l MNLXT_RT_LINK_INFO l'"
  shows "\<exists>l1. attr_loop (link_attr B M) (link_attr_of mk nest l MNLXT_RT_LINK_INFO) (l', d, h) e =
      Some (Next (l1, d, h) e) \<and> link_echo l (Suc MNLXT_RT_LINK_INFO) l1"
proof -
  let ?k = "info_kind (link_info l)"
  obtain s where s: "mnlxt_rt_link_info_kind_get_string ?k = Some s" "padded_str s" "s \<noteq> []"
      "mnlxt_rt_link_info_kind_get_enum (Some s) = ?k" using plain_kind_string [OF i] .
  have new: "\<not> link_has l' MNLXT_RT_LINK_INFO" using c by (simp add: link_echo_def)
  let ?w = "with_kind ?k l'"
  let ?l1 = "if ?k = MNLXT_RT_LINK_INFO_KIND_TUN then
      ?w\<lparr>link_info := info_unset_flag MNLXT_RT_LINK_TUN_FLAGS (set_tun_flags 0 (link_info ?w))\<rparr> else ?w"
  have w: "info_kind (link_info ?w) = ?k" "link_has ?w MNLXT_RT_LINK_INFO" by (simp_all add: with_kind_def)
  have "?k \<noteq> - 1" and bs: "str_bytes s \<noteq> []" using i s(3) by (auto simp: plain_info_def str_bytes_def)
  then have "link_info_loop M [mk IFLA_INFO_KIND (str_bytes s), nest IFLA_INFO_DATA []] (- 1) None (l', d, h) e =
      Some (Inr (?k, Some (nest IFLA_INFO_DATA []), (?w, d, h), e))"
    using new by (simp add: libmnl_lawsD [OF L] nest_lawsD [OF N] s store_set_def set_info_kind_eq Let_def)
  then have "mnlxt_rt_link_info_attr B M (nest IFLA_LINKINFO [mk IFLA_INFO_KIND (str_bytes s), nest IFLA_INFO_DATA []])
      (l', d, h) e = Some (Next (?l1, d, h) e)"
    using i w by (auto simp: mnlxt_rt_link_info_attr_def nest_lawsD [OF N] plain_info_def mnlxt_rt_link_tun_info_data_def
      store_set_def mnlxt_rt_link_set_tun_flags_def set_info_kind_eq map_info_def)
  then have "attr_loop (link_attr B M) (link_attr_of mk nest l MNLXT_RT_LINK_INFO) (l', d, h) e = Some (Next (?l1, d, h) e)"
    using mx by (simp add: attr_loop_single link_attr_of_def link_attr_def nest_lawsD [OF N] s(1) del: attr_loop.simps)
  moreover have "link_echo l (Suc MNLXT_RT_LINK_INFO) ?l1"
    by (rule link_echo_set [OF c]) (auto simp: link_cmp_info with_kind_def info_unset_flag_def set_tun_flags_def)
  ultimately show ?thesis by blast
qed

lemma link_prop_step:
  assumes N: "nest_laws M mk nest" and L: "ifi_laws M mk b0"
    and ok: "link_sendable B l" "length (link_name l) < IF_NAMESIZE"
    and k: "k < MNLXT_RT_LINK_MAX" and c: "link_echo l k l'"
  shows "\<exists>l1. attr_loop (link_attr B M) (if link_has l k then link_attr_of mk nest l k else []) (l', d, h) e =
      Some (Next (l1, d, h) e) \<and> link_echo l (Suc k) l1"
proof (cases "\<not> link_has l k \<or> k \<in> link_struct_props")
  case True
  then have "(if link_has l k then link_attr_of mk nest l k else []) = []" by (auto simp: link_attr_of_def)
  with link_echo_skip [OF c True] show ?thesis by simp
next
  case False
  from ok(1) have mx: "IFLA_LINKINFO \<le> ifla_max B" by (simp add: link_sendable_def)
  consider "k = MNLXT_RT_LINK_NAME" | "k = MNLXT_RT_LINK_INFO"
    | "k \<in> {MNLXT_RT_LINK_HWADDR, MNLXT_RT_LINK_MTU, MNLXT_RT_LINK_MASTER, MNLXT_RT_LINK_PARENT}"
    using False ok(1) k by (fastforce simp: link_sendable_def less_Suc_eq numeral_eq_Suc)
  then show ?thesis
  proof cases
    case 1
    with False c ok link_name_attr [OF L mx] show ?thesis by (simp add: link_sendable_def)
  next
    case 2
    with False c ok link_info_attr_back [OF N L mx] show ?thesis by (simp add: link_sendable_def)
  next
    case 3
    with False link_ptr_attr [OF L mx 3 c] show ?thesis by simp
  qed
qed

section \<open>The round trip\<close>

lemma link_echo_match:
  assumes c: "link_echo l MNLXT_RT_LINK_MAX l'" and s: "link_sendable B l"
  shows "mnlxt_rt_link_match (Some l') (Some l) e = (0, e)"
proof -
  have "mnlxt_rt_link_compare (Some l') (Some l) (ucast (link_prop_flags l)) e = (0, e)"
    using c by (simp add: mnlxt_rt_link_compare_def cmp_loop_eq_0 prop_differs_def link_echo_def bit_ucast_iff)
  moreover have "mnlxt_rt_link_info_cmp (Some (link_info l')) (Some (link_info l)) (info_prop_flags (link_info l)) e = (0, e)"
    if has: "link_has l MNLXT_RT_LINK_INFO"
  proof -
    from c has have "mnlxt_rt_link_cmp l' l MNLXT_RT_LINK_INFO = 0" by (simp add: link_echo_def)
    then have "info_kind (link_info l') = info_kind (link_info l)" by (simp add: mnlxt_rt_link_cmp_def split: if_splits)
    moreover from s has have "plain_info B (link_info l)" by (simp add: link_sendable_def)
    ultimately show ?thesis
      by (auto simp: mnlxt_rt_link_info_cmp_def plain_info_def mnlxt_rt_link_tun_cmp_def cmp_loop_eq_0 prop_differs_def)
  qed
  ultimately show ?thesis by (simp add: mnlxt_rt_link_match_def)
qed

lemma link_roundtrip_parsed:
  assumes N: "nest_laws M mk nest" and L: "ifi_laws M mk b0"
    and inv: "link_inv l" and s: "link_sendable B l"
    and ok: "heap_ok h" "data_inv h d ps" and n: "nlmsg_body n = b0"
    and put: "mnlxt_rt_link_put B M (Some n) (Some l) e0 = (rc, Some n', e')"
  shows "parsed h d ps (nlmsg_type n) (parse_failure h link_types (nlmsg_type n)) False
    (\<lambda>_ x. \<exists>l'. x = PLink l' \<and> mnlxt_rt_link_match (Some l') (Some l) e = (0, e))
    (mnlxt_rt_link_data B M (Some n') (Some d) h e)"
proof -
  have info: "link_has l MNLXT_RT_LINK_INFO \<longrightarrow> plain_info B (link_info l)" using s by (simp add: link_sendable_def)
  note view = link_put_view [OF N L n info put]
  let ?t = "hdr_read M (nlmsg_body n')" and ?P = "\<lambda>(_ :: pheap) x. \<exists>l'. x = PLink l' \<and> mnlxt_rt_link_match (Some l') (Some l) e = (0, e)"
  have name: "length (link_name l) < IF_NAMESIZE" using inv by (simp add: link_inv_def)
  have "parsed h d ps (nlmsg_type n') (parse_failure h link_types (nlmsg_type n)) False ?P (mnlxt_rt_link_data B M (Some n') (Some d) h e)"
  proof (rule link_parse_frame [OF ok], goal_cases)
    case (4 q h1)
    let ?A = "\<lambda>k (l', d1, h2). d1 = d \<and> h2 = h1 \<and> link_echo l k l'"
    let ?l0 = "fst (link_from_hdr ?t e)"
    have start: "?A 0 (?l0, d, h1)"
      using link_hdr_fields [of l, folded view(2)]
      by (auto simp: link_echo_def link_from_hdr_eq link_zero_def mnlxt_rt_link_cmp_def)
    have step: "parse_to (?A (Suc k)) (\<lambda>_ _. False) (attr_loop (link_attr B M)
        (if link_has l k then link_attr_of mk nest l k else []) s' e1)" if k: "k < MNLXT_RT_LINK_MAX" and a: "?A k s'" for k s' e1
    proof -
      obtain l1 where s': "s' = (l1, d, h1)" "link_echo l k l1" using a by (cases s') auto
      from link_prop_step [OF N L s name k s'(2), of d h1 e1] show ?thesis by (auto simp: s'(1))
    qed
    have "parse_to (?A MNLXT_RT_LINK_MAX) (\<lambda>_ _. False) (link_loop B M n' d e q h1)"
      using attr_loop_upto [of MNLXT_RT_LINK_MAX ?A, OF step start, of "snd (link_from_hdr ?t e)"] unfolding view(3) .
    then show ?case
    proof (rule parse_to_mono)
      fix s1 assume "?A MNLXT_RT_LINK_MAX s1"
      then obtain l1 where s1: "s1 = (l1, d, h1)" and c: "link_echo l MNLXT_RT_LINK_MAX l1" by (cases s1) auto
      have "work_inv h d q (PLink l1) d h1"
        by (intro work_inv_same_parts [OF 4]) (use 4 in \<open>simp_all add: work_inv_def\<close>)
      with link_echo_match [OF c s] show "case s1 of (r, d1, h2) \<Rightarrow> work_inv h d q (PLink r) d1 h2 \<and> ?P h2 (PLink r)"
        by (simp add: s1)
    qed simp
  qed (use view(1) in \<open>auto intro: parse_failureI\<close>)
  then show ?thesis by (simp only: view(1))
qed

text \<open>
  A message with an operational state, which the library writes with 32 bits and reads with 8, is refused by its
  parser.
\<close>

lemma link_state_attr_refused:
  assumes "attr_type M a = IFLA_OPERSTATE" "\<And>e. 0 \<le> fst (attr_type_valid M a (ifla_max B) e)"
    "\<And>e. fst (attr_validate M a MNL_TYPE_U8 e) < 0"
  shows "case link_attr B M a s e of Some (Next _ _) \<Rightarrow> False | _ \<Rightarrow> True"
  using assms(1) assms(2) [of e] assms(3) [of "snd (attr_type_valid M a (ifla_max B) e)"]
  by (cases "attr_type_valid M a (ifla_max B) e"; cases s)
    (auto simp: link_attr_def on_valid_def fail_with_def split: prod.splits)

text \<open>What the information of any kind appends to a message.\<close>

abbreviation u16_law :: "('b, 'a) ifi_mnl \<Rightarrow> bool" where
  "u16_law M \<equiv> (\<forall>t x b. attr_put_u16 M t x b = attr_put M t [ucast x, ucast (drop_bit 8 x)] b)"

lemma writes_if:
  "writes M mk nest (\<lambda>b. b) [] \<and> writes M mk nest (\<lambda>b. attr_put M t bs b) [mk t bs]"
  using writes.one [OF writes.nothing, of M mk nest t bs] by (simp add: writes.nothing)

lemma vlan_put_writes:
  assumes "u16_law M"
  shows "\<exists>as. writes M mk nest (mnlxt_rt_link_vlan_info_put M l e) as"
proof -
  obtain rc v e1 where g: "mnlxt_rt_link_get_vlan_id (Some l) (Some 0) e = (rc, v, e1)" by (metis prod_cases3)
  let ?f = "\<lambda>b. if rc = 0 then attr_put M IFLA_VLAN_ID [ucast (the v), ucast (drop_bit 8 (the v))] b else b"
  have "mnlxt_rt_link_vlan_info_put M l e = ?f"
    by (rule ext) (simp add: mnlxt_rt_link_vlan_info_put_def g assms)
  moreover have "\<exists>as. writes M mk nest ?f as" using writes_if [of M mk nest IFLA_VLAN_ID] by (cases "rc = 0") auto
  ultimately show ?thesis by simp
qed

lemma xfrm_put_writes:
  assumes L: "ifi_laws M mk b0"
  shows "\<exists>as. writes M mk nest (mnlxt_rt_link_xfrm_info_put B M l e) as"
proof -
  obtain rc1 x1 e1 rc2 x2 e2 where g: "mnlxt_rt_link_get_xfrm_id (Some l) (Some 0) e = (rc1, x1, e1)"
      "mnlxt_rt_link_get_xfrm_ifindex (Some l) (Some 0) e = (rc2, x2, e2)" by (metis prod_cases3)
  let ?f = "\<lambda>b. if rc1 = 0 then attr_put M IFLA_XFRM_IF_ID (le32 (the x1)) b else b"
  obtain as where f: "writes M mk nest ?f as" using writes_if [of M mk nest IFLA_XFRM_IF_ID] by (cases "rc1 = 0") auto
  from writes.one [OF f, of IFLA_XFRM_LINK "le32 (the x2)"]
  have "\<exists>as. writes M mk nest (\<lambda>b. if rc2 = 0 then attr_put M IFLA_XFRM_LINK (le32 (the x2)) (?f b) else ?f b) as"
    using f by (cases "rc2 = 0") auto
  moreover have "mnlxt_rt_link_xfrm_info_put B M l e =
      (\<lambda>b. if have_xfrm B then if rc2 = 0 then attr_put M IFLA_XFRM_LINK (le32 (the x2)) (?f b) else ?f b else b)"
    by (rule ext) (auto simp: mnlxt_rt_link_xfrm_info_put_def g libmnl_lawsD(7) [OF L] Let_def)
  ultimately show ?thesis using writes.nothing [of M mk nest] by (cases "have_xfrm B") auto
qed

lemma link_info_put_appends:
  assumes N: "nest_laws M mk nest" and L: "ifi_laws M mk b0" and u16: "u16_law M"
  shows "\<exists>as. \<forall>b. attrs M (snd (mnlxt_rt_link_info_put B M l e b)) = attrs M b @ as"
proof -
  obtain rc kp e1 where k: "mnlxt_rt_link_get_info_kind (Some l) (Some (- 1)) e = (rc, kp, e1)" by (metis prod_cases3)
  show ?thesis
  proof (cases "rc = 0 \<and> mnlxt_rt_link_info_kind_get_string (the kp) \<noteq> None")
    case False
    then have "attrs M (snd (mnlxt_rt_link_info_put B M l e b)) = attrs M b @ []" for b
      by (auto simp: mnlxt_rt_link_info_put_def k)
    then show ?thesis by blast
  next
    case True
    then obtain s where s: "mnlxt_rt_link_info_kind_get_string (the kp) = Some s" by blast
    let ?g = "\<lambda>b. if the kp = MNLXT_RT_LINK_INFO_KIND_VLAN then mnlxt_rt_link_vlan_info_put M l e b
      else if the kp = MNLXT_RT_LINK_INFO_KIND_TUN then mnlxt_rt_link_tun_info_put l b
      else if the kp = MNLXT_RT_LINK_INFO_KIND_XFRM then mnlxt_rt_link_xfrm_info_put B M l e b else b"
    have "\<exists>cs. writes M mk nest ?g cs"
      using vlan_put_writes [OF u16] xfrm_put_writes [OF L] writes.nothing [of M mk nest]
      by (cases "the kp = MNLXT_RT_LINK_INFO_KIND_VLAN"; cases "the kp = MNLXT_RT_LINK_INFO_KIND_TUN";
        cases "the kp = MNLXT_RT_LINK_INFO_KIND_XFRM") (auto simp: mnlxt_rt_link_tun_info_put_def)
    then obtain cs where g: "writes M mk nest ?g cs" by blast
    let ?f = "\<lambda>b. case nest_start M IFLA_LINKINFO b of (p, b1) \<Rightarrow> nest_end M p
      (case nest_start M IFLA_INFO_DATA (attr_put M IFLA_INFO_KIND (str_bytes s) b1) of (p', b2) \<Rightarrow> nest_end M p' (?g b2))"
    from writes.nest [OF writes.nothing writes.nest [OF writes.one [OF writes.nothing] g]]
    obtain as where w: "writes M mk nest ?f as" by blast
    have "snd (mnlxt_rt_link_info_put B M l e b) = ?f b" for b
      using True s by (simp add: mnlxt_rt_link_info_put_def k Let_def libmnl_lawsD(14) [OF L] split: prod.split)
    with nest_lawsD(1) [OF N w] show ?thesis by auto
  qed
qed

text \<open>
  In a message with an operational state it comes before the information of the kind, so that the parser fails
  before it reads the nested attributes. What comes before is written for the properties with smaller numbers.
\<close>

lemma link_state_split:
  assumes N: "nest_laws M mk nest" and L: "ifi_laws M mk b0" and u16: "u16_law M" and n: "nlmsg_body n = b0"
    and l: "link_has l MNLXT_RT_LINK_STATE"
    and put: "mnlxt_rt_link_put B M (Some n) (Some l) e = (rc, Some n', e')"
  obtains before behind where "nlmsg_type n' = nlmsg_type n"
    "attrs M (nlmsg_body n') = before @ mk IFLA_OPERSTATE (le32 (ucast (link_state l))) # behind"
    "\<And>a. a \<in> set before \<Longrightarrow> attr_type M a \<noteq> IFLA_LINKINFO"
proof -
  from put have n': "n' = n\<lparr>nlmsg_body := put_loop MNLXT_RT_LINK_MAX (link_prop_flags l) (link_put_prop B M l e) 0 1
      (put_extra_header M b0)\<rparr>" by (auto simp: mnlxt_rt_link_put_def n)
  obtain cs where cs: "\<And>b. attrs M (snd (mnlxt_rt_link_info_put B M l e b)) = attrs M b @ cs"
    using link_info_put_appends [OF N L u16] by metis
  let ?ap = "\<lambda>i. if i = MNLXT_RT_LINK_INFO then cs else link_attr_of mk nest l i"
  let ?at = "\<lambda>i. if link_has l i then ?ap i else []"
  have ap: "attrs M (link_put_prop B M l e i b) = attrs M b @ ?ap i" for i b
    by (simp add: link_put_prop_def link_attr_of_def hdr_upd_def libmnl_lawsD [OF L] cs)
  have at: "attrs M (nlmsg_body n') = concat (map ?at [0..<MNLXT_RT_LINK_MAX])"
    using put_loop_view(2) [where hdr = "\<lambda>_. ()" and hp = "\<lambda>_ _. ()" and at = "attrs M" and ap = ?ap and
        put = "link_put_prop B M l e" and b = "put_extra_header M b0" and flags = "link_prop_flags l" and mx = MNLXT_RT_LINK_MAX] ap
    by (simp add: n' libmnl_lawsD(2) [OF L])
  have "[0..<MNLXT_RT_LINK_MAX] = [0..<MNLXT_RT_LINK_STATE] @ MNLXT_RT_LINK_STATE # [MNLXT_RT_LINK_PARENT..<MNLXT_RT_LINK_MAX]"
    by (simp add: upt_rec)
  then have "attrs M (nlmsg_body n') = concat (map ?at [0..<MNLXT_RT_LINK_STATE]) @
      mk IFLA_OPERSTATE (le32 (ucast (link_state l))) # concat (map ?at [MNLXT_RT_LINK_PARENT..<MNLXT_RT_LINK_MAX])"
    unfolding at using l by (simp only: map_append list.map concat_append concat.simps) (simp add: link_attr_of_def)
  moreover have "attr_type M a \<noteq> IFLA_LINKINFO" if "a \<in> set (concat (map ?at [0..<MNLXT_RT_LINK_STATE]))" for a
    using that by (auto simp: link_attr_of_def libmnl_lawsD [OF L] split: if_splits)
  moreover have "nlmsg_type n' = nlmsg_type n" by (simp add: n')
  ultimately show thesis using that by blast
qed

lemma link_state_refused_parsed:
  assumes N: "nest_laws M mk nest" and L: "ifi_laws M mk b0" and u16: "u16_law M"
    and u8: "\<And>t x e. fst (attr_validate M (mk t (le32 x)) MNL_TYPE_U8 e) < 0" and mx: "IFLA_OPERSTATE \<le> ifla_max B"
    and l: "link_has l MNLXT_RT_LINK_STATE"
    and ok: "heap_ok h" "data_inv h d ps" and n: "nlmsg_body n = b0"
    and put: "mnlxt_rt_link_put B M (Some n) (Some l) e = (rc, Some n', e')"
  shows "parsed h d ps (nlmsg_type n) (\<lambda>_. True) False (\<lambda>_ _. False) (mnlxt_rt_link_data B M (Some n') (Some d) h e)"
proof -
  let ?a = "mk IFLA_OPERSTATE (le32 (ucast (link_state l)))"
  obtain before behind where at: "attrs M (nlmsg_body n') = before @ ?a # behind" and t: "nlmsg_type n' = nlmsg_type n"
      and before: "\<And>a. a \<in> set before \<Longrightarrow> attr_type M a \<noteq> IFLA_LINKINFO"
    using link_state_split [OF N L u16 n l put] by metis
  have type: "attr_type M ?a = IFLA_OPERSTATE" by (simp add: libmnl_lawsD [OF L])
  have refused: "case link_attr B M ?a s e of Some (Next _ _) \<Rightarrow> False | _ \<Rightarrow> True" for s e
    using mx by (intro link_state_attr_refused u8 type) (simp add: libmnl_lawsD [OF L])
  have "parsed h d ps (nlmsg_type n') (\<lambda>_. True) False (\<lambda>_ _. False) (mnlxt_rt_link_data B M (Some n') (Some d) h e)"
  proof (rule link_parse_frame [OF ok], goal_cases)
    case (4 q h1)
    let ?l0 = "fst (link_from_hdr (hdr_read M (nlmsg_body n')) e)" and ?W = "link_work h d q (fst (link_from_hdr (hdr_read M (nlmsg_body n')) e))"
    have keeps: "parse_all ?W (link_attr B M a s e1)" if "attr_type M a \<noteq> IFLA_LINKINFO" "?W s" for a s e1
      using that by (intro link_attr_keeps) simp_all
    have stops: "parse_to (\<lambda>_. False) (\<lambda>s _. ?W s) (attr_loop (link_attr B M) (?a # behind) s e1)" if "?W s" for s e1
    proof -
      have "parse_all ?W (link_attr B M ?a s e1)" using that by (intro keeps) (simp_all add: type)
      with refused [of s e1] show ?thesis by (auto simp: parse_all_def split: option.splits parse.splits)
    qed
    have "parse_all ?W (attr_loop (link_attr B M) before (?l0, d, h1) (snd (link_from_hdr (hdr_read M (nlmsg_body n')) e)))"
      using before keeps by (intro attr_loop_all link_work_start 4) blast+
    then have "parse_to (\<lambda>_. False) (\<lambda>s _. ?W s) (link_loop B M n' d e q h1)"
      unfolding at by (intro parse_to_append [OF _ stops] parse_to_all)
    then show ?case by (rule parse_to_mono) (auto simp: link_work_def)
  qed simp_all
  then show ?thesis by (simp only: t)
qed

end
