(* ===== verification/Delivery.thy ===== *)
theory Delivery
  imports Library LinkCodec
begin

text \<open>
  From the messages of the kernel to the list of the client: a dump whose answer consists of messages that the
  parsers accept gives a list with one message for each of them, in their order, or, when memory runs out, for the
  first few. The predicates \<open>P\<close> say what is known of the payload that a message leads to; for messages written by
  the library itself that is a match with the object that was written.
\<close>

section \<open>What is assumed of libmnl and of the peer\<close>

text \<open>
  \<open>mnl_cb_run\<close> gives the messages of a buffer to the callback in their order until one ends the run, and stops at the
  end of a dump. \<open>msgs_of f sq pid\<close> are the messages of the buffer \<open>f\<close>, if all of them have this sequence number and
  this port.
\<close>

fun run_msgs ::
  "('b nlmsghdr \<Rightarrow> 's \<Rightarrow> errno \<Rightarrow> (int \<times> 's \<times> errno) option) \<Rightarrow> 'b nlmsghdr list \<Rightarrow> 's \<Rightarrow> errno \<Rightarrow>
     (int \<times> 's \<times> errno) option" where
  "run_msgs cb [] s e = Some (MNL_CB_OK, s, e)"
| "run_msgs cb (n # ns) s e =
     (if nlmsg_type n = NLMSG_DONE then Some (MNL_CB_STOP, s, e)
      else (case cb n s e of None \<Rightarrow> None
        | Some (rc, s', e') \<Rightarrow> if rc \<le> MNL_CB_STOP then Some (rc, s', e') else run_msgs cb ns s' e'))"

definition cb_run_in_order ::
  "('w, 'f, 'b) netio \<Rightarrow> ('f \<Rightarrow> u32 \<Rightarrow> int \<Rightarrow> 'b nlmsghdr list option) \<Rightarrow> bool" where
  "cb_run_in_order io msgs_of \<longleftrightarrow>
     (\<forall>f sq pid ns c s e. msgs_of f sq pid = Some ns \<longrightarrow> cb_run io f sq pid (Some c) s e = run_msgs c ns s e)"

text \<open>The datagrams that the socket \<open>nl\<close> still delivers, between interruptions by signals.\<close>

inductive serves ::
  "('w, 'f, 'b) netio \<Rightarrow> ('f \<Rightarrow> u32 \<Rightarrow> int \<Rightarrow> 'b nlmsghdr list option) \<Rightarrow> nat \<Rightarrow> u32 \<Rightarrow> 'w \<Rightarrow>
     'b nlmsghdr list list \<Rightarrow> bool"
  for io msgs_of nl sq where
  nothing: "serves io msgs_of nl sq w []"
| interrupted: "serves io msgs_of nl sq w nss"
    if "\<forall>e. \<exists>len f. socket_recvfrom io nl w e = (len, f, w', EINTR) \<and> len < 0" "serves io msgs_of nl sq w' nss"
| datagram: "serves io msgs_of nl sq w (ns # nss)"
    if "\<forall>e. \<exists>len e'. socket_recvfrom io nl w e = (len, f, w', e') \<and> 0 < len" "malloc_ok io w'"
      "msgs_of f sq (socket_get_portid io nl) = Some ns" "serves io msgs_of nl sq w' nss"

text \<open>A peer on \<open>bus\<close> that accepts the connection and answers every request of the kind \<open>req\<close> with the datagrams \<open>nss\<close>.\<close>

definition peer_answers ::
  "('w, 'f, 'b) netio \<Rightarrow> ('f \<Rightarrow> u32 \<Rightarrow> int \<Rightarrow> 'b nlmsghdr list option) \<Rightarrow> int \<Rightarrow> ('b nlmsghdr \<Rightarrow> bool) \<Rightarrow> 'w \<Rightarrow>
     'b nlmsghdr list list \<Rightarrow> bool" where
  "peer_answers io msgs_of bus req w nss \<longleftrightarrow>
     (\<exists>nl w1 w2.
        (\<forall>e. \<exists>e'. socket_open io bus w e = (Some nl, w1, e')) \<and>
        (\<forall>e. \<exists>rc e'. socket_bind io nl 0 w1 e = (rc, w2, e') \<and> 0 \<le> rc) \<and>
        (\<forall>n e. req n \<longrightarrow> (\<exists>rc w3 e'. socket_sendto io nl n w2 e = (rc, w3, e') \<and> 0 < rc \<and>
           serves io msgs_of nl (nlmsg_seq n) w3 nss)))"

text \<open>The answer to a dump: some datagrams of messages, the last of them with the message that ends the dump.\<close>

definition dump_answer :: "'b nlmsghdr list \<Rightarrow> 'b nlmsghdr list list \<Rightarrow> bool" where
  "dump_answer ns nss \<longleftrightarrow>
     (\<exists>before final fin. nss = before @ [final @ [fin]] \<and> ns = concat before @ final \<and> nlmsg_type fin = NLMSG_DONE)"

section \<open>One message\<close>

text \<open>A predicate on payloads that does not depend on what else there is on the heap.\<close>

definition lasting :: "(pheap \<Rightarrow> payload \<Rightarrow> bool) \<Rightarrow> bool" where
  "lasting P \<longleftrightarrow> (\<forall>h h' x. P h x \<longrightarrow> (\<forall>p s. strs h p = Some s \<longrightarrow> strs h' p = Some s) \<longrightarrow> P h' x)"

text \<open>
  The message \<open>n\<close> is given to a parser that appends a payload with the property \<open>P\<close>, if memory allows, as long as
  the strings of the client's heap \<open>h0\<close> are there.
\<close>

definition delivers ::
  "'b callbacks \<Rightarrow> mnlxt_data_t \<Rightarrow> pheap \<Rightarrow> 'b nlmsghdr \<Rightarrow> (pheap \<Rightarrow> payload \<Rightarrow> bool) \<Rightarrow> bool" where
  "delivers cbs d0 h0 n P \<longleftrightarrow>
     lasting P \<and> nlmsg_type n \<noteq> NLMSG_DONE \<and> NLM_F_DUMP_INTR AND nlmsg_flags n = 0 \<and>
     (\<exists>c. data_parse_cb d0 (nlmsg_type n) = Some c \<and>
        (\<forall>h d ps e. heap_ok h \<and> data_inv h d ps \<and> (\<forall>p s. strs h0 p = Some s \<longrightarrow> strs h p = Some s) \<longrightarrow>
           parsed h d ps (nlmsg_type n) (memory_lost h) False P (call_parse cbs c n d h e)))"

text \<open>The message at \<open>p\<close> has a payload with the property \<open>P\<close>.\<close>

definition carries :: "pheap \<Rightarrow> (pheap \<Rightarrow> payload \<Rightarrow> bool) \<Rightarrow> ptr \<Rightarrow> bool" where
  "carries h P p \<longleftrightarrow> (\<exists>m q x. msgs h p = Some m \<and> msg_payload m = Some q \<and> objs h q = Some x \<and> P h x)"

lemma carries_appended:
  assumes c: "carries h P p" "lasting P" and app: "appended h ps type Q d' h'"
  shows "carries h' P p"
proof -
  from c(1) obtain m q x where m: "msgs h p = Some m" "msg_payload m = Some q" "objs h q = Some x" "P h x"
    by (auto simp: carries_def)
  from app obtain q' y where a: "objs h q' = None" "objs h' = (objs h)(q' \<mapsto> y)"
      "map_option (\<lambda>m. m\<lparr>msg_next := None\<rparr>) (msgs h' p) = map_option (\<lambda>m. m\<lparr>msg_next := None\<rparr>) (msgs h p)"
      "(strs h') |` (- payload_parts y) = strs h"
    unfolding appended_def using m(1) by (metis option.distinct(1))
  from a(3) m(1) obtain m' where m': "msgs h' p = Some m'" "m'\<lparr>msg_next := None\<rparr> = m\<lparr>msg_next := None\<rparr>"
    by (cases "msgs h' p") auto
  have "strs h' p = Some s" if "strs h p = Some s" for p s
    using that a(4) by (metis option.distinct(1) restrict_in restrict_out)
  with c(2) m(4) have "P h' x" unfolding lasting_def by blast
  moreover have "objs h' q = Some x" using a(1,2) m(3) by auto
  ultimately show ?thesis using m' m(2) same_next_eq [OF m'(2)] by (auto simp: carries_def)
qed

text \<open>What the client has after the messages with the properties \<open>Ps\<close>.\<close>

definition progress ::
  "pheap \<Rightarrow> mnlxt_data_t \<Rightarrow> mnlxt_data_t \<Rightarrow> pheap \<Rightarrow> (pheap \<Rightarrow> payload \<Rightarrow> bool) list \<Rightarrow> bool" where
  "progress h0 d0 d h Ps \<longleftrightarrow>
     (\<forall>P \<in> set Ps. lasting P) \<and> oom h = oom h0 \<and> same_handlers d0 d \<and>
     (\<exists>ps. holding h0 d h ps \<and> list_all2 (carries h) Ps ps)"

text \<open>The messages up to one for which there was no memory.\<close>

definition cut_short ::
  "pheap \<Rightarrow> mnlxt_data_t \<Rightarrow> mnlxt_data_t \<Rightarrow> pheap \<Rightarrow> errno \<Rightarrow> (pheap \<Rightarrow> payload \<Rightarrow> bool) list \<Rightarrow> bool" where
  "cut_short h0 d0 d h e Ps \<longleftrightarrow> memory_lost h0 e \<and> (\<exists>k < length Ps. progress h0 d0 d h (take k Ps))"

lemma cut_shortI: "memory_lost h0 e \<Longrightarrow> progress h0 d0 d h As \<Longrightarrow> Bs \<noteq> [] \<Longrightarrow> cut_short h0 d0 d h e (As @ Bs)"
  by (auto simp: cut_short_def intro: exI [of _ "length As"])

lemma cut_short_append:
  assumes "cut_short h0 d0 d h e As"
  shows "cut_short h0 d0 d h e (As @ Bs)"
proof -
  from assms obtain k where k: "k < length As" "progress h0 d0 d h (take k As)" "memory_lost h0 e"
    by (auto simp: cut_short_def)
  then have "take k (As @ Bs) = take k As" by simp
  with k show ?thesis unfolding cut_short_def by (metis length_append trans_less_add1)
qed

lemma progress_append:
  assumes pr: "progress h0 d0 d h As" and app: "appended h ps type P d' h'" and ps: "data_inv h d ps"
    and h': "heap_ok h'" "oom h' = oom h" and s: "same_handlers d d'" "lasting P"
  shows "progress h0 d0 d' h' (As @ [P])"
proof -
  from pr obtain qs where qs: "holding h0 d h qs" "list_all2 (carries h) As qs" by (auto simp: progress_def)
  from qs(1) ps have "qs = ps" using chain_unique by (auto simp: holding_def data_inv_def)
  note qs = qs [unfolded this]
  from holding_append [OF qs(1) app h'(1)] obtain m where m: "holding h0 d' h' (ps @ [m])" by blast
  from app obtain m0 q x cb where n: "data_inv h' d' (ps @ [m0])" "msgs h' m0 = Some \<lparr>msg_next = None, msg_type = type,
      msg_flags = 0, msg_payload = Some q, msg_handler = Some cb\<rparr>" "objs h' = (objs h)(q \<mapsto> x)" "P h' x"
    unfolding appended_def by blast
  from m n(1) have "ps @ [m] = ps @ [m0]" using chain_unique by (auto simp: holding_def data_inv_def)
  with n have "carries h' P m" by (simp add: carries_def)
  moreover have "list_all2 (carries h') As ps"
    by (rule list.rel_mono_strong [OF qs(2)]) (use pr carries_appended [OF _ _ app] in \<open>auto simp: progress_def\<close>)
  ultimately have "list_all2 (carries h') (As @ [P]) (ps @ [m])" by (simp add: list_all2_appendI)
  with m pr h'(2) s show ?thesis by (auto simp: progress_def intro: same_handlers_trans)
qed

lemma message_delivered:
  assumes pr: "progress h0 d0 d h As" and n: "delivers cbs d0 h0 n P"
  obtains (more) d' h' e' where "data_cb_fn io cbs n (d, h) e = Some (MNL_CB_OK, (d', h'), e')" "progress h0 d0 d' h' (As @ [P])"
  | (lost) d' h' e' where "data_cb_fn io cbs n (d, h) e = Some (MNL_CB_ERROR, (d', h'), e')" "progress h0 d0 d' h' As"
      "memory_lost h0 e'"
proof -
  from pr obtain ps where ps: "holding h0 d h ps" and l: "list_all2 (carries h) As ps" and o: "oom h = oom h0"
    and s: "same_handlers d0 d" by (auto simp: progress_def)
  from s have "data_parse_cb d (nlmsg_type n) = data_parse_cb d0 (nlmsg_type n)"
    by (simp add: data_parse_cb_def same_handlers_def)
  with n obtain c where c: "data_parse_cb d (nlmsg_type n) = Some c" "NLM_F_DUMP_INTR AND nlmsg_flags n = 0"
      "\<And>h d ps e. heap_ok h \<Longrightarrow> data_inv h d ps \<Longrightarrow> \<forall>p s. strs h0 p = Some s \<longrightarrow> strs h p = Some s \<Longrightarrow>
         parsed h d ps (nlmsg_type n) (memory_lost h) False P (call_parse cbs c n d h e)"
    unfolding delivers_def by auto
  from ps have ok: "heap_ok h" "data_inv h d ps" by (simp_all add: holding_def)
  from ps have sub: "\<forall>p s. strs h0 p = Some s \<longrightarrow> strs h p = Some s"
    unfolding holding_def by (metis option.distinct(1) restrict_in restrict_out)
  have cb: "data_cb_fn io cbs n (d, h) e =
      map_option (\<lambda>(rc, d', h', e'). (rc, (case d' of None \<Rightarrow> fst (d, h) | Some d1 \<Rightarrow> d1, h'), e')) (call_parse cbs c n d h e)"
    using c(1,2) by (simp add: data_cb_fn_def mnlxt_data_cb_def)
  from c(3) [OF ok sub, of e] obtain rc d' h' e' where
    r: "call_parse cbs c n d h e = Some (rc, Some d', h', e')" "heap_ok h'" "oom h' = oom h" "same_handlers d d'"
      "rc = MNL_CB_ERROR \<and> memory_lost h e' \<and> data_inv h' d' ps \<and> same_contents h h' \<or>
       rc = MNL_CB_OK \<and> appended h ps (nlmsg_type n) P d' h'"
    unfolding parsed_def same_contents_def by auto
  from r(5) show thesis
  proof (elim disjE conjE)
    assume "rc = MNL_CB_OK" "appended h ps (nlmsg_type n) P d' h'"
    with more [of d' h' e'] progress_append [OF pr _ ok(2) r(2,3,4), of "nlmsg_type n" P] n r(1) show thesis
      by (auto simp: cb delivers_def)
  next
    assume a: "rc = MNL_CB_ERROR" "memory_lost h e'" "data_inv h' d' ps" "same_contents h h'"
    have "holding h0 d' h' ps" using holding_same [OF ps a(4) r(2)] a(3) by (simp add: holding_def)
    moreover have "list_all2 (carries h') As ps"
      by (rule list.rel_mono_strong [OF l]) (use a(4) pr in \<open>auto simp: carries_def same_contents_def progress_def lasting_def\<close>)
    moreover have "memory_lost h0 e'" using a(2) o by (simp add: memory_lost_def)
    ultimately show thesis using lost [of d' h' e'] pr o s r(1,3,4) a(1)
      by (auto simp: cb progress_def intro: same_handlers_trans)
  qed
qed

section \<open>The messages of a datagram\<close>

lemma messages_delivered:
  assumes "progress h0 d0 d h As" "list_all2 (delivers cbs d0 h0) ns Ps"
  obtains (all) d' h' e' where "\<And>rest. run_msgs (data_cb_fn io cbs) (ns @ rest) (d, h) e = run_msgs (data_cb_fn io cbs) rest (d', h') e'"
      "progress h0 d0 d' h' (As @ Ps)"
  | (cut) d' h' e' where "\<And>rest. run_msgs (data_cb_fn io cbs) (ns @ rest) (d, h) e = Some (MNL_CB_ERROR, (d', h'), e')"
      "cut_short h0 d0 d' h' e' (As @ Ps)"
  using assms(2,1)
proof (induction ns Ps arbitrary: As d h e thesis rule: list_all2_induct)
  case Nil
  then show ?case by simp
next
  case (Cons n ns P Ps)
  have "nlmsg_type n \<noteq> NLMSG_DONE" using Cons.hyps(1) by (simp add: delivers_def)
  note step = run_msgs.simps(2) [of "data_cb_fn io cbs" n, unfolded if_not_P [OF this]]
  note all = Cons.prems(1) and cut = Cons.prems(2)
  from Cons.prems(3) Cons.hyps(1) show ?case
  proof (cases rule: message_delivered [where io = io and e = e])
    case (more d1 h1 e1)
    have go: "run_msgs (data_cb_fn io cbs) ((n # ns) @ rest) (d, h) e = run_msgs (data_cb_fn io cbs) (ns @ rest) (d1, h1) e1"
      for rest by (simp add: step more(1) del: run_msgs.simps(2))
    show ?thesis
    proof (rule Cons.IH [where As = "As @ [P]" and d = d1 and h = h1 and e = e1])
      show "progress h0 d0 d1 h1 (As @ [P])" by (rule more(2))
    next
      fix d' h' e'
      assume "\<And>rest. run_msgs (data_cb_fn io cbs) (ns @ rest) (d1, h1) e1 = run_msgs (data_cb_fn io cbs) rest (d', h') e'"
        "progress h0 d0 d' h' ((As @ [P]) @ Ps)"
      then show thesis unfolding go [symmetric] by (intro all [of d' h' e']) simp_all
    next
      fix d' h' e'
      assume "\<And>rest. run_msgs (data_cb_fn io cbs) (ns @ rest) (d1, h1) e1 = Some (MNL_CB_ERROR, (d', h'), e')"
        "cut_short h0 d0 d' h' e' ((As @ [P]) @ Ps)"
      then show thesis unfolding go [symmetric] by (intro cut [of d' h' e']) simp_all
    qed
  next
    case (lost d1 h1 e1)
    from cut_shortI [OF lost(3,2), of "P # Ps"] show ?thesis
      by (intro cut [of d1 h1 e1]) (simp_all add: step lost(1) del: run_msgs.simps(2))
  qed
qed

lemma progress_error [simp]:
  "progress h0 d0 (d\<lparr>data_error_str := s\<rparr>) h Ps = progress h0 d0 d h Ps"
  "cut_short h0 d0 (d\<lparr>data_error_str := s\<rparr>) h e Ps = cut_short h0 d0 d h e Ps"
  by (simp_all add: progress_def cut_short_def)

lemma datagram_delivered:
  assumes order: "cb_run_in_order io msgs_of"
    and b: "b_buf b = Some f" "b_len b \<noteq> 0" "msgs_of f (b_seq b) (b_portid b) = Some (ns @ rest)"
    and pr: "progress h0 d0 d h As" "list_all2 (delivers cbs d0 h0) ns Ps" "data_handlers d0 \<noteq> None"
    and rest: "rest = [] \<or> (\<exists>fin. rest = [fin] \<and> nlmsg_type fin = NLMSG_DONE)"
  shows "\<exists>rc d' h' e'. mnlxt_data_parse io cbs (Some d) (Some b) h e = Some (rc, Some d', h', e') \<and>
    (rc = (if rest = [] then 0 else 1) \<and> progress h0 d0 d' h' (As @ Ps) \<or> rc = - 1 \<and> cut_short h0 d0 d' h' e' (As @ Ps))"
proof -
  from pr(1,3) have "data_handlers d \<noteq> None" by (auto simp: progress_def same_handlers_def)
  with b order have parse: "mnlxt_data_parse io cbs (Some d) (Some b) h e =
      Option.bind (map_option (\<lambda>(ret, (d', h'), e'). (ret, Some d', h', e')) (run_msgs (data_cb_fn io cbs) (ns @ rest) (d, h) e))
        (\<lambda>(ret, data2, h2, e2). Some
           (if MNL_CB_ERROR = ret then
              (- 1, map_option (\<lambda>d. if data_error_str d = None
                 then d\<lparr>data_error_str := Some ''mnl_cb_run failed''\<rparr> else d) data2, h2, e2)
            else if MNL_CB_STOP = ret then (1, data2, h2, e2)
            else (0, data2, h2, e2)))"
    by (auto simp: mnlxt_data_parse_def cb_run_in_order_def)
  from pr(1,2) show ?thesis
  proof (cases rule: messages_delivered [where io = io and e = e])
    case (all d' h' e')
    with rest show ?thesis unfolding parse all(1) by auto
  next
    case (cut d' h' e')
    then show ?thesis unfolding parse cut(1) by auto
  qed
qed

section \<open>The whole dump\<close>

lemma recv_served:
  assumes "serves io msgs_of nl sq w (ns # nss)"
  shows "\<exists>len f w' e'. recv_loop io nl w e = Some (RecvGot len f, w', e') \<and> 0 < len \<and> malloc_ok io w' \<and>
    msgs_of f sq (socket_get_portid io nl) = Some ns \<and> serves io msgs_of nl sq w' nss"
  using assms
proof (induction w "ns # nss" arbitrary: e rule: serves.induct)
  case (interrupted w w')
  from interrupted.hyps(1) obtain len f where r: "socket_recvfrom io nl w e = (len, f, w', EINTR)" "len < 0" by blast
  from interrupted.hyps(3) [of EINTR] show ?case by (subst recv_loop.simps) (simp add: r)
next
  case (datagram w f w')
  from datagram.hyps(1) obtain len e' where r: "socket_recvfrom io nl w e = (len, f, w', e')" "0 < len" by blast
  then have "recv_loop io nl w e = Some (RecvGot len f, w', e')" by (subst recv_loop.simps) simp
  with r(2) datagram.hyps(2-4) show ?case by blast
qed

lemma receive_served:
  assumes "h_nl hnd = Some nl" "serves io msgs_of nl (h_seq hnd) w (ns # nss)"
  shows "\<exists>len b' f w' e'. mnlxt_receive io (Some hnd) (Some b) w e = Some (len, Some hnd, Some b', w', e') \<and> 0 < len \<and>
    b_buf b' = Some f \<and> b_len b' = len \<and> msgs_of f (b_seq b') (b_portid b') = Some ns \<and>
    serves io msgs_of nl (h_seq hnd) w' nss"
  using recv_served [OF assms(2), of e] by (auto simp: mnlxt_receive_def assms(1) Let_def)

lemma loop_delivered:
  assumes order: "cb_run_in_order io msgs_of" and d0: "data_handlers d0 \<noteq> None" and nl: "h_nl hnd = Some nl"
    and fin: "nlmsg_type fin = NLMSG_DONE"
    and serves: "serves io msgs_of nl (h_seq hnd) w (before @ [final @ [fin]])"
    and pr: "progress h0 d0 d h As" "list_all2 (delivers cbs d0 h0) (concat before @ final) Ps"
  shows "\<exists>rc d' h' w' e'. request_loop io cbs (Some hnd) (Some b) (Some d) h w e = Some (rc, Some hnd, Some d', h', w', e') \<and>
    (rc = 0 \<and> progress h0 d0 d' h' (As @ Ps) \<or> rc = - 1 \<and> cut_short h0 d0 d' h' e' (As @ Ps))"
  using serves pr
proof (induction before arbitrary: w As d h Ps b e)
  case Nil
  from receive_served [OF nl, of io msgs_of w "final @ [fin]" "[]" b e] Nil.prems(1) obtain len b' f w1 e1 where
    r: "mnlxt_receive io (Some hnd) (Some b) w e = Some (len, Some hnd, Some b', w1, e1)" "0 < len"
      "b_buf b' = Some f" "b_len b' \<noteq> 0" "msgs_of f (b_seq b') (b_portid b') = Some (final @ [fin])" by auto
  from Nil.prems(3) have "list_all2 (delivers cbs d0 h0) final Ps" by simp
  from datagram_delivered [OF order r(3-5) Nil.prems(2) this d0, of e1] fin obtain rc d' h' e' where
    "mnlxt_data_parse io cbs (Some d) (Some b') h e1 = Some (rc, Some d', h', e')"
    "rc = 1 \<and> progress h0 d0 d' h' (As @ Ps) \<or> rc = - 1 \<and> cut_short h0 d0 d' h' e' (As @ Ps)" by auto
  then show ?case by (subst request_loop.simps) (auto simp: r)
next
  case (Cons ns before)
  from receive_served [OF nl, of io msgs_of w ns "before @ [final @ [fin]]" b e] Cons.prems(1) obtain len b' f w1 e1 where
    r: "mnlxt_receive io (Some hnd) (Some b) w e = Some (len, Some hnd, Some b', w1, e1)" "0 < len"
      "b_buf b' = Some f" "b_len b' \<noteq> 0" "msgs_of f (b_seq b') (b_portid b') = Some (ns @ [])"
      "serves io msgs_of nl (h_seq hnd) w1 (before @ [final @ [fin]])" by auto
  from Cons.prems(3) obtain Qs Rs where ps: "Ps = Qs @ Rs" "list_all2 (delivers cbs d0 h0) ns Qs"
    "list_all2 (delivers cbs d0 h0) (concat before @ final) Rs" by (auto simp: list_all2_append1)
  from datagram_delivered [OF order r(3-5) Cons.prems(2) ps(2) d0, of e1] obtain rc d' h' e' where
    p: "mnlxt_data_parse io cbs (Some d) (Some b') h e1 = Some (rc, Some d', h', e')"
    "rc = 0 \<and> progress h0 d0 d' h' (As @ Qs) \<or> rc = - 1 \<and> cut_short h0 d0 d' h' e' (As @ Qs)" by auto
  show ?case
  proof (cases "rc = 0")
    case True
    with p(2) have "progress h0 d0 d' h' (As @ Qs)" by simp
    from Cons.IH [OF r(6) this ps(3), of buffer_zero e'] show ?thesis
      by (subst request_loop.simps) (simp add: r(1,2) p(1) True mnlxt_buffer_clean_def ps(1))
  next
    case False
    with p(2) have "rc = - 1" "cut_short h0 d0 d' h' e' ((As @ Qs) @ Rs)"
      by (auto intro: cut_short_append simp del: append_assoc)
    then show ?thesis by (subst request_loop.simps) (auto simp: r(1,2) p(1) ps(1))
  qed
qed

lemma request_delivered:
  assumes order: "cb_run_in_order io msgs_of" and d0: "data_handlers d0 \<noteq> None"
    and peer: "peer_answers io msgs_of bus req w nss" "\<And>sq. req (n\<lparr>nlmsg_seq := sq\<rparr>)" "dump_answer ns nss"
    and pr: "progress h0 d0 d h []" "list_all2 (delivers cbs d0 h0) ns Ps"
  shows "\<exists>rc d' h' w' e'. mnlxt_request io cbs (Some n) bus (Some d) h w e = Some (rc, Some d', h', w', e') \<and>
    (rc = 0 \<and> progress h0 d0 d' h' Ps \<or> rc = - 1 \<and> cut_short h0 d0 d' h' e' Ps)"
proof -
  from peer(1) obtain nl w1 w2 where p:
    "\<And>e. \<exists>e'. socket_open io bus w e = (Some nl, w1, e')" "\<And>e. \<exists>rc e'. socket_bind io nl 0 w1 e = (rc, w2, e') \<and> 0 \<le> rc"
    "\<And>n e. req n \<Longrightarrow> \<exists>rc w3 e'. socket_sendto io nl n w2 e = (rc, w3, e') \<and> 0 < rc \<and>
       serves io msgs_of nl (nlmsg_seq n) w3 nss"
    unfolding peer_answers_def by blast
  obtain e1 where o: "socket_open io bus w e = (Some nl, w1, e1)" using p(1) by blast
  obtain rc2 e2 where b: "socket_bind io nl 0 w1 e1 = (rc2, w2, e2)" "0 \<le> rc2" using p(2) by blast
  let ?h1 = "handle_zero\<lparr>h_nl := Some nl, h_seq := clock io w2 + 1\<rparr>" and ?n = "n\<lparr>nlmsg_seq := clock io w2 + 1\<rparr>"
  obtain rc3 w3 e3 where t: "socket_sendto io nl ?n w2 e2 = (rc3, w3, e3)" "0 < rc3"
      "serves io msgs_of nl (nlmsg_seq ?n) w3 nss"
    using p(3) [OF peer(2) [of "clock io w2 + 1"]] by blast
  from peer(3) obtain before final fin where a: "nss = before @ [final @ [fin]]" "ns = concat before @ final"
    "nlmsg_type fin = NLMSG_DONE" unfolding dump_answer_def by blast
  have "h_nl ?h1 = Some nl" "serves io msgs_of nl (h_seq ?h1) w3 (before @ [final @ [fin]])" using t(3) a(1) by simp_all
  from loop_delivered [OF order d0 this(1) a(3) this(2) pr(1) pr(2) [unfolded a(2)], of buffer_zero e3]
  obtain rc d' h' w' e' where
    "request_loop io cbs (Some ?h1) (Some buffer_zero) (Some d) h w3 e3 = Some (rc, Some ?h1, Some d', h', w', e')"
    "rc = 0 \<and> progress h0 d0 d' h' Ps \<or> rc = - 1 \<and> cut_short h0 d0 d' h' e' Ps" by auto
  then show ?thesis using b(2) t(2)
    by (auto simp: mnlxt_request_def mnlxt_connect_def mnlxt_send_def mnlxt_disconnect_def o b(1) t(1))
qed

text \<open>The requests that a dump sends.\<close>

definition dump_request :: "u16 \<Rightarrow> 'b nlmsghdr \<Rightarrow> bool" where
  "dump_request type n \<longleftrightarrow> nlmsg_type n = type \<and> nlmsg_flags n = NLM_F_REQUEST OR NLM_F_DUMP"

definition rt_data :: mnlxt_data_t where
  "rt_data = data_zero\<lparr>data_handlers := Some rt_data_handlers, data_nhandlers := rt_data_nhandlers\<rparr>"

definition xfrm_data :: mnlxt_data_t where
  "xfrm_data = data_zero\<lparr>data_handlers := Some xfrm_data_handlers, data_nhandlers := xfrm_data_nhandlers\<rparr>"

text \<open>The result of a dump that was answered with messages for \<open>Ps\<close>.\<close>

definition dump_delivers ::
  "pheap \<Rightarrow> (pheap \<Rightarrow> payload \<Rightarrow> bool) list \<Rightarrow> (int \<times> mnlxt_data_t option \<times> pheap \<times> 'w \<times> errno) option \<Rightarrow> bool" where
  "dump_delivers h0 Ps r \<longleftrightarrow>
     (\<exists>rc d h w e ps. r = Some (rc, Some d, h, w, e) \<and> holding h0 d h ps \<and>
        (rc = 0 \<and> list_all2 (carries h) Ps ps \<or>
         rc = - 1 \<and> memory_lost h0 e \<and> (\<exists>k < length Ps. list_all2 (carries h) (take k Ps) ps)))"

lemma dump_delivered:
  assumes order: "cb_run_in_order io msgs_of" and ok: "heap_ok h" and ans: "dump_answer ns nss"
  shows "peer_answers io msgs_of NETLINK_ROUTE (dump_request type) w nss \<Longrightarrow> list_all2 (delivers cbs rt_data h) ns Ps \<Longrightarrow>
      dump_delivers h Ps (mnlxt_rt_data_dump io cbs (Some data_zero) type family h w e)"
    and "peer_answers io msgs_of NETLINK_XFRM (dump_request type) w nss \<Longrightarrow> list_all2 (delivers cbs xfrm_data h) ns Ps \<Longrightarrow>
      dump_delivers h Ps (mnlxt_xfrm_data_dump io cbs (Some data_zero) type h w e)"
proof -
  have start: "progress h d d h []" if "data_first d = None" "data_last d = None" for d
    using holding_start [OF ok that] by (auto simp: progress_def)
  have res: "dump_delivers h Ps r"
    if "\<exists>rc d' h' w' e'. r = Some (rc, Some d', h', w', e') \<and>
      (rc = 0 \<and> progress h d0 d' h' Ps \<or> rc = - 1 \<and> cut_short h d0 d' h' e' Ps)"
    for d0 and r :: "(int \<times> mnlxt_data_t option \<times> pheap \<times> 'a \<times> errno) option"
    using that unfolding dump_delivers_def progress_def cut_short_def by blast
  show "dump_delivers h Ps (mnlxt_rt_data_dump io cbs (Some data_zero) type family h w e)"
    if p: "peer_answers io msgs_of NETLINK_ROUTE (dump_request type) w nss" "list_all2 (delivers cbs rt_data h) ns Ps"
  proof -
    let ?n = "\<lparr>nlmsg_type = type, nlmsg_flags = NLM_F_REQUEST OR NLM_F_DUMP, nlmsg_seq = 0,
      nlmsg_body = put_rtgenmsg io family (body_empty io)\<rparr>"
    have eq: "mnlxt_rt_data_dump io cbs (Some data_zero) type family h w e =
        mnlxt_request io cbs (Some ?n) NETLINK_ROUTE (Some rt_data) h w e"
      by (simp add: mnlxt_rt_data_dump_def mnlxt_data_dump_def rt_data_def)
    show ?thesis unfolding eq
      by (rule res [OF request_delivered [OF order _ p(1) _ ans start p(2)]]) (simp_all add: rt_data_def dump_request_def data_zero_def)
  qed
  show "dump_delivers h Ps (mnlxt_xfrm_data_dump io cbs (Some data_zero) type h w e)"
    if p: "peer_answers io msgs_of NETLINK_XFRM (dump_request type) w nss" "list_all2 (delivers cbs xfrm_data h) ns Ps"
  proof -
    let ?n = "\<lparr>nlmsg_type = type, nlmsg_flags = NLM_F_REQUEST OR NLM_F_DUMP, nlmsg_seq = 0,
      nlmsg_body = body_empty io\<rparr>"
    have eq: "mnlxt_xfrm_data_dump io cbs (Some data_zero) type h w e =
        mnlxt_request io cbs (Some ?n) NETLINK_XFRM (Some xfrm_data) h w e"
      by (simp add: mnlxt_xfrm_data_dump_def mnlxt_data_dump_def xfrm_data_def)
    show ?thesis unfolding eq
      by (rule res [OF request_delivered [OF order _ p(1) _ ans start p(2)]]) (simp_all add: xfrm_data_def dump_request_def data_zero_def)
  qed
qed

end
