(* ===== verification/Exchange.thy ===== *)
theory Exchange
  imports Delivery
begin

text \<open>
  Objects on both sides of a connection. \<open>wrote\<close> relates a payload to the message that the \<open>put\<close> callback of its
  module makes of it, \<open>payload_match\<close> is the module's own comparison; every written message delivers a payload that
  matches the written one.
\<close>

section \<open>Matching depends on strings only\<close>

lemma str_differs_later:
  "str_differs h a b = Some v \<Longrightarrow> (\<And>p s. strs h p = Some s \<Longrightarrow> strs h' p = Some s) \<Longrightarrow> str_differs h' a b = Some v"
  by (cases a; cases b) (auto simp: str_differs_def split: option.splits)

lemma rule_cmp_later:
  assumes "mnlxt_rt_rule_cmp h x y i = Some c" "\<And>p s. strs h p = Some s \<Longrightarrow> strs h' p = Some s"
  shows "mnlxt_rt_rule_cmp h' x y i = Some c"
proof (cases "i \<in> {MNLXT_RT_RULE_OIFNAME, MNLXT_RT_RULE_IIFNAME}")
  case True
  then have "\<exists>a b. \<forall>h. mnlxt_rt_rule_cmp h x y i = map_option (\<lambda>failed. if failed then int i + 1 else 0) (str_differs h a b)"
    by (elim insertE emptyE; hypsubst) (auto simp: mnlxt_rt_rule_cmp_def)
  then obtain a b where "\<And>h. mnlxt_rt_rule_cmp h x y i = map_option (\<lambda>failed. if failed then int i + 1 else 0) (str_differs h a b)"
    by blast
  with assms(1) str_differs_later [of h a b _ h'] assms(2) show ?thesis by (auto simp: map_option_eq_Some)
next
  case False
  then have "mnlxt_rt_rule_cmp h' x y i = mnlxt_rt_rule_cmp h x y i" by (simp add: mnlxt_rt_rule_cmp_def)
  with assms(1) show ?thesis by simp
qed

lemma addr_cmp_later:
  assumes "mnlxt_rt_addr_cmp h x y i = Some c" "\<And>p s. strs h p = Some s \<Longrightarrow> strs h' p = Some s"
  shows "mnlxt_rt_addr_cmp h' x y i = Some c"
proof (cases "i = MNLXT_RT_ADDR_LABEL")
  case True
  then have "mnlxt_rt_addr_cmp h x y i = map_option (\<lambda>failed. if failed then int i + 1 else 0)
      (if addr_label x = None \<or> addr_label y = None then Some True else str_differs h (addr_label x) (addr_label y))" for h
    unfolding True by (simp add: mnlxt_rt_addr_cmp_def)
  with assms(1) str_differs_later [of h "addr_label x" "addr_label y" _ h'] assms(2) show ?thesis
    by (cases "addr_label x = None \<or> addr_label y = None") (auto simp: map_option_eq_Some)
next
  case False
  then have "mnlxt_rt_addr_cmp h' x y i = mnlxt_rt_addr_cmp h x y i" by (simp add: mnlxt_rt_addr_cmp_def)
  with assms(1) show ?thesis by simp
qed

lemma rule_match_later:
  assumes "mnlxt_rt_rule_match h (Some x) (Some y) e = Some (rc, e)" "\<And>p s. strs h p = Some s \<Longrightarrow> strs h' p = Some s"
  shows "mnlxt_rt_rule_match h' (Some x) (Some y) e' = Some (rc, e')"
  using assms(1) cmp_loop_m_mono [of "mnlxt_rt_rule_cmp h x y" "mnlxt_rt_rule_cmp h' x y"] rule_cmp_later [OF _ assms(2)]
  by (auto simp: mnlxt_rt_rule_match_def mnlxt_rt_rule_compare_def)

lemma addr_match_later:
  assumes "mnlxt_rt_addr_match h (Some x) (Some y) e = Some (rc, e)" "\<And>p s. strs h p = Some s \<Longrightarrow> strs h' p = Some s"
  shows "mnlxt_rt_addr_match h' (Some x) (Some y) e' = Some (rc, e')"
  using assms(1) cmp_loop_m_mono [of "mnlxt_rt_addr_cmp h x y" "mnlxt_rt_addr_cmp h' x y"] addr_cmp_later [OF _ assms(2)]
  by (auto simp: mnlxt_rt_addr_match_def mnlxt_rt_addr_compare_def)

text \<open>The first payload has all the properties of the second, with the same values, as the module sees it.\<close>

fun payload_match :: "payload \<Rightarrow> pheap \<Rightarrow> payload \<Rightarrow> bool" where
  "payload_match (PRoute m) h (PRoute x) = (\<forall>e. mnlxt_rt_route_match (Some x) (Some m) e = (0, e))"
| "payload_match (PRule m) h (PRule x) = (\<forall>e. mnlxt_rt_rule_match h (Some x) (Some m) e = Some (0, e))"
| "payload_match (PAddr m) h (PAddr x) = (\<forall>e. mnlxt_rt_addr_match h (Some x) (Some m) e = Some (0, e))"
| "payload_match (PLink m) h (PLink x) = (\<forall>e. mnlxt_rt_link_match (Some x) (Some m) e = (0, e))"
| "payload_match (PPolicy m) h (PPolicy x) = (\<forall>e. mnlxt_xfrm_policy_match (Some x) (Some m) e = (0, e))"
| "payload_match _ h _ = False"

lemma payload_match_lasting: "lasting (payload_match m)"
  unfolding lasting_def
proof (intro allI impI)
  fix h h' :: pheap and x
  assume m: "payload_match m h x" and later: "\<forall>p s. strs h p = Some s \<longrightarrow> strs h' p = Some s"
  then show "payload_match m h' x"
    by (cases m; cases x) (auto intro: rule_match_later addr_match_later)
qed

text \<open>The comparisons do not look at \<open>errno\<close>.\<close>

lemma link_info_cmp_errno:
  "mnlxt_rt_link_info_cmp (Some a) (Some b) flt e = (rc, e) \<Longrightarrow> 0 \<le> rc \<Longrightarrow>
     mnlxt_rt_link_info_cmp (Some a) (Some b) flt e' = (rc, e')"
  by (auto simp: mnlxt_rt_link_info_cmp_def mnlxt_rt_link_vlan_cmp_def mnlxt_rt_link_tun_cmp_def mnlxt_rt_link_xfrm_cmp_def
    split: if_splits)

lemma link_match_errno:
  assumes "mnlxt_rt_link_match (Some x) (Some m) e = (0, e)"
  shows "mnlxt_rt_link_match (Some x) (Some m) e' = (0, e')"
proof -
  obtain rc e1 where r: "mnlxt_rt_link_info_cmp (Some (link_info x)) (Some (link_info m)) (info_prop_flags (link_info m)) e = (rc, e1)"
    by (cases "mnlxt_rt_link_info_cmp (Some (link_info x)) (Some (link_info m)) (info_prop_flags (link_info m)) e") auto
  show ?thesis
  proof (cases "rc = 0 \<and> e1 = e")
    case True
    with r link_info_cmp_errno [of "link_info x" "link_info m" "info_prop_flags (link_info m)" e 0 e'] assms show ?thesis
      by (auto simp: mnlxt_rt_link_match_def mnlxt_rt_link_compare_def split: if_splits)
  next
    case False
    with r assms show ?thesis
      by (auto simp: mnlxt_rt_link_match_def mnlxt_rt_link_compare_def split: if_splits)
  qed
qed

lemma match_errno:
  "mnlxt_rt_route_match (Some x1) (Some m1) e = (0, e) \<Longrightarrow> payload_match (PRoute m1) h (PRoute x1)"
  "mnlxt_rt_rule_match h (Some x2) (Some m2) e = Some (0, e) \<Longrightarrow> payload_match (PRule m2) h (PRule x2)"
  "mnlxt_rt_addr_match h (Some x3) (Some m3) e = Some (0, e) \<Longrightarrow> payload_match (PAddr m3) h (PAddr x3)"
  "mnlxt_rt_link_match (Some x4) (Some m4) e = (0, e) \<Longrightarrow> payload_match (PLink m4) h (PLink x4)"
  "mnlxt_xfrm_policy_match (Some x5) (Some m5) e = (0, e) \<Longrightarrow> payload_match (PPolicy m5) h (PPolicy x5)"
  by (simp_all only: payload_match.simps) (auto intro: rule_match_later addr_match_later link_match_errno
    simp: mnlxt_rt_route_match_def mnlxt_rt_route_compare_def mnlxt_xfrm_policy_match_def mnlxt_xfrm_policy_compare_def)

section \<open>Writing depends on strings only\<close>

lemma rule_put_later:
  assumes ok: "rule_names_ok h r" "rule_sendable h r" and later: "\<And>p s. strs h p = Some s \<Longrightarrow> strs h' p = Some s"
  shows "rule_names_ok h' r" "rule_sendable h' r"
    "mnlxt_rt_rule_put M h' (Some n) (Some r) e = mnlxt_rt_rule_put M h (Some n) (Some r) e"
proof -
  show "rule_names_ok h' r" using ok(1) later unfolding rule_names_ok_def by blast
  have s: "rule_iif_str h' r = rule_iif_str h r" "rule_oif_str h' r = rule_oif_str h r"
    using ok(1) later unfolding rule_names_ok_def by (cases "rule_iif_name r"; cases "rule_oif_name r"; fastforce)+
  show "rule_sendable h' r" using ok(2) by (simp add: rule_sendable_def s)
  have "rule_put_prop M h' r = rule_put_prop M h r" by (intro ext) (simp add: rule_put_prop_def s)
  then show "mnlxt_rt_rule_put M h' (Some n) (Some r) e = mnlxt_rt_rule_put M h (Some n) (Some r) e"
    by (simp add: mnlxt_rt_rule_put_def)
qed

lemma addr_put_later:
  assumes ok: "addr_label_ok h r" "addr_sendable ext h r" and later: "\<And>p s. strs h p = Some s \<Longrightarrow> strs h' p = Some s"
  shows "addr_label_ok h' r" "addr_sendable ext h' r"
    "mnlxt_rt_addr_put ext M h' (Some n) (Some r) e = mnlxt_rt_addr_put ext M h (Some n) (Some r) e"
proof -
  from addr_label_later [OF ok(1) later] have l: "addr_label_ok h' r" and s: "addr_label_str h' r = addr_label_str h r"
    by auto
  then show "addr_label_ok h' r" "addr_sendable ext h' r" using ok(2) by (simp_all add: addr_sendable_def)
  have "addr_put_prop ext M h' r = addr_put_prop ext M h r"
    using s by (intro ext) (simp add: addr_put_prop_def addr_label_str_def)
  then show "mnlxt_rt_addr_put ext M h' (Some n) (Some r) e = mnlxt_rt_addr_put ext M h (Some n) (Some r) e"
    by (simp add: mnlxt_rt_addr_put_def)
qed

section \<open>Written messages\<close>

text \<open>The types of the messages for a payload, the laws of libmnl for its header, and what its messages can carry.\<close>

fun payload_types :: "payload \<Rightarrow> u16 list" where
  "payload_types (PRoute _) = route_types"
| "payload_types (PRule _) = rule_types"
| "payload_types (PAddr _) = addr_types"
| "payload_types (PLink _) = link_types"
| "payload_types (PPolicy _) = policy_types"

fun payload_laws :: "('b, 'a) mnl_funs \<Rightarrow> 'b \<Rightarrow> payload \<Rightarrow> bool" where
  "payload_laws L b0 (PRoute _) = (\<exists>mk. libmnl_laws (mnl_rt L) mk b0 rtmsg_zero)"
| "payload_laws L b0 (PRule _) = (\<exists>mk. libmnl_laws (mnl_fr L) mk b0 fib_rule_hdr_zero)"
| "payload_laws L b0 (PAddr _) = (\<exists>mk. libmnl_laws (mnl_ifa L) mk b0 ifaddrmsg_zero)"
| "payload_laws L b0 (PLink _) =
     (\<exists>mk nest. nest_laws (mnl_ifi L) mk nest \<and> libmnl_laws (mnl_ifi L) mk b0 ifinfomsg_zero)"
| "payload_laws L b0 (PPolicy _) =
     ((\<exists>mk. libmnl_laws (mnl_xpinfo L) mk b0 userpolicy_info_zero) \<and>
      (\<exists>mk. libmnl_laws (mnl_xpid L) mk b0 userpolicy_id_zero))"

fun payload_sendable :: "('b, 'a) mnl_funs \<Rightarrow> u16 \<Rightarrow> pheap \<Rightarrow> payload \<Rightarrow> bool" where
  "payload_sendable L type h (PRoute r) = (route_inv r \<and> route_has r MNLXT_RT_ROUTE_FAMILY)"
| "payload_sendable L type h (PRule r) =
     (rule_inv r \<and> rule_has r MNLXT_RT_RULE_FAMILY \<and> rule_names_ok h r \<and> rule_sendable h r)"
| "payload_sendable L type h (PAddr a) =
     (addr_inv a \<and> addr_has a MNLXT_RT_ADDR_FAMILY \<and> addr_label_ok h a \<and> addr_sendable (ifa_flags_ext L) h a)"
| "payload_sendable L type h (PLink l) = (link_inv l \<and> link_sendable (link_options L) l)"
| "payload_sendable L type h (PPolicy p) = (policy_inv p \<and> policy_sendable type p)"

text \<open>
  The \<open>put\<close> callback of the module made \<open>n\<close> of a message with the empty body \<open>b0\<close> and the object \<open>x\<close> of the heap, and
  returned 0. Nothing is said about \<open>x\<close>: whether its message can carry it is \<open>payload_sendable\<close>.
\<close>

definition wrote :: "('b, 'a) mnl_funs \<Rightarrow> 'b \<Rightarrow> pheap \<Rightarrow> payload \<Rightarrow> 'b nlmsghdr \<Rightarrow> bool" where
  "wrote L b0 h x n \<longleftrightarrow>
     NLM_F_DUMP_INTR AND nlmsg_flags n = 0 \<and>
     (\<exists>n0 q e e'. nlmsg_body n0 = b0 \<and> nlmsg_type n0 \<in> set (payload_types x) \<and> objs h q = Some x \<and>
        lib_put L (payload_cb x) n0 (Some q) (nlmsg_type n0) h e = Some (0, n, e'))"

lemma parsed_exchange:
  assumes "parsed h d ps type (parse_failure h types type) False P r" "type \<in> set types"
    and "\<And>h' x. P h' x \<Longrightarrow> Q h' x"
  shows "parsed h d ps type (memory_lost h) False Q r"
proof -
  have "parse_failure h types type = memory_lost h" using assms(2) by (intro ext) (simp add: parse_failure_def)
  with assms(1) have "parsed h d ps type (memory_lost h) False P r" by simp
  then show ?thesis by (rule parsed_mono) (rule assms(3))
qed

text \<open>For each module: the message has the type of the one that was filled, and the parser of the module reads it back.\<close>

abbreviation reads_back :: "('b, 'a) mnl_funs \<Rightarrow> payload \<Rightarrow> pheap \<Rightarrow> mnlxt_data_t \<Rightarrow> ptr list \<Rightarrow> 'b nlmsghdr \<Rightarrow> errno \<Rightarrow> bool" where
  "reads_back L x h d ps n e \<equiv> nlmsg_type n \<in> set (payload_types x) \<and>
     parsed h d ps (nlmsg_type n) (memory_lost h) False (payload_match x) (lib_parse L (payload_cb x) n d h e)"

lemma wrote_cases:
  assumes "wrote L b0 h0 x n"
  obtains n0 q e0 e0' where "nlmsg_body n0 = b0" "nlmsg_type n0 \<in> set (payload_types x)" "objs h0 q = Some x"
    "lib_put L (payload_cb x) n0 (Some q) (nlmsg_type n0) h0 e0 = Some (0, n, e0')"
  using assms unfolding wrote_def by blast

lemma wrote_route:
  assumes w: "wrote L b0 h0 (PRoute r) n" and s0: "payload_sendable L (nlmsg_type n) h0 (PRoute r)"
    and L: "payload_laws L b0 (PRoute r)"
    and h: "heap_ok h" "data_inv h d ps"
  shows "reads_back L (PRoute r) h d ps n e"
  using w
proof (cases rule: wrote_cases)
  case (1 n0 q e0 e0')
  from 1(3,4) have put: "mnlxt_rt_route_put (mnl_rt L) (Some n0) (Some r) e0 = (0, Some n, e0')"
    by (auto simp: mnlxt_rt_route_PUT_def put_result_def mnlxt_rt_route_put_def)
  then have t: "nlmsg_type n = nlmsg_type n0" by (auto simp: mnlxt_rt_route_put_def)
  from L obtain mk where "libmnl_laws (mnl_rt L) mk b0 rtmsg_zero" by auto
  from route_roundtrip_parsed [OF this _ _ h 1(1) put, of e] 1(2) s0 show ?thesis
    unfolding t lib_parse.simps payload_cb.simps mnlxt_rt_route_DATA_def
    by (auto elim!: parsed_exchange intro: match_errno simp del: payload_match.simps)
qed

lemma wrote_rule:
  assumes w: "wrote L b0 h0 (PRule r) n" and s0: "payload_sendable L (nlmsg_type n) h0 (PRule r)"
    and L: "payload_laws L b0 (PRule r)"
    and h: "heap_ok h" "data_inv h d ps" and later: "\<And>p s. strs h0 p = Some s \<Longrightarrow> strs h p = Some s"
  shows "reads_back L (PRule r) h d ps n e"
  using w
proof (cases rule: wrote_cases)
  case (1 n0 q e0 e0')
  from s0 have s: "rule_inv r" "rule_has r MNLXT_RT_RULE_FAMILY" "rule_names_ok h0 r" "rule_sendable h0 r" by simp_all
  from 1(3,4) have "mnlxt_rt_rule_put (mnl_fr L) h0 (Some n0) (Some r) e0 = Some (0, Some n, e0')"
    by (auto simp: mnlxt_rt_rule_PUT_def put_result_def mnlxt_rt_rule_put_def split: option.splits)
  then have put: "mnlxt_rt_rule_put (mnl_fr L) h (Some n0) (Some r) e0 = Some (0, Some n, e0')"
    by (simp only: rule_put_later(3) [OF s(3,4) later])
  then have t: "nlmsg_type n = nlmsg_type n0" by (auto simp: mnlxt_rt_rule_put_def)
  from L obtain mk where "libmnl_laws (mnl_fr L) mk b0 fib_rule_hdr_zero" by auto
  from rule_roundtrip_parsed [OF this s(1,2) rule_put_later(1,2) [OF s(3,4) later] h 1(1) put, of e] 1(2) show ?thesis
    unfolding t lib_parse.simps payload_cb.simps mnlxt_rt_rule_DATA_def
    by (auto elim!: parsed_exchange intro: match_errno simp del: payload_match.simps)
qed

lemma wrote_addr:
  assumes w: "wrote L b0 h0 (PAddr r) n" and s0: "payload_sendable L (nlmsg_type n) h0 (PAddr r)"
    and L: "payload_laws L b0 (PAddr r)"
    and h: "heap_ok h" "data_inv h d ps" and later: "\<And>p s. strs h0 p = Some s \<Longrightarrow> strs h p = Some s"
  shows "reads_back L (PAddr r) h d ps n e"
  using w
proof (cases rule: wrote_cases)
  case (1 n0 q e0 e0')
  from s0 have s: "addr_inv r" "addr_has r MNLXT_RT_ADDR_FAMILY" "addr_label_ok h0 r" "addr_sendable (ifa_flags_ext L) h0 r" by simp_all
  from 1(3,4) have "mnlxt_rt_addr_put (ifa_flags_ext L) (mnl_ifa L) h0 (Some n0) (Some r) e0 = Some (0, Some n, e0')"
    by (auto simp: mnlxt_rt_addr_PUT_def put_result_def mnlxt_rt_addr_put_def split: option.splits)
  then have put: "mnlxt_rt_addr_put (ifa_flags_ext L) (mnl_ifa L) h (Some n0) (Some r) e0 = Some (0, Some n, e0')"
    by (simp only: addr_put_later(3) [OF s(3,4) later])
  then have t: "nlmsg_type n = nlmsg_type n0" by (auto simp: mnlxt_rt_addr_put_def)
  from L obtain mk where "libmnl_laws (mnl_ifa L) mk b0 ifaddrmsg_zero" by auto
  from addr_roundtrip_parsed [OF this s(1,2) addr_put_later(1,2) [OF s(3,4) later] h 1(1) put, of e] 1(2) show ?thesis
    unfolding t lib_parse.simps payload_cb.simps mnlxt_rt_addr_DATA_def
    by (auto elim!: parsed_exchange intro: match_errno simp del: payload_match.simps)
qed

lemma wrote_link:
  assumes w: "wrote L b0 h0 (PLink l) n" and s0: "payload_sendable L (nlmsg_type n) h0 (PLink l)"
    and L: "payload_laws L b0 (PLink l)"
    and h: "heap_ok h" "data_inv h d ps"
  shows "reads_back L (PLink l) h d ps n e"
  using w
proof (cases rule: wrote_cases)
  case (1 n0 q e0 e0')
  from 1(3,4) have put: "mnlxt_rt_link_put (link_options L) (mnl_ifi L) (Some n0) (Some l) e0 = (0, Some n, e0')"
    by (auto simp: mnlxt_rt_link_PUT_def put_result_def mnlxt_rt_link_put_def)
  then have t: "nlmsg_type n = nlmsg_type n0" by (auto simp: mnlxt_rt_link_put_def)
  from L obtain mk nest where "nest_laws (mnl_ifi L) mk nest" "libmnl_laws (mnl_ifi L) mk b0 ifinfomsg_zero" by auto
  from link_roundtrip_parsed [OF this _ _ h 1(1) put, of e] 1(2) s0 show ?thesis
    unfolding t lib_parse.simps payload_cb.simps mnlxt_rt_link_DATA_def
    by (auto elim!: parsed_exchange intro: match_errno simp del: payload_match.simps)
qed

lemma wrote_policy:
  assumes w: "wrote L b0 h0 (PPolicy p) n" and s0: "payload_sendable L (nlmsg_type n) h0 (PPolicy p)"
    and L: "payload_laws L b0 (PPolicy p)"
    and h: "heap_ok h" "data_inv h d ps"
  shows "reads_back L (PPolicy p) h d ps n e"
  using w
proof (cases rule: wrote_cases)
  case (1 n0 q e0 e0')
  from 1(3,4) have put: "mnlxt_xfrm_policy_put (mnl_xpinfo L) (mnl_xpid L) (Some n0) (Some p) (nlmsg_type n0) e0 = (0, Some n, e0')"
    by (auto simp: mnlxt_xfrm_policy_PUT_def put_result_def mnlxt_xfrm_policy_put_def Let_def split: if_splits)
  then have t: "nlmsg_type n = nlmsg_type n0" by (auto simp: mnlxt_xfrm_policy_put_def Let_def split: if_splits)
  from L obtain mki mkd where
    "libmnl_laws (mnl_xpinfo L) mki b0 userpolicy_info_zero" "libmnl_laws (mnl_xpid L) mkd b0 userpolicy_id_zero" by auto
  from policy_roundtrip_parsed [OF this _ _ h 1(1) put, of e] 1(2) s0 show ?thesis
    unfolding t lib_parse.simps payload_cb.simps mnlxt_xfrm_policy_DATA_def
    by (auto elim!: parsed_exchange intro: match_errno simp del: payload_match.simps)
qed

lemma wrote_parsed:
  assumes "wrote L b0 h0 x n" "payload_sendable L (nlmsg_type n) h0 x" "payload_laws L b0 x" "heap_ok h" "data_inv h d ps"
    and "\<And>p s. strs h0 p = Some s \<Longrightarrow> strs h p = Some s"
  shows "reads_back L x h d ps n e"
proof (cases x)
  case (PRoute r)
  with assms show ?thesis by (simp only: wrote_route)
next
  case (PRule r)
  with assms show ?thesis by (simp only: wrote_rule)
next
  case (PAddr r)
  with assms show ?thesis by (simp only: wrote_addr)
next
  case (PLink l)
  with assms show ?thesis by (simp only: wrote_link)
next
  case (PPolicy p)
  with assms show ?thesis by (simp only: wrote_policy)
qed

text \<open>The tables of the two buses give each message to the parser of its module.\<close>

lemma data_parse_cb_of:
  "payload_cb x \<noteq> XfrmPolicy \<Longrightarrow> type \<in> set (payload_types x) \<Longrightarrow> data_parse_cb rt_data type = Some (payload_cb x)"
  "payload_cb x = XfrmPolicy \<Longrightarrow> type \<in> set (payload_types x) \<Longrightarrow> data_parse_cb xfrm_data type = Some (payload_cb x)"
  by (cases x; auto simp: data_parse_cb_def rt_data_def xfrm_data_def handler_at_def rt_handlers_nth xfrm_handlers_nth
    handler_def)+

lemma wrote_delivers:
  assumes w: "wrote L b0 h0 x n" and s: "payload_sendable L (nlmsg_type n) h0 x" and L: "payload_laws L b0 x" and ok: "heap_ok h0"
  shows "payload_cb x \<noteq> XfrmPolicy \<Longrightarrow> delivers (lib_callbacks L) rt_data h0 n (payload_match x)"
    and "payload_cb x = XfrmPolicy \<Longrightarrow> delivers (lib_callbacks L) xfrm_data h0 n (payload_match x)"
proof -
  have p: "reads_back L x h d ps n e"
    if "heap_ok h \<and> data_inv h d ps \<and> (\<forall>p s. strs h0 p = Some s \<longrightarrow> strs h p = Some s)" for h d ps e
    using that by (intro wrote_parsed [OF w s L]) blast+
  have "data_inv h0 data_zero []" by (simp add: data_inv_def data_zero_def)
  with p ok have t: "nlmsg_type n \<in> set (payload_types x)" by blast
  then have "nlmsg_type n \<noteq> NLMSG_DONE" by (cases x) auto
  with w t p show "payload_cb x \<noteq> XfrmPolicy \<Longrightarrow> delivers (lib_callbacks L) rt_data h0 n (payload_match x)"
    "payload_cb x = XfrmPolicy \<Longrightarrow> delivers (lib_callbacks L) xfrm_data h0 n (payload_match x)"
    unfolding delivers_def wrote_def lib_callbacks_def callbacks.simps
    using payload_match_lasting data_parse_cb_of by blast+
qed

text \<open>What a dump gives: one message for each object that the peer wrote, with a payload that matches it.\<close>

lemma rt_dump_exchanges:
  assumes order: "cb_run_in_order io msgs_of" and ok: "heap_ok h"
    and peer: "peer_answers io msgs_of NETLINK_ROUTE (dump_request type) w nss" "dump_answer ns nss"
    and xs: "list_all2 (\<lambda>x n. wrote L b0 h x n \<and> payload_sendable L (nlmsg_type n) h x) xs ns" "\<And>x. x \<in> set xs \<Longrightarrow> payload_laws L b0 x \<and> payload_cb x \<noteq> XfrmPolicy"
  shows "dump_delivers h (map payload_match xs) (mnlxt_rt_data_dump io (lib_callbacks L) (Some data_zero) type family h w e)"
proof (rule dump_delivered(1) [OF order ok peer(2,1)])
  show "list_all2 (delivers (lib_callbacks L) rt_data h) ns (map payload_match xs)"
    unfolding list_all2_map2 using xs(1)
    by (auto simp: list_all2_conv_all_nth intro!: wrote_delivers(1) [OF _ _ _ ok] simp: xs(2))
qed

lemma xfrm_dump_exchanges:
  assumes order: "cb_run_in_order io msgs_of" and ok: "heap_ok h"
    and peer: "peer_answers io msgs_of NETLINK_XFRM (dump_request type) w nss" "dump_answer ns nss"
    and xs: "list_all2 (\<lambda>x n. wrote L b0 h x n \<and> payload_sendable L (nlmsg_type n) h x) xs ns" "\<And>x. x \<in> set xs \<Longrightarrow> payload_laws L b0 x \<and> payload_cb x = XfrmPolicy"
  shows "dump_delivers h (map payload_match xs) (mnlxt_xfrm_data_dump io (lib_callbacks L) (Some data_zero) type h w e)"
proof (rule dump_delivered(2) [OF order ok peer(2,1)])
  show "list_all2 (delivers (lib_callbacks L) xfrm_data h) ns (map payload_match xs)"
    unfolding list_all2_map2 using xs(1)
    by (auto simp: list_all2_conv_all_nth intro!: wrote_delivers(2) [OF _ _ _ ok] simp: xs(2))
qed

end
