(* ===== verification/Sending.thy ===== *)
theory Sending
  imports Library
begin

text \<open>
  What a request sends. \<open>log w\<close> are the messages that the kernel has accepted so far; a request for an object adds the
  one message that the \<open>put\<close> callback of its module makes of the object, with the flags and the sequence number that the
  core gives it, or none and fails.
\<close>

definition sends_logged :: "('w, 'f, 'b) netio \<Rightarrow> ('w \<Rightarrow> 'b nlmsghdr list) \<Rightarrow> bool" where
  "sends_logged io log \<longleftrightarrow>
     (\<forall>bus w e. case socket_open io bus w e of (_, w', _) \<Rightarrow> log w' = log w) \<and>
     (\<forall>nl g w e. case socket_bind io nl g w e of (_, w', _) \<Rightarrow> log w' = log w) \<and>
     (\<forall>nl w. log (socket_close io nl w) = log w) \<and>
     (\<forall>nl n w e. case socket_sendto io nl n w e of (rc, w', _) \<Rightarrow> log w' = (if 0 < rc then log w @ [n] else log w)) \<and>
     (\<forall>nl w e. case socket_recvfrom io nl w e of (_, _, w', _) \<Rightarrow> log w' = log w)"

lemma sends_loggedD:
  assumes "sends_logged io log"
  shows "socket_open io bus w e = (r, w', e') \<Longrightarrow> log w' = log w"
    "socket_bind io nl g w e = (rc, w', e') \<Longrightarrow> log w' = log w"
    "log (socket_close io nl w) = log w"
    "socket_sendto io nl n w e = (rc, w', e') \<Longrightarrow> log w' = (if 0 < rc then log w @ [n] else log w)"
    "socket_recvfrom io nl w e = (len, f, w', e') \<Longrightarrow> log w' = log w"
  using assms unfolding sends_logged_def by (metis (mono_tags, lifting) case_prod_conv)+

section \<open>Receiving sends nothing\<close>

lemma recv_loop_log:
  assumes log: "sends_logged io log" and r: "recv_loop io nl w e = Some r"
  shows "log (fst (snd r)) = log w"
proof -
  from r have "sends_logged io log \<longrightarrow> log (fst (snd r)) = log w"
  proof (rule recv_loop.raw_induct [where P = "\<lambda>io nl w e r. sends_logged io log \<longrightarrow> log (fst (snd r)) = log w", rotated])
    fix rl io nl w e r
    assume IH: "\<And>io nl w e r. rl io nl w e = Some r \<Longrightarrow> sends_logged io log \<longrightarrow> log (fst (snd r)) = log w"
      and step: "(case socket_recvfrom io nl w e of (len, f, w', e') \<Rightarrow>
        if 0 > len then (if EWOULDBLOCK = e' then Some (RecvNothing, w', e')
          else if EINTR \<noteq> e' \<and> EAGAIN \<noteq> e' then Some (RecvError, w', e') else rl io nl w' e')
        else Some (RecvGot len f, w', e')) = Some r"
    obtain len f w' e' where s: "socket_recvfrom io nl w e = (len, f, w', e')"
      by (cases "socket_recvfrom io nl w e") auto
    show "sends_logged io log \<longrightarrow> log (fst (snd r)) = log w"
      using step IH [of io nl w' e' r] sends_loggedD(5) [of io log nl w e len f w' e'] s by (auto split: if_splits)
  qed
  with log show ?thesis by blast
qed

lemma receive_log:
  assumes "sends_logged io log" "mnlxt_receive io hnd b w e = Some (ret, hnd', b', w', e')"
  shows "log w' = log w"
proof (cases "\<exists>x y nl. hnd = Some x \<and> b = Some y \<and> h_nl x = Some nl")
  case False
  with assms(2) show ?thesis by (auto simp: mnlxt_receive_def split: option.splits)
next
  case True
  then obtain x y nl where x: "hnd = Some x" "b = Some y" "h_nl x = Some nl" by blast
  with assms(2) obtain r w1 e1 where l: "recv_loop io nl w e = Some (r, w1, e1)" by (auto simp: mnlxt_receive_def)
  with x assms(2) have "w1 = w'" by (cases r) (auto simp: mnlxt_receive_def Let_def split: if_splits)
  with recv_loop_log [OF assms(1) l] show ?thesis by simp
qed

lemma request_loop_log:
  assumes log: "sends_logged io log" and r: "request_loop io cbs hnd b data h w e = Some r"
  shows "case r of (_, _, _, _, w', _) \<Rightarrow> log w' = log w"
proof -
  from r have "sends_logged io log \<longrightarrow> (case r of (_, _, _, _, w', _) \<Rightarrow> log w' = log w)"
  proof (rule request_loop.raw_induct [where P = "\<lambda>io cbs hnd b data h w e r. sends_logged io log \<longrightarrow>
      (case r of (_, _, _, _, w', _) \<Rightarrow> log w' = log w)", rotated])
    fix rl io cbs hnd b data h w e r
    assume IH: "\<And>io cbs hnd b data h w e r. rl io cbs hnd b data h w e = Some r \<Longrightarrow> sends_logged io log \<longrightarrow>
        (case r of (_, _, _, _, w', _) \<Rightarrow> log w' = log w)"
      and step: "Option.bind (mnlxt_receive io hnd b w e) (\<lambda>(ret, handle1, buffer1, w1, e1).
       if 0 < ret then
         Option.bind (mnlxt_data_parse io cbs data buffer1 h e1) (\<lambda>(ret2, data2, h2, e2).
           if 0 \<noteq> ret2 then
             Some (if 1 = ret2 then 0 else - 1, handle1, data2, h2, w1, e2)
           else rl io cbs handle1 (mnlxt_buffer_clean buffer1) data2 h2 w1 e2)
       else if 0 > ret then
         Some (- 1, handle1, data_set_error (Option.bind handle1 h_error_str) data, h, w1, e1)
       else Some (0, handle1, data, h, w1, e1)) = Some r"
    show "sends_logged io log \<longrightarrow> (case r of (_, _, _, _, w', _) \<Rightarrow> log w' = log w)"
    proof
      assume l: "sends_logged io log"
      from step obtain ret hnd1 b1 w1 e1 where rc: "mnlxt_receive io hnd b w e = Some (ret, hnd1, b1, w1, e1)"
        by (auto simp: bind_eq_Some_conv)
      from receive_log [OF l this] have "log w1 = log w" .
      with step rc l show "case r of (_, _, _, _, w', _) \<Rightarrow> log w' = log w"
        by (auto simp: bind_eq_Some_conv split: if_splits dest!: IH)
    qed
  qed
  with log show ?thesis by blast
qed

section \<open>A request sends its message\<close>

lemma request_log:
  assumes log: "sends_logged io log" and r: "mnlxt_request io cbs (Some n) bus data h w e = Some (rc, data', h', w', e')"
  shows "log w' = log w \<and> rc = - 1 \<or> (\<exists>sq. log w' = log w @ [n\<lparr>nlmsg_seq := sq\<rparr>])"
proof -
  note l = sends_loggedD [OF log]
  obtain rc1 hnd w1 e1 where c: "mnlxt_connect io (Some handle_zero) bus 0 w e = (rc1, hnd, w1, e1)"
    by (cases "mnlxt_connect io (Some handle_zero) bus 0 w e") auto
  then have w1: "log w1 = log w" by (auto simp: mnlxt_connect_def l(3) split: prod.splits option.splits if_splits dest!: l(1,2))
  show ?thesis
  proof (cases "\<exists>hd. hnd = Some hd \<and> rc1 = 0")
    case False
    with r c w1 show ?thesis by (auto simp: mnlxt_request_def split: option.splits)
  next
    case True
    then obtain hd where hd: "hnd = Some hd" "rc1 = 0" by blast
    from r c hd obtain sent hnd2 n2 w2 e2 where s: "mnlxt_send io hd n w1 e1 = Some (sent, hnd2, n2, w2, e2)"
      by (auto simp: mnlxt_request_def bind_eq_Some_conv)
    then obtain nl where nl: "h_nl hd = Some nl" by (auto simp: mnlxt_send_def Let_def)
    obtain x y z where t: "socket_sendto io nl (n\<lparr>nlmsg_seq := h_seq hd + 1\<rparr>) w1 e1 = (x, y, z)"
      by (cases "socket_sendto io nl (n\<lparr>nlmsg_seq := h_seq hd + 1\<rparr>) w1 e1") auto
    from s nl t l(4) [OF t] have w2: "if 0 < sent then \<exists>sq. log w2 = log w1 @ [n\<lparr>nlmsg_seq := sq\<rparr>] else log w2 = log w1"
      by (auto simp: mnlxt_send_def Let_def)
    have dis: "log (snd (mnlxt_disconnect io hnd3 w3)) = log w3" for hnd3 w3
      by (simp add: mnlxt_disconnect_def l(3) split: option.split)
    from r c hd s obtain rc3 hnd3 data3 h3 w3 e3 where t: "(if 0 < sent then
           request_loop io cbs (Some hnd2) (Some buffer_zero) data h w2 e2
         else if h_error_str hnd2 \<noteq> None then
           Some (- 1, Some hnd2, data_set_error (h_error_str hnd2) data, h, w2, e2)
         else Some (- 1, Some hnd2, data, h, w2, e2)) = Some (rc3, hnd3, data3, h3, w3, e3)"
        "rc = rc3" "w' = snd (mnlxt_disconnect io hnd3 w3)"
      by (auto simp: mnlxt_request_def bind_eq_Some_conv case_prod_beta [of _ "mnlxt_disconnect _ _ _"])
    show ?thesis
    proof (cases "0 < sent")
      case True
      with t(1) have "log w3 = log w2" by (auto dest!: request_loop_log [OF log])
      with True w1 w2 t(3) show ?thesis by (auto simp: dis)
    next
      case False
      with t(1) have "rc3 = - 1" "w3 = w2" by (auto split: if_splits)
      with False w1 w2 t(2,3) show ?thesis by (auto simp: dis)
    qed
  qed
qed

text \<open>The flags that a message is sent with: its own, or else those of its handler.\<close>

definition request_flags :: "u16 \<Rightarrow> u16 \<Rightarrow> u16" where
  "request_flags own std = (NLM_F_REQUEST OR NLM_F_ACK) OR (if own \<noteq> 0 then own else std)"

text \<open>The message for a payload of the type \<open>type\<close>: what the callback \<open>p\<close> makes of an empty one.\<close>

definition sent_message ::
  "('w, 'f, 'b) netio \<Rightarrow> 'b callbacks \<Rightarrow> mnlxt_cb \<Rightarrow> ptr option \<Rightarrow> u16 \<Rightarrow> u16 \<Rightarrow> pheap \<Rightarrow> 'b nlmsghdr \<Rightarrow> bool" where
  "sent_message io cbs p payload type flags h n \<longleftrightarrow>
     (\<exists>n0 sq e e'. call_put cbs p \<lparr>nlmsg_type = type, nlmsg_flags = 0, nlmsg_seq = 0, nlmsg_body = body_empty io\<rparr> payload type h e =
        Some (0, n0, e') \<and> n = n0\<lparr>nlmsg_flags := flags, nlmsg_seq := sq\<rparr>)"

lemma message_request_log:
  assumes log: "sends_logged io log" and c: "msg_handler m = Some c" "cb_put c = Some p"
    and r: "mnlxt_message_request io cbs (Some m) bus h w e = Some (rc, h', w', e')"
  shows "log w' = log w \<and> rc = - 1 \<or> (\<exists>n. log w' = log w @ [n] \<and>
    sent_message io cbs p (msg_payload m) (msg_type m) (request_flags (msg_flags m) (cb_flags c)) h n)"
proof -
  let ?n = "\<lparr>nlmsg_type = msg_type m, nlmsg_flags = 0, nlmsg_seq = 0, nlmsg_body = body_empty io\<rparr>"
  let ?flags = "request_flags (msg_flags m) (cb_flags c)"
  from r obtain nlh e1 where cr: "mnlxt_msghdr_create io cbs m h w e = Some (nlh, e1)"
    by (auto simp: mnlxt_message_request_def bind_eq_Some_conv)
  show ?thesis
  proof (cases nlh)
    case None
    with r cr show ?thesis by (simp add: mnlxt_message_request_def)
  next
    case (Some n)
    with cr c obtain e2 where put: "call_put cbs p ?n (msg_payload m) (msg_type m) h e = Some (0, n, e2)"
      by (auto simp: mnlxt_msghdr_create_def split: if_splits)
    from r cr Some c(1) obtain data' where
      "mnlxt_request io cbs (Some (n\<lparr>nlmsg_flags := ?flags\<rparr>)) bus None h w e1 = Some (rc, data', h', w', e')"
      by (auto simp: mnlxt_message_request_def Let_def request_flags_def split: if_splits)
    from request_log [OF log this] put show ?thesis unfolding sent_message_def by fastforce
  qed
qed

lemma object_request_log:
  assumes log: "sends_logged io log" and th: "\<And>e. type_handler type e = Some (Some c, e)" and c: "cb_put c = Some p"
    and msg: "message (Some q) h e = Some (message_with type flags (Some q) c h e)"
    and r: "object_request message remove (send_message io cbs type_handler bus) (Some q) h w e = Some (rc, h', w', e')"
  shows "log w' = log w \<and> rc = - 1 \<or>
    (\<exists>n h1. log w' = log w @ [n] \<and> objs h1 = objs h \<and> strs h1 = strs h \<and>
       sent_message io cbs p (Some q) type (request_flags flags (cb_flags c)) h1 n)"
proof (cases "oom h (brk h)")
  case True
  then have "message_with type flags (Some q) c h e = (None, h\<lparr>brk := Suc (brk h)\<rparr>, ENOMEM)"
    by (simp add: message_with_def mnlxt_message_new_def heap_news)
  with r msg show ?thesis by (simp add: object_request_def)
next
  case False
  let ?m = "\<lparr>msg_next = None, msg_type = type, msg_flags = flags, msg_payload = Some q, msg_handler = Some c\<rparr>"
  let ?h = "h\<lparr>brk := Suc (brk h), msgs := (msgs h)(brk h \<mapsto> ?m)\<rparr>"
  from False have "message_with type flags (Some q) c h e = (Some (brk h), ?h, e)"
    by (simp add: message_with_def mnlxt_message_new_def heap_news message_zero_def)
  with r msg obtain h2 e2 where "send_message io cbs type_handler bus (Some (brk h)) ?h w e = Some (rc, h2, w', e2)"
    by (auto simp: object_request_def bind_eq_Some_conv)
  then have "mnlxt_message_request io cbs (Some ?m) bus ?h w e = Some (rc, h2, w', e2)"
    by (simp add: send_message_def th Let_def)
  from message_request_log [OF log _ c this] show ?thesis by fastforce
qed

text \<open>The requests for the four kinds of objects that have no device behind them.\<close>

lemma route_request_log:
  assumes log: "sends_logged io log" and type: "type \<in> {RTM_NEWROUTE, RTM_DELROUTE}"
    and ok: "objs h q = Some (PRoute r)"
    and r: "mnlxt_rt_route_request io (lib_callbacks L) (Some q) type flags h w e = Some (rc, h', w', e')"
  shows "log w' = log w \<and> rc = - 1 \<or> (\<exists>n n0 e0 e1 sq. log w' = log w @ [n] \<and>
    mnlxt_rt_route_put (mnl_rt L) (Some \<lparr>nlmsg_type = type, nlmsg_flags = 0, nlmsg_seq = 0, nlmsg_body = body_empty io\<rparr>)
      (Some r) e0 = (0, Some n0, e1) \<and>
    n = n0\<lparr>nlmsg_flags := request_flags flags (if type = RTM_NEWROUTE then NLM_F_CREATE else 0), nlmsg_seq := sq\<rparr>)"
proof -
  let ?c = "rt_data_handlers ! unat type"
  have c: "\<And>e. mnlxt_rt_type_handler type e = Some (Some ?c, e)" "cb_put ?c = Some RtRoute"
    "cb_flags ?c = (if type = RTM_NEWROUTE then NLM_F_CREATE else 0)"
    using type by (auto simp: mnlxt_rt_type_handler_def handler_at_def rt_handlers_nth handler_def)
  have "log w' = log w \<and> rc = - 1 \<or> (\<exists>n h1. log w' = log w @ [n] \<and> objs h1 = objs h \<and> strs h1 = strs h \<and>
      sent_message io (lib_callbacks L) RtRoute (Some q) type (request_flags flags (cb_flags ?c)) h1 n)"
  proof (rule object_request_log [where type_handler = mnlxt_rt_type_handler and type = type and c = ?c, OF log c(1,2)])
    show "object_request (\<lambda>p h e. map_option (\<lambda>(msg, _, h', e'). (msg, h', e')) (mnlxt_rt_route_message (Some p) type flags h e))
        mnlxt_rt_route_remove (send_message io (lib_callbacks L) mnlxt_rt_type_handler NETLINK_ROUTE) (Some q) h w e =
      Some (rc, h', w', e')"
      using r by (simp add: mnlxt_rt_route_request_def mnlxt_rt_message_request_def [abs_def])
  qed (use type c(1) in \<open>auto simp: mnlxt_rt_route_message_def mnlxt_rt_message_new_def option.map_comp comp_def case_prod_beta\<close>)
  then show ?thesis
  proof (elim disjE exE conjE)
    fix n h1 assume a: "log w' = log w @ [n]" "objs h1 = objs h"
      "sent_message io (lib_callbacks L) RtRoute (Some q) type (request_flags flags (cb_flags ?c)) h1 n"
    from a(2) ok have "deref un_PRoute h1 (Some q) = Some (Some r)" by simp
    with a(1,3) show ?thesis unfolding sent_message_def c(3)
      by (auto simp: lib_callbacks_def mnlxt_rt_route_PUT_def put_result_def mnlxt_rt_route_put_def)
  qed simp
qed

end
