(* ===== verification/Demo.thy ===== *)
theory Demo
  imports Exchange Sending
begin

text \<open>
  Concrete values at which the properties are applied: small heaps, objects and messages, an instance of
  the functions of libmnl for all families over one message body, and a scripted peer behind the sockets, of which
  the assumptions on libmnl and on the sockets are proved.
\<close>

section \<open>Heaps, lists and a route\<close>

text \<open>
  A heap with two messages: number 1 carries the address object at 5 with the label at 3, number 2
  the route at 6. No allocation fails.
\<close>

definition demo_addr :: mnlxt_rt_addr_t where
  "demo_addr = addr_zero\<lparr>addr_label := Some 3, addr_prop_flags := set_prop_flag 0 MNLXT_RT_ADDR_LABEL\<rparr>"

definition demo_heap :: pheap where
  "demo_heap = \<lparr>brk = 10, oom = (\<lambda>_. False), strs = [3 \<mapsto> ''eth0''], arrs = Map.empty,
     msgs = [1 \<mapsto> \<lparr>msg_next = Some 2, msg_type = RTM_NEWADDR, msg_flags = 0, msg_payload = Some 5,
               msg_handler = Some (handler ''NEWADDR'' RtAddr NLM_F_CREATE)\<rparr>,
             2 \<mapsto> \<lparr>msg_next = None, msg_type = RTM_NEWROUTE, msg_flags = 0, msg_payload = Some 6,
               msg_handler = Some (handler ''NEWROUTE'' RtRoute NLM_F_CREATE)\<rparr>],
     objs = [5 \<mapsto> PAddr demo_addr, 6 \<mapsto> PRoute route_zero]\<rparr>"

definition demo_data :: mnlxt_data_t where
  "demo_data = data_zero\<lparr>data_first := Some 1, data_last := Some 2\<rparr>"

definition empty_heap :: pheap where
  "empty_heap = \<lparr>brk = 10, oom = (\<lambda>_. False), strs = Map.empty, arrs = Map.empty, msgs = Map.empty,
     objs = Map.empty\<rparr>"

definition demo_route :: mnlxt_rt_route_t where
  "demo_route = route_zero\<lparr>route_family := AF_INET, route_dst := [10, 0, 0, 1, 0, 0, 0, 0, 0, 0, 0, 0, 0, 0, 0, 0],
     route_dst_prefix := 24,
     route_prop_flags := set_prop_flag (set_prop_flag (set_prop_flag 0 MNLXT_RT_ROUTE_FAMILY) MNLXT_RT_ROUTE_DST)
       MNLXT_RT_ROUTE_DST_PREFIX\<rparr>"

lemma empty_heap_ok: "heap_ok empty_heap" "data_inv empty_heap data_zero []"
  by (simp_all add: empty_heap_def heap_ok_def data_inv_def data_zero_def)

lemma demo_heap_ok: "heap_ok demo_heap"
  by (auto simp: demo_heap_def heap_ok_def)

lemma demo_list: "data_inv demo_heap demo_data [1, 2]"
  by (simp add: data_inv_def demo_heap_def demo_data_def)

lemma demo_owned: "payload_owned demo_heap (payloads (msgs demo_heap) [1, 2])"
  by (auto simp: payload_owned_def demo_heap_def handler_def demo_addr_def payload_parts_def parts_live_def)

lemma demo_route_inv: "route_inv demo_route"
  by (simp add: route_inv_def demo_route_def route_zero_def inet_ok_def inet_zero_def in_addr_any_def)

lemma demo_route_reach: "route_reach route_zero"
  by (rule route_reach.new)


section \<open>Objects of the other modules\<close>

text \<open>The name at address 3 has five characters, so that it is read back from a message.\<close>

definition named_heap :: pheap where
  "named_heap = empty_heap\<lparr>strs := [3 \<mapsto> ''wlan0'']\<rparr>"

definition demo_ip :: mnlxt_inet_addr_t where
  "demo_ip = [10, 0, 0, 1, 0, 0, 0, 0, 0, 0, 0, 0, 0, 0, 0, 0]"

definition demo_rule :: mnlxt_rt_rule_t where
  "demo_rule = rule_zero\<lparr>rule_family := AF_INET, rule_src := demo_ip, rule_src_prefix := 24, rule_table := 100,
     rule_iif_name := Some 3,
     rule_prop_flags := fold (\<lambda>i f. set_prop_flag f i) [MNLXT_RT_RULE_FAMILY, MNLXT_RT_RULE_SRC, MNLXT_RT_RULE_SRC_PREFIX,
       MNLXT_RT_RULE_TABLE, MNLXT_RT_RULE_IIFNAME] 0\<rparr>"

definition demo_ifaddr :: mnlxt_rt_addr_t where
  "demo_ifaddr = addr_zero\<lparr>addr_family := AF_INET, addr_prefixlen := 24, addr_addr := demo_ip, addr_label := Some 3,
     addr_prop_flags := fold (\<lambda>i f. set_prop_flag f i) [MNLXT_RT_ADDR_FAMILY, MNLXT_RT_ADDR_PREFIXLEN, MNLXT_RT_ADDR_ADDR,
       MNLXT_RT_ADDR_LABEL] 0\<rparr>"

definition demo_policy :: mnlxt_xfrm_policy_t where
  "demo_policy = policy_zero\<lparr>policy_family := AF_INET, policy_proto := 6, policy_dst := site_zero\<lparr>site_addr := demo_ip\<rparr>,
     policy_prop_flags := fold (\<lambda>i f. set_prop_flag f i) [MNLXT_XFRM_POLICY_FAMILY, MNLXT_XFRM_POLICY_PROTO,
       MNLXT_XFRM_POLICY_DST_ADDR] 0\<rparr>"

lemma named_heap_ok: "heap_ok named_heap" "data_inv named_heap data_zero []"
  by (simp_all add: named_heap_def empty_heap_def heap_ok_def data_inv_def data_zero_def)

lemma named_obj_ok:
  "heap_ok (named_heap\<lparr>objs := [4 \<mapsto> x]\<rparr>)" "objs (named_heap\<lparr>objs := [4 \<mapsto> x]\<rparr>) 4 = Some x"
  by (simp_all add: named_heap_def empty_heap_def heap_ok_def)

lemma demo_rule_ok:
  "rule_inv demo_rule" "rule_has demo_rule MNLXT_RT_RULE_FAMILY" "rule_names_ok named_heap demo_rule"
  "rule_sendable named_heap demo_rule"
  by (simp_all add: rule_inv_def demo_rule_def rule_zero_def inet_ok_def inet_zero_def demo_ip_def rule_names_ok_def
    named_heap_def rule_sendable_def padded_str_def)

lemma demo_ifaddr_ok:
  "addr_inv demo_ifaddr" "addr_has demo_ifaddr MNLXT_RT_ADDR_FAMILY" "addr_label_ok named_heap demo_ifaddr"
  "addr_sendable False named_heap demo_ifaddr"
  by (simp_all add: addr_inv_def demo_ifaddr_def addr_zero_def inet_ok_def inet_zero_def demo_ip_def addr_label_ok_def
    named_heap_def addr_sendable_def padded_str_def addr_label_str_def)

text \<open>The address of a point-to-point link.\<close>

definition demo_peer :: mnlxt_rt_addr_t where
  "demo_peer = demo_ifaddr\<lparr>addr_local := [10, 0, 0, 2, 0, 0, 0, 0, 0, 0, 0, 0, 0, 0, 0, 0],
     addr_prop_flags := set_prop_flag (addr_prop_flags demo_ifaddr) MNLXT_RT_ADDR_LOCAL\<rparr>"

lemma demo_peer_ok:
  "addr_inv demo_peer" "addr_has demo_peer MNLXT_RT_ADDR_FAMILY" "addr_label_ok named_heap demo_peer"
  "addr_label_str named_heap demo_peer = Some s \<Longrightarrow> padded_str s"
  "addr_family demo_peer = AF_INET" "addr_has demo_peer MNLXT_RT_ADDR_ADDR" "addr_has demo_peer MNLXT_RT_ADDR_LOCAL"
  by (simp_all add: addr_inv_def demo_peer_def demo_ifaddr_def addr_zero_def inet_ok_def inet_zero_def demo_ip_def
    addr_label_ok_def named_heap_def padded_str_def addr_label_str_def) auto

lemma demo_policy_ok:
  "policy_inv demo_policy" "policy_sendable XFRM_MSG_NEWPOLICY demo_policy"
  by (simp_all add: policy_inv_def demo_policy_def policy_zero_def inet_ok_def inet_zero_def demo_ip_def site_zero_def
    policy_sendable_def)

abbreviation demo_nlh :: "u16 \<Rightarrow> 'b \<Rightarrow> 'b nlmsghdr" where
  "demo_nlh type b \<equiv> \<lparr>nlmsg_type = type, nlmsg_flags = 0, nlmsg_seq = 0, nlmsg_body = b\<rparr>"

section \<open>One message body for all families\<close>

record demo_hdrs =
  dh_rt :: rtmsg
  dh_fr :: fib_rule_hdr
  dh_ifa :: ifaddrmsg
  dh_ifi :: ifinfomsg
  dh_xpinfo :: xfrm_userpolicy_info
  dh_xpid :: xfrm_userpolicy_id

type_synonym demo_body = "demo_hdrs \<times> (nat \<times> u8 list) list"

definition hdrs_zero :: demo_hdrs where
  "hdrs_zero = \<lparr>dh_rt = rtmsg_zero, dh_fr = fib_rule_hdr_zero, dh_ifa = ifaddrmsg_zero, dh_ifi = ifinfomsg_zero,
     dh_xpinfo = userpolicy_info_zero, dh_xpid = userpolicy_id_zero\<rparr>"

definition demo_lib :: "(demo_body, nat \<times> u8 list) mnl_funs" where
  "demo_lib = \<lparr>
     mnl_rt = tlv_in dh_rt (\<lambda>x. dh_rt_update (\<lambda>_. x)) rtmsg_zero,
     mnl_fr = tlv_in dh_fr (\<lambda>x. dh_fr_update (\<lambda>_. x)) fib_rule_hdr_zero,
     mnl_ifa = tlv_in dh_ifa (\<lambda>x. dh_ifa_update (\<lambda>_. x)) ifaddrmsg_zero,
     mnl_ifi = tlv_in dh_ifi (\<lambda>x. dh_ifi_update (\<lambda>_. x)) ifinfomsg_zero,
     mnl_xpinfo = tlv_in dh_xpinfo (\<lambda>x. dh_xpinfo_update (\<lambda>_. x)) userpolicy_info_zero,
     mnl_xpid = tlv_in dh_xpid (\<lambda>x. dh_xpid_update (\<lambda>_. x)) userpolicy_id_zero,
     ifa_flags_ext = True,
     link_options = \<lparr>have_mtu_limits = True, have_xfrm = True, have_tun = True, ifla_max = 60\<rparr>\<rparr>"

lemma demo_policy_laws:
  "libmnl_laws (mnl_xpinfo demo_lib) Pair (hdrs_zero, []) userpolicy_info_zero"
  "libmnl_laws (mnl_xpid demo_lib) Pair (hdrs_zero, []) userpolicy_id_zero"
  unfolding demo_lib_def mnl_funs.simps by (rule tlv_in_laws; simp)+

section \<open>A scripted peer\<close>

text \<open>
  The world is the list of open sockets and the datagrams that are still to come; a datagram is a list of
  messages. \<open>fine\<close> are the messages that the peer sends; others are dropped.
\<close>

type_synonym 'b script = "nat list \<times> 'b nlmsghdr list list"

definition scripted ::
  "('b nlmsghdr \<Rightarrow> bool) \<Rightarrow> 'b \<Rightarrow> ('b script, 'b nlmsghdr list, 'b) netio" where
  "scripted fine b0 = \<lparr>
     socket_open = (\<lambda>bus w e. (Some (sum_list (fst w) + 1), ((sum_list (fst w) + 1) # fst w, snd w), e)),
     socket_bind = (\<lambda>nl g w e. (0, w, e)),
     socket_close = (\<lambda>nl w. (removeAll nl (fst w), snd w)),
     socket_sendto = (\<lambda>nl n w e. (16, w, e)),
     socket_recvfrom = (\<lambda>nl w e. case snd w of
        [] \<Rightarrow> (0, [], w, e)
      | ns # fs \<Rightarrow> (1 + int (length ns), ns, (fst w, fs), e)),
     socket_get_portid = (\<lambda>nl. int nl),
     socket_get_fd = (\<lambda>nl. int nl),
     clock = (\<lambda>w. 0),
     malloc_ok = (\<lambda>w. True),
     cb_run = (\<lambda>f sq pid cb s e. case cb of
        None \<Rightarrow> Some (MNL_CB_OK, s, e)
      | Some c \<Rightarrow> run_msgs c (filter fine f) s e),
     body_empty = b0,
     put_rtgenmsg = (\<lambda>x b. b),
     nlmsgerr_short = (\<lambda>b. False),
     nlmsgerr_error = (\<lambda>b. 0),
     strerror = (\<lambda>x. [])\<rparr>"

lemma run_msgs_keeps:
  assumes "\<And>n s e. n \<in> set ns \<Longrightarrow> I s \<Longrightarrow> \<exists>rc s' e'. cb n s e = Some (rc, s', e') \<and> I s'" "I s"
  shows "\<exists>rc s' e'. run_msgs cb ns s e = Some (rc, s', e') \<and> I s'"
  using assms
proof (induction ns arbitrary: s e)
  case (Cons n ns)
  from Cons.prems(1) [of n s e] Cons.prems(2) obtain rc s' e' where
    r: "cb n s e = Some (rc, s', e')" "I s'" by auto
  have "\<exists>rc s'' e''. run_msgs cb ns s' e' = Some (rc, s'', e'') \<and> I s''"
    using Cons.IH [OF _ r(2)] Cons.prems(1) by simp
  with r Cons.prems(2) show ?case by simp
qed simp

lemma scripted_cb_run: "cb_run_laws (scripted fine (b0 :: 'b)) (\<lambda>f n. n \<in> set f \<and> fine n)"
  unfolding cb_run_laws_def
proof (intro conjI allI impI)
  fix I :: "pdata \<Rightarrow> bool" and f sq pid s and e :: errno
    and cb :: "'b nlmsghdr \<Rightarrow> pdata \<Rightarrow> errno \<Rightarrow> (int \<times> pdata \<times> errno) option"
  assume "(\<forall>n s e. (n \<in> set f \<and> fine n) \<and> I s \<longrightarrow> (\<exists>rc s' e'. cb n s e = Some (rc, s', e') \<and> I s')) \<and> I s"
  then show "\<exists>rc s' e'. cb_run (scripted fine b0) f sq pid (Some cb) s e = Some (rc, s', e') \<and> I s'"
    unfolding scripted_def netio.simps option.case by (intro run_msgs_keeps) auto
qed (simp add: scripted_def)

text \<open>The same peer, seen as one that answers a dump with its datagrams.\<close>

definition script_msgs :: "('b nlmsghdr \<Rightarrow> bool) \<Rightarrow> 'b nlmsghdr list \<Rightarrow> u32 \<Rightarrow> int \<Rightarrow> 'b nlmsghdr list option" where
  "script_msgs fine f sq pid = Some (filter fine f)"

lemma scripted_in_order: "cb_run_in_order (scripted fine (b0 :: 'b)) (script_msgs fine)"
  by (simp add: cb_run_in_order_def scripted_def script_msgs_def)

lemma scripted_serves: "serves (scripted fine (b0 :: 'b)) (script_msgs fine) nl sq (ss, nss) (map (filter fine) nss)"
proof (induction nss)
  case Nil
  show ?case by (simp add: serves.nothing)
next
  case (Cons ns nss)
  show ?case unfolding list.map
    by (rule serves.datagram [OF _ _ _ Cons.IH, where f = ns]) (simp_all add: scripted_def script_msgs_def)
qed

lemma scripted_answers:
  "peer_answers (scripted fine (b0 :: 'b)) (script_msgs fine) bus req (ss, nss) (map (filter fine) nss)"
  unfolding peer_answers_def
proof (intro exI conjI allI impI)
  fix n :: "'b nlmsghdr"
  show "serves (scripted fine b0) (script_msgs fine) (sum_list ss + 1) (nlmsg_seq n) ((sum_list ss + 1) # ss, nss)
      (map (filter fine) nss)" by (rule scripted_serves)
qed (auto simp: scripted_def)

lemma scripted_finite: "finite_supply (scripted fine b0) (\<lambda>w. length (snd w))"
  by (auto simp: finite_supply_def scripted_def split: list.split)

lemma scripted_sockets: "socket_laws (scripted fine b0) (\<lambda>w. set (fst w))"
proof -
  have "Suc (sum_list xs) \<notin> set xs" for xs :: "nat list"
    using member_le_sum_list [of "Suc (sum_list xs)" xs] by auto
  then show ?thesis by (auto simp: socket_laws_def scripted_def split: list.split)
qed

definition demo_fine :: "demo_body nlmsghdr \<Rightarrow> bool" where
  "demo_fine n \<longleftrightarrow> lib_good demo_lib RtLink n \<and> lib_good demo_lib XfrmPolicy n"

definition demo_io :: "(demo_body script, demo_body nlmsghdr list, demo_body) netio" where
  "demo_io = scripted demo_fine (hdrs_zero, [])"

lemmas demo_io_laws =
  scripted_cb_run [of demo_fine "(hdrs_zero, [])", folded demo_io_def]
  scripted_finite [of demo_fine "(hdrs_zero, [])", folded demo_io_def]
  scripted_sockets [of demo_fine "(hdrs_zero, [])", folded demo_io_def]

lemma demo_traffic:
  "rt_traffic demo_lib (\<lambda>f n. n \<in> set f \<and> demo_fine n)" "xfrm_traffic demo_lib (\<lambda>f n. n \<in> set f \<and> demo_fine n)"
  by (simp_all add: rt_traffic_def xfrm_traffic_def demo_fine_def)

section \<open>A kernel that records what it accepts\<close>

definition recording :: "('w, 'f, 'b) netio \<Rightarrow> ('w \<times> 'b nlmsghdr list, 'f, 'b) netio" where
  "recording io = \<lparr>
     socket_open = (\<lambda>bus (w, l) e. case socket_open io bus w e of (r, w', e') \<Rightarrow> (r, (w', l), e')),
     socket_bind = (\<lambda>nl g (w, l) e. case socket_bind io nl g w e of (r, w', e') \<Rightarrow> (r, (w', l), e')),
     socket_close = (\<lambda>nl (w, l). (socket_close io nl w, l)),
     socket_sendto = (\<lambda>nl n (w, l) e. case socket_sendto io nl n w e of (r, w', e') \<Rightarrow>
       (r, (w', if 0 < r then l @ [n] else l), e')),
     socket_recvfrom = (\<lambda>nl (w, l) e. case socket_recvfrom io nl w e of (r, f, w', e') \<Rightarrow> (r, f, (w', l), e')),
     socket_get_portid = socket_get_portid io, socket_get_fd = socket_get_fd io,
     clock = (\<lambda>(w, l). clock io w), malloc_ok = (\<lambda>(w, l). malloc_ok io w), cb_run = cb_run io,
     body_empty = body_empty io, put_rtgenmsg = put_rtgenmsg io, nlmsgerr_short = nlmsgerr_short io,
     nlmsgerr_error = nlmsgerr_error io, strerror = strerror io\<rparr>"

lemma recording_logs: "sends_logged (recording io) snd"
  by (simp add: sends_logged_def recording_def split: prod.split)

lemma recording_laws:
  "cb_run_laws io msg_in \<Longrightarrow> cb_run_laws (recording io) msg_in"
  "finite_supply io left \<Longrightarrow> finite_supply (recording io) (\<lambda>w. left (fst w))"
  "socket_laws io socks \<Longrightarrow> socket_laws (recording io) (\<lambda>w. socks (fst w))"
proof -
  show "cb_run_laws io msg_in \<Longrightarrow> cb_run_laws (recording io) msg_in" by (simp add: cb_run_laws_def recording_def)
  show "finite_supply io left \<Longrightarrow> finite_supply (recording io) (\<lambda>w. left (fst w))"
    unfolding finite_supply_def recording_def netio.simps split_paired_all prod.case fst_conv
    by (simp only: split_beta fst_conv snd_conv, blast)
  show "socket_laws io socks \<Longrightarrow> socket_laws (recording io) (\<lambda>w. socks (fst w))"
    unfolding socket_laws_def recording_def netio.simps split_paired_all prod.case fst_conv
    by (simp only: split_beta fst_conv snd_conv, blast)
qed

section \<open>A peer that sends the library's own messages\<close>

definition demo_objs :: pheap where
  "demo_objs = named_heap\<lparr>objs := [4 \<mapsto> PRule demo_rule, 5 \<mapsto> PAddr demo_ifaddr, 6 \<mapsto> PRoute demo_route, 7 \<mapsto> PPolicy demo_policy]\<rparr>"

definition demo_msg :: "mnlxt_cb \<Rightarrow> ptr \<Rightarrow> u16 \<Rightarrow> demo_body nlmsghdr" where
  "demo_msg c q type = fst (snd (the (lib_put demo_lib c (demo_nlh type (hdrs_zero, [])) (Some q) type demo_objs 0)))"

lemma demo_objs_ok: "heap_ok demo_objs"
  by (simp add: demo_objs_def named_heap_def empty_heap_def heap_ok_def)

lemma demo_laws:
  "payload_laws demo_lib (hdrs_zero, []) (PRoute r)" "payload_laws demo_lib (hdrs_zero, []) (PRule u)"
  "payload_laws demo_lib (hdrs_zero, []) (PAddr a)" "payload_laws demo_lib (hdrs_zero, []) (PPolicy p)"
  unfolding payload_laws.simps demo_lib_def mnl_funs.simps by ((intro conjI)?, (rule exI, rule tlv_in_laws; simp)+)+

lemma demo_sendable:
  "payload_sendable demo_lib type demo_objs (PRoute demo_route)" "payload_sendable demo_lib type demo_objs (PRule demo_rule)"
  "payload_sendable demo_lib type demo_objs (PAddr demo_ifaddr)"
  "payload_sendable demo_lib XFRM_MSG_NEWPOLICY demo_objs (PPolicy demo_policy)"
proof -
  have s: "strs named_heap p = Some s \<Longrightarrow> strs demo_objs p = Some s" for p s by (simp add: demo_objs_def)
  have ext: "addr_sendable (ifa_flags_ext demo_lib) named_heap demo_ifaddr" using demo_ifaddr_ok(4) by (simp add: addr_sendable_def)
  show "payload_sendable demo_lib type demo_objs (PRoute demo_route)" using demo_route_inv by (simp add: demo_route_def)
  show "payload_sendable demo_lib type demo_objs (PRule demo_rule)"
    using demo_rule_ok(1,2) rule_put_later(1,2) [OF demo_rule_ok(3,4) s] by simp
  show "payload_sendable demo_lib type demo_objs (PAddr demo_ifaddr)"
    using demo_ifaddr_ok(1,2) addr_put_later(1,2) [OF demo_ifaddr_ok(3) ext s] by simp
  show "payload_sendable demo_lib XFRM_MSG_NEWPOLICY demo_objs (PPolicy demo_policy)" using demo_policy_ok by simp
qed

lemma demo_wrote:
  assumes "objs demo_objs q = Some x" "type \<in> set (payload_types x)"
    and "\<exists>n. lib_put demo_lib (payload_cb x) (demo_nlh type (hdrs_zero, [])) (Some q) type demo_objs 0 = Some (0, n, 0) \<and>
      nlmsg_flags n = 0"
  shows "wrote demo_lib (hdrs_zero, []) demo_objs x (demo_msg (payload_cb x) q type)"
proof -
  from assms(3) obtain n where n: "lib_put demo_lib (payload_cb x) (demo_nlh type (hdrs_zero, [])) (Some q) type demo_objs 0 = Some (0, n, 0)"
      "nlmsg_flags n = 0" by blast
  moreover from n(1) have "demo_msg (payload_cb x) q type = n" by (simp add: demo_msg_def)
  ultimately show ?thesis unfolding wrote_def using assms(1,2)
    by (auto intro!: exI [of _ "demo_nlh type (hdrs_zero, [])"] exI [of _ q] exI [of _ "0 :: errno"])
qed

text \<open>Each of the objects has a message of its type, which can carry it.\<close>

lemma demo_wrote_all:
  "wrote demo_lib (hdrs_zero, []) demo_objs (PRoute demo_route) (demo_msg RtRoute 6 RTM_NEWROUTE)"
  "wrote demo_lib (hdrs_zero, []) demo_objs (PRule demo_rule) (demo_msg RtRule 4 RTM_NEWRULE)"
  "wrote demo_lib (hdrs_zero, []) demo_objs (PAddr demo_ifaddr) (demo_msg RtAddr 5 RTM_NEWADDR)"
  "wrote demo_lib (hdrs_zero, []) demo_objs (PPolicy demo_policy) (demo_msg XfrmPolicy 7 XFRM_MSG_NEWPOLICY)"
proof -
  show "wrote demo_lib (hdrs_zero, []) demo_objs (PRoute demo_route) (demo_msg RtRoute 6 RTM_NEWROUTE)"
    using demo_wrote [of 6 "PRoute demo_route" RTM_NEWROUTE]
    by (simp add: demo_objs_def mnlxt_rt_route_PUT_def put_result_def mnlxt_rt_route_put_def)
  obtain n where "mnlxt_rt_rule_put (mnl_fr demo_lib) demo_objs (Some (demo_nlh RTM_NEWRULE (hdrs_zero, []))) (Some demo_rule) 0 =
      Some (0, Some n, 0)" "nlmsg_flags n = 0"
    using demo_sendable(2) rule_put_defined [of demo_objs demo_rule "mnl_fr demo_lib" "demo_nlh RTM_NEWRULE (hdrs_zero, [])" 0]
    by (auto simp: mnlxt_rt_rule_put_def)
  then show "wrote demo_lib (hdrs_zero, []) demo_objs (PRule demo_rule) (demo_msg RtRule 4 RTM_NEWRULE)"
    using demo_wrote [of 4 "PRule demo_rule" RTM_NEWRULE]
    by (simp add: demo_objs_def mnlxt_rt_rule_PUT_def put_result_def)
  obtain n where "mnlxt_rt_addr_put (ifa_flags_ext demo_lib) (mnl_ifa demo_lib) demo_objs
      (Some (demo_nlh RTM_NEWADDR (hdrs_zero, []))) (Some demo_ifaddr) 0 = Some (0, Some n, 0)" "nlmsg_flags n = 0"
    using demo_sendable(3) addr_put_defined [of demo_objs demo_ifaddr "ifa_flags_ext demo_lib" "mnl_ifa demo_lib" "demo_nlh RTM_NEWADDR (hdrs_zero, [])" 0]
    by (auto simp: mnlxt_rt_addr_put_def)
  then show "wrote demo_lib (hdrs_zero, []) demo_objs (PAddr demo_ifaddr) (demo_msg RtAddr 5 RTM_NEWADDR)"
    using demo_wrote [of 5 "PAddr demo_ifaddr" RTM_NEWADDR]
    by (simp add: demo_objs_def mnlxt_rt_addr_PUT_def put_result_def)
  show "wrote demo_lib (hdrs_zero, []) demo_objs (PPolicy demo_policy) (demo_msg XfrmPolicy 7 XFRM_MSG_NEWPOLICY)"
    using demo_wrote [of 7 "PPolicy demo_policy" XFRM_MSG_NEWPOLICY]
    by (simp add: demo_objs_def mnlxt_xfrm_policy_PUT_def put_result_def mnlxt_xfrm_policy_put_def Let_def)
qed

text \<open>A message has the type that its \<open>put\<close> was called for.\<close>

lemma demo_policy_type: "nlmsg_type (demo_msg XfrmPolicy 7 XFRM_MSG_NEWPOLICY) = XFRM_MSG_NEWPOLICY"
  by (simp add: demo_msg_def demo_objs_def mnlxt_xfrm_policy_PUT_def put_result_def mnlxt_xfrm_policy_put_def Let_def)

section \<open>A system without TUN devices\<close>

text \<open>The world holds the open descriptors and the next one; every \<open>ioctl\<close> is refused.\<close>

definition demo_tun :: "(int set \<times> int) tunsys" where
  "demo_tun = \<lparr>
     ts_open = (\<lambda>w e. if 0 \<le> snd w \<and> snd w \<notin> fst w then (snd w, (insert (snd w) (fst w), snd w + 1), e) else (- 1, w, 24)),
     ts_ioctl = (\<lambda>fd c w e. (- 1, w, 1)),
     ts_close = (\<lambda>fd w. (fst w - {fd}, snd w)),
     ts_nametoindex = (\<lambda>s w e. (0, w, 19)),
     ts_indextoname = (\<lambda>i w e. (None, w, 6))\<rparr>"

lemma demo_tun_laws: "fds_laws demo_tun fst"
  by (auto simp: fds_laws_def demo_tun_def Let_def)

section \<open>Links\<close>

definition demo_build :: link_build where
  "demo_build = \<lparr>have_mtu_limits = True, have_xfrm = True, have_tun = True, ifla_max = 60\<rparr>"

text \<open>A bridge, a VLAN with an operational state, and a TUN device.\<close>

definition demo_link :: mnlxt_rt_link_t where
  "demo_link = link_zero\<lparr>link_name := ''wlan0'', link_index := 7, link_mac := (2, 0, 0, 0, 0, 1), link_mtu := 1500,
     link_prop_flags := fold (\<lambda>i f. set_prop_flag f i) [MNLXT_RT_LINK_NAME, MNLXT_RT_LINK_INDEX, MNLXT_RT_LINK_HWADDR,
       MNLXT_RT_LINK_MTU, MNLXT_RT_LINK_INFO] 0\<rparr>"

definition demo_up_link :: mnlxt_rt_link_t where
  "demo_up_link = link_zero\<lparr>link_index := 7, link_state := 6,
     link_info := set_vlan_id 5 (info_set_flag MNLXT_RT_LINK_VLAN_ID (info_zero\<lparr>info_kind := MNLXT_RT_LINK_INFO_KIND_VLAN\<rparr>)),
     link_prop_flags := fold (\<lambda>i f. set_prop_flag f i) [MNLXT_RT_LINK_INDEX, MNLXT_RT_LINK_STATE, MNLXT_RT_LINK_INFO] 0\<rparr>"

definition demo_tun_link :: mnlxt_rt_link_t where
  "demo_tun_link = link_zero\<lparr>link_name := ''tun0'',
     link_info := set_tun_type IFF_TUN (info_set_flag MNLXT_RT_LINK_TUN_TYPE (info_zero\<lparr>info_kind := MNLXT_RT_LINK_INFO_KIND_TUN\<rparr>)),
     link_prop_flags := fold (\<lambda>i f. set_prop_flag f i) [MNLXT_RT_LINK_NAME, MNLXT_RT_LINK_INFO] 0\<rparr>"

lemma demo_link_ok: "link_inv demo_link" "link_sendable demo_build demo_link"
  by (simp_all add: demo_link_def link_inv_def info_inv_def link_zero_def info_zero_def link_sendable_def plain_info_def
    demo_build_def padded_str_def)

text \<open>The first system opens a descriptor for the TUN device; it is the next number that grows.\<close>

lemma demo_tun_opens: "snd (fst (snd (snd (mnlxt_rt_link_tun_create demo_tun 0 (Some demo_tun_link) ({}, 3) 0)))) = 4"
  by (simp add: mnlxt_rt_link_tun_create_def mnlxt_tun_create_def mnlxt_tun_open_def tun_create_failed_def demo_tun_def
    demo_tun_link_def link_zero_def info_zero_def mnlxt_rt_link_get_tun_type_def mnlxt_rt_link_get_name_def
    mnlxt_rt_link_get_tun_gid_def mnlxt_rt_link_get_tun_uid_def mnlxt_rt_link_get_tun_flags_def mnlxt_rt_link_get_info_kind_def
    mnlxt_rt_link_check_tun_kind_def set_tun_type_def info_set_flag_def Let_def split: prod.split)

text \<open>A system whose TUN devices share the table of descriptors with the sockets of the scripted peer.\<close>

definition demo_sys :: "'b script tunsys" where
  "demo_sys = \<lparr>
     ts_open = (\<lambda>w e. (int (sum_list (fst w) + 1), ((sum_list (fst w) + 1) # fst w, snd w), e)),
     ts_ioctl = (\<lambda>fd c w e. (0, w, e)),
     ts_close = (\<lambda>fd w. (filter (\<lambda>s. int s \<noteq> fd) (fst w), snd w)),
     ts_nametoindex = (\<lambda>s w e. (7, w, e)),
     ts_indextoname = (\<lambda>i w e. (None, w, 6))\<rparr>"

lemma demo_sys_table: "sockets_in_table (\<lambda>w. int ` set (fst w)) (\<lambda>w. set (fst w))"
  by (simp add: sockets_in_table_def inj_image_eq_iff)

lemma demo_sys_laws: "fds_laws demo_sys (\<lambda>w. int ` set (fst w))"
proof -
  have "Suc (sum_list xs) \<notin> set xs" for xs :: "nat list"
    using member_le_sum_list [of "Suc (sum_list xs)" xs] by auto
  moreover have "int ` {x \<in> set xs. int x \<noteq> fd} = int ` set xs - {fd}" for xs fd by auto
  ultimately show ?thesis by (simp add: fds_laws_def demo_sys_def Let_def image_iff del: of_nat_Suc)
qed

end
