(* ===== verification/Spec2Isabelle.thy ===== *)
theory Spec2Isabelle
  imports Demo
begin

text \<open>
  libmnlxt is a C library on top of libmnl for the Linux kernel's netlink interface: a client builds routes, rules,
  addresses, links and XFRM policies as property objects, sends them as requests, and receives lists of them as answers
  to dumps. This development models the whole library (src/ and include/) and proves what makes it correct, and
  where it is not.

  \<^bold>\<open>The program and the theories.\<close>

  \<^item> include/private/internal.h, include/libmnlxt/core.h: \<open>Prelude\<close> (property flags as bits of a word, the values
    that the generic accessors copy, errno), \<open>Inet\<close> (the union of addresses as sixteen bytes), \<open>Props\<close> (the contract of a
    property object as the locale \<open>prop_object\<close>, the loop of the \<open>*_compare\<close> functions with \<open>prop_compare\<close> and
    \<open>prop_match\<close>).
  \<^item> src/rtnl/route.c, rule.c, addr.c, link.c, link_vlan.c, link_xfrm.c, link_tun.c and src/xfrm/policy.c: \<open>Route\<close>,
    \<open>Rule\<close>, \<open>Addr\<close>, \<open>Link\<close>, \<open>Policy\<close>. One record per struct and one definition per function, under the function's
    name; the \<open>*_api\<close> relations collect the public setters, the \<open>*_reach\<close> predicates what a client can build with them,
    the \<open>*_inv\<close> predicates say when an object is well formed.
  \<^item> The C heap: \<open>CHeap\<close> (strings, arrays, messages and objects under one supply of addresses; \<open>None\<close> is a read through a
    dangling pointer or a second \<open>free\<close>; any allocation may fail), \<open>Payload\<close> (the objects as payloads of messages, what each
    owns, and the dispatch of \<open>free\<close>).
  \<^item> src/mnlxt_data.c, the list: \<open>MData\<close> (messages, the linked list of a data object with its two end pointers, and the
    refinement of each operation to an operation on HOL lists; the locales \<open>fifo\<close> and \<open>payload_owner\<close>).
  \<^item> src/rtnl/rtnl.c, src/xfrm/xfrm.c: \<open>Handlers\<close> (the tables, the lookup by type, new messages, the common end of the
    parsers).
  \<^item> libmnl: \<open>Netlink\<close>. Its functions are the fields of a record, and each definition that uses them takes it as a
    parameter; \<open>libmnl_laws\<close> states the documented behaviour that the round trips need, \<open>tlv_in\<close> satisfies it. \<open>Parsing\<close>
    has the contract \<open>parsed\<close> of a parser and its proof from the invariant of the attribute loop, \<open>Codec\<close> the
    lemmas on writing and reading the attributes one after the other.
  \<^item> src/rtnl/*_data.c, src/xfrm/policy_data.c: \<open>RouteData\<close>, \<open>RuleData\<close>, \<open>AddrData\<close>, \<open>LinkData\<close>, \<open>PolicyData\<close>:
    comparison, \<open>put\<close>, the parser, and iterating, dumping and requesting. \<open>TunTools\<close> is link_tun_tools.c,
    \<open>LinkCodec\<close> the round trip of links with the nested attributes of their kind (\<open>nest_laws\<close>, which \<open>tree_mnl\<close> satisfies).
  \<^item> src/mnlxt.c and the requests of mnlxt_data.c: \<open>Core\<close>. The sockets, \<open>recvfrom\<close> and \<open>mnl_cb_run\<close> are fields of a record
    over a state of the world; the two loops that need not end are partial functions, and \<open>None\<close> is not returning.
    \<open>Session\<close> carries the invariant \<open>holding\<close> of heap and message list through the dispatch of a message, a received
    buffer, the loop of a request and a whole request; \<open>message_parser\<close> and \<open>parsers\<close> are the contract between the core and the
    modules, which \<open>Library\<close> interprets on the five parsers and on the table of all callbacks.
  \<^item> What travels between the two ends: \<open>Delivery\<close> (from the datagrams of an answer to the list of the client, under a law for
    \<open>mnl_cb_run\<close> and a predicate on the socket), \<open>Exchange\<close> (each object that the library writes, read back by its
    parser, for all five modules at once), \<open>Sending\<close> (the one message that a request puts on the wire).
  \<^item> \<open>Demo\<close> has the concrete objects, messages and the scripted peer at which the properties are applied.

  \<^bold>\<open>Conventions.\<close> A function that returns an \<open>int\<close> is a function to a tuple of the result, the changed arguments and \<open>errno\<close>;
  a pointer that the code compares with NULL is an option; a function on the heap has an option of that, \<open>None\<close> for
  undefined behaviour. Integers have their width. Where the code reads an uninitialised variable, the value is a parameter
  (\<open>junk\<close>). The machine is little endian where bytes matter (the payload of a 32 bit attribute, ports).

  \<^bold>\<open>What the lemmas show.\<close> C1 to C3 are about both ends of a connection: a dump of a peer that answers with the
  library's own messages, of well formed objects that a message can carry (\<open>payload_sendable\<close>), gives the client one
  matching object for each of them, in order, and a request puts the message of its object on the wire. They rest on the round trips C4 to C8: an object that is written into a message and parsed is matched
  by the result, and the parser can fail only if an allocation does; their hypotheses name what a message cannot carry (a name
  whose length is a multiple of four is not terminated, a prefix length without an address is lost, the operational state
  of a link is refused, an IPv4 local address is exchanged with the address). The parsers C9 to C13 are memory safe: they append
  one well formed object or leave the heap as it was, in particular when an allocation fails. C9 to C11 say this for every
  message, C12 for those whose nested attributes have strings of less than 482 characters (\<open>kinds_fit\<close>), C13 for those with at
  most one attribute with templates (\<open>one_tmpl\<close>) and the sixteen bytes that the struct has for each address
  (\<open>policy_hdr_ok\<close>); the same limits hold for links and policies in C14 to C18 and for the refusals C34 and C35. C14 to C18 compose this to whole requests with any answer: they return, close the socket, and leave or
  release exactly what they should. C19 to C23 are the message list. C24 to C28 are the invariants of the setters, from the
  object that the \<open>*_new\<close> function returns (ports of a policy without a protocol are not excluded by the code, only a protocol
  that has no ports is), C29 to C32 generic access, comparison and copies, with all values of the copy. C33 to C39 are limits and defects of the code, proved of the model: the shared names
  of a copied rule, the wrong sizes that make marks, templates (in both formats of policies) and the state of a link (of any
  kind) unparsable, the exchanged addresses of a point-to-point link, the two bounds that are off. C40 is about the descriptors of the TUN tools.

  \<^bold>\<open>Bounds.\<close> No fuel is used. The request loops end under \<open>finite_supply\<close>: the kernel stops answering at some
  time; for C1 and C2 they end because the answer does. \<open>kinds_fit\<close> and \<open>one_tmpl\<close> exclude the messages on which the code overflows a buffer or leaks.

  \<^bold>\<open>Not modelled.\<close> libmnl, the kernel and the system calls are parameters. The buffers of datagrams are values, not
  blocks of the heap; \<open>malloc_ok\<close> says whether one could be allocated. \<open>mnlxt_msghdr_free\<close> releases the copy of a message that
  the model keeps as a value. \<open>mnlxt_rt_link_data_revoke\<close> and \<open>mnlxt_rt_link_reset_flags\<close> are disabled in the source. The bytes
  that a setter reads behind a four byte IPv4 payload are those that \<open>attr_get_payload\<close> gives for the offset. The programs under tests/
  and the build system are left out; the options that the build decides are parameters.
\<close>

section \<open>Properties\<close>

text \<open>C1: a dump of routes, rules, addresses or links delivers what the library's messages can carry. The peer answers with
  messages, not marked as interrupted, that the \<open>put\<close> callbacks make of well formed objects \<open>xs\<close>, in any number of datagrams,
  with any interruptions by signals, then \<open>NLMSG_DONE\<close>. The objects meet \<open>payload_sendable\<close> (see C4 to C8): a family, except
  for links; no name whose length is a multiple of four; a rule's prefix lengths with addresses; an address or local
  address, the latter for IPv4 only equal to the former, and flags that fit; for links no operational state, no MTU limits,
  no kind but bridge or TUN, without data. Then the dump returns 0 and one message for each object, in order, whose payload
  has every property of the object with the value that the module's comparison takes for the same; it returns -1 only where
  an allocation fails, with \<open>ENOMEM\<close> and the messages for the first few. The rest of the heap is as it was.\<close>

theorem rt_dump_delivers:
  assumes "cb_run_in_order io msgs_of" "heap_ok h"
    and "peer_answers io msgs_of NETLINK_ROUTE (dump_request type) w nss" "dump_answer ns nss"
    and "list_all2 (\<lambda>x n. wrote L b0 h x n \<and> payload_sendable L (nlmsg_type n) h x) xs ns"
    and "\<And>x. x \<in> set xs \<Longrightarrow> payload_laws L b0 x \<and> payload_cb x \<noteq> XfrmPolicy"
  shows "\<exists>rc d h' w' e' ps.
    mnlxt_rt_data_dump io (lib_callbacks L) (Some data_zero) type family h w e = Some (rc, Some d, h', w', e') \<and>
    holding h d h' ps \<and>
    (rc = 0 \<and> list_all2 (\<lambda>x. carries h' (payload_match x)) xs ps \<or>
     rc = - 1 \<and> memory_lost h e' \<and> (\<exists>k < length xs. list_all2 (\<lambda>x. carries h' (payload_match x)) (take k xs) ps))"
  using rt_dump_exchanges [OF assms] unfolding dump_delivers_def list_all2_map1 take_map length_map by blast

lemma rt_dump_delivers_witness:
  "\<exists>d h' w' e' p1 p2 p3.
    mnlxt_rt_data_dump (scripted (\<lambda>_. True) (hdrs_zero, [])) (lib_callbacks demo_lib) (Some data_zero) RTM_GETROUTE AF_UNSPEC
      demo_objs ([], [[demo_msg RtRoute 6 RTM_NEWROUTE], [demo_msg RtRule 4 RTM_NEWRULE],
        [demo_msg RtAddr 5 RTM_NEWADDR, demo_nlh NLMSG_DONE (hdrs_zero, [])]]) 0 = Some (0, Some d, h', w', e') \<and>
    data_inv h' d [p1, p2, p3] \<and> carries h' (payload_match (PRoute demo_route)) p1 \<and>
    carries h' (payload_match (PRule demo_rule)) p2 \<and> carries h' (payload_match (PAddr demo_ifaddr)) p3"
proof -
  let ?done = "demo_nlh NLMSG_DONE (hdrs_zero, []) :: demo_body nlmsghdr"
  let ?ns = "[demo_msg RtRoute 6 RTM_NEWROUTE, demo_msg RtRule 4 RTM_NEWRULE, demo_msg RtAddr 5 RTM_NEWADDR]"
  let ?nss = "[[?ns ! 0], [?ns ! 1], [?ns ! 2, ?done]]"
  have peer: "peer_answers (scripted (\<lambda>_. True) (hdrs_zero, [])) (script_msgs (\<lambda>_. True)) NETLINK_ROUTE
      (dump_request RTM_GETROUTE) ([], ?nss) (map (filter (\<lambda>_. True)) ?nss)" by (rule scripted_answers)
  have ans: "dump_answer ?ns (map (filter (\<lambda>_. True)) ?nss)"
    unfolding dump_answer_def
    by (rule exI [of _ "[[?ns ! 0], [?ns ! 1]]"], rule exI [of _ "[?ns ! 2]"], rule exI [of _ ?done]) simp
  have wr: "list_all2 (\<lambda>x n. wrote demo_lib (hdrs_zero, []) demo_objs x n \<and> payload_sendable demo_lib (nlmsg_type n) demo_objs x)
      [PRoute demo_route, PRule demo_rule, PAddr demo_ifaddr] ?ns"
    using demo_wrote_all demo_sendable(1-3) by (simp del: payload_sendable.simps)
  have laws: "payload_laws demo_lib (hdrs_zero, []) x \<and> payload_cb x \<noteq> XfrmPolicy"
    if "x \<in> set [PRoute demo_route, PRule demo_rule, PAddr demo_ifaddr]" for x
    using that demo_laws by (auto simp del: payload_laws.simps)
  have "\<not> memory_lost demo_objs e" for e by (simp add: memory_lost_def demo_objs_def named_heap_def empty_heap_def)
  then show ?thesis
    using rt_dump_delivers [OF scripted_in_order demo_objs_ok peer ans wr laws, of AF_UNSPEC 0]
    by (auto simp: list_all2_Cons1 holding_def simp del: payload_match.simps payload_laws.simps) blast
qed

text \<open>C2: a dump of XFRM policies delivers, in order, one message with a policy of the same properties for each policy that
  the peer has written with \<open>mnlxt_xfrm_policy_put\<close> into messages that are not marked as interrupted. The policies must be
  well formed, as C28 says, which excludes a mark and templates, and such that their message carries them: the protocol and
  the index of the interface, where they are set, are not 0, and in the format of \<open>XFRM_MSG_DELPOLICY\<close> there is no
  priority and no action. The dump returns -1 only where an allocation fails, with \<open>ENOMEM\<close> and the messages for the
  first few.\<close>

theorem policy_dump_delivers:
  assumes "cb_run_in_order io msgs_of" "heap_ok h"
    and "peer_answers io msgs_of NETLINK_XFRM (dump_request XFRM_MSG_GETPOLICY) w nss" "dump_answer ns nss"
    and "list_all2 (\<lambda>p n. wrote L b0 h (PPolicy p) n \<and> policy_inv p \<and> policy_sendable (nlmsg_type n) p) pols ns"
    and "payload_laws L b0 (PPolicy policy_zero)"
  shows "\<exists>rc d h' w' e' ps.
    mnlxt_xfrm_policy_dump io (lib_callbacks L) (Some data_zero) h w e = Some (rc, Some d, h', w', e') \<and>
    holding h d h' ps \<and>
    (rc = 0 \<and> list_all2 (\<lambda>p. carries h' (payload_match (PPolicy p))) pols ps \<or>
     rc = - 1 \<and> memory_lost h e' \<and>
       (\<exists>k < length pols. list_all2 (\<lambda>p. carries h' (payload_match (PPolicy p))) (take k pols) ps))"
proof -
  have "payload_laws L b0 x \<and> payload_cb x = XfrmPolicy" if "x \<in> set (map PPolicy pols)" for x
    using that assms(6) by auto
  moreover have "list_all2 (\<lambda>x n. wrote L b0 h x n \<and> payload_sendable L (nlmsg_type n) h x) (map PPolicy pols) ns"
    using assms(5) by (simp add: list_all2_map1)
  ultimately show ?thesis
    using xfrm_dump_exchanges [OF assms(1-4), of L b0 "map PPolicy pols" e]
    unfolding dump_delivers_def mnlxt_xfrm_policy_dump_def list_all2_map1 take_map length_map by blast
qed

lemma policy_dump_delivers_witness:
  "\<exists>d h' w' e' p.
    mnlxt_xfrm_policy_dump (scripted (\<lambda>_. True) (hdrs_zero, [])) (lib_callbacks demo_lib) (Some data_zero)
      demo_objs ([], [[demo_msg XfrmPolicy 7 XFRM_MSG_NEWPOLICY], [demo_nlh NLMSG_DONE (hdrs_zero, [])]]) 0 =
      Some (0, Some d, h', w', e') \<and> data_inv h' d [p] \<and> carries h' (payload_match (PPolicy demo_policy)) p"
proof -
  let ?done = "demo_nlh NLMSG_DONE (hdrs_zero, []) :: demo_body nlmsghdr"
  let ?n = "demo_msg XfrmPolicy 7 XFRM_MSG_NEWPOLICY"
  have peer: "peer_answers (scripted (\<lambda>_. True) (hdrs_zero, [])) (script_msgs (\<lambda>_. True)) NETLINK_XFRM
      (dump_request XFRM_MSG_GETPOLICY) ([], [[?n], [?done]]) (map (filter (\<lambda>_. True)) [[?n], [?done]])"
    by (rule scripted_answers)
  have ans: "dump_answer [?n] (map (filter (\<lambda>_. True)) [[?n], [?done]])"
    unfolding dump_answer_def by (rule exI [of _ "[[?n]]"], rule exI [of _ "[]"], rule exI [of _ ?done]) simp
  have wr: "list_all2 (\<lambda>p n. wrote demo_lib (hdrs_zero, []) demo_objs (PPolicy p) n \<and> policy_inv p \<and>
      policy_sendable (nlmsg_type n) p) [demo_policy] [?n]"
    using demo_wrote_all(4) demo_policy_type demo_policy_ok by simp
  have "\<not> memory_lost demo_objs e" for e by (simp add: memory_lost_def demo_objs_def named_heap_def empty_heap_def)
  then show ?thesis
    using policy_dump_delivers [OF scripted_in_order demo_objs_ok peer ans wr demo_laws(4), of 0]
    by (auto simp: list_all2_Cons1 holding_def simp del: payload_match.simps)
qed

text \<open>C3: a request to add or delete a route returns, leaves the client's heap as it was, and puts exactly one message on the wire,
  or none and then it fails: the message that \<open>mnlxt_rt_route_put\<close> makes of the route, of the requested type, with
  \<open>NLM_F_REQUEST\<close> and \<open>NLM_F_ACK\<close> and the client's flags, or \<open>NLM_F_CREATE\<close> for a new route where the client gave none.\<close>

theorem route_request_sends:
  assumes "cb_run_laws io msg_in" "finite_supply io left" "socket_laws io socks" "sends_logged io log"
    and "heap_ok h" "objs h q = Some (PRoute r)" "type \<in> {RTM_NEWROUTE, RTM_DELROUTE}"
  shows "\<exists>rc h' w' e'. mnlxt_rt_route_request io (lib_callbacks L) (Some q) type flags h w e = Some (rc, h', w', e') \<and>
    same_contents h h' \<and>
    (log w' = log w \<and> rc = - 1 \<or>
     (\<exists>n n0 e0 e1 sq. log w' = log w @ [n] \<and>
        mnlxt_rt_route_put (mnl_rt L)
          (Some \<lparr>nlmsg_type = type, nlmsg_flags = 0, nlmsg_seq = 0, nlmsg_body = body_empty io\<rparr>) (Some r) e0 = (0, Some n0, e1) \<and>
        n = n0\<lparr>nlmsg_flags := request_flags flags (if type = RTM_NEWROUTE then NLM_F_CREATE else 0), nlmsg_seq := sq\<rparr>))"
  using route_request_returns [OF assms(1-3,5,6), of w L type flags e] route_request_log [OF assms(4,7,6), of L flags w e]
  unfolding request_returns_def by blast

lemma route_request_sends_witness:
  "\<exists>rc h' w' e'. mnlxt_rt_route_request (recording demo_io) (lib_callbacks demo_lib) (Some 6) RTM_NEWROUTE 0 demo_objs (([], []), []) 0 =
      Some (rc, h', w', e') \<and> same_contents demo_objs h' \<and>
    (snd w' = [] \<and> rc = - 1 \<or>
     (\<exists>n n0 e0 e1 sq. snd w' = [n] \<and>
        mnlxt_rt_route_put (mnl_rt demo_lib) (Some (demo_nlh RTM_NEWROUTE (hdrs_zero, []))) (Some demo_route) e0 = (0, Some n0, e1) \<and>
        n = n0\<lparr>nlmsg_flags := NLM_F_REQUEST OR NLM_F_ACK OR NLM_F_CREATE, nlmsg_seq := sq\<rparr>))"
proof -
  have o: "objs demo_objs 6 = Some (PRoute demo_route)" by (simp add: demo_objs_def)
  have b: "body_empty (recording demo_io) = (hdrs_zero, [])" by (simp add: recording_def demo_io_def scripted_def)
  from route_request_sends [OF recording_laws(1) [OF demo_io_laws(1)] recording_laws(2) [OF demo_io_laws(2)]
      recording_laws(3) [OF demo_io_laws(3)] recording_logs demo_objs_ok o, of RTM_NEWROUTE demo_lib 0 "(([], []), [])" 0]
  show ?thesis by (simp add: b request_flags_def or.assoc)
qed

text \<open>C4: a well formed route with a family, written by \<open>mnlxt_rt_route_put\<close> into an empty message and
  parsed by \<open>mnlxt_rt_route_data\<close>, gives a message with a route that has every property of
  the written one with the same value. The parser fails, and then changes nothing, only if an allocation of the heap
  fails or the message is not one of routes.\<close>

theorem route_put_parse:
  assumes "libmnl_laws M mk b0 rtmsg_zero" "route_inv r" "bit (route_prop_flags r) MNLXT_RT_ROUTE_FAMILY"
    and "heap_ok h" "data_inv h d ps" "nlmsg_body n = b0"
    and "mnlxt_rt_route_put M (Some n) (Some r) e = (rc, Some n', e')"
  shows "parsed h d ps (nlmsg_type n) (parse_failure h route_types (nlmsg_type n)) False
    (\<lambda>_ x. \<exists>r'. x = PRoute r' \<and> mnlxt_rt_route_match (Some r') (Some r) e = (0, e))
    (mnlxt_rt_route_data M (Some n') (Some d) h e)"
  by (rule route_roundtrip_parsed [OF assms])

lemma route_put_parse_witness:
  "parsed empty_heap data_zero [] RTM_NEWROUTE (parse_failure empty_heap route_types RTM_NEWROUTE) False
    (\<lambda>_ x. \<exists>r'. x = PRoute r' \<and> mnlxt_rt_route_match (Some r') (Some demo_route) 0 = (0, 0))
    (mnlxt_rt_route_data (tlv_mnl rtmsg_zero)
       (fst (snd (mnlxt_rt_route_put (tlv_mnl rtmsg_zero)
          (Some \<lparr>nlmsg_type = RTM_NEWROUTE, nlmsg_flags = 0, nlmsg_seq = 0, nlmsg_body = (rtmsg_zero, [])\<rparr>)
          (Some demo_route) 0)))
       (Some data_zero) empty_heap 0)"
proof -
  let ?n = "\<lparr>nlmsg_type = RTM_NEWROUTE, nlmsg_flags = 0, nlmsg_seq = 0, nlmsg_body = (rtmsg_zero, [])\<rparr>"
  obtain n' where put: "mnlxt_rt_route_put (tlv_mnl rtmsg_zero) (Some ?n) (Some demo_route) 0 = (0, Some n', 0)"
    by (simp add: mnlxt_rt_route_put_def)
  have "bit (route_prop_flags demo_route) MNLXT_RT_ROUTE_FAMILY" by (simp add: demo_route_def)
  from route_put_parse [OF tlv_mnl_laws demo_route_inv this empty_heap_ok _ put]
  show ?thesis unfolding put by simp
qed

text \<open>C5: a well formed rule with a family, whose names a message can carry and whose prefix lengths have their
  addresses, survives the way through a message: \<open>mnlxt_rt_rule_data\<close> appends a rule that matches the one that
  \<open>mnlxt_rt_rule_put\<close> wrote, in each of its properties. It fails only if an allocation does, or on a message that is not one of rules.\<close>

theorem rule_put_parse:
  assumes "libmnl_laws M mk b0 fib_rule_hdr_zero"
    and "rule_inv r" "rule_has r MNLXT_RT_RULE_FAMILY" "rule_names_ok h r" "rule_sendable h r"
    and "heap_ok h" "data_inv h d ps" "nlmsg_body n = b0"
    and "mnlxt_rt_rule_put M h (Some n) (Some r) e = Some (rc, Some n', e')"
  shows "parsed h d ps (nlmsg_type n) (parse_failure h rule_types (nlmsg_type n)) False
    (\<lambda>h' x. \<exists>r'. x = PRule r' \<and> mnlxt_rt_rule_match h' (Some r') (Some r) e = Some (0, e))
    (mnlxt_rt_rule_data M (Some n') (Some d) h e)"
  by (rule rule_roundtrip_parsed [OF assms])

lemma rule_put_parse_witness:
  "\<exists>rc n' e'. mnlxt_rt_rule_put (tlv_mnl fib_rule_hdr_zero) named_heap
      (Some (demo_nlh RTM_NEWRULE (fib_rule_hdr_zero, []))) (Some demo_rule) 0 = Some (rc, Some n', e') \<and>
    parsed named_heap data_zero [] RTM_NEWRULE (parse_failure named_heap rule_types RTM_NEWRULE) False
      (\<lambda>h' x. \<exists>r'. x = PRule r' \<and> mnlxt_rt_rule_match h' (Some r') (Some demo_rule) 0 = Some (0, 0))
      (mnlxt_rt_rule_data (tlv_mnl fib_rule_hdr_zero) (Some n') (Some data_zero) named_heap 0)"
proof -
  let ?M = "tlv_mnl fib_rule_hdr_zero" and ?n = "demo_nlh RTM_NEWRULE (fib_rule_hdr_zero, [])"
  obtain rc n' e' where p: "mnlxt_rt_rule_put ?M named_heap (Some ?n) (Some demo_rule) 0 = Some (rc, Some n', e')"
    using rule_put_defined [OF demo_rule_ok(3), of ?M ?n 0] by (auto simp: mnlxt_rt_rule_put_def)
  from rule_put_parse [OF tlv_mnl_laws demo_rule_ok named_heap_ok _ p] p show ?thesis by auto
qed

text \<open>C6: an address with a family, an address and a label that a message can carry, and for IPv4 no local address
  other than its address, survives the way through a message: \<open>mnlxt_rt_addr_data\<close> appends an address that matches
  the one that \<open>mnlxt_rt_addr_put\<close> wrote. It fails only if an allocation does, or on a
  message of another type. Without the extended flags
  attribute the flags must fit into eight bits.\<close>

theorem addr_put_parse:
  assumes "libmnl_laws M mk b0 ifaddrmsg_zero"
    and "addr_inv r" "addr_has r MNLXT_RT_ADDR_FAMILY" "addr_label_ok h r" "addr_sendable ext h r"
    and "heap_ok h" "data_inv h d ps" "nlmsg_body n = b0"
    and "mnlxt_rt_addr_put ext M h (Some n) (Some r) e = Some (rc, Some n', e')"
  shows "parsed h d ps (nlmsg_type n) (parse_failure h addr_types (nlmsg_type n)) False
    (\<lambda>h' x. \<exists>r'. x = PAddr r' \<and> mnlxt_rt_addr_match h' (Some r') (Some r) e = Some (0, e))
    (mnlxt_rt_addr_data ext M (Some n') (Some d) h e)"
  by (rule addr_roundtrip_parsed [OF assms])

lemma addr_put_parse_witness:
  "\<exists>rc n' e'. mnlxt_rt_addr_put False (tlv_mnl ifaddrmsg_zero) named_heap
      (Some (demo_nlh RTM_NEWADDR (ifaddrmsg_zero, []))) (Some demo_ifaddr) 0 = Some (rc, Some n', e') \<and>
    parsed named_heap data_zero [] RTM_NEWADDR (parse_failure named_heap addr_types RTM_NEWADDR) False
      (\<lambda>h' x. \<exists>r'. x = PAddr r' \<and> mnlxt_rt_addr_match h' (Some r') (Some demo_ifaddr) 0 = Some (0, 0))
      (mnlxt_rt_addr_data False (tlv_mnl ifaddrmsg_zero) (Some n') (Some data_zero) named_heap 0)"
proof -
  let ?M = "tlv_mnl ifaddrmsg_zero" and ?n = "demo_nlh RTM_NEWADDR (ifaddrmsg_zero, [])"
  obtain rc n' e' where
    p: "mnlxt_rt_addr_put False ?M named_heap (Some ?n) (Some demo_ifaddr) 0 = Some (rc, Some n', e')"
    using addr_put_defined [OF demo_ifaddr_ok(3), of False ?M ?n 0] by (auto simp: mnlxt_rt_addr_put_def)
  from addr_put_parse [OF tlv_mnl_laws demo_ifaddr_ok named_heap_ok _ p] p show ?thesis by auto
qed

text \<open>C7: a well formed policy that its message type can carry survives the way through a message, in the two formats
  that the kernel has for policies: \<open>mnlxt_xfrm_policy_data\<close> appends a policy that matches the one that
  \<open>mnlxt_xfrm_policy_put\<close> accepted. It fails only if an allocation does, or on a
  message of another type.\<close>

theorem policy_put_parse:
  assumes "libmnl_laws MI mki b0 userpolicy_info_zero" "libmnl_laws MD mkd b0 userpolicy_id_zero"
    and "policy_inv p" "policy_sendable (nlmsg_type n) p"
    and "heap_ok h" "data_inv h d ps" "nlmsg_body n = b0"
    and "mnlxt_xfrm_policy_put MI MD (Some n) (Some p) ty e = (0, Some n', e')"
  shows "parsed h d ps (nlmsg_type n) (parse_failure h policy_types (nlmsg_type n)) False
    (\<lambda>_ x. \<exists>q. x = PPolicy q \<and> mnlxt_xfrm_policy_match (Some q) (Some p) e = (0, e))
    (mnlxt_xfrm_policy_data MI MD (Some n') (Some d) h e)"
  by (rule policy_roundtrip_parsed [OF assms])

lemma policy_put_parse_witness:
  "\<exists>n' e'. mnlxt_xfrm_policy_put (mnl_xpinfo demo_lib) (mnl_xpid demo_lib)
      (Some (demo_nlh XFRM_MSG_NEWPOLICY (hdrs_zero, []))) (Some demo_policy) XFRM_MSG_NEWPOLICY 0 = (0, Some n', e') \<and>
    parsed empty_heap data_zero [] XFRM_MSG_NEWPOLICY (parse_failure empty_heap policy_types XFRM_MSG_NEWPOLICY) False
      (\<lambda>_ x. \<exists>q. x = PPolicy q \<and> mnlxt_xfrm_policy_match (Some q) (Some demo_policy) 0 = (0, 0))
      (mnlxt_xfrm_policy_data (mnl_xpinfo demo_lib) (mnl_xpid demo_lib) (Some n') (Some data_zero) empty_heap 0)"
proof -
  let ?n = "demo_nlh XFRM_MSG_NEWPOLICY (hdrs_zero, [])"
  obtain n' e' where p: "mnlxt_xfrm_policy_put (mnl_xpinfo demo_lib) (mnl_xpid demo_lib) (Some ?n) (Some demo_policy)
      XFRM_MSG_NEWPOLICY 0 = (0, Some n', e')"
    by (simp add: mnlxt_xfrm_policy_put_def Let_def)
  from demo_policy_ok have "policy_sendable (nlmsg_type ?n) demo_policy" by simp
  from policy_put_parse [OF demo_policy_laws demo_policy_ok(1) this empty_heap_ok _ p] p show ?thesis by auto
qed

text \<open>C8: a well formed link without the properties that the receiver cannot read (the operational state, the limits of the
  MTU, names of a multiple of four characters, the data of a kind) survives the way through a message, with its kind in nested
  attributes: \<open>mnlxt_rt_link_data\<close> appends a link that matches the one that \<open>mnlxt_rt_link_put\<close> wrote. It fails only if an allocation does, or on a
  message of another type.\<close>

theorem link_put_parse:
  assumes "nest_laws M mk nest" "libmnl_laws M mk b0 ifinfomsg_zero"
    and "link_inv l" "link_sendable B l"
    and "heap_ok h" "data_inv h d ps" "nlmsg_body n = b0"
    and "mnlxt_rt_link_put B M (Some n) (Some l) e = (rc, Some n', e')"
  shows "parsed h d ps (nlmsg_type n) (parse_failure h link_types (nlmsg_type n)) False
    (\<lambda>_ x. \<exists>l'. x = PLink l' \<and> mnlxt_rt_link_match (Some l') (Some l) e = (0, e))
    (mnlxt_rt_link_data B M (Some n') (Some d) h e)"
  by (rule link_roundtrip_parsed [OF assms])

lemma link_put_parse_witness:
  "\<exists>rc n' e'. mnlxt_rt_link_put demo_build (tree_mnl ifinfomsg_zero) (Some (demo_nlh RTM_NEWLINK (ifinfomsg_zero, [])))
      (Some demo_link) 0 = (rc, Some n', e') \<and>
    parsed empty_heap data_zero [] RTM_NEWLINK (parse_failure empty_heap link_types RTM_NEWLINK) False
      (\<lambda>_ x. \<exists>l'. x = PLink l' \<and> mnlxt_rt_link_match (Some l') (Some demo_link) 0 = (0, 0))
      (mnlxt_rt_link_data demo_build (tree_mnl ifinfomsg_zero) (Some n') (Some data_zero) empty_heap 0)"
proof -
  let ?M = "tree_mnl ifinfomsg_zero" and ?n = "demo_nlh RTM_NEWLINK (ifinfomsg_zero, [])"
  obtain rc n' e' where p: "mnlxt_rt_link_put demo_build ?M (Some ?n) (Some demo_link) 0 = (rc, Some n', e')"
    by (simp add: mnlxt_rt_link_put_def)
  from link_put_parse [OF tree_nest_laws tree_libmnl_laws demo_link_ok empty_heap_ok _ p] p show ?thesis by auto
qed

text \<open>C9: parsing a message of any content as a route never reads through a dangling pointer and never
  frees twice; it appends exactly one message, with a route that is well formed and has the family of the
  header, or leaves the message list and the heap's contents as they were.\<close>

theorem route_parser:
  assumes "heap_ok h" "data_inv h d ps"
  shows "parsed h d ps (nlmsg_type n) (\<lambda>_. True) True
    (\<lambda>_ x. \<exists>r. x = PRoute r \<and> route_inv r \<and> bit (route_prop_flags r) MNLXT_RT_ROUTE_FAMILY \<and>
       route_family r = rtm_family (hdr_read M (nlmsg_body n)))
    (mnlxt_rt_route_data M (Some n) (Some d) h e)"
  by (rule route_data_parsed [OF assms])

lemma route_parser_witness:
  "parsed empty_heap data_zero [] RTM_NEWROUTE (\<lambda>_. True) True
    (\<lambda>_ x. \<exists>r. x = PRoute r \<and> route_inv r \<and> bit (route_prop_flags r) MNLXT_RT_ROUTE_FAMILY \<and>
       route_family r = AF_INET)
    (mnlxt_rt_route_data (tlv_mnl rtmsg_zero)
      (Some \<lparr>nlmsg_type = RTM_NEWROUTE, nlmsg_flags = 0, nlmsg_seq = 0,
         nlmsg_body = (rtmsg_zero\<lparr>rtm_family := AF_INET\<rparr>, [(RTA_OIF, [7, 0])])\<rparr>)
      (Some data_zero) empty_heap 0)"
  using route_parser [OF empty_heap_ok, of
      "\<lparr>nlmsg_type = RTM_NEWROUTE, nlmsg_flags = 0, nlmsg_seq = 0,
         nlmsg_body = (rtmsg_zero\<lparr>rtm_family := AF_INET\<rparr>, [(RTA_OIF, [7, 0])])\<rparr>" "tlv_mnl rtmsg_zero" 0]
  by (simp add: tlv_mnl_def tlv_in_def)

text \<open>C10: parsing a message of any content as a rule appends exactly one message, with a well formed rule of the
  header's family whose names are live strings of at most fifteen characters, or fails or skips the message and leaves the
  message list and the heap's contents as they were.\<close>

theorem rule_parser:
  assumes "heap_ok h" "data_inv h d ps"
  shows "parsed h d ps (nlmsg_type n) (\<lambda>_. True) True
    (\<lambda>h' x. \<exists>r. x = PRule r \<and> rule_inv r \<and> rule_names_ok h' r \<and> rule_has r MNLXT_RT_RULE_FAMILY \<and>
       rule_family r = fr_family (hdr_read M (nlmsg_body n)))
    (mnlxt_rt_rule_data M (Some n) (Some d) h e)"
  by (rule rule_data_parsed [OF assms])

lemma rule_parser_witness:
  "parsed named_heap data_zero [] RTM_NEWRULE (\<lambda>_. True) True
    (\<lambda>h' x. \<exists>r. x = PRule r \<and> rule_inv r \<and> rule_names_ok h' r \<and> rule_has r MNLXT_RT_RULE_FAMILY \<and>
       rule_family r = AF_INET6)
    (mnlxt_rt_rule_data (tlv_mnl fib_rule_hdr_zero)
      (Some (demo_nlh RTM_NEWRULE (fib_rule_hdr_zero\<lparr>fr_family := AF_INET6\<rparr>, [(FRA_IIFNAME, [101, 116, 104])])))
      (Some data_zero) named_heap 0)"
  using rule_parser [OF named_heap_ok, of
      "demo_nlh RTM_NEWRULE (fib_rule_hdr_zero\<lparr>fr_family := AF_INET6\<rparr>, [(FRA_IIFNAME, [101, 116, 104])])"
      "tlv_mnl fib_rule_hdr_zero" 0]
  by (simp add: tlv_mnl_def tlv_in_def)

text \<open>C11: parsing a message of any content as an address appends exactly one message, with a well formed address that
  has prefix length, flags, scope and interface, a live label if any, and the family of the header if it has a
  family; or it fails or skips the message and leaves the message list and the heap's contents as they were.\<close>

theorem addr_parser:
  assumes "heap_ok h" "data_inv h d ps"
  shows "parsed h d ps (nlmsg_type n) (\<lambda>_. True) True
    (\<lambda>h' x. \<exists>r. x = PAddr r \<and> addr_inv r \<and> addr_label_ok h' r \<and>
       (\<forall>i \<in> {MNLXT_RT_ADDR_PREFIXLEN, MNLXT_RT_ADDR_FLAGS, MNLXT_RT_ADDR_SCOPE, MNLXT_RT_ADDR_IFINDEX}.
          addr_has r i) \<and>
       (addr_has r MNLXT_RT_ADDR_FAMILY \<longrightarrow> addr_family r = ifa_family (hdr_read M (nlmsg_body n))))
    (mnlxt_rt_addr_data ext M (Some n) (Some d) h e)"
  by (rule addr_data_parsed [OF assms])

lemma addr_parser_witness:
  "parsed named_heap data_zero [] RTM_NEWADDR (\<lambda>_. True) True
    (\<lambda>h' x. \<exists>r. x = PAddr r \<and> addr_inv r \<and> addr_label_ok h' r \<and>
       (\<forall>i \<in> {MNLXT_RT_ADDR_PREFIXLEN, MNLXT_RT_ADDR_FLAGS, MNLXT_RT_ADDR_SCOPE, MNLXT_RT_ADDR_IFINDEX}.
          addr_has r i) \<and>
       (addr_has r MNLXT_RT_ADDR_FAMILY \<longrightarrow> addr_family r = AF_INET))
    (mnlxt_rt_addr_data True (tlv_mnl ifaddrmsg_zero)
      (Some (demo_nlh RTM_NEWADDR (ifaddrmsg_zero\<lparr>ifa_family := AF_INET\<rparr>, [(IFA_LABEL, [101, 116, 104])])))
      (Some data_zero) named_heap 0)"
  using addr_parser [OF named_heap_ok, of
      "demo_nlh RTM_NEWADDR (ifaddrmsg_zero\<lparr>ifa_family := AF_INET\<rparr>, [(IFA_LABEL, [101, 116, 104])])"
      "tlv_mnl ifaddrmsg_zero" True 0]
  by (simp add: tlv_mnl_def tlv_in_def)



text \<open>C13: parsing a message as a policy, whose header holds addresses of sixteen bytes and which has at most one attribute
  with templates, appends exactly one message, with a policy that is well formed but for its templates, which are a live
  array of the recorded length, and that is the header's policy otherwise; or it fails and leaves the message list and
  the heap's contents as they were.\<close>

theorem policy_parser:
  assumes "heap_ok h" "data_inv h d ps" "policy_hdr_ok MI MD n" "one_tmpl MI MD n"
  shows "parsed h d ps (nlmsg_type n) (\<lambda>_. True) False
    (\<lambda>h' x. \<exists>p. x = PPolicy p \<and> policy_tmpls_ok h' p \<and> policy_plain p = fst (policy_of_msg MI MD n e) \<and>
       policy_inv (policy_plain p))
    (mnlxt_xfrm_policy_data MI MD (Some n) (Some d) h e)"
  by (rule policy_data_parsed [OF assms])

lemma policy_parser_witness:
  "parsed empty_heap data_zero [] XFRM_MSG_DELPOLICY (\<lambda>_. True) False
    (\<lambda>h' x. \<exists>p. x = PPolicy p \<and> policy_tmpls_ok h' p \<and>
       policy_plain p = fst (policy_of_msg (mnl_xpinfo demo_lib) (mnl_xpid demo_lib)
         (demo_nlh XFRM_MSG_DELPOLICY (hdrs_zero, [(XFRMA_TMPL, replicate 60 0)])) 0) \<and>
       policy_inv (policy_plain p))
    (mnlxt_xfrm_policy_data (mnl_xpinfo demo_lib) (mnl_xpid demo_lib)
      (Some (demo_nlh XFRM_MSG_DELPOLICY (hdrs_zero, [(XFRMA_TMPL, replicate 60 0)]))) (Some data_zero) empty_heap 0)"
proof -
  let ?n = "demo_nlh XFRM_MSG_DELPOLICY (hdrs_zero, [(XFRMA_TMPL, replicate 60 0)])"
  have "policy_hdr_ok (mnl_xpinfo demo_lib) (mnl_xpid demo_lib) ?n"
    "one_tmpl (mnl_xpinfo demo_lib) (mnl_xpid demo_lib) ?n"
    by (simp_all add: policy_hdr_ok_def one_tmpl_def demo_lib_def tlv_in_def hdrs_zero_def userpolicy_id_zero_def
      selector_zero_def inet_ok_def inet_zero_def)
  from policy_parser [OF empty_heap_ok this, of 0] show ?thesis by simp
qed



text \<open>C15: a dump on the XFRM bus returns, closes its socket, and \<open>mnlxt_data_clean\<close> afterwards gives the heap back as it
  was, as long as no message has two attributes with templates.\<close>

theorem xfrm_dump_clean:
  assumes "cb_run_laws io msg_in" "finite_supply io left" "socket_laws io socks" "xfrm_traffic L msg_in" "heap_ok h"
  shows "\<exists>rc d h' w' e' h''.
    mnlxt_xfrm_data_dump io (lib_callbacks L) (Some data_zero) type h w e = Some (rc, Some d, h', w', e') \<and>
    socks w' = socks w \<and>
    mnlxt_data_clean call_free (Some d) h' e' = Some (Some data_zero, h'', e') \<and> same_contents h h''"
  by (rule xfrm_dump_then_clean [OF assms])

lemma xfrm_dump_clean_witness:
  "\<exists>rc d h' w' e' h''.
    mnlxt_xfrm_data_dump demo_io (lib_callbacks demo_lib) (Some data_zero) XFRM_MSG_GETPOLICY named_heap
      ([], [[demo_nlh XFRM_MSG_NEWPOLICY (hdrs_zero, [])]]) 0 = Some (rc, Some d, h', w', e') \<and>
    set (fst w') = {} \<and>
    mnlxt_data_clean call_free (Some d) h' e' = Some (Some data_zero, h'', e') \<and> same_contents named_heap h''"
  using xfrm_dump_clean [OF demo_io_laws demo_traffic(2) named_heap_ok(1), of XFRM_MSG_GETPOLICY
      "([], [[demo_nlh XFRM_MSG_NEWPOLICY (hdrs_zero, [])]])" 0]
  by simp

text \<open>C16: a request for a rule whose names are live returns; the socket is closed, the message that carried the rule is freed,
  and the rule and all the rest of the heap are the caller's as before, whatever the answer and whichever allocation fails.\<close>

theorem rule_request_safe:
  assumes "cb_run_laws io msg_in" "finite_supply io left" "socket_laws io socks"
    and "heap_ok h" "objs h q = Some (PRule r)" "rule_names_ok h r"
  shows "\<exists>rc h' w' e'. mnlxt_rt_rule_request io (lib_callbacks L) (Some q) type flags h w e = Some (rc, h', w', e') \<and>
    same_contents h h' \<and> heap_ok h' \<and> socks w' = socks w"
  using rule_request_returns [OF assms] by (simp add: request_returns_def)

lemma rule_request_safe_witness:
  "\<exists>rc h' w' e'. mnlxt_rt_rule_request demo_io (lib_callbacks demo_lib) (Some 4) RTM_NEWRULE 0
      (named_heap\<lparr>objs := [4 \<mapsto> PRule demo_rule]\<rparr>) ([], []) 0 = Some (rc, h', w', e') \<and>
    same_contents (named_heap\<lparr>objs := [4 \<mapsto> PRule demo_rule]\<rparr>) h' \<and> heap_ok h' \<and> set (fst w') = {}"
  using rule_request_safe [OF demo_io_laws named_obj_ok, of demo_rule demo_lib RTM_NEWRULE 0 "([], [])" 0] demo_rule_ok(3)
  by (simp add: rule_names_ok_def)

text \<open>C17: a request for a link returns on every path, also where a TUN device is created or deleted through its device file
  first: the message is freed, the heap is the caller's as before but for the index of a new device in the link, and the same
  sockets are open, whatever the kernel answers and whichever allocation fails.\<close>

theorem link_request_safe:
  assumes "cb_run_laws io msg_in" "finite_supply io left" "socket_laws io socks"
    and "fds_laws sys fds" "sockets_in_table fds socks" "heap_ok h" "objs h q = Some (PLink l)"
  shows "\<exists>rc h' w' e' l'.
    mnlxt_rt_link_request sys junk_flags junk_name io (lib_callbacks L) (Some q) type flags h w e = Some (rc, h', w', e') \<and>
    link_indexed l l' \<and> same_contents (put_obj q (PLink l') h) h' \<and> heap_ok h' \<and> socks w' = socks w"
  using link_requests_return [OF assms, of w junk_flags junk_name L type flags e] by (simp only: link_request_returns_def)

lemma link_request_safe_witness:
  "\<exists>rc h' w' e' l'. mnlxt_rt_link_request demo_sys 0 [] demo_io (lib_callbacks demo_lib) (Some 4) RTM_NEWLINK 0
      (named_heap\<lparr>objs := [4 \<mapsto> PLink demo_tun_link]\<rparr>) ([], []) 0 = Some (rc, h', w', e') \<and>
    link_indexed demo_tun_link l' \<and>
    same_contents (put_obj 4 (PLink l') (named_heap\<lparr>objs := [4 \<mapsto> PLink demo_tun_link]\<rparr>)) h' \<and> heap_ok h' \<and>
    set (fst w') = {}"
  using link_request_safe [OF demo_io_laws demo_sys_laws demo_sys_table named_obj_ok, of 0 "[]" demo_lib RTM_NEWLINK 0
      demo_tun_link "([], [])" 0]
  by simp

text \<open>C18: \<open>mnlxt_request\<close> without a data object returns for every message, bus and answer of the kernel, provided that the
  kernel stops answering and that \<open>mnl_cb_run\<close> returns: both of its loops, the retries of \<open>recvfrom\<close> and the
  \<open>while (1)\<close>, end. The heap is untouched and no socket stays open.\<close>

theorem request_ends:
  assumes "cb_run_laws io msg_in" "finite_supply io left" "socket_laws io socks"
  shows "\<exists>rc w' e'. mnlxt_request io (lib_callbacks L) nlh bus None h w e = Some (rc, None, h, w', e') \<and> socks w' = socks w"
  using lib.request_keeps [OF assms, where data = None and h = h and ?h0.0 = h and L = L] by simp

lemma request_ends_witness:
  "\<exists>rc w' e'. mnlxt_request demo_io (lib_callbacks demo_lib) (Some (demo_nlh RTM_NEWROUTE (hdrs_zero, []))) NETLINK_ROUTE None
      named_heap ([], [[], [demo_nlh NLMSG_ERROR (hdrs_zero, [])]]) 0 = Some (rc, None, named_heap, w', e') \<and> set (fst w') = {}"
  using request_ends [OF demo_io_laws, of demo_lib "Some (demo_nlh RTM_NEWROUTE (hdrs_zero, []))" NETLINK_ROUTE named_heap
      "([], [[], [demo_nlh NLMSG_ERROR (hdrs_zero, [])]])" 0]
  by simp

text \<open>C19: \<open>mnlxt_data_add\<close> appends the message to the list that the data object represents; no message
  changes but in its \<open>next\<close> pointer, nothing of the data object but its two list pointers.\<close>

theorem data_add_appends:
  assumes "data_inv h d ps" "n \<notin> set ps" "n \<in> dom (msgs h)"
  shows "\<exists>d' h'. mnlxt_data_add (Some d) (Some n) h e = Some (Some d', h', e) \<and>
    data_inv h' d' (ps @ [n]) \<and> same_but_next h h' \<and> same_but_links d d'"
  by (rule add_refines [OF assms])

lemma data_add_appends_witness:
  "\<exists>d' h'. mnlxt_data_add (Some data_zero) (Some 1) demo_heap 0 = Some (Some d', h', 0) \<and>
    data_inv h' d' ([] @ [1]) \<and> same_but_next demo_heap h' \<and> same_but_links data_zero d'"
  by (rule data_add_appends) (simp_all add: data_inv_def data_zero_def demo_heap_def)

text \<open>C20: \<open>mnlxt_data_remove\<close> takes the given message out of the list, the first one for NULL, and returns
  it with its \<open>next\<close> cleared; a message that is not in the list is not returned and nothing changes.\<close>

theorem data_remove_takes_out:
  assumes inv: "data_inv h d ps"
  shows "\<exists>r d' h'. mnlxt_data_remove (Some d) m h e = Some (r, Some d', h', e) \<and>
    r = (case m of None \<Rightarrow> (if ps = [] then None else Some (hd ps))
         | Some q \<Rightarrow> if q \<in> set ps then Some q else None) \<and>
    (case r of None \<Rightarrow> d' = d \<and> h' = h
     | Some q \<Rightarrow> data_inv h' d' (remove1 q ps) \<and> same_but_next h h' \<and> same_but_links d d' \<and>
         next_of h' q = Some None)"
proof (cases m)
  case None
  then show ?thesis using remove_null_refines [OF inv, of e] by (cases ps) auto
next
  case (Some q)
  then show ?thesis
    using remove_member_refines [OF inv, of q e] remove_nonmember_refines [OF inv, of q e]
    by (cases "q \<in> set ps") auto
qed

lemma data_remove_takes_out_witness:
  "\<exists>r d' h'. mnlxt_data_remove (Some demo_data) (Some 2) demo_heap 0 = Some (r, Some d', h', 0) \<and>
    r = Some 2 \<and> data_inv h' d' [1] \<and> next_of h' 2 = Some None"
  using data_remove_takes_out [OF demo_list, of "Some 2" 0] by auto

text \<open>C21: iterating with \<open>mnlxt_data_iterate\<close>, from NULL and then from each result, visits the messages
  of the list in order and ends with NULL.\<close>

theorem data_iterate_visits:
  assumes "data_inv h d ps" "i \<le> length ps"
  shows "mnlxt_data_iterate (Some d) (if i = 0 then None else Some (ps ! (i - 1))) h e =
    Some (if i < length ps then Some (ps ! i) else None, e)"
proof (cases i)
  case 0
  then show ?thesis using iterate_first [OF assms(1), of e] by (cases ps) auto
next
  case (Suc k)
  with assms(2) have ps: "ps = take k ps @ ps ! k # drop (Suc k) ps"
    using id_take_nth_drop [of k ps] by simp
  from iterate_next [of h d "take k ps" "ps ! k" "drop (Suc k) ps" e] assms(1) ps Suc assms(2)
  show ?thesis by (cases "drop (Suc k) ps") (auto simp: hd_drop_conv_nth [symmetric])
qed

lemma data_iterate_visits_witness:
  "mnlxt_data_iterate (Some demo_data) (Some 1) demo_heap 0 = Some (Some 2, 0)"
  using data_iterate_visits [OF demo_list, of 1 0] by simp

text \<open>C22: messages that are added one after the other and then removed with NULL come out in the order in
  which they were added, and the list is empty afterwards: the data object is a queue.\<close>

theorem data_is_queue:
  assumes "data_inv h d []" "set ns \<subseteq> dom (msgs h)" "distinct ns"
  shows "\<exists>s1 s2. push_all list_push ns (d, h) = Some s1 \<and>
    pop_many list_pop (length ns) s1 = Some (map Some ns, s2) \<and> list_pop s2 = Some (None, s2)"
  using msg_fifo.drain_after_push [of "(d, h)" ns] assms by auto

lemma data_is_queue_witness:
  "\<exists>s1 s2. push_all list_push [2, 1] (data_zero, demo_heap) = Some s1 \<and>
    pop_many list_pop (length [2, 1 :: ptr]) s1 = Some (map Some [2, 1], s2) \<and> list_pop s2 = Some (None, s2)"
  by (rule data_is_queue) (auto simp: data_inv_def data_zero_def demo_heap_def)

text \<open>C23: \<open>mnlxt_data_clean\<close> frees every message of the list, every payload object and every string and
  template array that a payload owns, each exactly once, and nothing else; the data object is zeroed.\<close>

theorem data_clean_frees_all:
  assumes "data_inv h d ps" "payload_owned h (payloads (msgs h) ps)"
  shows "\<exists>h'. mnlxt_data_clean call_free (Some d) h e = Some (Some data_zero, h', e) \<and>
    msgs h' = (msgs h) |` (- set ps) \<and>
    objs h' = (objs h) |` (- snd ` set (payloads (msgs h) ps)) \<and>
    strs h' = (strs h) |` (- all_parts payload_parts (objs h) (snd ` set (payloads (msgs h) ps))) \<and>
    arrs h' = (arrs h) |` (- all_parts payload_parts (objs h) (snd ` set (payloads (msgs h) ps)))"
  using payload_mem.clean_frees [OF assms, of e] by blast

lemma data_clean_frees_all_witness:
  "\<exists>h'. mnlxt_data_clean call_free (Some demo_data) demo_heap 0 = Some (Some data_zero, h', 0) \<and>
    msgs h' = (msgs demo_heap) |` (- set [1, 2])"
  using data_clean_frees_all [OF demo_list demo_owned, of 0] by blast

text \<open>C24: every route that a client builds with the public setters, from a new one, in any order and with any
  arguments, is well formed: the family is IPv4 or IPv6, an address is present only with a family, and the
  destination is never the default route's.\<close>

theorem route_always_well_formed:
  assumes "route_reach r"
  shows "route_inv r"
  using assms by (rule route_reach_inv_holds)

lemma route_always_well_formed_witness:
  "\<exists>r. mnlxt_rt_route_set_dst (Some route_zero) AF_INET (Some demo_ip) 0 = (0, Some r, 0) \<and> route_inv r \<and>
    route_has r MNLXT_RT_ROUTE_DST"
proof -
  obtain r where r: "mnlxt_rt_route_set_dst (Some route_zero) AF_INET (Some demo_ip) 0 = (0, Some r, 0)"
      "route_has r MNLXT_RT_ROUTE_DST"
    by (auto simp: mnlxt_rt_route_set_dst_def mnlxt_rt_route_set_family_def route_zero_def demo_ip_def in_addr_any_def)
  have ip: "inet_ok demo_ip" by (simp add: inet_ok_def demo_ip_def)
  from route_always_well_formed [OF route_reach.call [OF route_reach.new route_api.dst [OF ip r(1)]]] r show ?thesis by blast
qed

text \<open>C25: every rule that a client builds with the public setters, from a new one, in any order, with any arguments and with any
  allocation failing, is well formed: family and addresses fit together, and the two names are separate live strings of at
  most fifteen characters that are present exactly when their property is.\<close>

theorem rule_always_well_formed:
  assumes "rule_reach (r, h)"
  shows "rule_inv r \<and> rule_names_ok h r \<and> heap_ok h"
  using rule_reach_wf [OF assms] by (simp add: rule_wf_def)

lemma rule_always_well_formed_witness: "rule_inv rule_zero \<and> rule_names_ok empty_heap rule_zero \<and> heap_ok empty_heap"
  by (rule rule_always_well_formed [OF rule_reach.new [OF empty_heap_ok(1)]])

text \<open>C26: every address that a client builds with the public setters, from one of \<open>mnlxt_rt_addr_new\<close>, is well formed: an address is present only with a family,
  the family is IPv4 or IPv6, and the label is a live string of at most fifteen characters exactly when it is set.\<close>

theorem addr_always_well_formed:
  assumes "addr_reach (a, h)"
  shows "addr_inv a \<and> addr_label_ok h a \<and> heap_ok h"
  using addr_reach_wf [OF assms] by (simp add: addr_wf_def)

lemma addr_always_well_formed_witness:
  "\<exists>a a'. mnlxt_rt_addr_new True 0 = (Some a, 0) \<and> mnlxt_rt_addr_set_addr (Some a) AF_INET (Some demo_ip) 0 = (0, Some a', 0) \<and>
    addr_inv a' \<and> addr_label_ok empty_heap a' \<and> addr_has a' MNLXT_RT_ADDR_ADDR"
proof -
  obtain a where a: "mnlxt_rt_addr_new True 0 = (Some a, 0)" by (simp add: mnlxt_rt_addr_new_def)
  then obtain a' where a': "mnlxt_rt_addr_set_addr (Some a) AF_INET (Some demo_ip) 0 = (0, Some a', 0)"
      "addr_has a' MNLXT_RT_ADDR_ADDR"
    by (auto simp: mnlxt_rt_addr_new_def mnlxt_rt_addr_set_addr_def mnlxt_rt_addr_set_family_def addr_zero_def)
  have ip: "inet_ok demo_ip" by (simp add: inet_ok_def demo_ip_def)
  from addr_always_well_formed [OF addr_reach.call [OF addr_reach.new [OF a empty_heap_ok(1)] addr_api.addr [OF ip a'(1)]]] a a'
  show ?thesis by blast
qed

text \<open>C27: every link that a client builds with the public setters is well formed: the members of the union that are set
  belong to the recorded kind, a TUN device has its type and its flags recorded exactly when they are not zero, and an XFRM
  device with an underlying link has a parent.\<close>

theorem link_always_well_formed:
  assumes "link_reach l"
  shows "link_inv l"
  using assms by (rule link_reach_inv_holds)

lemma link_always_well_formed_witness: "link_inv link_zero"
  by (rule link_always_well_formed [OF link_reach.new])

text \<open>C28: every policy that a client builds with the public setters is well formed: addresses come with a family,
  the family is IPv4 or IPv6, ports together with a protocol only where the protocol has ports, action and direction are in
  range, and it never has a mark or templates.\<close>

theorem policy_always_well_formed:
  assumes "policy_reach p"
  shows "policy_inv p"
  using assms by (rule policy_reach_inv_holds)

lemma policy_always_well_formed_witness: "policy_inv policy_zero"
  by (rule policy_always_well_formed [OF policy_reach.new])

text \<open>C29: the generic access to a link refines a partial map from properties to values: after any sequence of
  \<open>mnlxt_rt_link_set_ptr\<close> calls, with right and wrong sizes, \<open>mnlxt_rt_link_get_ptr\<close> of a property returns the last value
  that was accepted for it, the value of before if there was none, and 1 if it is not set.\<close>

theorem link_refines_map:
  assumes "set_all mnlxt_rt_link_set_ptr ws (Some l) e = (p, e')" "link_data i = csize c"
  shows "mnlxt_rt_link_get_ptr p i c e'' =
    (case written link_data ws (link_abs l) i of None \<Rightarrow> (1, c, e'') | Some v \<Rightarrow> (0, v, e''))"
  by (rule link_obj.get_after_set_all [OF assms])

lemma link_refines_map_witness:
  "mnlxt_rt_link_get_ptr (fst (set_all mnlxt_rt_link_set_ptr [(MNLXT_RT_LINK_MTU, U32 1500), (MNLXT_RT_LINK_MTU, U8 3)]
      (Some link_zero) 0)) MNLXT_RT_LINK_MTU (U32 0) 0 = (0, U32 1500, 0)"
proof -
  obtain p e' where s: "set_all mnlxt_rt_link_set_ptr [(MNLXT_RT_LINK_MTU, U32 1500), (MNLXT_RT_LINK_MTU, U8 3)]
      (Some link_zero) 0 = (p, e')" by (rule prod.exhaust)
  from link_refines_map [OF s, of MNLXT_RT_LINK_MTU "U32 0" 0] s show ?thesis by (simp add: link_data_def)
qed

text \<open>C30: \<open>mnlxt_rt_route_match\<close>, a loop over the bits of two flag words, decides exactly that the route has every property
  of the pattern with no difference in its value.\<close>

theorem route_match_iff:
  "mnlxt_rt_route_match (Some r) (Some m) e = (0, e) \<longleftrightarrow>
     (\<forall>i < MNLXT_RT_ROUTE_MAX. bit (route_prop_flags m) i \<longrightarrow> bit (route_prop_flags r) i \<and> mnlxt_rt_route_cmp r m i = 0)"
  by (rule route_compare.match_zero_iff) simp_all

lemma route_match_iff_witness:
  "mnlxt_rt_route_match (Some demo_route) (Some route_zero) 0 = (0, 0) \<and>
   mnlxt_rt_route_match (Some route_zero) (Some demo_route) 0 \<noteq> (0, 0)"
  unfolding route_match_iff by (auto simp: demo_route_def route_zero_def intro: exI [of _ 0])


text \<open>C32: \<open>mnlxt_rt_addr_clone\<close> makes a deep copy of an address with a live label: the copy has the family, prefix length,
  flags, scope, interface, addresses and lifetimes of the source, exactly the properties that are set and that the filter
  selects, and a label of its own with the same characters; no string that was there before changes. Where the filter
  selects nothing the copy is a new address. There is no copy only where an allocation fails, and then no string is lost.\<close>

theorem addr_clone_is_deep:
  assumes "addr_label_ok h s" "heap_ok h"
  shows "\<exists>r h' e'. mnlxt_rt_addr_clone mem (Some s) flt h e = Some (r, h', e') \<and> heap_ok h' \<and>
    (case r of
       None \<Rightarrow> strs h' = strs h \<and> e' = ENOMEM \<and> (\<not> mem \<or> (\<exists>p. oom h p))
     | Some d \<Rightarrow> e' = e \<and>
         (if ucast (addr_prop_flags s) AND flt = 0 then mnlxt_rt_addr_new mem e = (Some d, e)
          else d = s\<lparr>addr_label := addr_label d, addr_prop_flags := addr_prop_flags d\<rparr>) \<and>
         addr_label_ok h' d \<and> (\<forall>p. strs h p \<noteq> None \<longrightarrow> strs h' p = strs h p) \<and>
         addr_label_str h' d =
           (if bit flt MNLXT_RT_ADDR_LABEL then addr_label_str h s else None) \<and>
         (addr_label d \<noteq> None \<longrightarrow> addr_label d \<noteq> addr_label s) \<and>
         (\<forall>i. bit (addr_prop_flags d) i \<longleftrightarrow> bit (addr_prop_flags s) i \<and> bit flt i))"
  using addr_clone_deep [OF assms, of mem flt e] by (auto simp: addr_deep_copy_def)

lemma addr_clone_is_deep_witness:
  "\<exists>d h'. mnlxt_rt_addr_clone True (Some demo_ifaddr) 0xFF named_heap 0 = Some (Some d, h', 0) \<and>
    addr_addr d = demo_ip \<and> addr_prefixlen d = 24 \<and> addr_label_str h' d = Some ''wlan0''"
proof -
  have oom: "\<not> oom named_heap p" for p by (simp add: named_heap_def empty_heap_def)
  have "bit (ucast (addr_prop_flags demo_ifaddr) AND (0xFF :: u64)) MNLXT_RT_ADDR_FAMILY"
    by (simp add: bit_and_iff bit_ucast_iff demo_ifaddr_def)
  then have nz: "ucast (addr_prop_flags demo_ifaddr) AND (0xFF :: u64) \<noteq> 0" by auto
  have s: "addr_addr demo_ifaddr = demo_ip"
      "addr_prefixlen demo_ifaddr = 24" "addr_label_str named_heap demo_ifaddr = Some ''wlan0''"
      "bit (0xFF :: u64) MNLXT_RT_ADDR_LABEL"
    by (simp_all add: demo_ifaddr_def addr_label_str_def named_heap_def)
  obtain r h' e' where r: "mnlxt_rt_addr_clone True (Some demo_ifaddr) 0xFF named_heap 0 = Some (r, h', e')"
    and c: "case r of None \<Rightarrow> False
      | Some d \<Rightarrow> e' = 0 \<and> d = demo_ifaddr\<lparr>addr_label := addr_label d, addr_prop_flags := addr_prop_flags d\<rparr> \<and>
          addr_label_str h' d = addr_label_str named_heap demo_ifaddr"
    using addr_clone_is_deep [OF demo_ifaddr_ok(3) named_heap_ok(1), of True "0xFF" 0] s(4) nz oom by (auto split: option.splits)
  then obtain d where d: "r = Some d" "e' = 0" "addr_label_str h' d = Some ''wlan0''"
      "d = demo_ifaddr\<lparr>addr_label := addr_label d, addr_prop_flags := addr_prop_flags d\<rparr>"
    using s(3) by (cases r) auto
  have "addr_addr d = demo_ip" "addr_prefixlen d = 24" by (subst d(4), simp add: s)+
  with r d(1-3) show ?thesis by blast
qed

text \<open>C33: \<open>mnlxt_rt_rule_clone\<close> is not a deep copy: a clone (with a filter that is not 0) of a rule
  with the name of an incoming or outgoing interface shares the name, and freeing the clone after the
  original releases the name a second time, which is undefined behaviour.\<close>

theorem rule_clone_freed_twice:
  assumes "mnlxt_rt_rule_clone mem (Some s) flt e = (Some d, e')" "flt \<noteq> 0"
    and "rule_iif_name s \<noteq> None \<or> rule_oif_name s \<noteq> None" "rule_free_names s h = Some h'"
  shows "rule_free_names d h' = None"
  by (rule rule_clone_double_free [OF assms])

lemma rule_clone_freed_twice_witness:
  "\<exists>d h'. mnlxt_rt_rule_clone True (Some demo_rule) 1 0 = (Some d, 0) \<and>
    rule_free_names demo_rule named_heap = Some h' \<and> rule_free_names d h' = None"
proof -
  obtain d where d: "mnlxt_rt_rule_clone True (Some demo_rule) 1 0 = (Some d, 0)"
    by (simp add: mnlxt_rt_rule_clone_def mnlxt_rt_rule_new_def)
  obtain h' where h': "rule_free_names demo_rule named_heap = Some h'"
    by (simp add: rule_free_names_def free_str_opt_def free_str_def demo_rule_def rule_zero_def named_heap_def)
  have "rule_iif_name demo_rule \<noteq> None \<or> rule_oif_name demo_rule \<noteq> None" by (simp add: demo_rule_def)
  from rule_clone_freed_twice [OF d _ this h'] d h' show ?thesis by simp
qed

text \<open>C34: a policy message with a mark is never parsed: the setter that the parser calls checks for the wrong size and always
  fails, so the message is refused and nothing is appended. The message is one of
  either format of policies, and libmnl accepts the attribute's type as in range; as for every message of C13, the addresses of its selector have sixteen bytes and it has at
  most one attribute with templates, since with a second one the parser may leak an array.\<close>

theorem policy_mark_never_parsed:
  assumes "heap_ok h" "data_inv h d ps" "policy_hdr_ok MI MD n" "one_tmpl MI MD n"
    and "policy_msg_carries MI MD n XFRMA_MARK (\<lambda>_. True)"
  shows "parsed h d ps (nlmsg_type n) (\<lambda>_. True) False (\<lambda>_ _. False)
    (mnlxt_xfrm_policy_data MI MD (Some n) (Some d) h e)"
  by (rule policy_mark_refused_parsed [OF assms])

lemma policy_mark_never_parsed_witness:
  "parsed empty_heap data_zero [] XFRM_MSG_NEWPOLICY (\<lambda>_. True) False (\<lambda>_ _. False)
      (mnlxt_xfrm_policy_data (mnl_xpinfo demo_lib) (mnl_xpid demo_lib)
        (Some (demo_nlh XFRM_MSG_NEWPOLICY (hdrs_zero, [(XFRMA_MARK, [1, 0, 0, 0, 255, 0, 0, 0])]))) (Some data_zero) empty_heap 0) \<and>
   parsed empty_heap data_zero [] XFRM_MSG_DELPOLICY (\<lambda>_. True) False (\<lambda>_ _. False)
      (mnlxt_xfrm_policy_data (mnl_xpinfo demo_lib) (mnl_xpid demo_lib)
        (Some (demo_nlh XFRM_MSG_DELPOLICY (hdrs_zero, [(XFRMA_MARK, [1, 0, 0, 0, 255, 0, 0, 0])]))) (Some data_zero) empty_heap 0)"
proof -
  have w: "parsed empty_heap data_zero [] type (\<lambda>_. True) False (\<lambda>_ _. False)
      (mnlxt_xfrm_policy_data (mnl_xpinfo demo_lib) (mnl_xpid demo_lib)
        (Some (demo_nlh type (hdrs_zero, [(XFRMA_MARK, [1, 0, 0, 0, 255, 0, 0, 0])]))) (Some data_zero) empty_heap 0)"
    if "type \<in> {XFRM_MSG_NEWPOLICY, XFRM_MSG_DELPOLICY}" for type
  proof -
    let ?n = "demo_nlh type (hdrs_zero, [(XFRMA_MARK, [1, 0, 0, 0, 255, 0, 0, 0])])"
    have "policy_hdr_ok (mnl_xpinfo demo_lib) (mnl_xpid demo_lib) ?n"
      "one_tmpl (mnl_xpinfo demo_lib) (mnl_xpid demo_lib) ?n"
      "policy_msg_carries (mnl_xpinfo demo_lib) (mnl_xpid demo_lib) ?n XFRMA_MARK (\<lambda>_. True)"
      by (simp_all add: policy_hdr_ok_def one_tmpl_def policy_msg_carries_def carries_attr_def whole_tmpls_def demo_lib_def
        tlv_in_def hdrs_zero_def userpolicy_info_zero_def userpolicy_id_zero_def selector_zero_def inet_ok_def inet_zero_def)
    from policy_mark_never_parsed [OF empty_heap_ok this, of 0]
    show ?thesis by simp
  qed
  show ?thesis by (intro conjI w) simp_all
qed

text \<open>C35: a policy message with well formed templates, an attribute whose payload is a whole number of them, is never
  parsed: the check takes the length with the attribute's header, which is then no multiple of a template's size. The message is one of
  either format of policies, and libmnl accepts the attribute's type as in range; as for every message of C13, the addresses of its selector have sixteen bytes and it has at
  most one attribute with templates, since with a second one the parser may leak an array.\<close>

theorem policy_tmpls_never_parsed:
  assumes "heap_ok h" "data_inv h d ps" "policy_hdr_ok MI MD n" "one_tmpl MI MD n"
    and "policy_msg_carries MI MD n XFRMA_TMPL whole_tmpls"
  shows "parsed h d ps (nlmsg_type n) (\<lambda>_. True) False (\<lambda>_ _. False)
    (mnlxt_xfrm_policy_data MI MD (Some n) (Some d) h e)"
  by (rule policy_tmpls_refused_parsed [OF assms])

lemma policy_tmpls_never_parsed_witness:
  "parsed empty_heap data_zero [] XFRM_MSG_NEWPOLICY (\<lambda>_. True) False (\<lambda>_ _. False)
      (mnlxt_xfrm_policy_data (mnl_xpinfo demo_lib) (mnl_xpid demo_lib)
        (Some (demo_nlh XFRM_MSG_NEWPOLICY (hdrs_zero, [(XFRMA_TMPL, replicate 64 0)]))) (Some data_zero) empty_heap 0) \<and>
   parsed empty_heap data_zero [] XFRM_MSG_DELPOLICY (\<lambda>_. True) False (\<lambda>_ _. False)
      (mnlxt_xfrm_policy_data (mnl_xpinfo demo_lib) (mnl_xpid demo_lib)
        (Some (demo_nlh XFRM_MSG_DELPOLICY (hdrs_zero, [(XFRMA_TMPL, replicate 64 0)]))) (Some data_zero) empty_heap 0)"
proof -
  have w: "parsed empty_heap data_zero [] type (\<lambda>_. True) False (\<lambda>_ _. False)
      (mnlxt_xfrm_policy_data (mnl_xpinfo demo_lib) (mnl_xpid demo_lib)
        (Some (demo_nlh type (hdrs_zero, [(XFRMA_TMPL, replicate 64 0)]))) (Some data_zero) empty_heap 0)"
    if "type \<in> {XFRM_MSG_NEWPOLICY, XFRM_MSG_DELPOLICY}" for type
  proof -
    let ?n = "demo_nlh type (hdrs_zero, [(XFRMA_TMPL, replicate 64 0)])"
    have "policy_hdr_ok (mnl_xpinfo demo_lib) (mnl_xpid demo_lib) ?n"
      "one_tmpl (mnl_xpinfo demo_lib) (mnl_xpid demo_lib) ?n"
      "policy_msg_carries (mnl_xpinfo demo_lib) (mnl_xpid demo_lib) ?n XFRMA_TMPL whole_tmpls"
      by (simp_all add: policy_hdr_ok_def one_tmpl_def policy_msg_carries_def carries_attr_def whole_tmpls_def demo_lib_def
        tlv_in_def hdrs_zero_def userpolicy_info_zero_def userpolicy_id_zero_def selector_zero_def inet_ok_def inet_zero_def)
    from policy_tmpls_never_parsed [OF empty_heap_ok this, of 0]
    show ?thesis by simp
  qed
  show ?thesis by (intro conjI w) simp_all
qed

text \<open>C36: an IPv4 address with an address and a local address, as a point-to-point link has them, comes back from a message with
  the two exchanged.\<close>

theorem addr_peer_comes_back_swapped:
  assumes "libmnl_laws M mk b0 ifaddrmsg_zero"
    and "addr_inv r" "addr_has r MNLXT_RT_ADDR_FAMILY" "addr_label_ok h r"
    and "\<And>s. addr_label_str h r = Some s \<Longrightarrow> padded_str s"
    and "addr_family r = AF_INET" "addr_has r MNLXT_RT_ADDR_ADDR" "addr_has r MNLXT_RT_ADDR_LOCAL"
    and "heap_ok h" "data_inv h d ps" "nlmsg_body n = b0"
    and "mnlxt_rt_addr_put ext M h (Some n) (Some r) e = Some (rc, Some n', e')"
  shows "parsed h d ps (nlmsg_type n) (parse_failure h addr_types (nlmsg_type n)) False
    (\<lambda>h' x. \<exists>r'. x = PAddr r' \<and> addr_has r' MNLXT_RT_ADDR_ADDR \<and> addr_has r' MNLXT_RT_ADDR_LOCAL \<and>
       inet_memcmp 4 (addr_addr r') (addr_local r) \<and> inet_memcmp 4 (addr_local r') (addr_addr r))
    (mnlxt_rt_addr_data ext M (Some n') (Some d) h e)"
  using addr_peer_swapped_parsed [OF assms(1-4) _ assms(6-12)] assms(5) by blast

lemma addr_peer_comes_back_swapped_witness:
  "\<exists>rc n' e'. mnlxt_rt_addr_put False (tlv_mnl ifaddrmsg_zero) named_heap
      (Some (demo_nlh RTM_NEWADDR (ifaddrmsg_zero, []))) (Some demo_peer) 0 = Some (rc, Some n', e') \<and>
    parsed named_heap data_zero [] RTM_NEWADDR (parse_failure named_heap addr_types RTM_NEWADDR) False
      (\<lambda>h' x. \<exists>r'. x = PAddr r' \<and> addr_has r' MNLXT_RT_ADDR_ADDR \<and> addr_has r' MNLXT_RT_ADDR_LOCAL \<and>
         inet_memcmp 4 (addr_addr r') (addr_local demo_peer) \<and> inet_memcmp 4 (addr_local r') (addr_addr demo_peer))
      (mnlxt_rt_addr_data False (tlv_mnl ifaddrmsg_zero) (Some n') (Some data_zero) named_heap 0)"
proof -
  let ?M = "tlv_mnl ifaddrmsg_zero" and ?n = "demo_nlh RTM_NEWADDR (ifaddrmsg_zero, [])"
  obtain rc n' e' where
    p: "mnlxt_rt_addr_put False ?M named_heap (Some ?n) (Some demo_peer) 0 = Some (rc, Some n', e')"
    using addr_put_defined [OF demo_peer_ok(3), of False ?M ?n 0] by (auto simp: mnlxt_rt_addr_put_def)
  from addr_peer_comes_back_swapped [OF tlv_mnl_laws demo_peer_ok named_heap_ok _ p] p show ?thesis by auto
qed

text \<open>C37: a message with the operational state of a link, of any kind and with any other properties, as \<open>mnlxt_rt_link_put\<close>
  writes it with 32 bits, is refused by \<open>mnlxt_rt_link_data\<close>, which expects 8: nothing is appended. It is assumed that
  the build knows the attribute for the state and that libmnl refuses four bytes as a number of eight bits and writes
  numbers of sixteen bits as two bytes.\<close>

theorem link_state_never_parsed:
  assumes "nest_laws M mk nest" "libmnl_laws M mk b0 ifinfomsg_zero"
    and "\<forall>t x b. attr_put_u16 M t x b = attr_put M t [ucast x, ucast (drop_bit 8 x)] b"
    and "\<And>t x e. fst (attr_validate M (mk t (le32 x)) MNL_TYPE_U8 e) < 0" "IFLA_OPERSTATE \<le> ifla_max B"
    and "link_has l MNLXT_RT_LINK_STATE"
    and "heap_ok h" "data_inv h d ps" "nlmsg_body n = b0"
    and "mnlxt_rt_link_put B M (Some n) (Some l) e = (rc, Some n', e')"
  shows "parsed h d ps (nlmsg_type n) (\<lambda>_. True) False (\<lambda>_ _. False) (mnlxt_rt_link_data B M (Some n') (Some d) h e)"
  by (rule link_state_refused_parsed [OF assms])

lemma link_state_never_parsed_witness:
  "\<exists>rc n' e'. mnlxt_rt_link_put demo_build (tree_mnl ifinfomsg_zero) (Some (demo_nlh RTM_NEWLINK (ifinfomsg_zero, [])))
      (Some demo_up_link) 0 = (rc, Some n', e') \<and>
    parsed empty_heap data_zero [] RTM_NEWLINK (\<lambda>_. True) False (\<lambda>_ _. False)
      (mnlxt_rt_link_data demo_build (tree_mnl ifinfomsg_zero) (Some n') (Some data_zero) empty_heap 0)"
proof -
  let ?M = "tree_mnl ifinfomsg_zero" and ?n = "demo_nlh RTM_NEWLINK (ifinfomsg_zero, [])"
  obtain rc n' e' where p: "mnlxt_rt_link_put demo_build ?M (Some ?n) (Some demo_up_link) 0 = (rc, Some n', e')"
    by (simp add: mnlxt_rt_link_put_def)
  have u8: "fst (attr_validate ?M (Tlv t (le32 x) []) MNL_TYPE_U8 e) < 0" for t x e by (simp add: tree_mnl_def)
  have u16: "\<forall>t x b. attr_put_u16 ?M t x b = attr_put ?M t [ucast x, ucast (drop_bit 8 x)] b" by (simp add: tree_mnl_def)
  have "IFLA_OPERSTATE \<le> ifla_max demo_build" "link_has demo_up_link MNLXT_RT_LINK_STATE"
    by (simp_all add: demo_build_def demo_up_link_def)
  from link_state_never_parsed [OF tree_nest_laws tree_libmnl_laws u16 u8 this empty_heap_ok _ p] p
  show ?thesis by auto
qed

text \<open>C38: the lookup of a message type in the handler tables reads behind the table for exactly one type, the number of
  entries. For all others it stays inside: for a type of a module it returns the handler with the callbacks of that module
  for parsing, writing and freeing and the flags of a new message of the type, and for any other type NULL and
  \<open>EBADMSG\<close>.\<close>

theorem type_handler_bounds:
  "(mnlxt_rt_type_handler type e = None \<longleftrightarrow> unat type = length rt_data_handlers) \<and>
   (mnlxt_xfrm_type_handler type e = None \<longleftrightarrow> unat type = length xfrm_data_handlers) \<and>
   looked_up (length rt_data_handlers) (rt_module type) (rt_new_flags type) type e (mnlxt_rt_type_handler type e) \<and>
   looked_up (length xfrm_data_handlers) (xfrm_module type) (xfrm_new_flags type) type e (mnlxt_xfrm_type_handler type e)"
  using rt_looked_up xfrm_looked_up by (simp add: rt_type_handler_undefined xfrm_type_handler_undefined)

text \<open>C39: the error text for an unknown link kind overflows its buffer exactly for names of 482 and more characters: the bound
  that the code gives to \<open>strncat\<close> is the size of the whole buffer.\<close>

theorem unknown_kind_bound: "unknown_kind_text s = None \<longleftrightarrow> 482 \<le> length s"
  using unknown_kind_fits [of s] unknown_kind_overflow [of s] by (cases "length s < 482") auto

text \<open>C40: creating a TUN or TAP device for a link leaves no file descriptor open, on every path: failed ioctls, a missing name
  and success.\<close>

theorem tun_create_closes:
  assumes "fds_laws sys fds" "mnlxt_rt_link_tun_create sys junk rt_link w e = (rc, ob, w', e')"
  shows "fds w' = fds w"
  by (rule link_tun_create_fds [OF assms])

lemma tun_create_closes_witness:
  "\<exists>rc ob e'. mnlxt_rt_link_tun_create demo_tun 0 (Some demo_tun_link) ({}, 3) 0 = (rc, ob, ({}, 4), e')"
proof -
  obtain rc ob w' e' where r: "mnlxt_rt_link_tun_create demo_tun 0 (Some demo_tun_link) ({}, 3) 0 = (rc, ob, w', e')"
    by (metis prod_cases4)
  have "snd (fst (snd (snd (mnlxt_rt_link_tun_create demo_tun 0 (Some demo_tun_link) ({}, 3) 0)))) = 4"
    by (rule demo_tun_opens)
  with tun_create_closes [OF demo_tun_laws r] r show ?thesis by (cases w') simp
qed

end
